(* ===== verification/Prelude.thy ===== *)
theory Prelude
  imports Complex_Main "HOL-Library.Multiset"
begin

text \<open>
  What every component of the model shares: Python exceptions as values, outcomes that keep the
  state reached before a raise, Python loops over lists, and floating point numbers.

  \<^item> \<open>('a, 's) outcome\<close> is what a statement leaves behind: an exception or a value, and the
    state at that point (in Python the effects made before a raise stay).
  \<^item> Floats are real numbers, and every float operation of the source is the exact operation
    followed by a rounding function \<open>rnd\<close>, a parameter. \<open>float_rounding\<close> states what IEEE 754
    documents of it: monotone, idempotent, exact on dyadic numbers that fit the significand.
    Overflow to infinity and NaN are not modelled here.
\<close>

named_theorems outcome_simps \<open>unfolding rules for outcomes\<close>
named_theorems contract_dests \<open>consequences of the contracts of library objects\<close>

datatype pyexc =
    KeyError | IndexError | ValueError | TypeError | AttributeError | NameError
  | AssertionError | ZeroDivisionError | NotImplementedErr | RuntimeErr | EnvironmentErr
  | NotInitError | NotFoundError string string | ParamError | CacheError | LibraryError

type_synonym 'a result = "pyexc + 'a"
type_synonym ('a, 's) outcome = "'a result \<times> 's"

fun bind_res :: "'a result \<Rightarrow> ('a \<Rightarrow> 'b result) \<Rightarrow> 'b result" where
  "bind_res (Inl e) f = Inl e"
| "bind_res (Inr a) f = f a"

fun bind_out :: "('a, 's) outcome \<Rightarrow> ('a \<Rightarrow> 's \<Rightarrow> ('b, 's) outcome) \<Rightarrow> ('b, 's) outcome" where
  "bind_out (Inl e, s) f = (Inl e, s)"
| "bind_out (Inr a, s) f = f a s"

text \<open>\<open>try: ... except\<close> for the exceptions of \<open>P\<close>; the handler runs in the state of the raise.\<close>

fun try_except ::
  "(pyexc \<Rightarrow> bool) \<Rightarrow> ('a, 's) outcome \<Rightarrow> ('s \<Rightarrow> ('a, 's) outcome) \<Rightarrow> ('a, 's) outcome" where
  "try_except P (Inl e, s) h = (if P e then h s else (Inl e, s))"
| "try_except P (Inr a, s) h = (Inr a, s)"

text \<open>A \<open>for\<close> loop over a list whose body may raise: the loop stops there.\<close>

fun for_each :: "('x \<Rightarrow> 's \<Rightarrow> (unit, 's) outcome) \<Rightarrow> 'x list \<Rightarrow> 's \<Rightarrow> (unit, 's) outcome" where
  "for_each f [] s = (Inr (), s)"
| "for_each f (x # xs) s = bind_out (f x s) (\<lambda>_. for_each f xs)"

text \<open>A list comprehension with effects: the values are collected in order.\<close>

fun map_out :: "('x \<Rightarrow> 's \<Rightarrow> ('y, 's) outcome) \<Rightarrow> 'x list \<Rightarrow> 's \<Rightarrow> ('y list, 's) outcome" where
  "map_out f [] s = (Inr [], s)"
| "map_out f (x # xs) s =
     bind_out (f x s) (\<lambda>y s'. bind_out (map_out f xs s') (\<lambda>ys s''. (Inr (y # ys), s'')))"

lemma bind_out_Inr_iff [outcome_simps]:
  "bind_out m f = (Inr b, s') \<longleftrightarrow> (\<exists>a s. m = (Inr a, s) \<and> f a s = (Inr b, s'))"
  by (cases "(m, f)" rule: bind_out.cases) auto

lemma bind_res_Inr_iff [outcome_simps]: "bind_res m f = Inr b \<longleftrightarrow> (\<exists>a. m = Inr a \<and> f a = Inr b)"
  by (cases m) auto

lemma map_sum_Inr_iff [outcome_simps]: "map_sum f g x = Inr y \<longleftrightarrow> (\<exists>a. x = Inr a \<and> y = g a)"
  by (cases x) auto

lemma bind_out_assoc: "bind_out (bind_out m f) g = bind_out m (\<lambda>a s. bind_out (f a s) g)"
  by (cases "(m, f)" rule: bind_out.cases) auto

lemma for_each_append:
  "for_each f (xs @ ys) s = bind_out (for_each f xs s) (\<lambda>_. for_each f ys)"
proof (induction xs arbitrary: s)
  case (Cons x xs)
  then have "for_each f (xs @ ys) = (\<lambda>s. bind_out (for_each f xs s) (\<lambda>_. for_each f ys))"
    by (intro ext)
  then show ?case by (simp add: bind_out_assoc)
qed simp

lemma map_out_length: "map_out f xs s = (Inr ys, s') \<Longrightarrow> length ys = length xs"
  by (induction xs arbitrary: s ys) (auto simp: bind_out_Inr_iff)

text \<open>A rule for loops that keep an invariant and never raise under it.\<close>

lemma for_each_invariant:
  assumes "I s" and "\<And>x s. x \<in> set xs \<Longrightarrow> I s \<Longrightarrow> \<exists>s'. f x s = (Inr (), s') \<and> I s'"
  shows "\<exists>s'. for_each f xs s = (Inr (), s') \<and> I s'"
  using assms
proof (induction xs arbitrary: s)
  case (Cons x xs)
  then obtain s1 where "f x s = (Inr (), s1)" "I s1" by (metis list.set_intros(1))
  with Cons show ?case by simp
qed simp

text \<open>A preorder on states that every step of a computation respects, the computation respects.\<close>

definition state_preorder :: "('s \<Rightarrow> 's \<Rightarrow> bool) \<Rightarrow> bool" where
  "state_preorder R \<longleftrightarrow> (\<forall>s. R s s) \<and> (\<forall>a b c. R a b \<longrightarrow> R b c \<longrightarrow> R a c)"

lemma bind_out_rel:
  assumes "state_preorder R" and "R s (snd m)" and "\<And>a s'. R s' (snd (f a s'))"
  shows "R s (snd (bind_out m f))"
proof (cases "(m, f)" rule: bind_out.cases)
  case (1 e s1 f')
  with assms(2) show ?thesis by simp
next
  case (2 a s1 f')
  then have "R s s1" "R s1 (snd (f a s1))" using assms(2,3) by auto
  with assms(1) have "R s (snd (f a s1))" unfolding state_preorder_def by blast
  with 2 show ?thesis by simp
qed

lemma map_out_rel:
  assumes R: "state_preorder R" and step: "\<And>x s. R s (snd (f x s))"
  shows "R s (snd (map_out f xs s))"
proof (induction xs arbitrary: s)
  case Nil
  then show ?case using R by (simp add: state_preorder_def)
next
  case (Cons x xs)
  have refl: "R s s" for s using R by (simp add: state_preorder_def)
  show ?case unfolding map_out.simps
    by (intro bind_out_rel[where R = R, OF R]) (simp_all add: step Cons refl)
qed

lemma for_each_rel:
  assumes R: "state_preorder R" and step: "\<And>x s. R s (snd (f x s))"
  shows "R s (snd (for_each f xs s))"
proof (induction xs arbitrary: s)
  case Nil
  then show ?case using R by (simp add: state_preorder_def)
next
  case (Cons x xs)
  show ?case unfolding for_each.simps
    by (rule bind_out_rel[where R = R, OF R]) (simp_all add: step Cons)
qed

lemma map_out_results:
  assumes "map_out f xs s = (Inr ys, s')" and "\<And>x s y s'. x \<in> set xs \<Longrightarrow> f x s = (Inr y, s') \<Longrightarrow> P x y"
  shows "list_all2 P xs ys"
  using assms
proof (induction xs arbitrary: s ys)
  case (Cons x xs)
  from Cons.prems(1) obtain y s1 ys' where "f x s = (Inr y, s1)" "map_out f xs s1 = (Inr ys', s')" "ys = y # ys'"
    by (auto simp: bind_out_Inr_iff)
  with Cons show ?case by auto
qed simp

text \<open>Python indexing from the end, and \<open>list.get\<close> style access.\<close>

definition py_last :: "'a list \<Rightarrow> 'a result" where
  "py_last xs = (case rev xs of [] \<Rightarrow> Inl IndexError | x # _ \<Rightarrow> Inr x)"

definition py_nth :: "'a list \<Rightarrow> nat \<Rightarrow> 'a result" where
  "py_nth xs i = (if i < length xs then Inr (xs ! i) else Inl IndexError)"

lemma py_last_snoc [simp]: "py_last (xs @ [x]) = Inr x"
  by (simp add: py_last_def)

lemma py_last_Nil [simp]: "py_last [] = Inl IndexError"
  by (simp add: py_last_def)

lemma py_last_conv: "xs \<noteq> [] \<Longrightarrow> py_last xs = Inr (last xs)"
  by (cases xs rule: rev_cases) auto

section \<open>Strings\<close>

text \<open>
  Python strings are lists of characters (ASCII). \<open>py_in s t\<close> is \<open>s in t\<close>, the substring test;
  \<open>py_upper\<close> and \<open>py_lower\<close> change letters only.
\<close>

fun is_prefix :: "string \<Rightarrow> string \<Rightarrow> bool" where
  "is_prefix [] t = True"
| "is_prefix (c # s) [] = False"
| "is_prefix (c # s) (d # t) = (c = d \<and> is_prefix s t)"

fun py_in :: "string \<Rightarrow> string \<Rightarrow> bool" where
  "py_in s [] = (s = [])"
| "py_in s (d # t) = (is_prefix s (d # t) \<or> py_in s t)"

definition char_upper :: "char \<Rightarrow> char" where
  "char_upper c = (let n = (of_char c :: nat) in if 97 \<le> n \<and> n \<le> 122 then char_of (n - 32) else c)"

definition char_lower :: "char \<Rightarrow> char" where
  "char_lower c = (let n = (of_char c :: nat) in if 65 \<le> n \<and> n \<le> 90 then char_of (n + 32) else c)"

definition py_upper :: "string \<Rightarrow> string" where
  "py_upper s = map char_upper s"

definition py_lower :: "string \<Rightarrow> string" where
  "py_lower s = map char_lower s"

lemma is_prefix_iff: "is_prefix s t \<longleftrightarrow> (\<exists>u. t = s @ u)"
  by (induction s t rule: is_prefix.induct) auto

lemma py_in_iff: "py_in s t \<longleftrightarrow> (\<exists>u v. t = u @ s @ v)"
proof (induction t)
  case (Cons d t)
  have "(\<exists>u v. d # t = u @ s @ v) \<longleftrightarrow> (\<exists>v. d # t = s @ v) \<or> (\<exists>u v. t = u @ s @ v)"
    by (auto simp: Cons_eq_append_conv)
  with Cons show ?case by (auto simp: is_prefix_iff)
qed auto

lemma py_lower_length [simp]: "length (py_lower s) = length s"
  by (simp add: py_lower_def)

section \<open>Floats\<close>

text \<open>Python's \<open>int(x)\<close> on a float truncates towards zero.\<close>

definition py_int :: "real \<Rightarrow> int" where
  "py_int x = (if x < 0 then \<lceil>x\<rceil> else \<lfloor>x\<rfloor>)"

definition float_rounding :: "(real \<Rightarrow> real) \<Rightarrow> bool" where
  "float_rounding rnd \<longleftrightarrow> mono rnd \<and> (\<forall>x. rnd (rnd x) = rnd x) \<and>
     (\<forall>(m::int) (k::nat). \<bar>m\<bar> \<le> 2 ^ 53 \<and> k \<le> 1022 \<longrightarrow> rnd (of_int m / 2 ^ k) = of_int m / 2 ^ k)"

lemma float_rounding_id: "float_rounding (\<lambda>x. x)"
  by (simp add: float_rounding_def mono_def)

lemma rnd_mono: "float_rounding rnd \<Longrightarrow> x \<le> y \<Longrightarrow> rnd x \<le> rnd y"
  by (auto simp: float_rounding_def dest: monoD)

lemma rnd_idem: "float_rounding rnd \<Longrightarrow> rnd (rnd x) = rnd x"
  by (simp add: float_rounding_def)

lemma rnd_dyadic:
  "float_rounding rnd \<Longrightarrow> \<bar>m\<bar> \<le> 2 ^ 53 \<Longrightarrow> k \<le> 1022 \<Longrightarrow> rnd (of_int m / 2 ^ k) = of_int m / 2 ^ k"
  by (simp add: float_rounding_def)

lemma rnd_int: "float_rounding rnd \<Longrightarrow> \<bar>m\<bar> \<le> 2 ^ 53 \<Longrightarrow> rnd (of_int m) = of_int m"
  using rnd_dyadic[of rnd m 0] by simp

lemma rnd_0 [simp]: "float_rounding rnd \<Longrightarrow> rnd 0 = 0"
  using rnd_int[of rnd 0] by simp

lemma rnd_1 [simp]: "float_rounding rnd \<Longrightarrow> rnd 1 = 1"
  using rnd_int[of rnd 1] by simp

lemma rnd_nonneg: "float_rounding rnd \<Longrightarrow> 0 \<le> x \<Longrightarrow> 0 \<le> rnd x"
  using rnd_mono[of rnd 0 x] by simp

lemma rnd_add_ge:
  assumes "float_rounding rnd" "rnd a = a" "0 \<le> b"
  shows "a \<le> rnd (a + b)"
  using rnd_mono[of rnd a "a + b"] assms by simp

end
