(* ===== verification/Cache_Lib.thy ===== *)
theory Cache_Lib
  imports Prelude
begin

text \<open>
  The library \<open>cachetools\<close> is not part of the repository. This theory holds what the code
  relies on, as parameters and contracts, and nothing of its implementation:
  \<^item> \<open>cache_super\<close>: the methods of \<open>cachetools.Cache\<close> that a subclass calls on \<open>self\<close>'s base
    part, as a record of functions; \<open>super_contract\<close> says the base part is a mutable mapping;
  \<^item> \<open>setitem_run\<close>: the documented course of \<open>Cache.__setitem__\<close>: a value larger than the cache
    raises \<open>ValueError\<close>; while there is no room, \<open>self.popitem()\<close> is called (the object's own
    \<open>popitem\<close>, also when a subclass or an instance replaces it); then the item is stored. A call
    that has no finite run does not return, which is the value \<open>None\<close> of \<open>setitem_contract\<close>;
  \<^item> \<open>cache_methods\<close>: the methods that the eviction layer calls on any cache object;
  \<^item> the locale \<open>cache_policy\<close>: what the eviction layer needs of an eviction policy.
\<close>

section \<open>Values stored in an eviction cache\<close>

text \<open>
  \<open>memory_cache.py\<close> stores \<open>True\<close> or a float cost; the type distinguishes what
  \<open>GDSFCache._cost_of\<close> tests with \<open>isinstance\<close>.
\<close>

datatype pyval = VBool bool | VInt int | VFloat real | VOther

section \<open>The base class cachetools.Cache\<close>

record ('k, 'b) cache_super =
  c_get :: "'b \<Rightarrow> 'k \<Rightarrow> pyval option"
  c_del :: "'b \<Rightarrow> 'k \<Rightarrow> 'b option"
  c_sizeof :: "'b \<Rightarrow> pyval \<Rightarrow> nat"
  c_room :: "'b \<Rightarrow> 'k \<Rightarrow> pyval \<Rightarrow> bool"
  c_too_large :: "'b \<Rightarrow> pyval \<Rightarrow> bool"
  c_store :: "'b \<Rightarrow> 'k \<Rightarrow> pyval \<Rightarrow> 'b"

definition super_contract :: "('k, 'b) cache_super \<Rightarrow> bool" where
  "super_contract cls \<longleftrightarrow>
     (\<forall>b k. c_get cls b k = None \<longrightarrow> c_del cls b k = None) \<and>
     (\<forall>b k v. c_get cls b k = Some v \<longrightarrow>
        (\<exists>b'. c_del cls b k = Some b' \<and> c_get cls b' = (c_get cls b)(k := None))) \<and>
     (\<forall>b k v. c_get cls (c_store cls b k v) = (c_get cls b)(k \<mapsto> v)) \<and>
     (\<forall>b. finite (dom (c_get cls b)))"

text \<open>
  With the default \<open>getsizeof\<close> (every item has size 1) there is room for an item exactly when
  its key is cached already or fewer than \<open>maxsize\<close> keys are; no operation changes \<open>maxsize\<close>.
\<close>

definition unit_sized :: "('k, 'b) cache_super \<Rightarrow> ('b \<Rightarrow> nat) \<Rightarrow> bool" where
  "unit_sized cls maxsize \<longleftrightarrow>
     (\<forall>b v. c_sizeof cls b v = 1) \<and>
     (\<forall>b k v. c_room cls b k v \<longleftrightarrow> c_get cls b k \<noteq> None \<or> card (dom (c_get cls b)) < maxsize b) \<and>
     (\<forall>b v. c_too_large cls b v \<longleftrightarrow> maxsize b < 1) \<and>
     (\<forall>b k v. maxsize (c_store cls b k v) = maxsize b) \<and>
     (\<forall>b k b'. c_del cls b k = Some b' \<longrightarrow> maxsize b' = maxsize b)"

lemma super_get_del:
  "super_contract cls \<Longrightarrow> c_get cls b k = Some v \<Longrightarrow>
     \<exists>b'. c_del cls b k = Some b' \<and> c_get cls b' = (c_get cls b)(k := None)"
  unfolding super_contract_def by blast

lemma super_del_None: "super_contract cls \<Longrightarrow> c_get cls b k = None \<Longrightarrow> c_del cls b k = None"
  unfolding super_contract_def by blast

lemma super_store: "super_contract cls \<Longrightarrow> c_get cls (c_store cls b k v) = (c_get cls b)(k \<mapsto> v)"
  unfolding super_contract_def by blast

lemma super_finite: "super_contract cls \<Longrightarrow> finite (dom (c_get cls b))"
  unfolding super_contract_def by blast

section \<open>The course of Cache.__setitem__\<close>

inductive setitem_run ::
  "('s \<Rightarrow> bool) \<Rightarrow> ('s \<Rightarrow> bool) \<Rightarrow> ('s \<Rightarrow> 's) \<Rightarrow> ('s \<Rightarrow> (unit, 's) outcome) \<Rightarrow> 's \<Rightarrow> (unit, 's) outcome \<Rightarrow> bool"
  for too_large room store popitem where
  run_large: "too_large s \<Longrightarrow> setitem_run too_large room store popitem s (Inl ValueError, s)"
| run_store: "\<not> too_large s \<Longrightarrow> room s \<Longrightarrow>
     setitem_run too_large room store popitem s (Inr (), store s)"
| run_raise: "\<not> too_large s \<Longrightarrow> \<not> room s \<Longrightarrow> popitem s = (Inl e, s') \<Longrightarrow>
     setitem_run too_large room store popitem s (Inl e, s')"
| run_evict: "\<not> too_large s \<Longrightarrow> \<not> room s \<Longrightarrow> popitem s = (Inr (), s') \<Longrightarrow>
     setitem_run too_large room store popitem s' r \<Longrightarrow>
     setitem_run too_large room store popitem s r"

inductive_cases setitem_runE: "setitem_run too_large room store popitem s r"

lemma setitem_run_det:
  "setitem_run big room store pop s r \<Longrightarrow> setitem_run big room store pop s r' \<Longrightarrow> r' = r"
  by (induction rule: setitem_run.induct) (auto elim: setitem_runE)

lemma setitem_run_simps:
  "big s \<Longrightarrow> setitem_run big room store pop s r \<longleftrightarrow> r = (Inl ValueError, s)"
  "\<not> big s \<Longrightarrow> room s \<Longrightarrow> setitem_run big room store pop s r \<longleftrightarrow> r = (Inr (), store s)"
  "\<not> big s \<Longrightarrow> \<not> room s \<Longrightarrow> pop s = (Inl e, s') \<Longrightarrow>
     setitem_run big room store pop s r \<longleftrightarrow> r = (Inl e, s')"
  "\<not> big s \<Longrightarrow> \<not> room s \<Longrightarrow> pop s = (Inr u, s') \<Longrightarrow>
     setitem_run big room store pop s r \<longleftrightarrow> setitem_run big room store pop s' r"
  by (auto elim: setitem_runE intro: setitem_run.intros)

text \<open>An eviction that frees no room is repeated for ever: there is no run.\<close>

lemma setitem_run_stuck:
  assumes "setitem_run big room store pop s r" and "Q s"
    and "\<And>s. Q s \<Longrightarrow> \<not> big s \<and> \<not> room s \<and> (\<exists>s'. pop s = (Inr (), s') \<and> Q s')"
  shows False
  using assms(1,2)
proof (induction rule: setitem_run.induct)
  case (run_evict s s' r)
  with assms(3)[of s] show ?case by auto
qed (use assms(3) in force)+

text \<open>
  \<open>setitem_contract\<close>: a \<open>__setitem__\<close> returns what a finite run of the course leads to, and does
  not return (\<open>None\<close>) when there is none. \<open>run_setitem\<close> is a function that meets the contract; it
  is used to show that hypotheses about \<open>__setitem__\<close> can hold.
\<close>

definition setitem_contract ::
  "(('s \<Rightarrow> (unit, 's) outcome) \<Rightarrow> 'k \<Rightarrow> pyval \<Rightarrow> 's \<Rightarrow> (unit, 's) outcome option)
   \<Rightarrow> (pyval \<Rightarrow> 's \<Rightarrow> bool) \<Rightarrow> ('k \<Rightarrow> pyval \<Rightarrow> 's \<Rightarrow> bool) \<Rightarrow> ('k \<Rightarrow> pyval \<Rightarrow> 's \<Rightarrow> 's) \<Rightarrow> bool" where
  "setitem_contract setitem big room store \<longleftrightarrow>
     (\<forall>hook k v s r. setitem hook k v s = Some r \<longleftrightarrow> setitem_run (big v) (room k v) (store k v) hook s r)"

partial_function (option) run_setitem ::
  "('s \<Rightarrow> bool) \<Rightarrow> ('s \<Rightarrow> bool) \<Rightarrow> ('s \<Rightarrow> 's) \<Rightarrow> ('s \<Rightarrow> (unit, 's) outcome) \<Rightarrow> 's
   \<Rightarrow> (unit, 's) outcome option" where
  "run_setitem big room store pop s =
     (if big s then Some (Inl ValueError, s)
      else if room s then Some (Inr (), store s)
      else case pop s of
             (Inl e, s') \<Rightarrow> Some (Inl e, s')
           | (Inr u, s') \<Rightarrow> run_setitem big room store pop s')"

lemma run_setitem_run:
  assumes "run_setitem big room store pop s = Some r"
  shows "setitem_run big room store pop s r"
proof (rule run_setitem.raw_induct
    [where P = "\<lambda>big room store pop s r. setitem_run big room store pop s r", OF _ assms])
  fix f big room store pop s r
  assume IH: "\<And>big room store pop s r. f big room store pop s = Some r \<Longrightarrow>
      setitem_run big room store pop s r"
    and eq: "(if big s then Some (Inl ValueError, s) else if room s then Some (Inr (), store s)
      else case pop s of (Inl e, s') \<Rightarrow> Some (Inl e, s') | (Inr u, s') \<Rightarrow> f big room store pop s') = Some r"
  obtain a s' where pop: "pop s = (a, s')" by fastforce
  show "setitem_run big room store pop s r"
    by (cases a) (use eq in \<open>auto simp: pop split: if_splits intro: setitem_run.intros IH\<close>)
qed

lemma run_setitem_contract:
  "setitem_contract (\<lambda>hook k v. run_setitem (big v) (room k v) (store k v) hook) big room store"
proof -
  have "run_setitem b rm st pop s = Some r" if "setitem_run b rm st pop s r" for b rm st pop s r
    using that by (induction rule: setitem_run.induct) (subst run_setitem.simps; simp)+
  then show ?thesis unfolding setitem_contract_def using run_setitem_run by metis
qed

text \<open>Extending a run by what a subclass does after the base class has stored the item.\<close>

lemma setitem_run_extend:
  assumes "\<And>s. post (store s) = (Inr (), store' s)"
  shows "setitem_run big room store' pop s r \<longleftrightarrow>
     (\<exists>r'. setitem_run big room store pop s r' \<and> r = bind_out r' (\<lambda>_. post))"
proof
  show "setitem_run big room store' pop s r \<Longrightarrow>
      \<exists>r'. setitem_run big room store pop s r' \<and> r = bind_out r' (\<lambda>_. post)"
    by (induction rule: setitem_run.induct)
      (use assms in \<open>force intro: setitem_run.intros\<close>)+
next
  have "setitem_run big room store' pop s (bind_out r' (\<lambda>_. post))"
    if "setitem_run big room store pop s r'" for r'
    using that by (induction rule: setitem_run.induct) (auto simp: assms intro: setitem_run.intros)
  then show "\<exists>r'. setitem_run big room store pop s r' \<and> r = bind_out r' (\<lambda>_. post) \<Longrightarrow>
      setitem_run big room store' pop s r" by auto
qed

section \<open>A base class that meets the contract\<close>

text \<open>A cache kept as its bound and an association list. Used to instantiate hypotheses.\<close>

definition list_cls :: "('k, nat \<times> ('k \<times> pyval) list) cache_super" where
  "list_cls =
     \<lparr>c_get = (\<lambda>b. map_of (snd b)),
      c_del = (\<lambda>b k. if k \<in> fst ` set (snd b) then Some (fst b, filter (\<lambda>x. fst x \<noteq> k) (snd b)) else None),
      c_sizeof = (\<lambda>b v. 1),
      c_room = (\<lambda>b k v. k \<in> fst ` set (snd b) \<or> card (fst ` set (snd b)) < fst b),
      c_too_large = (\<lambda>b v. fst b < 1),
      c_store = (\<lambda>b k v. (fst b, (k, v) # filter (\<lambda>x. fst x \<noteq> k) (snd b)))\<rparr>"

lemma list_cls_get [simp]: "c_get list_cls b = map_of (snd b)"
  by (simp add: list_cls_def)

lemma map_of_drop: "map_of (filter (\<lambda>x. fst x \<noteq> k) xs) = (map_of xs)(k := None)"
  by (induction xs) (auto simp: fun_eq_iff)

lemma list_cls_contract: "super_contract list_cls"
  unfolding super_contract_def
  by (intro conjI allI impI)
    (auto simp: list_cls_def map_of_drop map_of_eq_None_iff finite_dom_map_of fun_eq_iff
      intro: rev_image_eqI dest!: map_of_SomeD)

lemma list_cls_unit: "unit_sized list_cls fst"
  by (auto simp: unit_sized_def list_cls_def dom_map_of_conv_image_fst map_of_eq_None_iff split: if_splits)

section \<open>The methods of a cache object\<close>

record ('k, 'c, 'w) cache_methods =
  m_popitem :: "'c \<Rightarrow> ('k \<times> pyval, 'c) outcome"
  m_setitem :: "('c \<times> 'w \<Rightarrow> (unit, 'c \<times> 'w) outcome) \<Rightarrow> 'k \<Rightarrow> pyval \<Rightarrow> 'c \<times> 'w \<Rightarrow>
     (unit, 'c \<times> 'w) outcome option"
  m_getitem :: "'k \<Rightarrow> 'c \<Rightarrow> (pyval, 'c) outcome"

text \<open>
  \<open>Mapping.get\<close> of Python's \<open>collections.abc\<close>, which \<open>cachetools.Cache\<close> offers: \<open>self[key]\<close>,
  or the default \<open>None\<close> when that raises \<open>KeyError\<close>.
\<close>

definition mapping_get :: "('k \<Rightarrow> 'c \<Rightarrow> (pyval, 'c) outcome) \<Rightarrow> 'k \<Rightarrow> 'c \<Rightarrow> (pyval option, 'c) outcome" where
  "mapping_get getitem k c =
     try_except (\<lambda>e. e = KeyError)
       (bind_out (getitem k c) (\<lambda>v c'. (Inr (Some v), c'))) (\<lambda>c'. (Inr None, c'))"

section \<open>The contract of an eviction policy\<close>

text \<open>
  \<open>inv\<close> is the policy's invariant, \<open>keys\<close> its cached keys, \<open>maxsize\<close> the bound. The setitem law
  says that the object's \<open>__setitem__\<close> follows the course above, for every \<open>popitem\<close> hook, and
  that storing keeps the invariant.
\<close>

locale cache_policy =
  fixes popitem :: "'c \<Rightarrow> ('k \<times> pyval, 'c) outcome"
    and getitem :: "'k \<Rightarrow> 'c \<Rightarrow> (pyval, 'c) outcome"
    and store :: "'k \<Rightarrow> pyval \<Rightarrow> 'c \<Rightarrow> 'c"
    and keys :: "'c \<Rightarrow> 'k set"
    and maxsize :: "'c \<Rightarrow> nat"
    and inv :: "'c \<Rightarrow> bool"
    and storable :: "pyval \<Rightarrow> bool"
    and room :: "'k \<Rightarrow> pyval \<Rightarrow> 'c \<Rightarrow> bool"
    and too_large :: "pyval \<Rightarrow> 'c \<Rightarrow> bool"
  assumes pop_some: "inv c \<Longrightarrow> keys c \<noteq> {} \<Longrightarrow>
      \<exists>k v c'. popitem c = (Inr (k, v), c') \<and> k \<in> keys c \<and> keys c' = keys c - {k} \<and>
        inv c' \<and> maxsize c' = maxsize c"
    and pop_empty: "inv c \<Longrightarrow> keys c = {} \<Longrightarrow>
      \<exists>c'. popitem c = (Inl KeyError, c') \<and> keys c' = {} \<and> inv c' \<and> maxsize c' = maxsize c"
    and get_hit: "inv c \<Longrightarrow> k \<in> keys c \<Longrightarrow>
      \<exists>v c'. getitem k c = (Inr v, c') \<and> keys c' = keys c \<and> inv c' \<and> maxsize c' = maxsize c"
    and get_miss: "inv c \<Longrightarrow> k \<notin> keys c \<Longrightarrow> getitem k c = (Inl KeyError, c)"
    and store_keys: "inv c \<Longrightarrow> storable v \<Longrightarrow> keys (store k v c) = insert k (keys c)"
    and store_inv: "inv c \<Longrightarrow> storable v \<Longrightarrow> inv (store k v c)"
    and store_maxsize: "inv c \<Longrightarrow> storable v \<Longrightarrow> maxsize (store k v c) = maxsize c"
    and keys_finite: "inv c \<Longrightarrow> finite (keys c)"
    and room_iff: "inv c \<Longrightarrow> room k v c \<longleftrightarrow> k \<in> keys c \<or> card (keys c) < maxsize c"
    and large_iff: "inv c \<Longrightarrow> too_large v c \<longleftrightarrow> maxsize c < 1"
begin

lemmas policy_laws = pop_some pop_empty get_hit get_miss store_keys store_inv store_maxsize keys_finite

lemma get_total:
  assumes "inv c"
  shows "\<exists>v c'. mapping_get getitem k c = (Inr v, c') \<and> keys c' = keys c \<and> inv c' \<and> maxsize c' = maxsize c
    \<and> (v = None \<longleftrightarrow> k \<notin> keys c)"
proof (cases "k \<in> keys c")
  case True
  from get_hit[OF assms True] obtain v c' where "getitem k c = (Inr v, c')" "keys c' = keys c"
    "inv c'" "maxsize c' = maxsize c" by blast
  with True show ?thesis by (simp add: mapping_get_def)
next
  case False
  with get_miss[OF assms False] assms show ?thesis by (simp add: mapping_get_def)
qed

lemma pop_card:
  assumes "inv c" "keys c \<noteq> {}" "popitem c = (Inr (k, v), c')"
  shows "card (keys c) = Suc (card (keys c'))"
  using pop_some[OF assms(1,2)] assms(3) card.remove[OF keys_finite[OF assms(1)], of k] by auto

end

end
