(* ===== verification/Heapq.thy ===== *)
theory Heapq
  imports Prelude
begin

text \<open>
  The operations of Python's \<open>heapq\<close> that \<open>gdsf.py\<close> uses, on entries
  \<open>(priority, tiebreak, key)\<close>. Tuples compare lexicographically; the tiebreak is a fresh number for
  every push, so two entries never compare by key. The heap is kept as the list of its entries in
  increasing order: \<open>heappop\<close> returns the smallest entry whatever the internal layout, and that is
  all the code can observe. The locale \<open>min_heap\<close> is the interface; its interpretation \<open>hq\<close> shows
  that the two operations have it.
\<close>

type_synonym 'k entry = "real \<times> nat \<times> 'k"

fun entry_le :: "'k entry \<Rightarrow> 'k entry \<Rightarrow> bool" where
  "entry_le (p, c, k) (p', c', k') \<longleftrightarrow> p < p' \<or> p = p' \<and> c \<le> c'"

fun heappush :: "'k entry \<Rightarrow> 'k entry list \<Rightarrow> 'k entry list" where
  "heappush e [] = [e]"
| "heappush e (x # xs) = (if entry_le e x then e # x # xs else x # heappush e xs)"

definition heappop :: "'k entry list \<Rightarrow> ('k entry \<times> 'k entry list) option" where
  "heappop h = (case h of [] \<Rightarrow> None | x # xs \<Rightarrow> Some (x, xs))"

lemma entry_le_refl [simp]: "entry_le e e"
  by (cases e) auto

lemma entry_le_total: "entry_le a b \<or> entry_le b a"
  by (cases a; cases b) auto

lemma entry_le_trans: "entry_le a b \<Longrightarrow> entry_le b c \<Longrightarrow> entry_le a c"
  by (cases a; cases b; cases c) auto

lemma mset_heappush [simp]: "mset (heappush e h) = add_mset e (mset h)"
  by (induction h) auto

lemma set_heappush [simp]: "set (heappush e h) = insert e (set h)"
  by (induction h) auto

lemma length_heappush [simp]: "length (heappush e h) = Suc (length h)"
  by (induction h) auto

lemma sorted_heappush: "sorted_wrt entry_le h \<Longrightarrow> sorted_wrt entry_le (heappush e h)"
proof (induction h)
  case (Cons x h)
  then show ?case using entry_le_total[of e x] by (auto intro: entry_le_trans)
qed simp

locale min_heap =
  fixes push :: "'e \<Rightarrow> 'h \<Rightarrow> 'h"
    and pop :: "'h \<Rightarrow> ('e \<times> 'h) option"
    and elems :: "'h \<Rightarrow> 'e multiset"
    and le :: "'e \<Rightarrow> 'e \<Rightarrow> bool"
    and heap_inv :: "'h \<Rightarrow> bool"
  assumes push_elems: "elems (push e h) = add_mset e (elems h)"
    and push_inv: "heap_inv h \<Longrightarrow> heap_inv (push e h)"
    and pop_None: "pop h = None \<longleftrightarrow> elems h = {#}"
    and pop_elems: "pop h = Some (e, h') \<Longrightarrow> elems h = add_mset e (elems h')"
    and pop_inv: "heap_inv h \<Longrightarrow> pop h = Some (e, h') \<Longrightarrow> heap_inv h'"
    and pop_le: "heap_inv h \<Longrightarrow> pop h = Some (e, h') \<Longrightarrow> x \<in># elems h' \<Longrightarrow> le e x"
    and le_self: "le e e"
begin

lemma pop_min: "heap_inv h \<Longrightarrow> pop h = Some (e, h') \<Longrightarrow> x \<in># elems h \<Longrightarrow> le e x"
  by (frule pop_elems) (auto simp: le_self dest: pop_le)

lemma pop_smaller: "pop h = Some (e, h') \<Longrightarrow> size (elems h') < size (elems h)"
  by (drule pop_elems) simp

lemma pop_member: "pop h = Some (e, h') \<Longrightarrow> e \<in># elems h"
  by (drule pop_elems) simp

lemma pop_rest: "pop h = Some (e, h') \<Longrightarrow> x \<in># elems h \<Longrightarrow> x \<noteq> e \<Longrightarrow> x \<in># elems h'"
  by (drule pop_elems) simp

lemma pop_subset: "pop h = Some (e, h') \<Longrightarrow> x \<in># elems h' \<Longrightarrow> x \<in># elems h"
  by (drule pop_elems) simp

end

interpretation hq: min_heap heappush heappop mset entry_le "sorted_wrt entry_le"
  by unfold_locales (auto simp: heappop_def sorted_heappush split: list.splits)

end
