(* ===== verification/Gdsf.thy ===== *)
theory Gdsf
  imports Cache_Lib Heapq
begin

text \<open>
  The cost-aware eviction policy of \<open>gptcache/manager/eviction/gdsf.py\<close>: the object's fields as a
  record, one definition per method. The record's field \<open>g_cls\<close> is the base class
  \<open>cachetools.Cache\<close> (a parameter, see Cache_Lib), \<open>g_base\<close> its part of the object. \<open>rnd\<close> is float
  rounding (see Prelude).

  \<open>gdsf_inv\<close> is the class invariant: the three dictionaries agree on the cached keys, every current
  priority has its entry in the lazy heap, no current priority is below the inflation value. Every
  method keeps it, \<open>popitem\<close> evicts a key of least priority, and the class meets the eviction
  policy interface (interpretation \<open>gdsf\<close>).
\<close>

section \<open>State and methods\<close>

record ('k, 'b) gdsf =
  g_cls :: "('k, 'b) cache_super"
  g_base :: 'b
  g_heap :: "'k entry list"
  g_counter :: nat
  g_freq :: "'k \<Rightarrow> nat option"
  g_prio :: "'k \<Rightarrow> real option"
  g_inflation :: real

definition gdsf_init :: "('k, 'b) cache_super \<Rightarrow> 'b \<Rightarrow> ('k, 'b) gdsf" where
  "gdsf_init cls base =
     \<lparr>g_cls = cls, g_base = base, g_heap = [], g_counter = 0, g_freq = Map.empty,
      g_prio = Map.empty, g_inflation = 0\<rparr>"

fun cost_of :: "(real \<Rightarrow> real) \<Rightarrow> pyval \<Rightarrow> real" where
  "cost_of rnd (VBool b) = 1"
| "cost_of rnd (VInt n) = rnd (of_int n)"
| "cost_of rnd (VFloat x) = x"
| "cost_of rnd VOther = 1"

definition gdsf_priority :: "(real \<Rightarrow> real) \<Rightarrow> real \<Rightarrow> nat \<Rightarrow> real \<Rightarrow> nat \<Rightarrow> real" where
  "gdsf_priority rnd infl freq cost sz =
     rnd (infl + rnd (rnd (rnd (real freq) * cost) / rnd (real sz)))"

definition gdsf_push ::
  "(real \<Rightarrow> real) \<Rightarrow> 'k \<Rightarrow> pyval \<Rightarrow> ('k, 'b) gdsf \<Rightarrow> (unit, ('k, 'b) gdsf) outcome" where
  "gdsf_push rnd key value g =
     (let sz = c_sizeof (g_cls g) (g_base g) value;
          sz = (if sz = 0 then 1 else sz)
      in case g_freq g key of
           None \<Rightarrow> (Inl KeyError, g)
         | Some f \<Rightarrow>
             let prio = gdsf_priority rnd (g_inflation g) f (cost_of rnd value) sz
             in (Inr (), g\<lparr>g_prio := (g_prio g)(key \<mapsto> prio),
                          g_heap := heappush (prio, g_counter g, key) (g_heap g),
                          g_counter := Suc (g_counter g)\<rparr>))"

text \<open>What \<open>__setitem__\<close> does once the base class has stored the item.\<close>

definition gdsf_stored ::
  "(real \<Rightarrow> real) \<Rightarrow> 'k \<Rightarrow> pyval \<Rightarrow> ('k, 'b) gdsf \<Rightarrow> (unit, ('k, 'b) gdsf) outcome" where
  "gdsf_stored rnd key value g =
     gdsf_push rnd key value
       (if g_freq g key = None then g\<lparr>g_freq := (g_freq g)(key \<mapsto> 1)\<rparr> else g)"

text \<open>
  \<open>base_set\<close> is \<open>cachetools.Cache.__setitem__\<close>; it calls back the object's \<open>popitem\<close> (\<open>hook\<close>).
  The state is the cache and whatever else \<open>popitem\<close> changes.
\<close>

definition gdsf_setitem ::
  "(real \<Rightarrow> real)
   \<Rightarrow> ((('k, 'b) gdsf \<times> 'w \<Rightarrow> (unit, ('k, 'b) gdsf \<times> 'w) outcome) \<Rightarrow> 'k \<Rightarrow> pyval
        \<Rightarrow> ('k, 'b) gdsf \<times> 'w \<Rightarrow> (unit, ('k, 'b) gdsf \<times> 'w) outcome option)
   \<Rightarrow> (('k, 'b) gdsf \<times> 'w \<Rightarrow> (unit, ('k, 'b) gdsf \<times> 'w) outcome) \<Rightarrow> 'k \<Rightarrow> pyval
   \<Rightarrow> ('k, 'b) gdsf \<times> 'w \<Rightarrow> (unit, ('k, 'b) gdsf \<times> 'w) outcome option" where
  "gdsf_setitem rnd base_set hook key value s =
     (case base_set hook key value s of
        None \<Rightarrow> None
      | Some r \<Rightarrow>
          Some (bind_out r (\<lambda>_ (g, w).
            case gdsf_stored rnd key value g of (res, g') \<Rightarrow> (res, (g', w)))))"

definition gdsf_getitem ::
  "(real \<Rightarrow> real) \<Rightarrow> 'k \<Rightarrow> ('k, 'b) gdsf \<Rightarrow> (pyval, ('k, 'b) gdsf) outcome" where
  "gdsf_getitem rnd key g =
     (case c_get (g_cls g) (g_base g) key of
        None \<Rightarrow> (Inl KeyError, g)
      | Some value \<Rightarrow>
          (case g_freq g key of
             None \<Rightarrow> (Inr value, g)
           | Some f \<Rightarrow>
               bind_out (gdsf_push rnd key value (g\<lparr>g_freq := (g_freq g)(key \<mapsto> f + 1)\<rparr>))
                 (\<lambda>_ g'. (Inr value, g'))))"

definition gdsf_delitem :: "'k \<Rightarrow> ('k, 'b) gdsf \<Rightarrow> (unit, ('k, 'b) gdsf) outcome" where
  "gdsf_delitem key g =
     (case c_del (g_cls g) (g_base g) key of
        None \<Rightarrow> (Inl KeyError, g)
      | Some base \<Rightarrow>
          (Inr (), g\<lparr>g_base := base, g_freq := (g_freq g)(key := None),
                     g_prio := (g_prio g)(key := None)\<rparr>))"

function gdsf_popitem :: "('k, 'b) gdsf \<Rightarrow> ('k \<times> pyval, ('k, 'b) gdsf) outcome" where
  "gdsf_popitem g =
     (case heappop (g_heap g) of
        None \<Rightarrow> (Inl KeyError, g)
      | Some ((prio, c, key), h) \<Rightarrow>
          if g_prio g key = Some prio
          then (case c_get (g_cls g) (g_base g) key of
                  None \<Rightarrow> (Inl KeyError, g\<lparr>g_heap := h\<rparr>)
                | Some value \<Rightarrow>
                    bind_out (gdsf_delitem key (g\<lparr>g_heap := h, g_inflation := prio\<rparr>))
                      (\<lambda>_ g'. (Inr (key, value), g')))
          else gdsf_popitem (g\<lparr>g_heap := h\<rparr>))"
  by pat_completeness auto
termination
  by (relation "measure (\<lambda>g. length (g_heap g))") (auto simp: heappop_def split: list.splits)

declare gdsf_popitem.simps [simp del]

section \<open>The class invariant\<close>

definition gdsf_keys :: "('k, 'b) gdsf \<Rightarrow> 'k set" where
  "gdsf_keys g = dom (c_get (g_cls g) (g_base g))"

definition heap_ok :: "('k, 'b) gdsf \<Rightarrow> bool" where
  "heap_ok g \<longleftrightarrow> sorted_wrt entry_le (g_heap g) \<and>
     (\<forall>k p. g_prio g k = Some p \<longrightarrow> (\<exists>c. (p, c, k) \<in> set (g_heap g)) \<and> g_inflation g \<le> p)"

definition gdsf_inv :: "(real \<Rightarrow> real) \<Rightarrow> ('k, 'b) gdsf \<Rightarrow> bool" where
  "gdsf_inv rnd g \<longleftrightarrow>
     float_rounding rnd \<and> super_contract (g_cls g) \<and>
     dom (g_freq g) = gdsf_keys g \<and> dom (g_prio g) = gdsf_keys g \<and> heap_ok g \<and>
     rnd (g_inflation g) = g_inflation g \<and> (\<forall>k p. g_prio g k = Some p \<longrightarrow> rnd p = p) \<and>
     (\<forall>k v. c_get (g_cls g) (g_base g) k = Some v \<longrightarrow> 0 \<le> cost_of rnd v) \<and>
     (\<forall>k f. g_freq g k = Some f \<longrightarrow> 1 \<le> f)"

lemma heap_okD:
  assumes "heap_ok g" "g_prio g k = Some p"
  shows "\<exists>c. (p, c, k) \<in> set (g_heap g)" "g_inflation g \<le> p"
  using assms by (auto simp: heap_ok_def)

lemma gdsf_invD [contract_dests]:
  assumes "gdsf_inv rnd g"
  shows "float_rounding rnd" "super_contract (g_cls g)" "dom (g_freq g) = gdsf_keys g"
    "dom (g_prio g) = gdsf_keys g" "heap_ok g" "rnd (g_inflation g) = g_inflation g"
    "c_get (g_cls g) (g_base g) k = Some v \<Longrightarrow> 0 \<le> cost_of rnd v"
    "g_freq g k = Some f \<Longrightarrow> 1 \<le> f" "g_prio g k = Some p \<Longrightarrow> rnd p = p"
  using assms by (auto simp: gdsf_inv_def)

lemma gdsf_keys_iff: "k \<in> gdsf_keys g \<longleftrightarrow> (\<exists>v. c_get (g_cls g) (g_base g) k = Some v)"
  by (auto simp: gdsf_keys_def)

lemma gdsf_inv_freq: "gdsf_inv rnd g \<Longrightarrow> k \<in> gdsf_keys g \<Longrightarrow> \<exists>f. g_freq g k = Some f"
  by (auto dest: gdsf_invD(3))

lemma gdsf_inv_prio: "gdsf_inv rnd g \<Longrightarrow> k \<in> gdsf_keys g \<Longrightarrow> \<exists>p. g_prio g k = Some p"
  by (auto dest: gdsf_invD(4))

lemma gdsf_inv_init:
  assumes "float_rounding rnd" "super_contract cls" "c_get cls base = Map.empty"
  shows "gdsf_inv rnd (gdsf_init cls base)"
  using assms by (auto simp: gdsf_inv_def gdsf_init_def gdsf_keys_def heap_ok_def)

section \<open>Pushing a priority\<close>

lemma gdsf_priority_ge:
  assumes "float_rounding rnd" "rnd infl = infl" "0 \<le> cost"
  shows "infl \<le> gdsf_priority rnd infl f cost sz"
proof -
  note pos = rnd_nonneg[OF assms(1)]
  have "0 \<le> rnd (real f)" and "0 \<le> rnd (real sz)" by (simp_all add: pos)
  with assms(3) have "0 \<le> rnd (rnd (rnd (real f) * cost) / rnd (real sz))"
    by (simp add: pos)
  with rnd_add_ge[OF assms(1,2)] show ?thesis by (simp add: gdsf_priority_def)
qed

lemma gdsf_priority_fixed:
  "float_rounding rnd \<Longrightarrow> rnd (gdsf_priority rnd infl f cost sz) = gdsf_priority rnd infl f cost sz"
  by (simp add: gdsf_priority_def rnd_idem)

lemma gdsf_push_spec:
  assumes "g_freq g key = Some f"
  obtains p where
    "gdsf_push rnd key v g =
       (Inr (), g\<lparr>g_prio := (g_prio g)(key \<mapsto> p), g_heap := heappush (p, g_counter g, key) (g_heap g),
                 g_counter := Suc (g_counter g)\<rparr>)"
    and "float_rounding rnd \<Longrightarrow> rnd (g_inflation g) = g_inflation g \<Longrightarrow> 0 \<le> cost_of rnd v \<Longrightarrow>
           g_inflation g \<le> p \<and> rnd p = p"
  using that[OF _ conjI[OF gdsf_priority_ge gdsf_priority_fixed]] assms
  by (simp add: gdsf_push_def Let_def)

lemma heap_ok_push:
  assumes "heap_ok g" "g_inflation g \<le> p"
  shows "heap_ok (g\<lparr>g_prio := (g_prio g)(key \<mapsto> p),
                    g_heap := heappush (p, c, key) (g_heap g), g_counter := n\<rparr>)"
  using assms by (auto simp: heap_ok_def sorted_heappush)

lemma heap_ok_freq [simp]: "heap_ok (g\<lparr>g_freq := m\<rparr>) = heap_ok g"
  by (simp add: heap_ok_def)

lemma heap_ok_base [simp]: "heap_ok (g\<lparr>g_base := b\<rparr>) = heap_ok g"
  by (simp add: heap_ok_def)

section \<open>Reading\<close>

lemma gdsf_getitem_hit:
  assumes inv: "gdsf_inv rnd g" and key: "c_get (g_cls g) (g_base g) key = Some v"
  obtains p f where
    "gdsf_getitem rnd key g =
       (Inr v, g\<lparr>g_freq := (g_freq g)(key \<mapsto> Suc f), g_prio := (g_prio g)(key \<mapsto> p),
                 g_heap := heappush (p, g_counter g, key) (g_heap g), g_counter := Suc (g_counter g)\<rparr>)"
    and "g_freq g key = Some f" and "g_inflation g \<le> p" and "rnd p = p"
proof -
  from gdsf_inv_freq[OF inv] key obtain f where f: "g_freq g key = Some f"
    by (auto simp: gdsf_keys_iff)
  let ?g = "g\<lparr>g_freq := (g_freq g)(key \<mapsto> Suc f)\<rparr>"
  obtain p where "gdsf_push rnd key v ?g = (Inr (), ?g\<lparr>g_prio := (g_prio ?g)(key \<mapsto> p),
      g_heap := heappush (p, g_counter ?g, key) (g_heap ?g), g_counter := Suc (g_counter ?g)\<rparr>)"
    and "g_inflation ?g \<le> p \<and> rnd p = p"
    using gdsf_push_spec[of ?g key "Suc f" rnd v] gdsf_invD(1,6)[OF inv] gdsf_invD(7)[OF inv key] by auto
  with f key that show ?thesis by (simp add: gdsf_getitem_def)
qed

lemma gdsf_getitem_miss:
  "c_get (g_cls g) (g_base g) key = None \<Longrightarrow> gdsf_getitem rnd key g = (Inl KeyError, g)"
  by (simp add: gdsf_getitem_def)

lemma gdsf_getitem_inv:
  assumes inv: "gdsf_inv rnd g"
  shows "gdsf_inv rnd (snd (gdsf_getitem rnd key g))"
proof (cases "c_get (g_cls g) (g_base g) key")
  case None
  with inv show ?thesis by (simp add: gdsf_getitem_miss)
next
  case (Some v)
  obtain p f where
    get: "gdsf_getitem rnd key g =
       (Inr v, g\<lparr>g_freq := (g_freq g)(key \<mapsto> Suc f), g_prio := (g_prio g)(key \<mapsto> p),
                 g_heap := heappush (p, g_counter g, key) (g_heap g), g_counter := Suc (g_counter g)\<rparr>)"
    and "g_freq g key = Some f" and p: "g_inflation g \<le> p" "rnd p = p"
    by (rule gdsf_getitem_hit[OF inv Some])
  have "key \<in> gdsf_keys g" using Some by (simp add: gdsf_keys_iff)
  with inv p heap_ok_push[where g = "g\<lparr>g_freq := (g_freq g)(key \<mapsto> Suc f)\<rparr>" and p = p and key = key] show ?thesis
    unfolding get by (auto simp: gdsf_inv_def gdsf_keys_def)
qed


section \<open>Storing\<close>

definition gdsf_store :: "(real \<Rightarrow> real) \<Rightarrow> 'k \<Rightarrow> pyval \<Rightarrow> ('k, 'b) gdsf \<Rightarrow> ('k, 'b) gdsf" where
  "gdsf_store rnd key v g =
     snd (gdsf_stored rnd key v (g\<lparr>g_base := c_store (g_cls g) (g_base g) key v\<rparr>))"

lemma gdsf_stored_ok: "\<exists>g'. gdsf_stored rnd key v g = (Inr (), g')"
  by (cases "g_freq g key") (simp_all add: gdsf_stored_def gdsf_push_def Let_def)

lemma gdsf_store_spec:
  assumes inv: "gdsf_inv rnd g" and cost: "0 \<le> cost_of rnd v"
  obtains p n where
    "gdsf_store rnd key v g =
       g\<lparr>g_base := c_store (g_cls g) (g_base g) key v, g_freq := (g_freq g)(key \<mapsto> n),
         g_prio := (g_prio g)(key \<mapsto> p), g_heap := heappush (p, g_counter g, key) (g_heap g),
         g_counter := Suc (g_counter g)\<rparr>"
    and "1 \<le> n" and "g_inflation g \<le> p" and "rnd p = p"
    and "n = (case g_freq g key of None \<Rightarrow> 1 | Some f \<Rightarrow> f)"
    and "p = gdsf_priority rnd (g_inflation g) n (cost_of rnd v)
           (let sz = c_sizeof (g_cls g) (c_store (g_cls g) (g_base g) key v) v
            in if sz = 0 then 1 else sz)"
proof -
  define n where "n = (case g_freq g key of None \<Rightarrow> 1 | Some f \<Rightarrow> f)"
  define sz where "sz = (let sz = c_sizeof (g_cls g) (c_store (g_cls g) (g_base g) key v) v
    in if sz = 0 then 1 else sz)"
  define p where "p = gdsf_priority rnd (g_inflation g) n (cost_of rnd v) sz"
  have n1: "1 \<le> n" using gdsf_invD(8)[OF inv, of key] by (auto simp: n_def split: option.splits)
  have p: "g_inflation g \<le> p"
    unfolding p_def by (rule gdsf_priority_ge[OF gdsf_invD(1,6)[OF inv] cost])
  have upd: "g_freq g key = Some f \<Longrightarrow> (g_freq g)(key \<mapsto> f) = g_freq g" for f
    by (simp add: fun_upd_idem)
  have "gdsf_store rnd key v g =
       g\<lparr>g_base := c_store (g_cls g) (g_base g) key v, g_freq := (g_freq g)(key \<mapsto> n),
         g_prio := (g_prio g)(key \<mapsto> p), g_heap := heappush (p, g_counter g, key) (g_heap g),
         g_counter := Suc (g_counter g)\<rparr>"
    by (cases "g_freq g key")
      (simp_all add: gdsf_store_def gdsf_stored_def gdsf_push_def Let_def p_def n_def sz_def upd)
  moreover have "rnd p = p" unfolding p_def by (rule gdsf_priority_fixed[OF gdsf_invD(1)[OF inv]])
  ultimately show ?thesis using that[OF _ n1 p _ n_def] p_def sz_def by simp
qed

lemma gdsf_store_inv:
  assumes inv: "gdsf_inv rnd g" and cost: "0 \<le> cost_of rnd v"
  shows "gdsf_inv rnd (gdsf_store rnd key v g)"
    and "gdsf_keys (gdsf_store rnd key v g) = insert key (gdsf_keys g)"
proof -
  obtain p n where st: "gdsf_store rnd key v g =
       g\<lparr>g_base := c_store (g_cls g) (g_base g) key v, g_freq := (g_freq g)(key \<mapsto> n),
         g_prio := (g_prio g)(key \<mapsto> p), g_heap := heappush (p, g_counter g, key) (g_heap g),
         g_counter := Suc (g_counter g)\<rparr>"
    and n: "1 \<le> n" and p: "g_inflation g \<le> p" "rnd p = p"
    by (rule gdsf_store_spec[OF inv cost])
  note get = super_store[OF gdsf_invD(2)[OF inv]]
  show keys: "gdsf_keys (gdsf_store rnd key v g) = insert key (gdsf_keys g)"
    by (simp add: st gdsf_keys_def get)
  let ?g = "g\<lparr>g_base := c_store (g_cls g) (g_base g) key v, g_freq := (g_freq g)(key \<mapsto> n)\<rparr>"
  have "heap_ok (?g\<lparr>g_prio := (g_prio ?g)(key \<mapsto> p),
      g_heap := heappush (p, g_counter g, key) (g_heap ?g), g_counter := Suc (g_counter g)\<rparr>)"
    by (rule heap_ok_push) (use p gdsf_invD(5)[OF inv] in \<open>simp_all add: heap_ok_def\<close>)
  with inv cost n p(2) keys show "gdsf_inv rnd (gdsf_store rnd key v g)"
    unfolding st by (auto simp: gdsf_inv_def get split: if_splits)
qed

section \<open>Evicting\<close>

lemma gdsf_delitem_spec:
  assumes "super_contract (g_cls g)" "c_get (g_cls g) (g_base g) key = Some v"
  obtains b where
    "gdsf_delitem key g = (Inr (), g\<lparr>g_base := b, g_freq := (g_freq g)(key := None),
       g_prio := (g_prio g)(key := None)\<rparr>)"
    and "c_del (g_cls g) (g_base g) key = Some b"
    and "c_get (g_cls g) b = (c_get (g_cls g) (g_base g))(key := None)"
  using super_get_del[OF assms] that by (auto simp: gdsf_delitem_def)

lemma gdsf_inv_drop_stale:
  assumes "gdsf_inv rnd g" "heappop (g_heap g) = Some ((p, c, k), h)" "g_prio g k \<noteq> Some p"
  shows "gdsf_inv rnd (g\<lparr>g_heap := h\<rparr>)"
proof -
  have "sorted_wrt entry_le h" using assms(1,2) hq.pop_inv
    by (auto simp: gdsf_inv_def heap_ok_def)
  moreover have "\<exists>c'. (p', c', k') \<in> set h" if "g_prio g k' = Some p'" for k' p'
  proof -
    from heap_okD(1)[OF gdsf_invD(5)[OF assms(1)] that] obtain c' where c': "(p', c', k') \<in> set (g_heap g)"
      by blast
    have "(p', c', k') \<noteq> (p, c, k)" using that assms(3) by auto
    with c' hq.pop_rest[OF assms(2)] show ?thesis by force
  qed
  ultimately show ?thesis using assms(1) by (auto simp: gdsf_inv_def heap_ok_def gdsf_keys_def)
qed

lemma gdsf_popitem_None: "heappop (g_heap g) = None \<Longrightarrow> gdsf_popitem g = (Inl KeyError, g)"
  by (subst gdsf_popitem.simps) simp

lemma gdsf_popitem_stale:
  "heappop (g_heap g) = Some ((p, c, k), h) \<Longrightarrow> g_prio g k \<noteq> Some p \<Longrightarrow>
     gdsf_popitem g = gdsf_popitem (g\<lparr>g_heap := h\<rparr>)"
  by (subst gdsf_popitem.simps) simp

lemma gdsf_popitem_live:
  "heappop (g_heap g) = Some ((p, c, k), h) \<Longrightarrow> g_prio g k = Some p \<Longrightarrow>
     c_get (g_cls g) (g_base g) k = Some v \<Longrightarrow>
     gdsf_popitem g = bind_out (gdsf_delitem k (g\<lparr>g_heap := h, g_inflation := p\<rparr>))
                        (\<lambda>_ g'. (Inr (k, v), g'))"
  by (subst gdsf_popitem.simps) simp

text \<open>
  Induction over the entries that \<open>popitem\<close> looks at: it suffices to treat an empty heap, a live
  entry, and a stale entry with the claim for the rest of the heap.
\<close>

lemma gdsf_drain_induct [consumes 1, case_names empty live stale]:
  assumes inv: "gdsf_inv rnd g"
    and "\<And>g. gdsf_inv rnd g \<Longrightarrow> heappop (g_heap g) = None \<Longrightarrow> P g"
    and "\<And>g p c k h v. gdsf_inv rnd g \<Longrightarrow> heappop (g_heap g) = Some ((p, c, k), h) \<Longrightarrow>
           g_prio g k = Some p \<Longrightarrow> c_get (g_cls g) (g_base g) k = Some v \<Longrightarrow> P g"
    and "\<And>g p c k h. gdsf_inv rnd g \<Longrightarrow> heappop (g_heap g) = Some ((p, c, k), h) \<Longrightarrow>
           g_prio g k \<noteq> Some p \<Longrightarrow> P (g\<lparr>g_heap := h\<rparr>) \<Longrightarrow> P g"
  shows "P g"
  using inv
proof (induction g rule: measure_induct_rule[where f = "\<lambda>g. length (g_heap g)"])
  case (less g)
  show ?case
  proof (cases "heappop (g_heap g)")
    case None
    with less.prems assms(2) show ?thesis by blast
  next
    case (Some e)
    then obtain p c k h where pop: "heappop (g_heap g) = Some ((p, c, k), h)" by (metis prod.exhaust)
    show ?thesis
    proof (cases "g_prio g k = Some p")
      case True
      then have "k \<in> gdsf_keys g" using gdsf_invD(4)[OF less.prems] by blast
      with assms(3)[OF less.prems pop True] show ?thesis by (auto simp: gdsf_keys_iff)
    next
      case False
      have "length h < length (g_heap g)" using hq.pop_smaller[OF pop] by simp
      then have "P (g\<lparr>g_heap := h\<rparr>)"
        using less.IH gdsf_inv_drop_stale[OF less.prems pop False] by simp
      with assms(4)[OF less.prems pop False] show ?thesis by blast
    qed
  qed
qed

lemma gdsf_keys_drop [simp]: "gdsf_keys (g\<lparr>g_heap := h\<rparr>) = gdsf_keys g"
  by (simp add: gdsf_keys_def)

lemma gdsf_popitem_empty:
  assumes "gdsf_inv rnd g" "gdsf_keys g = {}"
  shows "gdsf_popitem g = (Inl KeyError, g\<lparr>g_heap := []\<rparr>)"
  using assms
proof (induction g rule: gdsf_drain_induct)
  case (empty g)
  then have "g_heap g = []" by (simp add: heappop_def split: list.splits)
  with empty show ?case by (simp add: gdsf_popitem_None)
next
  case (live g p c k h v)
  then show ?case by (auto simp: gdsf_keys_def)
next
  case (stale g p c k h)
  then show ?case by (simp add: gdsf_popitem_stale)
qed

text \<open>
  The specification of \<open>popitem\<close>: on a cache that is not empty it returns an item whose key has the
  least current priority, that priority becomes the inflation value, and exactly this key leaves the
  three dictionaries.
\<close>

definition gdsf_pop_post :: "('k, 'b) gdsf \<Rightarrow> 'k \<Rightarrow> pyval \<Rightarrow> ('k, 'b) gdsf \<Rightarrow> bool" where
  "gdsf_pop_post g k v g' \<longleftrightarrow>
     c_get (g_cls g) (g_base g) k = Some v \<and>
     (\<exists>p. g_prio g k = Some p \<and> (\<forall>k' p'. g_prio g k' = Some p' \<longrightarrow> p \<le> p') \<and> g_inflation g' = p) \<and>
     g_cls g' = g_cls g \<and> c_del (g_cls g) (g_base g) k = Some (g_base g') \<and>
     c_get (g_cls g') (g_base g') = (c_get (g_cls g) (g_base g))(k := None) \<and>
     g_freq g' = (g_freq g)(k := None) \<and> g_prio g' = (g_prio g)(k := None)"


lemma gdsf_popitem_spec:
  assumes "gdsf_inv rnd g" "gdsf_keys g \<noteq> {}"
  shows "\<exists>k v g'. gdsf_popitem g = (Inr (k, v), g') \<and> gdsf_pop_post g k v g' \<and> gdsf_inv rnd g'"
  using assms
proof (induction g rule: gdsf_drain_induct)
  case (empty g)
  from empty.prems obtain k where "k \<in> gdsf_keys g" by blast
  with gdsf_inv_prio[OF empty(1)] heap_okD(1)[OF gdsf_invD(5)[OF empty(1)]] have "g_heap g \<noteq> []"
    by fastforce
  with empty show ?case by (simp add: heappop_def split: list.splits)
next
  case (stale g p c k h)
  then obtain k' v g' where "gdsf_popitem (g\<lparr>g_heap := h\<rparr>) = (Inr (k', v), g')"
    "gdsf_pop_post (g\<lparr>g_heap := h\<rparr>) k' v g'" "gdsf_inv rnd g'" by auto
  with stale show ?case by (auto simp: gdsf_popitem_stale gdsf_pop_post_def)
next
  case (live g p c k h v)
  let ?g = "g\<lparr>g_heap := h, g_inflation := p\<rparr>"
  note inv = gdsf_invD[OF live(1)]
  have sorted: "sorted_wrt entry_le (g_heap g)" using inv(5) by (simp add: heap_ok_def)
  have least: "p \<le> p'" if "g_prio g k' = Some p'" for k' p'
  proof -
    from heap_okD(1)[OF inv(5) that] obtain c' where "(p', c', k') \<in># mset (g_heap g)" by auto
    with hq.pop_min[OF sorted live(2)] show ?thesis by fastforce
  qed
  obtain b where del: "gdsf_delitem k ?g = (Inr (), ?g\<lparr>g_base := b, g_freq := (g_freq ?g)(k := None),
      g_prio := (g_prio ?g)(k := None)\<rparr>)" "c_del (g_cls g) (g_base g) k = Some b"
    and get: "c_get (g_cls g) b = (c_get (g_cls g) (g_base g))(k := None)"
    by (rule gdsf_delitem_spec[of ?g k v]) (use inv(2) live(4) in simp_all)
  let ?g' = "?g\<lparr>g_base := b, g_freq := (g_freq g)(k := None), g_prio := (g_prio g)(k := None)\<rparr>"
  have heap: "\<exists>c'. (p', c', k') \<in> set h" if "g_prio g k' = Some p'" "k' \<noteq> k" for k' p'
  proof -
    from heap_okD(1)[OF inv(5) that(1)] obtain c' where "(p', c', k') \<in># mset (g_heap g)" by auto
    with hq.pop_rest[OF live(2)] that(2) show ?thesis by force
  qed
  have "sorted_wrt entry_le h" using hq.pop_inv[OF sorted live(2)] .
  with heap least have "heap_ok ?g'" by (auto simp: heap_ok_def)
  with live(1) inv get have "gdsf_inv rnd ?g'"
    by (auto simp: gdsf_inv_def gdsf_keys_def inv(9)[OF live(3)])
  moreover have "gdsf_pop_post g k v ?g'"
    using live(3,4) least get del(2) by (auto simp: gdsf_pop_post_def)
  ultimately show ?case using gdsf_popitem_live[OF live(2,3,4)] del(1) by simp
qed

section \<open>The policy meets the eviction interface\<close>

definition gdsf_maxsize :: "('b \<Rightarrow> nat) \<Rightarrow> ('k, 'b) gdsf \<Rightarrow> nat" where
  "gdsf_maxsize msz g = msz (g_base g)"

definition gdsf_room :: "'k \<Rightarrow> pyval \<Rightarrow> ('k, 'b) gdsf \<Rightarrow> bool" where
  "gdsf_room k v g = c_room (g_cls g) (g_base g) k v"

definition gdsf_too_large :: "pyval \<Rightarrow> ('k, 'b) gdsf \<Rightarrow> bool" where
  "gdsf_too_large v g = c_too_large (g_cls g) (g_base g) v"

definition gdsf_policy_inv :: "(real \<Rightarrow> real) \<Rightarrow> ('b \<Rightarrow> nat) \<Rightarrow> ('k, 'b) gdsf \<Rightarrow> bool" where
  "gdsf_policy_inv rnd msz g \<longleftrightarrow> gdsf_inv rnd g \<and> unit_sized (g_cls g) msz"

lemma gdsf_pop_post_keys:
  "gdsf_pop_post g k v g' \<Longrightarrow> k \<in> gdsf_keys g \<and> gdsf_keys g' = gdsf_keys g - {k}"
  by (auto simp: gdsf_pop_post_def gdsf_keys_def split: if_splits)

lemma gdsf_pop_post_policy:
  assumes post: "gdsf_pop_post g k v g'" and inv: "gdsf_inv rnd g'" and unit: "unit_sized (g_cls g) msz"
  shows "gdsf_policy_inv rnd msz g'" and "gdsf_maxsize msz g' = gdsf_maxsize msz g"
proof -
  from post have "g_cls g' = g_cls g" and "c_del (g_cls g) (g_base g) k = Some (g_base g')"
    by (auto simp: gdsf_pop_post_def)
  with inv unit show "gdsf_policy_inv rnd msz g'" and "gdsf_maxsize msz g' = gdsf_maxsize msz g"
    by (auto simp: gdsf_policy_inv_def gdsf_maxsize_def unit_sized_def)
qed

lemma unit_sized_maxsize:
  "unit_sized cls msz \<Longrightarrow> msz (c_store cls b k v) = msz b"
  "unit_sized cls msz \<Longrightarrow> c_del cls b k = Some b' \<Longrightarrow> msz b' = msz b"
  by (auto simp: unit_sized_def)

lemma gdsf_store_frame:
  assumes "gdsf_inv rnd g" "0 \<le> cost_of rnd v"
  shows "g_cls (gdsf_store rnd k v g) = g_cls g"
    and "g_base (gdsf_store rnd k v g) = c_store (g_cls g) (g_base g) k v"
  by (rule gdsf_store_spec[OF assms, of k], simp)+

interpretation gdsf: cache_policy gdsf_popitem "gdsf_getitem rnd" "gdsf_store rnd" gdsf_keys
    "gdsf_maxsize msz" "gdsf_policy_inv rnd msz" "\<lambda>v. 0 \<le> cost_of rnd v"
    gdsf_room gdsf_too_large
  for rnd msz
proof
  fix c :: "('a, 'b) gdsf" and k v
  assume pinv: "gdsf_policy_inv rnd msz c"
  then have inv: "gdsf_inv rnd c" and unit: "unit_sized (g_cls c) msz"
    by (auto simp: gdsf_policy_inv_def)
  show "finite (gdsf_keys c)"
    by (simp add: gdsf_keys_def super_finite[OF gdsf_invD(2)[OF inv]])
  show "k \<notin> gdsf_keys c \<Longrightarrow> gdsf_getitem rnd k c = (Inl KeyError, c)"
    by (simp add: gdsf_getitem_miss gdsf_keys_def domIff)
  show "gdsf_keys c = {} \<Longrightarrow> \<exists>c'. gdsf_popitem c = (Inl KeyError, c') \<and> gdsf_keys c' = {} \<and>
      gdsf_policy_inv rnd msz c' \<and> gdsf_maxsize msz c' = gdsf_maxsize msz c"
    using gdsf_popitem_empty[OF inv] pinv
    by (auto simp: gdsf_policy_inv_def gdsf_inv_def heap_ok_def gdsf_keys_def gdsf_maxsize_def)
  show "gdsf_keys c \<noteq> {} \<Longrightarrow> \<exists>k v c'. gdsf_popitem c = (Inr (k, v), c') \<and> k \<in> gdsf_keys c \<and>
      gdsf_keys c' = gdsf_keys c - {k} \<and> gdsf_policy_inv rnd msz c' \<and>
      gdsf_maxsize msz c' = gdsf_maxsize msz c"
    using gdsf_popitem_spec[OF inv] gdsf_pop_post_keys gdsf_pop_post_policy[OF _ _ unit] by metis
  show "k \<in> gdsf_keys c \<Longrightarrow> \<exists>v c'. gdsf_getitem rnd k c = (Inr v, c') \<and> gdsf_keys c' = gdsf_keys c \<and>
      gdsf_policy_inv rnd msz c' \<and> gdsf_maxsize msz c' = gdsf_maxsize msz c"
  proof -
    assume "k \<in> gdsf_keys c"
    then obtain v where v: "c_get (g_cls c) (g_base c) k = Some v" by (auto simp: gdsf_keys_iff)
    from gdsf_getitem_inv[OF inv, of k] unit show ?thesis
      by (rule_tac gdsf_getitem_hit[OF inv v])
        (simp add: gdsf_policy_inv_def gdsf_maxsize_def gdsf_keys_def)
  qed
  show "gdsf_room k v c = (k \<in> gdsf_keys c \<or> card (gdsf_keys c) < gdsf_maxsize msz c)"
    using unit by (auto simp: unit_sized_def gdsf_room_def gdsf_keys_def gdsf_maxsize_def)
  show "gdsf_too_large v c = (gdsf_maxsize msz c < 1)"
    using unit by (auto simp: unit_sized_def gdsf_too_large_def gdsf_maxsize_def)
  assume v: "0 \<le> cost_of rnd v"
  show "gdsf_keys (gdsf_store rnd k v c) = insert k (gdsf_keys c)"
    by (rule gdsf_store_inv(2)[OF inv v])
  show "gdsf_policy_inv rnd msz (gdsf_store rnd k v c)"
    using gdsf_store_inv(1)[OF inv v] unit by (simp add: gdsf_policy_inv_def gdsf_store_frame[OF inv v])
  show "gdsf_maxsize msz (gdsf_store rnd k v c) = gdsf_maxsize msz c"
    by (simp add: gdsf_maxsize_def gdsf_store_frame[OF inv v] unit_sized_maxsize(1)[OF unit])
qed

text \<open>
  \<open>GDSFCache.__setitem__\<close> follows the course of the base class's, with \<open>gdsf_store\<close> as the
  storing step.
\<close>

definition base_set_contract ::
  "((('k, 'b) gdsf \<times> 'w \<Rightarrow> (unit, ('k, 'b) gdsf \<times> 'w) outcome) \<Rightarrow> 'k \<Rightarrow> pyval
     \<Rightarrow> ('k, 'b) gdsf \<times> 'w \<Rightarrow> (unit, ('k, 'b) gdsf \<times> 'w) outcome option) \<Rightarrow> bool" where
  "base_set_contract base_set \<longleftrightarrow>
     setitem_contract base_set (\<lambda>v (g, w). gdsf_too_large v g) (\<lambda>k v (g, w). gdsf_room k v g)
       (\<lambda>k v (g, w). (g\<lparr>g_base := c_store (g_cls g) (g_base g) k v\<rparr>, w))"

lemma gdsf_setitem_contract:
  assumes "base_set_contract base_set"
  shows "setitem_contract (gdsf_setitem rnd base_set) (\<lambda>v (g, w). gdsf_too_large v g)
           (\<lambda>k v (g, w). gdsf_room k v g) (\<lambda>k v (g, w). (gdsf_store rnd k v g, w))"
proof -
  have "gdsf_stored rnd k v (g\<lparr>g_base := c_store (g_cls g) (g_base g) k v\<rparr>) =
      (Inr (), gdsf_store rnd k v g)" for k v and g :: "('a, 'b) gdsf"
    using gdsf_stored_ok[of rnd k v "g\<lparr>g_base := c_store (g_cls g) (g_base g) k v\<rparr>"]
    by (auto simp: gdsf_store_def)
  then have ext: "setitem_run (\<lambda>(g, w). gdsf_too_large v g) (\<lambda>(g, w). gdsf_room k v g)
      (\<lambda>(g, w). (gdsf_store rnd k v g, w)) hook s r \<longleftrightarrow>
      (\<exists>r'. setitem_run (\<lambda>(g, w). gdsf_too_large v g) (\<lambda>(g, w). gdsf_room k v g)
        (\<lambda>(g, w). (g\<lparr>g_base := c_store (g_cls g) (g_base g) k v\<rparr>, w)) hook s r' \<and>
        r = bind_out r' (\<lambda>_ (g, w). case gdsf_stored rnd k v g of (res, g') \<Rightarrow> (res, g', w)))"
    for k v hook and s :: "('a, 'b) gdsf \<times> 'c" and r
    by (intro setitem_run_extend) auto
  have base: "setitem_run (\<lambda>(g, w). gdsf_too_large v g) (\<lambda>(g, w). gdsf_room k v g)
      (\<lambda>(g, w). (g\<lparr>g_base := c_store (g_cls g) (g_base g) k v\<rparr>, w)) hook s r \<longleftrightarrow>
      base_set hook k v s = Some r" for k v hook s r
    using assms unfolding base_set_contract_def setitem_contract_def by blast
  show ?thesis
    unfolding setitem_contract_def ext base
    by (auto simp: gdsf_setitem_def split: option.splits)
qed

text \<open>A base class whose \<open>__setitem__\<close> meets the contract.\<close>

definition run_base_set where
  "run_base_set hook k v =
     run_setitem (\<lambda>(g, w). gdsf_too_large v g) (\<lambda>(g, w). gdsf_room k v g)
       (\<lambda>(g, w). (g\<lparr>g_base := c_store (g_cls g) (g_base g) k v\<rparr>, w)) hook"

lemma run_base_set_contract: "base_set_contract run_base_set"
  unfolding base_set_contract_def run_base_set_def
  using run_setitem_contract[where big = "\<lambda>v (g, w). gdsf_too_large v g" and room = "\<lambda>k v (g, w). gdsf_room k v g"
      and store = "\<lambda>k v (g, w). (g\<lparr>g_base := c_store (g_cls g) (g_base g) k v\<rparr>, w)"] .

section \<open>Evicting several keys\<close>

lemma gdsf_pop_inflation:
  assumes "gdsf_inv rnd g" "gdsf_pop_post g k v g'"
  shows "g_inflation g \<le> g_inflation g'"
  using assms heap_okD(2)[OF gdsf_invD(5)[OF assms(1)]] by (auto simp: gdsf_pop_post_def)

text \<open>
  Popping a list of keys one after the other. Each key is popped at the least priority left, so no
  evicted key has a larger priority than a key that stays.
\<close>

fun gdsf_pops :: "('k, 'b) gdsf \<Rightarrow> 'k list \<Rightarrow> ('k, 'b) gdsf \<Rightarrow> bool" where
  "gdsf_pops g [] g' = (g' = g)"
| "gdsf_pops g (k # ks) g' = (\<exists>v g1. gdsf_pop_post g k v g1 \<and> gdsf_pops g1 ks g')"

lemma gdsf_pops_keys: "gdsf_pops g ks g' \<Longrightarrow> g_prio g' = (g_prio g) |` (- set ks)"
proof (induction ks arbitrary: g)
  case Nil
  then show ?case by (auto simp: restrict_map_def)
next
  case (Cons k ks)
  then obtain v g1 where g1: "gdsf_pop_post g k v g1" and rest: "gdsf_pops g1 ks g'" by auto
  have "g_prio g1 = (g_prio g)(k := None)" using g1 by (simp add: gdsf_pop_post_def)
  with Cons.IH[OF rest] show ?case by (intro ext) (auto simp: restrict_map_def)
qed

lemma gdsf_pops_least:
  "gdsf_pops g ks g' \<Longrightarrow> k \<in> set ks \<Longrightarrow> g_prio g k = Some p \<Longrightarrow> g_prio g' k' = Some p' \<Longrightarrow> p \<le> p'"
proof (induction ks arbitrary: g)
  case (Cons x ks)
  then obtain v g1 where x: "gdsf_pop_post g x v g1" and rest: "gdsf_pops g1 ks g'" by auto
  show ?case
  proof (cases "k = x")
    case True
    have "g_prio g k' = Some p'"
      using Cons.prems(4) gdsf_pops_keys[OF Cons.prems(1)] by (auto simp: restrict_map_def split: if_splits)
    with True x Cons.prems(3) show ?thesis by (auto simp: gdsf_pop_post_def)
  next
    case False
    then have "k \<in> set ks" "g_prio g1 k = Some p" using Cons.prems(2,3) x by (auto simp: gdsf_pop_post_def)
    with Cons.IH[OF rest] Cons.prems(4) show ?thesis by blast
  qed
qed simp

lemma gdsf_popitem_cases:
  assumes "gdsf_inv rnd g" "gdsf_popitem g = (Inr (k, v), g')"
  shows "gdsf_pop_post g k v g' \<and> gdsf_inv rnd g'"
proof (cases "gdsf_keys g = {}")
  case True
  with gdsf_popitem_empty[OF assms(1)] assms(2) show ?thesis by simp
next
  case False
  with gdsf_popitem_spec[OF assms(1)] assms(2) show ?thesis by auto
qed

section \<open>Hits\<close>

definition gdsf_size :: "('k, 'b) gdsf \<Rightarrow> pyval \<Rightarrow> nat" where
  "gdsf_size g v = (let sz = c_sizeof (g_cls g) (g_base g) v in if sz = 0 then 1 else sz)"

lemma gdsf_hit_spec:
  assumes inv: "gdsf_inv rnd g" and v: "c_get (g_cls g) (g_base g) key = Some v"
  shows "\<exists>f g'. g_freq g key = Some f \<and> gdsf_getitem rnd key g = (Inr v, g') \<and>
    g_freq g' = (g_freq g)(key \<mapsto> f + 1) \<and>
    g_prio g' = (g_prio g)(key \<mapsto> gdsf_priority rnd (g_inflation g) (f + 1) (cost_of rnd v) (gdsf_size g v)) \<and>
    g_cls g' = g_cls g \<and> g_base g' = g_base g \<and> g_inflation g' = g_inflation g \<and>
    length (g_heap g') = Suc (length (g_heap g)) \<and> gdsf_inv rnd g'"
proof -
  from gdsf_inv_freq[OF inv] v obtain f where f: "g_freq g key = Some f" by (auto simp: gdsf_keys_iff)
  with v gdsf_getitem_inv[OF inv, of key] show ?thesis
    by (simp add: gdsf_getitem_def gdsf_push_def gdsf_size_def Let_def)
qed

definition gdsf_hits :: "(real \<Rightarrow> real) \<Rightarrow> 'k \<Rightarrow> nat \<Rightarrow> ('k, 'b) gdsf \<Rightarrow> ('k, 'b) gdsf" where
  "gdsf_hits rnd key n = (\<lambda>g. snd (gdsf_getitem rnd key g)) ^^ n"

lemma gdsf_hits_spec:
  assumes "gdsf_inv rnd g" "key \<in> gdsf_keys g"
  shows "gdsf_inv rnd (gdsf_hits rnd key n g) \<and> gdsf_keys (gdsf_hits rnd key n g) = gdsf_keys g \<and>
    length (g_heap (gdsf_hits rnd key n g)) = length (g_heap g) + n"
proof (induction n)
  case (Suc n)
  let ?g = "gdsf_hits rnd key n g"
  have "key \<in> gdsf_keys ?g" using Suc assms(2) by simp
  then obtain v where "c_get (g_cls ?g) (g_base ?g) key = Some v" by (auto simp: gdsf_keys_iff)
  with gdsf_hit_spec[of rnd ?g key v] Suc obtain g' where "gdsf_getitem rnd key ?g = (Inr v, g')"
    "gdsf_inv rnd g'" "g_cls g' = g_cls ?g" "g_base g' = g_base ?g" "length (g_heap g') = Suc (length (g_heap ?g))"
    by blast
  moreover have "gdsf_hits rnd key (Suc n) g = snd (gdsf_getitem rnd key ?g)" by (simp add: gdsf_hits_def)
  ultimately show ?case using Suc by (simp add: gdsf_keys_def)
qed (use assms in \<open>simp add: gdsf_hits_def\<close>)

section \<open>Unit costs\<close>

text \<open>Until the first eviction, with \<open>True\<close> stored for every key, the priority is the frequency.\<close>

definition gdsf_unit_cost :: "(real \<Rightarrow> real) \<Rightarrow> ('k, 'b) gdsf \<Rightarrow> bool" where
  "gdsf_unit_cost rnd g \<longleftrightarrow> gdsf_inv rnd g \<and> (\<forall>b v. c_sizeof (g_cls g) b v = 1) \<and> g_inflation g = 0 \<and>
     (\<forall>k v. c_get (g_cls g) (g_base g) k = Some v \<longrightarrow> v = VBool True) \<and>
     (\<forall>k f. g_freq g k = Some f \<longrightarrow> g_prio g k = Some (real f))"

lemma gdsf_unit_priority:
  assumes "float_rounding rnd" "f \<le> 2 ^ 53"
  shows "gdsf_priority rnd 0 f 1 1 = real f"
proof -
  have "rnd (real f) = real f" using rnd_int[OF assms(1), of "int f"] assms(2) by simp
  with assms(1) show ?thesis by (simp add: gdsf_priority_def)
qed

lemma gdsf_unit_cost_get:
  assumes u: "gdsf_unit_cost rnd g" and f: "\<And>f. g_freq g key = Some f \<Longrightarrow> f < 2 ^ 53"
  shows "gdsf_unit_cost rnd (snd (gdsf_getitem rnd key g))"
proof (cases "c_get (g_cls g) (g_base g) key")
  case None
  with u show ?thesis by (simp add: gdsf_getitem_miss)
next
  case (Some v)
  have inv: "gdsf_inv rnd g" and v: "v = VBool True" using u Some by (auto simp: gdsf_unit_cost_def)
  from gdsf_hit_spec[OF inv Some] obtain n g' where g': "g_freq g key = Some n" "gdsf_getitem rnd key g = (Inr v, g')"
    "g_freq g' = (g_freq g)(key \<mapsto> n + 1)"
    "g_prio g' = (g_prio g)(key \<mapsto> gdsf_priority rnd (g_inflation g) (n + 1) (cost_of rnd v) (gdsf_size g v))"
    "g_cls g' = g_cls g" "g_base g' = g_base g" "g_inflation g' = g_inflation g" "gdsf_inv rnd g'" by blast
  have "gdsf_priority rnd (g_inflation g) (n + 1) (cost_of rnd v) (gdsf_size g v) = real (n + 1)"
    using u v f[OF g'(1)] gdsf_unit_priority[OF gdsf_invD(1)[OF inv], of "n + 1"]
    by (simp add: gdsf_unit_cost_def gdsf_size_def)
  with u g' show ?thesis by (auto simp: gdsf_unit_cost_def)
qed

lemma gdsf_unit_cost_store:
  assumes u: "gdsf_unit_cost rnd g" and f: "\<And>f. g_freq g key = Some f \<Longrightarrow> f \<le> 2 ^ 53"
  shows "gdsf_unit_cost rnd (gdsf_store rnd key (VBool True) g)"
proof -
  have inv: "gdsf_inv rnd g" using u by (simp add: gdsf_unit_cost_def)
  have cost: "0 \<le> cost_of rnd (VBool True)" by simp
  obtain p n where st: "gdsf_store rnd key (VBool True) g =
       g\<lparr>g_base := c_store (g_cls g) (g_base g) key (VBool True), g_freq := (g_freq g)(key \<mapsto> n),
         g_prio := (g_prio g)(key \<mapsto> p), g_heap := heappush (p, g_counter g, key) (g_heap g),
         g_counter := Suc (g_counter g)\<rparr>"
    and n: "n = (case g_freq g key of None \<Rightarrow> 1 | Some f \<Rightarrow> f)"
    and p: "p = gdsf_priority rnd (g_inflation g) n (cost_of rnd (VBool True))
           (let sz = c_sizeof (g_cls g) (c_store (g_cls g) (g_base g) key (VBool True)) (VBool True)
            in if sz = 0 then 1 else sz)"
    by (rule gdsf_store_spec[OF inv cost])
  have "n \<le> 2 ^ 53" using f by (auto simp: n split: option.splits)
  then have "p = real n"
    using u gdsf_unit_priority[OF gdsf_invD(1)[OF inv]] by (simp add: p gdsf_unit_cost_def)
  with u gdsf_store_inv(1)[OF inv cost, of key] super_store[OF gdsf_invD(2)[OF inv], of "g_base g" key "VBool True"]
  show ?thesis unfolding st by (auto simp: gdsf_unit_cost_def)
qed

section \<open>Sequences of accesses\<close>

text \<open>
  What a user of the cache does with it: \<open>cache[key] = True\<close> and \<open>cache[key]\<close>, where a \<open>KeyError\<close> of the read is caught
  as \<open>Mapping.get\<close> does. A run stops (\<open>None\<close>) at a store that raises or does not return.
\<close>

datatype 'k access = Stores 'k | Reads 'k

fun gdsf_access where
  "gdsf_access rnd base_set hook (Stores k) s =
     (case gdsf_setitem rnd base_set hook k (VBool True) s of Some (Inr u, s') \<Rightarrow> Some s' | _ \<Rightarrow> None)"
| "gdsf_access rnd base_set hook (Reads k) (g, w) = Some (snd (gdsf_getitem rnd k g), w)"

fun gdsf_run where
  "gdsf_run rnd base_set hook [] s = Some s"
| "gdsf_run rnd base_set hook (a # as) s =
     (case gdsf_access rnd base_set hook a s of None \<Rightarrow> None | Some s' \<Rightarrow> gdsf_run rnd base_set hook as s')"

text \<open>The number of times a key has been asked for since it was first stored, read off the sequence.\<close>

definition stored_in :: "'k \<Rightarrow> 'k access list \<Rightarrow> bool" where
  "stored_in k as \<longleftrightarrow> Stores k \<in> set as"

definition reads_since_stored :: "'k \<Rightarrow> 'k access list \<Rightarrow> nat" where
  "reads_since_stored k as = length (filter (\<lambda>a. a = Reads k) (dropWhile (\<lambda>a. a \<noteq> Stores k) as))"

lemma stored_in_snoc: "stored_in k (as @ [a]) \<longleftrightarrow> stored_in k as \<or> a = Stores k"
  by (auto simp: stored_in_def)

lemma reads_unstored: "\<not> stored_in k as \<Longrightarrow> reads_since_stored k as = 0"
  by (induction as) (auto simp: reads_since_stored_def stored_in_def)

lemma reads_snoc:
  "reads_since_stored k (as @ [a]) = reads_since_stored k as + (if stored_in k as \<and> a = Reads k then 1 else 0)"
proof (cases "stored_in k as")
  case True
  then have "dropWhile (\<lambda>a. a \<noteq> Stores k) (as @ [a]) = dropWhile (\<lambda>a. a \<noteq> Stores k) as @ [a]"
    by (intro dropWhile_append1[where x = "Stores k"]) (auto simp: stored_in_def)
  with True show ?thesis by (simp add: reads_since_stored_def)
next
  case False
  then have "\<And>b. b \<in> set as \<Longrightarrow> b \<noteq> Stores k" by (auto simp: stored_in_def)
  then have "dropWhile (\<lambda>a. a \<noteq> Stores k) (as @ [a]) = dropWhile (\<lambda>a. a \<noteq> Stores k) [a]"
    by (simp add: dropWhile_append2)
  with False show ?thesis by (simp add: reads_unstored) (simp add: reads_since_stored_def)
qed

lemma reads_le: "reads_since_stored k as \<le> length as"
  unfolding reads_since_stored_def by (meson length_dropWhile_le length_filter_le order_trans)

lemma gdsf_run_append:
  "gdsf_run rnd base_set hook (as @ bs) s =
     (case gdsf_run rnd base_set hook as s of None \<Rightarrow> None | Some s' \<Rightarrow> gdsf_run rnd base_set hook bs s')"
  by (induction as arbitrary: s) (auto split: option.splits)

lemma gdsf_access_room:
  assumes "base_set_contract base_set" "gdsf_room k (VBool True) g" "\<not> gdsf_too_large (VBool True) g"
  shows "gdsf_access rnd base_set hook (Stores k) (g, w) = Some (gdsf_store rnd k (VBool True) g, w)"
proof -
  have "setitem_run (\<lambda>(g, w). gdsf_too_large (VBool True) g) (\<lambda>(g, w). gdsf_room k (VBool True) g)
      (\<lambda>(g, w). (gdsf_store rnd k (VBool True) g, w)) hook (g, w) (Inr (), gdsf_store rnd k (VBool True) g, w)"
    using run_store[of "\<lambda>(g, w). gdsf_too_large (VBool True) g" "(g, w)" "\<lambda>(g, w). gdsf_room k (VBool True) g"
        "\<lambda>(g, w). (gdsf_store rnd k (VBool True) g, w)" hook] assms(2,3) by simp
  then have "gdsf_setitem rnd base_set hook k (VBool True) (g, w) = Some (Inr (), gdsf_store rnd k (VBool True) g, w)"
    using gdsf_setitem_contract[OF assms(1), of rnd] unfolding setitem_contract_def by blast
  then show ?thesis by simp
qed

text \<open>The frequencies are the counted accesses as long as all stored keys fit.\<close>

lemma gdsf_run_counts:
  fixes cls :: "('k, 'b) cache_super"
  assumes "float_rounding rnd" "super_contract cls" "unit_sized cls msz" "base_set_contract base_set"
    "c_get cls base = Map.empty" "card {k. stored_in k as} \<le> msz base" "length as < 2 ^ 53"
  shows "\<exists>g. gdsf_run rnd base_set hook as (gdsf_init cls base, w) = Some (g, w) \<and> gdsf_unit_cost rnd g \<and> g_cls g = cls \<and>
    msz (g_base g) = msz base \<and>
    g_freq g = (\<lambda>k. if stored_in k as then Some (1 + reads_since_stored k as) else None)"
  using assms(6,7)
proof (induction as rule: rev_induct)
  case Nil
  have "gdsf_inv rnd (gdsf_init cls base)" by (rule gdsf_inv_init[OF assms(1,2,5)])
  then show ?case using assms(3,5)
    by (auto simp: gdsf_unit_cost_def gdsf_init_def unit_sized_def stored_in_def)
next
  case (snoc a as)
  have fin: "finite {k. stored_in k bs}" for bs :: "'k access list"
    by (rule finite_subset[where B = "(\<lambda>a. case a of Stores k \<Rightarrow> k | Reads k \<Rightarrow> k) ` set bs"])
      (force simp: stored_in_def image_iff)+
  have "card {k. stored_in k as} \<le> card {k. stored_in k (as @ [a])}"
    by (intro card_mono fin) (auto simp: stored_in_snoc)
  with snoc obtain g where g: "gdsf_run rnd base_set hook as (gdsf_init cls base, w) = Some (g, w)" "gdsf_unit_cost rnd g"
    "g_cls g = cls" "msz (g_base g) = msz base" and
    freq: "g_freq g = (\<lambda>k. if stored_in k as then Some (1 + reads_since_stored k as) else None)" by auto
  have small: "f < 2 ^ 53" if "g_freq g k = Some f" for k f
    using that snoc.prems(2) reads_le[of k as] by (auto simp: freq split: if_splits)
  have inv: "gdsf_inv rnd g" using g(2) by (simp add: gdsf_unit_cost_def)
  show ?case
  proof (cases a)
    case (Stores k)
    have keys: "{k. stored_in k as} = dom (c_get cls (g_base g))"
      using gdsf_invD(3)[OF inv] by (auto simp: freq gdsf_keys_def g(3) dom_def split: if_splits)
    have ins: "{j. stored_in j (as @ [a])} = insert k {k. stored_in k as}" by (auto simp: stored_in_snoc Stores)
    have room: "gdsf_room k (VBool True) g" "\<not> gdsf_too_large (VBool True) g"
    proof -
      have "c_get cls (g_base g) k \<noteq> None \<or> card (dom (c_get cls (g_base g))) < msz (g_base g)"
        using snoc.prems(1) fin[of as] unfolding ins keys by (auto simp: card_insert_if g(4) split: if_splits)
      moreover have "0 < card (insert k {k. stored_in k as})" using fin[of as] by (simp add: card_gt_0_iff)
      then have "1 \<le> msz base" using snoc.prems(1) unfolding ins by linarith
      ultimately show "gdsf_room k (VBool True) g" "\<not> gdsf_too_large (VBool True) g"
        using assms(3) by (auto simp: gdsf_room_def gdsf_too_large_def unit_sized_def g(3,4))
    qed
    let ?g = "gdsf_store rnd k (VBool True) g"
    have u: "gdsf_unit_cost rnd ?g" by (rule gdsf_unit_cost_store[OF g(2)]) (use small in \<open>auto intro: less_imp_le\<close>)
    obtain p n where "?g = g\<lparr>g_base := c_store (g_cls g) (g_base g) k (VBool True), g_freq := (g_freq g)(k \<mapsto> n),
         g_prio := (g_prio g)(k \<mapsto> p), g_heap := heappush (p, g_counter g, k) (g_heap g),
         g_counter := Suc (g_counter g)\<rparr>" "n = (case g_freq g k of None \<Rightarrow> 1 | Some f \<Rightarrow> f)"
      by (rule gdsf_store_spec[OF inv, of "VBool True" k]) simp_all
    then have "g_freq ?g = (\<lambda>j. if stored_in j (as @ [a]) then Some (1 + reads_since_stored j (as @ [a])) else None)"
      by (auto simp: freq stored_in_snoc reads_snoc reads_unstored Stores fun_eq_iff)
    with g u gdsf_access_room[OF assms(4) room, of rnd hook w] gdsf_store_frame[OF inv, of "VBool True" k] assms(3)
    show ?thesis by (simp add: gdsf_run_append Stores unit_sized_maxsize(1))
  next
    case (Reads k)
    let ?g = "snd (gdsf_getitem rnd k g)"
    have u: "gdsf_unit_cost rnd ?g" by (rule gdsf_unit_cost_get[OF g(2)]) (use small in auto)
    have "g_cls ?g = g_cls g \<and> g_base ?g = g_base g \<and>
      g_freq ?g = (\<lambda>j. if stored_in j (as @ [a]) then Some (1 + reads_since_stored j (as @ [a])) else None)"
    proof (cases "c_get (g_cls g) (g_base g) k")
      case None
      then have "g_freq g k = None" using gdsf_invD(3)[OF inv] by (auto simp: gdsf_keys_def)
      then have "\<not> stored_in k as" by (auto simp: freq split: if_splits)
      then show ?thesis using None
        by (auto simp: gdsf_getitem_miss freq stored_in_snoc reads_snoc Reads fun_eq_iff)
    next
      case (Some v)
      from gdsf_hit_spec[OF inv Some] obtain f g' where f: "g_freq g k = Some f" "gdsf_getitem rnd k g = (Inr v, g')"
        "g_freq g' = (g_freq g)(k \<mapsto> f + 1)" "g_cls g' = g_cls g" "g_base g' = g_base g" by blast
      from f(1) have "stored_in k as" "f = 1 + reads_since_stored k as" by (auto simp: freq split: if_splits)
      with f show ?thesis by (auto simp: freq stored_in_snoc reads_snoc Reads fun_eq_iff)
    qed
    with g u show ?thesis by (simp add: gdsf_run_append Reads)
  qed
qed

section \<open>Properties\<close>

text \<open>Two cached keys with costs 3 and 8, exact floats.\<close>

definition sample_gdsf :: "(int, nat \<times> (int \<times> pyval) list) gdsf" where
  "sample_gdsf = gdsf_store (\<lambda>x. x) 2 (VFloat 3) (gdsf_store (\<lambda>x. x) 1 (VFloat 8) (gdsf_init list_cls (5, [])))"

lemma sample_gdsf_inv: "gdsf_inv (\<lambda>x. x) sample_gdsf" "gdsf_keys sample_gdsf = {1, 2}"
proof -
  have g0: "gdsf_inv (\<lambda>x. x) (gdsf_init list_cls (5, []) :: (int, nat \<times> (int \<times> pyval) list) gdsf)"
    by (rule gdsf_inv_init[OF float_rounding_id list_cls_contract]) (simp add: list_cls_def)
  note g1 = gdsf_store_inv[OF g0, of "VFloat 8" 1]
  show "gdsf_inv (\<lambda>x. x) sample_gdsf" unfolding sample_gdsf_def
    by (rule gdsf_store_inv(1)) (use g1 in simp_all)
  have "gdsf_keys (gdsf_init list_cls (5, []) :: (int, nat \<times> (int \<times> pyval) list) gdsf) = {}"
    by (simp add: gdsf_keys_def gdsf_init_def list_cls_def)
  then show "gdsf_keys sample_gdsf = {1, 2}" unfolding sample_gdsf_def
    using gdsf_store_inv(2)[OF g1(1), of "VFloat 3" 2] g1(2) by auto
qed

text \<open>
  C12. \<open>popitem\<close> evicts correctly in spite of the lazy heap, which holds stale entries: on a cache that is
  not empty it never raises, the key it returns is cached with the returned value and has the least
  current priority of all cached keys, exactly this key leaves the three dictionaries, the inflation
  value becomes its priority and never goes down, and the class invariant is kept (every priority
  has its heap entry and is at least the inflation value). On an empty cache it raises \<open>KeyError\<close>.
\<close>

theorem gdsf_popitem_evicts_least:
  assumes "gdsf_inv rnd g"
  shows "(gdsf_keys g = {} \<longrightarrow> fst (gdsf_popitem g) = Inl KeyError) \<and>
    (gdsf_keys g \<noteq> {} \<longrightarrow> (\<exists>k v g' p. gdsf_popitem g = (Inr (k, v), g') \<and>
      c_get (g_cls g) (g_base g) k = Some v \<and> g_prio g k = Some p \<and>
      (\<forall>k' p'. g_prio g k' = Some p' \<longrightarrow> p \<le> p') \<and>
      c_get (g_cls g') (g_base g') = (c_get (g_cls g) (g_base g))(k := None) \<and>
      g_freq g' = (g_freq g)(k := None) \<and> g_prio g' = (g_prio g)(k := None) \<and>
      g_inflation g' = p \<and> g_inflation g \<le> g_inflation g' \<and> gdsf_inv rnd g'))"
proof (intro conjI impI)
  show "gdsf_keys g = {} \<Longrightarrow> fst (gdsf_popitem g) = Inl KeyError"
    using gdsf_popitem_empty[OF assms] by simp
  assume "gdsf_keys g \<noteq> {}"
  from gdsf_popitem_spec[OF assms this] obtain k v g' where pop: "gdsf_popitem g = (Inr (k, v), g')"
    "gdsf_pop_post g k v g'" "gdsf_inv rnd g'" by blast
  with gdsf_pop_inflation[OF assms pop(2)]
  show "\<exists>k v g' p. gdsf_popitem g = (Inr (k, v), g') \<and>
      c_get (g_cls g) (g_base g) k = Some v \<and> g_prio g k = Some p \<and>
      (\<forall>k' p'. g_prio g k' = Some p' \<longrightarrow> p \<le> p') \<and>
      c_get (g_cls g') (g_base g') = (c_get (g_cls g) (g_base g))(k := None) \<and>
      g_freq g' = (g_freq g)(k := None) \<and> g_prio g' = (g_prio g)(k := None) \<and>
      g_inflation g' = p \<and> g_inflation g \<le> g_inflation g' \<and> gdsf_inv rnd g'"
    unfolding gdsf_pop_post_def by blast
qed

theorem gdsf_popitem_evicts_least_witness:
  "\<exists>k v g' p. gdsf_popitem sample_gdsf = (Inr (k, v), g') \<and> g_prio sample_gdsf k = Some p \<and> g_inflation g' = p"
  using gdsf_popitem_evicts_least[OF sample_gdsf_inv(1)] sample_gdsf_inv(2) by blast

text \<open>
  A hit returns the stored value, adds one to the key's frequency, and gives the key the priority
  \<open>L + frequency * cost / size\<close> (rounded at every step) for the inflation value \<open>L\<close> of that moment;
  the cached items and \<open>L\<close> stay as they are and the class invariant is kept. A miss raises \<open>KeyError\<close>
  and changes nothing.
\<close>

theorem gdsf_getitem_reprioritises:
  assumes "gdsf_inv rnd g"
  shows "case c_get (g_cls g) (g_base g) key of
      None \<Rightarrow> gdsf_getitem rnd key g = (Inl KeyError, g)
    | Some v \<Rightarrow> \<exists>f g'. g_freq g key = Some f \<and> gdsf_getitem rnd key g = (Inr v, g') \<and>
        g_freq g' = (g_freq g)(key \<mapsto> f + 1) \<and>
        g_prio g' = (g_prio g)(key \<mapsto> rnd (g_inflation g +
          rnd (rnd (rnd (real (f + 1)) * cost_of rnd v) / rnd (real (gdsf_size g v))))) \<and>
        g_base g' = g_base g \<and> g_inflation g' = g_inflation g \<and> gdsf_inv rnd g'"
proof (cases "c_get (g_cls g) (g_base g) key")
  case None
  then show ?thesis by (simp add: gdsf_getitem_miss)
next
  case (Some v)
  with gdsf_hit_spec[OF assms Some] show ?thesis by (auto simp: gdsf_priority_def)
qed

theorem gdsf_getitem_reprioritises_witness:
  "gdsf_getitem (\<lambda>x. x) 7 sample_gdsf = (Inl KeyError, sample_gdsf)"
proof -
  have "7 \<notin> gdsf_keys sample_gdsf" by (simp add: sample_gdsf_inv(2))
  then have "c_get (g_cls sample_gdsf) (g_base sample_gdsf) 7 = None" by (simp add: gdsf_keys_def domIff)
  with gdsf_getitem_reprioritises[OF sample_gdsf_inv(1), of 7] show ?thesis by simp
qed

text \<open>
  The heap grows by one entry with every hit and a hit never removes one: after \<open>n\<close> hits on a cached
  key the cache holds the same keys and its heap \<open>n\<close> more entries, so its size is not bounded
  by the number of cached keys.
\<close>

theorem gdsf_heap_grows:
  assumes "gdsf_inv rnd g" "key \<in> gdsf_keys g"
  shows "length (g_heap (gdsf_hits rnd key n g)) = length (g_heap g) + n \<and>
    gdsf_keys (gdsf_hits rnd key n g) = gdsf_keys g"
  using gdsf_hits_spec[OF assms] by blast

theorem gdsf_heap_grows_witness:
  "length (g_heap (gdsf_hits (\<lambda>x. x) 1 1000 sample_gdsf)) = 1002"
proof -
  have "length (g_heap sample_gdsf) = 2"
    by (simp add: sample_gdsf_def gdsf_store_def gdsf_stored_def gdsf_push_def gdsf_init_def Let_def list_cls_def)
  with gdsf_heap_grows[OF sample_gdsf_inv(1), of 1 1000] show ?thesis by (simp add: sample_gdsf_inv(2))
qed

text \<open>
  C19. With \<open>True\<close> stored for every key the policy is least-frequently-used until the first eviction. After any
  sequence of \<open>cache[key] = True\<close> and \<open>cache[key]\<close> on an empty cache, in which no more than \<open>maxsize\<close> different keys are
  stored (below \<open>2 ^ 53\<close> accesses, where float counting stops being exact), nothing has been evicted, the cached keys are the
  stored ones, and the key that \<open>popitem\<close> then evicts has been read the least number of times since it was
  first stored, counted on the sequence itself.
\<close>

theorem gdsf_unit_cost_is_lfu:
  fixes cls :: "('k, 'b) cache_super"
  assumes "float_rounding rnd" "super_contract cls" "unit_sized cls maxsize" "base_set_contract base_set"
    and "c_get cls base = Map.empty" and "card {k. stored_in k as} \<le> maxsize base" and "length as < 2 ^ 53"
  shows "\<exists>g. gdsf_run rnd base_set hook as (gdsf_init cls base, w) = Some (g, w) \<and> gdsf_keys g = {k. stored_in k as} \<and>
    ((\<exists>k. stored_in k as) \<longrightarrow> (\<exists>k v g'. gdsf_popitem g = (Inr (k, v), g') \<and> stored_in k as \<and> gdsf_keys g' = gdsf_keys g - {k} \<and>
      (\<forall>k'. stored_in k' as \<longrightarrow> reads_since_stored k as \<le> reads_since_stored k' as)))"
proof -
  from gdsf_run_counts[OF assms] obtain g where g: "gdsf_run rnd base_set hook as (gdsf_init cls base, w) = Some (g, w)"
    "gdsf_unit_cost rnd g" and freq: "g_freq g = (\<lambda>k. if stored_in k as then Some (1 + reads_since_stored k as) else None)"
    by blast
  have inv: "gdsf_inv rnd g" using g(2) by (simp add: gdsf_unit_cost_def)
  have keys: "gdsf_keys g = {k. stored_in k as}"
    using gdsf_invD(3)[OF inv] by (auto simp: freq dom_def split: if_splits)
  have "\<exists>k v g'. gdsf_popitem g = (Inr (k, v), g') \<and> stored_in k as \<and> gdsf_keys g' = gdsf_keys g - {k} \<and>
      (\<forall>k'. stored_in k' as \<longrightarrow> reads_since_stored k as \<le> reads_since_stored k' as)" if "\<exists>k. stored_in k as"
  proof -
    from that keys have "gdsf_keys g \<noteq> {}" by blast
    from gdsf_popitem_spec[OF inv this] obtain k v g' where pop: "gdsf_popitem g = (Inr (k, v), g')"
      and post: "gdsf_pop_post g k v g'" by blast
    from gdsf_pop_post_keys[OF post] have k: "stored_in k as" "gdsf_keys g' = gdsf_keys g - {k}" by (auto simp: keys)
    have prio: "g_prio g j = Some (real (1 + reads_since_stored j as))" if "stored_in j as" for j
      using g(2) that by (simp add: gdsf_unit_cost_def freq)
    have "reads_since_stored k as \<le> reads_since_stored k' as" if "stored_in k' as" for k'
      using post prio[OF k(1)] prio[OF that] unfolding gdsf_pop_post_def by fastforce
    with pop k show ?thesis by blast
  qed
  with g(1) keys show ?thesis by blast
qed

definition sample_accesses :: "int access list" where
  "sample_accesses = [Stores 1, Stores 2, Reads 2, Stores 2, Reads 1, Reads 1]"

theorem gdsf_unit_cost_is_lfu_witness:
  "\<exists>g v g'. gdsf_run (\<lambda>x. x) run_base_set (\<lambda>s. (Inl KeyError, s)) sample_accesses (gdsf_init list_cls (5, []), ()) = Some (g, ()) \<and>
    gdsf_popitem g = (Inr (2, v), g')"
proof -
  have stored: "stored_in k sample_accesses \<longleftrightarrow> k = 1 \<or> k = 2" for k by (auto simp: stored_in_def sample_accesses_def)
  then have "{k. stored_in k sample_accesses} = {1, 2}" by auto
  then have card: "card {k. stored_in k sample_accesses} \<le> fst (5 :: nat, [] :: (int \<times> pyval) list)" by simp
  have empty: "c_get list_cls (5, [] :: (int \<times> pyval) list) = Map.empty" by simp
  have len: "length sample_accesses < 2 ^ 53" by (simp add: sample_accesses_def)
  have reads: "reads_since_stored 1 sample_accesses = 2" "reads_since_stored 2 sample_accesses = 1"
    by (simp_all add: reads_since_stored_def sample_accesses_def)
  from gdsf_unit_cost_is_lfu[OF float_rounding_id list_cls_contract list_cls_unit run_base_set_contract empty card len,
      of "\<lambda>s. (Inl KeyError, s)" "()"] obtain g k v g' where
    "gdsf_run (\<lambda>x. x) run_base_set (\<lambda>s. (Inl KeyError, s)) sample_accesses (gdsf_init list_cls (5, []), ()) = Some (g, ())"
    "gdsf_popitem g = (Inr (k, v), g')" "stored_in k sample_accesses"
    "\<forall>k'. stored_in k' sample_accesses \<longrightarrow> reads_since_stored k sample_accesses \<le> reads_since_stored k' sample_accesses"
    using stored by blast
  moreover from this(3,4) reads have "k = 2" using stored by fastforce
  ultimately show ?thesis by blast
qed

end
