(* ===== verification/Eviction.thy ===== *)
theory Eviction
  imports Gdsf
begin

text \<open>
  The in-memory eviction layer (\<open>gptcache/manager/eviction/\<close>): \<open>popitem_wrapper\<close> and
  \<open>MemoryCacheEviction\<close> of \<open>memory_cache.py\<close>, the factory of \<open>manager.py\<close> and the no-op eviction of
  \<open>distributed_cache.py\<close>. The cache object is any object with the methods of \<open>cache_methods\<close>; for
  the policy GDSF they are the ones of Gdsf.

  The state of an operation is the pair of the eviction object and the world that \<open>on_evict\<close>
  changes. A call that does not return has the value \<open>None\<close>.
\<close>

section \<open>popitem\_wrapper\<close>

text \<open>The list comprehension \<open>[func()[0] for _ in range(n)]\<close>.\<close>

fun pop_n :: "nat \<Rightarrow> ('c \<Rightarrow> ('k \<times> 'v, 'c) outcome) \<Rightarrow> 'c \<Rightarrow> ('k list, 'c) outcome" where
  "pop_n 0 popitem c = (Inr [], c)"
| "pop_n (Suc n) popitem c =
     bind_out (popitem c) (\<lambda>(k, v) c'. bind_out (pop_n n popitem c') (\<lambda>ks c''. (Inr (k # ks), c'')))"

type_synonym ('k, 'w) on_evict = "('k list \<Rightarrow> 'w \<Rightarrow> (unit, 'w) outcome) option"

definition call_on_evict :: "('k, 'w) on_evict \<Rightarrow> 'k list \<Rightarrow> 'w \<Rightarrow> (unit, 'w) outcome" where
  "call_on_evict f ks w = (case f of None \<Rightarrow> (Inl TypeError, w) | Some g \<Rightarrow> g ks w)"

definition popitem_wrapper ::
  "('c \<Rightarrow> ('k \<times> 'v, 'c) outcome) \<Rightarrow> ('k, 'w) on_evict \<Rightarrow> int \<Rightarrow> 'c \<times> 'w \<Rightarrow> (unit, 'c \<times> 'w) outcome" where
  "popitem_wrapper func wrapper_func clean_size = (\<lambda>(c, w).
     case try_except (\<lambda>e. e = KeyError) (pop_n (nat clean_size) func c) (\<lambda>c'. (Inr [], c')) of
       (Inl e, c') \<Rightarrow> (Inl e, (c', w))
     | (Inr keys, c') \<Rightarrow> (case call_on_evict wrapper_func keys w of (r, w') \<Rightarrow> (r, (c', w'))))"

section \<open>MemoryCacheEviction\<close>

datatype policy_kind = LRU | LFU | FIFO | RR | GDSF

definition select_policy :: "string \<Rightarrow> policy_kind result" where
  "select_policy policy =
     (let p = py_upper policy
      in if p = ''LRU'' then Inr LRU
         else if p = ''LFU'' then Inr LFU
         else if p = ''FIFO'' then Inr FIFO
         else if p = ''RR'' then Inr RR
         else if p = ''GDSF'' then Inr GDSF
         else Inl ValueError)"

record ('k, 'c, 'w) mem_eviction =
  me_policy :: string
  me_cache :: 'c
  me_methods :: "('k, 'c, 'w) cache_methods"
  me_clean :: int
  me_on_evict :: "('k, 'w) on_evict"

text \<open>
  \<open>new_cache\<close> builds the cache object of a policy with the given \<open>maxsize\<close>: its initial state and its
  methods (\<open>cachetools\<close> for the first four policies).
\<close>

definition mem_init ::
  "(policy_kind \<Rightarrow> int \<Rightarrow> 'c \<times> ('k, 'c, 'w) cache_methods) \<Rightarrow> string \<Rightarrow> int \<Rightarrow> int \<Rightarrow> ('k, 'w) on_evict
   \<Rightarrow> ('k, 'c, 'w) mem_eviction result" where
  "mem_init new_cache policy maxsize clean_size on_evict =
     bind_res (select_policy policy) (\<lambda>kind.
       Inr \<lparr>me_policy = py_upper policy, me_cache = fst (new_cache kind maxsize),
            me_methods = snd (new_cache kind maxsize), me_clean = clean_size, me_on_evict = on_evict\<rparr>)"

text \<open>\<open>self._cache[obj] = value\<close>, with the instance's replaced \<open>popitem\<close>.\<close>

definition mem_set ::
  "'k \<Rightarrow> pyval \<Rightarrow> ('k, 'c, 'w) mem_eviction \<times> 'w \<Rightarrow> (unit, ('k, 'c, 'w) mem_eviction \<times> 'w) outcome option"
where
  "mem_set obj value = (\<lambda>(e, w).
     case m_setitem (me_methods e)
            (popitem_wrapper (m_popitem (me_methods e)) (me_on_evict e) (me_clean e))
            obj value (me_cache e, w) of
       None \<Rightarrow> None
     | Some (r, (c, w')) \<Rightarrow> Some (r, (e\<lparr>me_cache := c\<rparr>, w')))"

definition cost_value :: "real list option \<Rightarrow> nat \<Rightarrow> pyval result" where
  "cost_value costs i =
     (case costs of
        None \<Rightarrow> Inr (VBool True)
      | Some cs \<Rightarrow> bind_res (py_nth cs i) (\<lambda>c. Inr (VFloat c)))"

text \<open>The loop of \<open>put\<close>; \<open>i\<close> is the index that \<open>enumerate\<close> counts.\<close>

fun mem_put_from ::
  "nat \<Rightarrow> 'k list \<Rightarrow> real list option \<Rightarrow> ('k, 'c, 'w) mem_eviction \<times> 'w
   \<Rightarrow> (unit, ('k, 'c, 'w) mem_eviction \<times> 'w) outcome option" where
  "mem_put_from i [] costs s = Some (Inr (), s)"
| "mem_put_from i (obj # objs) costs s =
     (case cost_value costs i of
        Inl e \<Rightarrow> Some (Inl e, s)
      | Inr value \<Rightarrow>
          (case mem_set obj value s of
             None \<Rightarrow> None
           | Some (Inl e, s') \<Rightarrow> Some (Inl e, s')
           | Some (Inr u, s') \<Rightarrow> mem_put_from (Suc i) objs costs s'))"

definition mem_put ::
  "'k list \<Rightarrow> real list option \<Rightarrow> ('k, 'c, 'w) mem_eviction \<times> 'w
   \<Rightarrow> (unit, ('k, 'c, 'w) mem_eviction \<times> 'w) outcome option" where
  "mem_put objs costs s = mem_put_from 0 objs costs s"

definition mem_get ::
  "'k \<Rightarrow> ('k, 'c, 'w) mem_eviction \<Rightarrow> (pyval option, ('k, 'c, 'w) mem_eviction) outcome" where
  "mem_get obj e =
     (case mapping_get (m_getitem (me_methods e)) obj (me_cache e) of
        (r, c) \<Rightarrow> (r, e\<lparr>me_cache := c\<rparr>))"

section \<open>The factory EvictionBase.get and NoOpEviction\<close>

datatype eviction_choice =
    MemoryChoice string int int
  | RedisChoice "string option"
  | NoOpChoice

definition default_clean_size :: "(real \<Rightarrow> real) \<Rightarrow> int \<Rightarrow> int" where
  "default_clean_size rnd maxsize = py_int (rnd (rnd (of_int maxsize) * rnd (1 / 5)))"

text \<open>\<open>clean_size\<close> may be \<open>None\<close>; \<open>not clean_size\<close> holds for \<open>None\<close> and \<open>0\<close>.\<close>

definition eviction_get ::
  "(real \<Rightarrow> real) \<Rightarrow> string \<Rightarrow> string \<Rightarrow> int \<Rightarrow> int option \<Rightarrow> eviction_choice result" where
  "eviction_get rnd name policy maxsize clean_size =
     (let clean = (case clean_size of
                     None \<Rightarrow> default_clean_size rnd maxsize
                   | Some n \<Rightarrow> if n = 0 then default_clean_size rnd maxsize else n)
      in if py_in name ''memory'' then Inr (MemoryChoice policy maxsize clean)
         else if name = ''redis'' then Inr (RedisChoice (if policy = ''LRU'' then None else Some policy))
         else if name = ''no_op_eviction'' then Inr NoOpChoice
         else Inl (NotFoundError ''eviction base'' name))"

definition noop_put :: "'k list \<Rightarrow> real list option \<Rightarrow> 's \<Rightarrow> (unit, 's) outcome" where
  "noop_put objs costs s = (Inr (), s)"

definition noop_get :: "'k \<Rightarrow> 's \<Rightarrow> (pyval option, 's) outcome" where
  "noop_get obj s = (Inr None, s)"

section \<open>Laws of the wrapped cache\<close>

text \<open>\<open>m\<close> is the method table of a cache object that implements the policy of the locale.\<close>

definition policy_methods where
  "policy_methods popitem getitem store room too_large m \<longleftrightarrow>
     m_popitem m = popitem \<and> m_getitem m = getitem \<and>
     setitem_contract (m_setitem m) (\<lambda>v (c, w). too_large v c) (\<lambda>k v (c, w). room k v c)
       (\<lambda>k v (c, w). (store k v c, w))"

lemma policy_methodsD:
  assumes "policy_methods popitem getitem store room too_large m"
  shows "m_popitem m = popitem" "m_getitem m = getitem"
    "m_setitem m hook k v s = Some r \<longleftrightarrow>
       setitem_run (\<lambda>(c, w). too_large v c) (\<lambda>(c, w). room k v c) (\<lambda>(c, w). (store k v c, w)) hook s r"
  using assms unfolding policy_methods_def setitem_contract_def by blast+

context cache_policy
begin

lemma pop_n_enough:
  assumes "inv c" "n \<le> card (keys c)"
  shows "\<exists>ks c'. pop_n n popitem c = (Inr ks, c') \<and> set ks \<subseteq> keys c \<and> distinct ks \<and> length ks = n \<and>
    keys c' = keys c - set ks \<and> inv c' \<and> maxsize c' = maxsize c"
  using assms
proof (induction n arbitrary: c)
  case (Suc n)
  then have "keys c \<noteq> {}" by auto
  with pop_some[OF Suc.prems(1)] obtain k v c1 where pop: "popitem c = (Inr (k, v), c1)"
    and k: "k \<in> keys c" "keys c1 = keys c - {k}" and c1: "inv c1" "maxsize c1 = maxsize c" by blast
  have "n \<le> card (keys c1)"
    using pop_card[OF Suc.prems(1) \<open>keys c \<noteq> {}\<close> pop] Suc.prems(2) by simp
  with Suc.IH[OF c1(1)] obtain ks c' where "pop_n n popitem c1 = (Inr ks, c')"
    "set ks \<subseteq> keys c1" "distinct ks" "length ks = n" "keys c' = keys c1 - set ks" "inv c'"
    "maxsize c' = maxsize c1" by blast
  with pop k c1 show ?case by (intro exI[of _ "k # ks"] exI[of _ c']) auto
qed simp

lemma pop_n_short:
  assumes "inv c" "card (keys c) < n"
  shows "\<exists>c'. pop_n n popitem c = (Inl KeyError, c') \<and> keys c' = {} \<and> inv c' \<and> maxsize c' = maxsize c"
  using assms
proof (induction n arbitrary: c)
  case (Suc n)
  show ?case
  proof (cases "keys c = {}")
    case True
    with pop_empty[OF Suc.prems(1)] show ?thesis by force
  next
    case False
    with pop_some[OF Suc.prems(1)] obtain k v c1 where pop: "popitem c = (Inr (k, v), c1)"
      and c1: "inv c1" "maxsize c1 = maxsize c" by blast
    have "card (keys c1) < n" using pop_card[OF Suc.prems(1) False pop] Suc.prems(2) by simp
    from Suc.IH[OF c1(1) this] pop c1(2) show ?thesis by auto
  qed
qed simp

lemma wrapper_enough:
  assumes "inv c" "n \<le> int (card (keys c))"
  obtains ks c' where "set ks \<subseteq> keys c" "distinct ks" "length ks = nat n"
    "keys c' = keys c - set ks" "inv c'" "maxsize c' = maxsize c"
    "popitem_wrapper popitem f n (c, w) =
       (fst (call_on_evict f ks w), (c', snd (call_on_evict f ks w)))"
    "pop_n (nat n) popitem c = (Inr ks, c')"
proof -
  have "nat n \<le> card (keys c)" using assms(2) by simp
  with pop_n_enough[OF assms(1), of "nat n"] that show thesis
    by (auto simp: popitem_wrapper_def split: prod.splits)
qed

text \<open>
  When fewer items are cached than \<open>clean_size\<close>, the comprehension is interrupted before \<open>keys\<close> is
  assigned: everything is evicted, and \<open>on_evict\<close> is told of nothing.
\<close>

lemma wrapper_short:
  assumes "inv c" "int (card (keys c)) < n"
  obtains c' where "keys c' = {}" "inv c'" "maxsize c' = maxsize c"
    "popitem_wrapper popitem f n (c, w) =
       (fst (call_on_evict f [] w), (c', snd (call_on_evict f [] w)))"
proof -
  have "card (keys c) < nat n" using assms(2) by simp
  with pop_n_short[OF assms(1), of "nat n"] that show thesis
    by (auto simp: popitem_wrapper_def split: prod.splits)
qed

lemma setitem_room:
  assumes m: "policy_methods popitem getitem store room too_large m"
    and c: "inv c" "1 \<le> maxsize c" "k \<in> keys c \<or> card (keys c) < maxsize c"
  shows "m_setitem m hook k v (c, w) = Some (Inr (), (store k v c, w))"
proof -
  have "setitem_run (\<lambda>(c, w). too_large v c) (\<lambda>(c, w). room k v c) (\<lambda>(c, w). (store k v c, w)) hook
      (c, w) (Inr (), (\<lambda>(c, w). (store k v c, w)) (c, w))"
    by (rule run_store) (use c in \<open>auto simp: large_iff room_iff\<close>)
  then show ?thesis using policy_methodsD(3)[OF m] by simp
qed

lemma setitem_full:
  assumes m: "policy_methods popitem getitem store room too_large m"
    and c: "inv c" "1 \<le> maxsize c" "k \<notin> keys c" "card (keys c) = maxsize c"
    and n: "1 \<le> n" "n \<le> int (maxsize c)"
  obtains ks c' where "set ks \<subseteq> keys c" "distinct ks" "length ks = nat n"
    "keys c' = keys c - set ks" "inv c'" "maxsize c' = maxsize c"
    "m_setitem m (popitem_wrapper popitem f n) k v (c, w) =
       (case call_on_evict f ks w of
          (Inl e, w') \<Rightarrow> Some (Inl e, (c', w'))
        | (Inr u, w') \<Rightarrow> Some (Inr (), (store k v c', w')))"
    "pop_n (nat n) popitem c = (Inr ks, c')"
proof -
  let ?run = "setitem_run (\<lambda>(c, w). too_large v c) (\<lambda>(c, w). room k v c)
    (\<lambda>(c, w). (store k v c, w)) (popitem_wrapper popitem f n)"
  have no_room: "\<not> (\<lambda>(c, w). too_large v c) (c, w)" "\<not> (\<lambda>(c, w). room k v c) (c, w)"
    using c by (auto simp: large_iff room_iff)
  from n(2) c(4) have "n \<le> int (card (keys c))" by simp
  from wrapper_enough[OF c(1) this] obtain ks c' where ks: "set ks \<subseteq> keys c" "distinct ks"
    "length ks = nat n" "keys c' = keys c - set ks" "inv c'" "maxsize c' = maxsize c"
    and pop: "popitem_wrapper popitem f n (c, w) =
       (fst (call_on_evict f ks w), (c', snd (call_on_evict f ks w)))"
    and popn: "pop_n (nat n) popitem c = (Inr ks, c')" by metis
  have "hd ks \<in> set ks" using n(1) ks(3) by (cases ks) auto
  with ks(1,4) have "keys c' \<subset> keys c" by auto
  then have "card (keys c') < maxsize c'"
    using psubset_card_mono[OF keys_finite[OF c(1)]] c(4) ks(6) by simp
  then have room: "\<not> (\<lambda>(c, w). too_large v c) (c', w')" "(\<lambda>(c, w). room k v c) (c', w')" for w'
    using ks(5) by (auto simp: large_iff room_iff)
  obtain r w' where call: "call_on_evict f ks w = (r, w')" by fastforce
  have "?run (c, w) (case r of Inl e \<Rightarrow> (Inl e, (c', w')) | Inr u \<Rightarrow> (Inr (), (store k v c', w')))"
  proof (cases r)
    case (Inl e)
    with no_room pop call show ?thesis by (simp add: setitem_run_simps(3))
  next
    case (Inr u)
    have "?run (c', w') (Inr (), (store k v c', w'))" using room[of w'] by (simp add: setitem_run_simps(2))
    with Inr no_room pop call show ?thesis by (simp add: setitem_run_simps(4))
  qed
  with policy_methodsD(3)[OF m] have
    "m_setitem m (popitem_wrapper popitem f n) k v (c, w) =
       Some (case r of Inl e \<Rightarrow> (Inl e, (c', w')) | Inr u \<Rightarrow> (Inr (), (store k v c', w')))" by simp
  with that[OF ks _ popn] call show thesis by (simp split: sum.splits)
qed

text \<open>Evicting more than is cached: everything goes and \<open>on_evict\<close> hears of nothing.\<close>

lemma setitem_overclean:
  assumes m: "policy_methods popitem getitem store room too_large m"
    and c: "inv c" "1 \<le> maxsize c" "k \<notin> keys c" "card (keys c) = maxsize c" and n: "int (maxsize c) < n"
    and f: "call_on_evict f [] w = (Inr (), w')"
  obtains c' where "keys c' = {}" "inv c'" "maxsize c' = maxsize c"
    "m_setitem m (popitem_wrapper popitem f n) k v (c, w) = Some (Inr (), (store k v c', w'))"
proof -
  from n c(4) have "int (card (keys c)) < n" by simp
  from wrapper_short[OF c(1) this, of f w] f obtain c' where c': "keys c' = {}" "inv c'" "maxsize c' = maxsize c"
    and pop: "popitem_wrapper popitem f n (c, w) = (Inr (), (c', w'))" by (metis fst_conv snd_conv)
  let ?run = "setitem_run (\<lambda>(c, w). too_large v c) (\<lambda>(c, w). room k v c)
    (\<lambda>(c, w). (store k v c, w)) (popitem_wrapper popitem f n)"
  have "?run (c', w') (Inr (), (store k v c', w'))"
    using c' c(2) by (simp add: setitem_run_simps(2) room_iff large_iff)
  then have "?run (c, w) (Inr (), (store k v c', w'))"
    using c pop by (simp add: setitem_run_simps(4) room_iff large_iff)
  then show thesis using that[OF c'] policy_methodsD(3)[OF m] by blast
qed

text \<open>Evicting nothing from a full cache, the assignment repeats for ever.\<close>

lemma setitem_diverges:
  assumes m: "policy_methods popitem getitem store room too_large m"
    and c: "inv c" "1 \<le> maxsize c" "k \<notin> keys c" "card (keys c) = maxsize c" and n: "n \<le> 0"
    and W: "W w" "\<And>w. W w \<Longrightarrow> \<exists>w'. call_on_evict f [] w = (Inr (), w') \<and> W w'"
  shows "m_setitem m (popitem_wrapper popitem f n) k v (c, w) = None"
proof (rule ccontr)
  assume "\<not> ?thesis"
  then obtain r where "m_setitem m (popitem_wrapper popitem f n) k v (c, w) = Some r" by blast
  with policy_methodsD(3)[OF m] have run: "setitem_run (\<lambda>(c, w). too_large v c) (\<lambda>(c, w). room k v c)
    (\<lambda>(c, w). (store k v c, w)) (popitem_wrapper popitem f n) (c, w) r" by blast
  show False
  proof (rule setitem_run_stuck[OF run, where Q = "\<lambda>(c', w). c' = c \<and> W w"])
    fix s assume "case s of (c', w) \<Rightarrow> c' = c \<and> W w"
    with n W(2) c show "\<not> (case s of (c, w) \<Rightarrow> too_large v c) \<and> \<not> (case s of (c, w) \<Rightarrow> room k v c) \<and>
        (\<exists>s'. popitem_wrapper popitem f n s = (Inr (), s') \<and> (case s' of (c', w) \<Rightarrow> c' = c \<and> W w))"
      by (cases s) (fastforce simp: popitem_wrapper_def large_iff room_iff)
  qed (use W(1) in simp)
qed

end

section \<open>The cache object of the policy GDSF\<close>

definition gdsf_methods where
  "gdsf_methods rnd base_set =
     \<lparr>m_popitem = gdsf_popitem, m_setitem = gdsf_setitem rnd base_set, m_getitem = gdsf_getitem rnd\<rparr>"

lemma gdsf_policy_methods:
  "base_set_contract base_set \<Longrightarrow>
     policy_methods gdsf_popitem (gdsf_getitem rnd) (gdsf_store rnd) gdsf_room gdsf_too_large
       (gdsf_methods rnd base_set)"
  by (simp add: policy_methods_def gdsf_methods_def gdsf_setitem_contract)

lemma gdsf_pop_n:
  "gdsf_inv rnd g \<Longrightarrow> pop_n n gdsf_popitem g = (Inr ks, g') \<Longrightarrow> gdsf_pops g ks g' \<and> gdsf_inv rnd g'"
proof (induction n arbitrary: g ks)
  case (Suc n)
  from Suc.prems(2) obtain k v g1 ks' where pop: "gdsf_popitem g = (Inr (k, v), g1)"
    "pop_n n gdsf_popitem g1 = (Inr ks', g')" "ks = k # ks'"
    by (auto simp: bind_out_Inr_iff)
  with gdsf_popitem_cases[OF Suc.prems(1) pop(1)] Suc.IH[of g1 ks'] show ?case by auto
qed auto

lemma default_clean_size_small:
  assumes rnd: "float_rounding rnd" and n: "0 \<le> n" "n < 5"
  shows "default_clean_size rnd n = 0"
proof -
  note mono = rnd_mono[OF rnd]
  have dy: "rnd (of_int m / 2 ^ 7) = of_int m / 2 ^ 7" if "\<bar>m\<bar> \<le> 2 ^ 53" for m
    by (rule rnd_dyadic[OF rnd that]) simp
  have "rnd (1 / 5) \<le> rnd (of_int 27 / 2 ^ 7)" by (rule mono) simp
  then have fifth: "rnd (1 / 5) \<le> 27 / 128" using dy[of 27] by simp
  have "0 \<le> rnd (1 / 5)" by (rule rnd_nonneg[OF rnd]) simp
  moreover have rn: "rnd (of_int n) = of_int n" by (rule rnd_int[OF rnd]) (use n in simp)
  ultimately have pos: "0 \<le> rnd (rnd (of_int n) * rnd (1 / 5))" using n by (intro rnd_nonneg[OF rnd]) simp
  have "rnd (of_int n) * rnd (1 / 5) \<le> 4 * (27 / 128)"
    unfolding rn using n fifth by (intro mult_mono) (simp_all add: rnd_nonneg[OF rnd])
  then have "rnd (rnd (of_int n) * rnd (1 / 5)) \<le> rnd (of_int 108 / 2 ^ 7)" by (intro mono) simp
  then have "rnd (rnd (of_int n) * rnd (1 / 5)) < 1" using dy[of 108] by simp
  with pos show ?thesis by (simp add: default_clean_size_def py_int_def floor_eq_iff)
qed

section \<open>Properties\<close>

text \<open>A GDSF eviction object holding key 1 with cost 8, with room for one key; \<open>on_evict\<close> records the keys.\<close>

definition one_key_eviction ::
  "int \<Rightarrow> (int, (int, nat \<times> (int \<times> pyval) list) gdsf, int list list) mem_eviction" where
  "one_key_eviction k = \<lparr>me_policy = ''GDSF'',
     me_cache = gdsf_store (\<lambda>x. x) 1 (VFloat 8) (gdsf_init list_cls (1, [])),
     me_methods = gdsf_methods (\<lambda>x. x) run_base_set, me_clean = k,
     me_on_evict = Some (\<lambda>ks log. (Inr (), ks # log))\<rparr>"

lemma one_key_eviction:
  "policy_methods gdsf_popitem (gdsf_getitem (\<lambda>x. x)) (gdsf_store (\<lambda>x. x)) gdsf_room gdsf_too_large
     (me_methods (one_key_eviction k))"
  "gdsf_policy_inv (\<lambda>x. x) fst (me_cache (one_key_eviction k))"
  "gdsf_keys (me_cache (one_key_eviction k)) = {1}" "gdsf_maxsize fst (me_cache (one_key_eviction k)) = 1"
  "me_clean (one_key_eviction k) = k"
  "me_on_evict (one_key_eviction k) = Some (\<lambda>ks log. (Inr (), ks # log))"
proof -
  let ?g = "gdsf_init list_cls (1, []) :: (int, nat \<times> (int \<times> pyval) list) gdsf"
  have get: "c_get list_cls (1, []) = Map.empty" by (simp add: list_cls_def)
  have inv: "gdsf_policy_inv (\<lambda>x. x) fst ?g"
    using gdsf_inv_init[where base = "(1, [])", OF float_rounding_id list_cls_contract get] list_cls_unit
    by (simp add: gdsf_policy_inv_def gdsf_init_def)
  have keys: "gdsf_keys ?g = {}" "gdsf_maxsize fst ?g = 1"
    by (simp_all add: gdsf_keys_def gdsf_init_def get gdsf_maxsize_def)
  have cost: "0 \<le> cost_of (\<lambda>x. x) (VFloat 8)" by simp
  show "gdsf_policy_inv (\<lambda>x. x) fst (me_cache (one_key_eviction k))"
    "gdsf_keys (me_cache (one_key_eviction k)) = {1}" "gdsf_maxsize fst (me_cache (one_key_eviction k)) = 1"
    using gdsf.store_inv[OF inv cost, of 1] gdsf.store_keys[OF inv cost, of 1] gdsf.store_maxsize[OF inv cost, of 1] keys
    by (simp_all add: one_key_eviction_def)
qed (simp_all add: one_key_eviction_def gdsf_policy_methods[OF run_base_set_contract])

text \<open>
  C13. Putting a new key into a full GDSF cache evicts exactly \<open>clean_size\<close> keys, of least priorities (no
  evicted key has a larger priority than one that stays), reports exactly these keys to \<open>on_evict\<close> in one
  call, and then stores the new key; when \<open>on_evict\<close> raises, the keys are gone from the cache, the new
  key is not stored and the exception goes to the caller.
\<close>

theorem full_put_evicts_least:
  assumes m: "policy_methods gdsf_popitem (gdsf_getitem rnd) (gdsf_store rnd) gdsf_room gdsf_too_large (me_methods e)"
    and inv: "gdsf_policy_inv rnd msz (me_cache e)" and v: "0 \<le> cost_of rnd v"
    and full: "obj \<notin> gdsf_keys (me_cache e)" "card (gdsf_keys (me_cache e)) = gdsf_maxsize msz (me_cache e)"
    and n: "1 \<le> me_clean e" "me_clean e \<le> int (gdsf_maxsize msz (me_cache e))"
    and f: "me_on_evict e = Some f"
  shows "\<exists>ks c'. distinct ks \<and> length ks = nat (me_clean e) \<and> set ks \<subseteq> gdsf_keys (me_cache e) \<and>
    (\<forall>k \<in> set ks. \<forall>k' \<in> gdsf_keys (me_cache e) - set ks.
       the (g_prio (me_cache e) k) \<le> the (g_prio (me_cache e) k')) \<and>
    gdsf_policy_inv rnd msz c' \<and>
    (case f ks w of
       (Inl err, w') \<Rightarrow> mem_set obj v (e, w) = Some (Inl err, (e\<lparr>me_cache := c'\<rparr>, w')) \<and>
         gdsf_keys c' = gdsf_keys (me_cache e) - set ks
     | (Inr u, w') \<Rightarrow> mem_set obj v (e, w) = Some (Inr (), (e\<lparr>me_cache := c'\<rparr>, w')) \<and>
         gdsf_keys c' = insert obj (gdsf_keys (me_cache e) - set ks))"
proof -
  let ?c = "me_cache e"
  have ginv: "gdsf_inv rnd ?c" using inv by (simp add: gdsf_policy_inv_def)
  have m1: "1 \<le> gdsf_maxsize msz ?c" using n by simp
  obtain ks c1 where ks: "set ks \<subseteq> gdsf_keys ?c" "distinct ks" "length ks = nat (me_clean e)"
    and c1: "gdsf_keys c1 = gdsf_keys ?c - set ks" "gdsf_policy_inv rnd msz c1"
    and run: "m_setitem (me_methods e) (popitem_wrapper gdsf_popitem (me_on_evict e) (me_clean e)) obj v (?c, w) =
       (case call_on_evict (me_on_evict e) ks w of
          (Inl er, w') \<Rightarrow> Some (Inl er, (c1, w'))
        | (Inr u, w') \<Rightarrow> Some (Inr (), (gdsf_store rnd obj v c1, w')))"
    and popn: "pop_n (nat (me_clean e)) gdsf_popitem ?c = (Inr ks, c1)"
    by (rule gdsf.setitem_full[OF m inv m1 full n])
  have pops: "gdsf_pops ?c ks c1" using gdsf_pop_n[OF ginv popn] by blast
  have "the (g_prio ?c k) \<le> the (g_prio ?c k')" if "k \<in> set ks" "k' \<in> gdsf_keys ?c - set ks" for k k'
  proof -
    from that ks(1) gdsf_inv_prio[OF ginv] obtain p p' where p: "g_prio ?c k = Some p" "g_prio ?c k' = Some p'" by blast
    then have "g_prio c1 k' = Some p'" using gdsf_pops_keys[OF pops] that(2) by simp
    from gdsf_pops_least[OF pops that(1) p(1) this] p show ?thesis by simp
  qed
  moreover have "mem_set obj v (e, w) = (case f ks w of
      (Inl er, w') \<Rightarrow> Some (Inl er, (e\<lparr>me_cache := c1\<rparr>, w'))
    | (Inr u, w') \<Rightarrow> Some (Inr (), (e\<lparr>me_cache := gdsf_store rnd obj v c1\<rparr>, w')))"
    using run by (simp add: mem_set_def policy_methodsD(1)[OF m] f call_on_evict_def split: prod.splits sum.splits)
  ultimately show ?thesis
    using ks c1 gdsf.store_keys[OF c1(2) v, of obj] gdsf.store_inv[OF c1(2) v, of obj]
    by (cases "f ks w"; cases "fst (f ks w)")
      (rule exI[of _ ks], rule exI[of _ "if isl (fst (f ks w)) then c1 else gdsf_store rnd obj v c1"], simp)+
qed

theorem full_put_evicts_least_witness:
  "\<exists>ks c' w'. mem_set 2 (VFloat 3) (one_key_eviction 1, []) =
      Some (Inr (), ((one_key_eviction 1)\<lparr>me_cache := c'\<rparr>, w')) \<and> w' = [ks] \<and> gdsf_keys c' = insert 2 ({1} - set ks)"
  using full_put_evicts_least[OF one_key_eviction(1,2), of "VFloat 3" 2 1] one_key_eviction(3-6)[of 1] by fastforce

text \<open>
  C16. A small cache hangs: for \<open>maxsize\<close> below 5 and no \<open>clean_size\<close> given, the factory computes the
  clean size \<open>int(maxsize * 0.2) = 0\<close>, and then putting a new key into the full cache never returns
  (the assignment asks for room for ever, evicting nothing each time), whatever \<open>on_evict\<close> does with the
  empty list as long as it returns.
\<close>

theorem small_cache_put_never_returns:
  assumes rnd: "float_rounding rnd" and size: "1 \<le> n" "n < 5"
    and m: "policy_methods gdsf_popitem (gdsf_getitem rnd) (gdsf_store rnd) gdsf_room gdsf_too_large (me_methods e)"
    and inv: "gdsf_policy_inv rnd msz (me_cache e)" and bound: "int (gdsf_maxsize msz (me_cache e)) = n"
    and full: "obj \<notin> gdsf_keys (me_cache e)" "card (gdsf_keys (me_cache e)) = gdsf_maxsize msz (me_cache e)"
    and f: "me_on_evict e = Some f" "\<forall>w. \<exists>w'. f [] w = (Inr (), w')"
  shows "\<exists>k. eviction_get rnd ''memory'' ''GDSF'' n None = Inr (MemoryChoice ''GDSF'' n k) \<and>
    (me_clean e = k \<longrightarrow> mem_set obj v (e, w) = None)"
proof (intro exI conjI impI)
  have zero: "default_clean_size rnd n = 0" using default_clean_size_small[OF rnd, of n] size by simp
  then show "eviction_get rnd ''memory'' ''GDSF'' n None = Inr (MemoryChoice ''GDSF'' n 0)"
    by (simp add: eviction_get_def)
  assume k: "me_clean e = 0"
  have "m_setitem (me_methods e) (popitem_wrapper gdsf_popitem (me_on_evict e) 0) obj v (me_cache e, w) = None"
    by (rule gdsf.setitem_diverges[OF m inv _ full, where W = "\<lambda>_. True"])
      (use bound size f in \<open>auto simp: call_on_evict_def\<close>)
  then show "mem_set obj v (e, w) = None" by (simp add: mem_set_def policy_methodsD(1)[OF m] k)
qed

theorem small_cache_put_never_returns_witness:
  "mem_set 2 (VFloat 3) (one_key_eviction 0, []) = None"
proof -
  have "default_clean_size (\<lambda>x. x) 1 = 0" by (rule default_clean_size_small[OF float_rounding_id]) simp_all
  moreover have "py_in ''memory'' ''memory''" by simp
  ultimately show ?thesis
    using small_cache_put_never_returns[OF float_rounding_id, of 1 "one_key_eviction 0" fst 2 _ "VFloat 3" "[]"]
      one_key_eviction[of 0] by (simp add: eviction_get_def)
qed

text \<open>
  Evicted keys get lost: when \<open>clean_size\<close> exceeds the number of cached keys, putting a new key into
  the full cache empties it, but \<open>on_evict\<close> is called with the empty list, because the \<open>KeyError\<close> of the
  comprehension is caught before \<open>keys\<close> is assigned. So the owner of the cache is never told to
  remove the evicted entries from its stores, and the cache has forgotten them.
\<close>

theorem overclean_loses_keys:
  assumes m: "policy_methods gdsf_popitem (gdsf_getitem rnd) (gdsf_store rnd) gdsf_room gdsf_too_large (me_methods e)"
    and inv: "gdsf_policy_inv rnd msz (me_cache e)" and v: "0 \<le> cost_of rnd v"
    and full: "obj \<notin> gdsf_keys (me_cache e)" "card (gdsf_keys (me_cache e)) = gdsf_maxsize msz (me_cache e)"
    and size: "1 \<le> gdsf_maxsize msz (me_cache e)" "int (gdsf_maxsize msz (me_cache e)) < me_clean e"
    and f: "me_on_evict e = Some f" "f [] w = (Inr (), w')"
  shows "\<exists>c'. mem_set obj v (e, w) = Some (Inr (), (e\<lparr>me_cache := c'\<rparr>, w')) \<and> gdsf_keys c' = {obj}"
proof -
  have "call_on_evict (me_on_evict e) [] w = (Inr (), w')" by (simp add: call_on_evict_def f)
  from gdsf.setitem_overclean[OF m inv size(1) full size(2) this] obtain c' where
    "gdsf_keys c' = {}" "gdsf_policy_inv rnd msz c'"
    "m_setitem (me_methods e) (popitem_wrapper gdsf_popitem (me_on_evict e) (me_clean e)) obj v (me_cache e, w) =
      Some (Inr (), (gdsf_store rnd obj v c', w'))" by blast
  with gdsf.store_keys[OF this(2) v, of obj] show ?thesis
    by (intro exI[of _ "gdsf_store rnd obj v c'"]) (simp add: mem_set_def policy_methodsD(1)[OF m])
qed

theorem overclean_loses_keys_witness:
  "\<exists>c'. mem_set 2 (VFloat 3) (one_key_eviction 2, []) =
     Some (Inr (), ((one_key_eviction 2)\<lparr>me_cache := c'\<rparr>, [[]])) \<and> gdsf_keys c' = {2}"
  using overclean_loses_keys[OF one_key_eviction(1,2), of "VFloat 3" 2 2] one_key_eviction(3-6)[of 2] by simp

end
