(* ===== verification/Scalar_Data.thy ===== *)
theory Scalar_Data
  imports Prelude
begin

text \<open>
  The data of \<open>gptcache/manager/scalar_data/base.py\<close>: answers, questions, cache entries and the
  constructor of \<open>CacheData\<close>; and the interface \<open>CacheStorage\<close>, as the record \<open>storage_ops\<close> of its
  methods and the locale \<open>scalar_store\<close> of what its clients rely on.

  An answer's payload is text or bytes. Times are integers. \<open>'e\<close> is the type of float32 arrays.
\<close>

section \<open>Data\<close>

datatype data_type = DT_STR | DT_IMAGE_BASE64 | DT_IMAGE_URL

fun data_type_int :: "data_type \<Rightarrow> int" where
  "data_type_int DT_STR = 0"
| "data_type_int DT_IMAGE_BASE64 = 1"
| "data_type_int DT_IMAGE_URL = 2"

datatype content = Text string | Bytes string

text \<open>\<open>answer_type\<close> is compared with members of the \<open>IntEnum\<close>, hence an integer.\<close>

record answer =
  ans_content :: content
  ans_type :: int

text \<open>
  \<open>dep_type\<close> may hold a member of the enumeration or a plain integer; the two compare equal but
  only the member accepts new attributes.
\<close>

datatype dep_kind = Member data_type | Plain int

fun dep_kind_int :: "dep_kind \<Rightarrow> int" where
  "dep_kind_int (Member t) = data_type_int t"
| "dep_kind_int (Plain n) = n"

record question_dep =
  dep_name :: string
  dep_data :: string
  dep_type :: dep_kind

record question =
  q_content :: string
  q_deps :: "question_dep list option"

datatype question_arg = QStr string | QObj question

fun question_text :: "question_arg \<Rightarrow> string" where
  "question_text (QStr s) = s"
| "question_text (QObj q) = q_content q"

record session_row =
  sr_id :: int
  sr_question_id :: int
  sr_session_id :: string
  sr_session_question :: string

text \<open>
  What the field \<open>session_id\<close> may hold: nothing, a name, a list of names, or (from the document storage)
  a list of session records. \<open>SessionNames\<close> also stands for the rows that SQLAlchemy gives for a query of the one
  column \<open>session_id\<close>: a list of one-column rows, of which the name is kept.
\<close>

datatype session_field =
  NoSession | SessionName string | SessionNames "string list" | SessionDocs "session_row list"

text \<open>The truth value of a session id.\<close>

fun session_given :: "session_field \<Rightarrow> bool" where
  "session_given NoSession = False"
| "session_given (SessionName n) = (n \<noteq> [])"
| "session_given (SessionNames ns) = (ns \<noteq> [])"
| "session_given (SessionDocs ss) = (ss \<noteq> [])"

record 'e cache_data =
  cd_question :: question_arg
  cd_answers :: "answer list"
  cd_embedding :: "'e option"
  cd_session :: session_field
  cd_create_on :: "int option"
  cd_last_access :: "int option"

section \<open>CacheData.\_\_init\_\_\<close>

text \<open>What may be passed as \<open>answers\<close>: a string, an \<open>Answer\<close>, or a list of items.\<close>

datatype answer_item = ItemAnswer answer | ItemTuple content int | ItemRaw content

datatype answers_arg = AnsStr string | AnsObj answer | AnsList "answer_item list"

fun to_answer :: "answer_item \<Rightarrow> answer" where
  "to_answer (ItemTuple c t) = \<lparr>ans_content = c, ans_type = t\<rparr>"
| "to_answer (ItemAnswer a) = a"
| "to_answer (ItemRaw c) = \<lparr>ans_content = c, ans_type = data_type_int DT_STR\<rparr>"

fun answer_items :: "answers_arg \<Rightarrow> answer_item list" where
  "answer_items (AnsStr s) = [ItemRaw (Text s)]"
| "answer_items (AnsObj a) = [ItemAnswer a]"
| "answer_items (AnsList items) = items"

definition cache_data_init ::
  "question_arg \<Rightarrow> answers_arg \<Rightarrow> 'e option \<Rightarrow> session_field \<Rightarrow> int option \<Rightarrow> int option \<Rightarrow> 'e cache_data" where
  "cache_data_init q answers emb sess create accessed =
     \<lparr>cd_question = q, cd_answers = map to_answer (answer_items answers), cd_embedding = emb,
      cd_session = sess, cd_create_on = create, cd_last_access = accessed\<rparr>"

section \<open>The interface CacheStorage\<close>

text \<open>\<open>delete_session\<close> is given ids of session rows, or (for a falsy session id) session names.\<close>

datatype session_key = IdKey int | NameKey string

record report_entry =
  rp_user_question :: string
  rp_cache_question :: string
  rp_cache_question_id :: int
  rp_cache_answer :: string
  rp_similarity :: real
  rp_delta_time :: real

record ('e, 's) storage_ops =
  so_batch_insert :: "'e cache_data list \<Rightarrow> 's \<Rightarrow> (int list, 's) outcome"
  so_get_data_by_id :: "int \<Rightarrow> 's \<Rightarrow> ('e cache_data option, 's) outcome"
  so_mark_deleted :: "int list \<Rightarrow> 's \<Rightarrow> (unit, 's) outcome"
  so_clear_deleted_data :: "'s \<Rightarrow> (unit, 's) outcome"
  so_get_ids :: "bool \<Rightarrow> 's \<Rightarrow> int list"
  so_count :: "int \<Rightarrow> bool \<Rightarrow> 's \<Rightarrow> int"
  so_add_session :: "int \<Rightarrow> string \<Rightarrow> string \<Rightarrow> 's \<Rightarrow> (unit, 's) outcome"
  so_list_sessions :: "string option \<Rightarrow> int option \<Rightarrow> 's \<Rightarrow> session_row list"
  so_delete_session :: "session_key list \<Rightarrow> 's \<Rightarrow> (unit, 's) outcome"
  so_report_cache :: "report_entry \<Rightarrow> 's \<Rightarrow> (unit, 's) outcome"

text \<open>
  \<open>live\<close> and \<open>marked\<close> are the ids of the entries that are cached and of those marked as deleted but
  not yet removed; \<open>insertable\<close> is what a batch must satisfy to be stored without an error.
\<close>

locale scalar_store =
  fixes ops :: "('e, 's) storage_ops"
    and live :: "'s \<Rightarrow> int set"
    and marked :: "'s \<Rightarrow> int set"
    and inv :: "'s \<Rightarrow> bool"
    and insertable :: "'e cache_data \<Rightarrow> bool"
  assumes insert: "inv s \<Longrightarrow> \<forall>d \<in> set ds. insertable d \<Longrightarrow>
      \<exists>ids s'. so_batch_insert ops ds s = (Inr ids, s') \<and> length ids = length ds \<and> distinct ids \<and>
        set ids \<inter> (live s \<union> marked s) = {} \<and> live s' = live s \<union> set ids \<and> marked s' = marked s \<and> inv s'"
    and mark: "inv s \<Longrightarrow> \<exists>s'. so_mark_deleted ops ks s = (Inr (), s') \<and> live s' = live s - set ks \<and>
        marked s' = marked s \<union> (live s \<inter> set ks) \<and> inv s'"
    and clear: "inv s \<Longrightarrow> \<exists>s'. so_clear_deleted_data ops s = (Inr (), s') \<and> live s' = live s \<and>
        marked s' = {} \<and> inv s'"
    and ids_live: "inv s \<Longrightarrow> set (so_get_ids ops False s) = live s \<and> distinct (so_get_ids ops False s)"
    and ids_marked: "inv s \<Longrightarrow> set (so_get_ids ops True s) = marked s \<and> distinct (so_get_ids ops True s)"
    and count_marked: "inv s \<Longrightarrow> so_count ops (- 1) False s = int (card (marked s))"
    and count_all: "inv s \<Longrightarrow> so_count ops 0 True s = int (card (live s \<union> marked s))"
    and get_live: "inv s \<Longrightarrow> i \<in> live s \<Longrightarrow> \<exists>d s'. so_get_data_by_id ops i s = (Inr (Some d), s') \<and>
        live s' = live s \<and> marked s' = marked s \<and> inv s'"
    and get_gone: "inv s \<Longrightarrow> i \<notin> live s \<Longrightarrow> so_get_data_by_id ops i s = (Inr None, s)"
    and disjoint: "inv s \<Longrightarrow> live s \<inter> marked s = {}"
    and finite_ids: "inv s \<Longrightarrow> finite (live s) \<and> finite (marked s)"
begin

lemmas store_laws = insert mark clear ids_live ids_marked count_marked count_all get_live get_gone
  disjoint finite_ids

text \<open>An entry that was evicted softly is not served, before and after its removal.\<close>

lemma marked_not_served:
  assumes "inv s" "i \<in> set ks" "so_mark_deleted ops ks s = (Inr (), s')"
  shows "so_get_data_by_id ops i s' = (Inr None, s')"
  using mark[OF assms(1), of ks] assms(2,3) get_gone by auto

end

end
