(* ===== verification/Sql_Storage.thy ===== *)
theory Sql_Storage
  imports Scalar_Data
begin

text \<open>
  The relational storage \<open>gptcache/manager/scalar_data/sql_storage.py\<close>. The database engine and
  SQLAlchemy are parameters: a table is a record \<open>table_api\<close> of the queries the code sends
  (\<open>select\<close>, \<open>insert\<close>, \<open>update\<close>, \<open>delete\<close> with a row condition) on a database state \<open>'d\<close>, and
  \<open>db_contract\<close> says what they do, up to the order of rows, which SQL does not fix. \<open>t_rows\<close> lists a
  table's rows; no operation reads it. A database error other than a value that cannot be bound
  is not modelled, nor are column lengths (sqlite, the default store, does not enforce them).

  The object's state is \<open>sql\<close>: its engine, the conversions of numpy arrays to and from bytes, the
  readings of the clock, what the engine makes of a string compared with an integer column, and the
  database.
\<close>

section \<open>Tables\<close>

record 'y ques_row =
  qr_id :: int
  qr_question :: string
  qr_create_on :: int
  qr_last_access :: int
  qr_embedding :: "'y option"
  qr_deleted :: int

record ans_row =
  ar_id :: int
  ar_question_id :: int
  ar_answer :: content
  ar_type :: int

record dep_row =
  dr_id :: int
  dr_question_id :: int
  dr_name :: string
  dr_data :: string
  dr_type :: int

record report_row =
  rr_id :: int
  rr_entry :: report_entry
  rr_time :: int

record ('r, 'd) table_api =
  t_rows :: "'d \<Rightarrow> 'r list"
  t_select :: "('r \<Rightarrow> bool) \<Rightarrow> 'd \<Rightarrow> 'r list"
  t_insert :: "(int \<Rightarrow> 'r) \<Rightarrow> 'd \<Rightarrow> int \<times> 'd"
  t_update :: "('r \<Rightarrow> bool) \<Rightarrow> ('r \<Rightarrow> 'r) \<Rightarrow> 'd \<Rightarrow> 'd"
  t_delete :: "('r \<Rightarrow> bool) \<Rightarrow> 'd \<Rightarrow> 'd"

record ('y, 'd) db_api =
  db_ques :: "('y ques_row, 'd) table_api"
  db_ans :: "(ans_row, 'd) table_api"
  db_dep :: "(dep_row, 'd) table_api"
  db_session :: "(session_row, 'd) table_api"
  db_report :: "(report_row, 'd) table_api"

text \<open>
  \<open>table_contract key other T\<close>: \<open>T\<close> behaves as a table with primary key \<open>key\<close>, generated on
  insertion and different from the keys in the table, and its statements leave \<open>other\<close> alone.
\<close>

definition table_contract :: "('r \<Rightarrow> int) \<Rightarrow> ('d \<Rightarrow> 'o) \<Rightarrow> ('r, 'd) table_api \<Rightarrow> bool" where
  "table_contract key other T \<longleftrightarrow>
     (\<forall>P d. mset (t_select T P d) = mset (filter P (t_rows T d))) \<and>
     (\<forall>mk d i d'. t_insert T mk d = (i, d') \<longrightarrow>
        t_rows T d' = t_rows T d @ [mk i] \<and> 1 \<le> i \<and> i \<notin> key ` set (t_rows T d) \<and> other d' = other d) \<and>
     (\<forall>P f d. t_rows T (t_update T P f d) = map (\<lambda>r. if P r then f r else r) (t_rows T d) \<and>
        other (t_update T P f d) = other d) \<and>
     (\<forall>P d. t_rows T (t_delete T P d) = filter (\<lambda>r. \<not> P r) (t_rows T d) \<and>
        other (t_delete T P d) = other d)"

definition db_contract :: "('y, 'd) db_api \<Rightarrow> bool" where
  "db_contract db \<longleftrightarrow>
     (let q = t_rows (db_ques db); a = t_rows (db_ans db); e = t_rows (db_dep db);
          s = t_rows (db_session db); r = t_rows (db_report db)
      in table_contract qr_id (\<lambda>d. (a d, e d, s d, r d)) (db_ques db) \<and>
         table_contract ar_id (\<lambda>d. (q d, e d, s d, r d)) (db_ans db) \<and>
         table_contract dr_id (\<lambda>d. (q d, a d, s d, r d)) (db_dep db) \<and>
         table_contract sr_id (\<lambda>d. (q d, a d, e d, r d)) (db_session db) \<and>
         table_contract rr_id (\<lambda>d. (q d, a d, e d, s d)) (db_report db))"

section \<open>The storage object and its methods\<close>

record ('y, 'e, 'd) sql =
  sql_api :: "('y, 'd) db_api"
  sql_tobytes :: "'e \<Rightarrow> 'y"
  sql_frombuffer :: "'y \<Rightarrow> 'e"
  sql_now :: "nat \<Rightarrow> int"
  sql_id_of_string :: "string \<Rightarrow> int option"
  sql_ticks :: nat
  sql_db :: 'd

definition sql_clock :: "('y, 'e, 'd) sql \<Rightarrow> int \<times> ('y, 'e, 'd) sql" where
  "sql_clock s = (sql_now s (sql_ticks s), s\<lparr>sql_ticks := Suc (sql_ticks s)\<rparr>)"

definition insert_deps :: "(dep_row, 'd) table_api \<Rightarrow> int \<Rightarrow> question_dep list \<Rightarrow> 'd \<Rightarrow> 'd" where
  "insert_deps T qid deps d =
     fold (\<lambda>dep d. snd (t_insert T (\<lambda>i. \<lparr>dr_id = i, dr_question_id = qid, dr_name = dep_name dep,
       dr_data = dep_data dep, dr_type = dep_kind_int (dep_type dep)\<rparr>) d)) deps d"

definition insert_answers :: "(ans_row, 'd) table_api \<Rightarrow> int \<Rightarrow> answer list \<Rightarrow> 'd \<Rightarrow> 'd" where
  "insert_answers T qid answers d =
     fold (\<lambda>a d. snd (t_insert T (\<lambda>i. \<lparr>ar_id = i, ar_question_id = qid, ar_answer = ans_content a,
       ar_type = ans_type a\<rparr>) d)) answers d"

text \<open>
  The session row of \<open>_insert\<close>: none for a falsy \<open>session_id\<close>; a list cannot be bound to the
  column.
\<close>

definition insert_session ::
  "(session_row, 'd) table_api \<Rightarrow> int \<Rightarrow> session_field \<Rightarrow> string \<Rightarrow> 'd \<Rightarrow> 'd result" where
  "insert_session T qid sess text d =
     (case sess of
        NoSession \<Rightarrow> Inr d
      | SessionName n \<Rightarrow>
          Inr (if n = [] then d
               else snd (t_insert T (\<lambda>i. \<lparr>sr_id = i, sr_question_id = qid, sr_session_id = n,
                      sr_session_question = text\<rparr>) d))
      | SessionNames ns \<Rightarrow> if ns = [] then Inr d else Inl LibraryError
      | SessionDocs ss \<Rightarrow> if ss = [] then Inr d else Inl LibraryError)"

definition sql_insert :: "'e cache_data \<Rightarrow> ('y, 'e, 'd) sql \<Rightarrow> (int, ('y, 'e, 'd) sql) outcome" where
  "sql_insert data s0 =
     (let api = sql_api s0;
          (created, s1) = sql_clock s0;
          (accessed, s) = sql_clock s1;
          (qid, d) = t_insert (db_ques api) (\<lambda>i. \<lparr>qr_id = i, qr_question = question_text (cd_question data),
             qr_create_on = created, qr_last_access = accessed,
             qr_embedding = map_option (sql_tobytes s) (cd_embedding data), qr_deleted = 0\<rparr>) (sql_db s);
          d = (case cd_question data of
                 QStr _ \<Rightarrow> d
               | QObj q \<Rightarrow> (case q_deps q of None \<Rightarrow> d | Some deps \<Rightarrow> insert_deps (db_dep api) qid deps d));
          d = insert_answers (db_ans api) qid (cd_answers data) d
      in case insert_session (db_session api) qid (cd_session data) (question_text (cd_question data)) d of
           Inl e \<Rightarrow> (Inl e, s)
         | Inr d \<Rightarrow> (Inr qid, s\<lparr>sql_db := d\<rparr>))"

text \<open>One transaction: an error leaves the database as it was before the batch.\<close>

definition sql_batch_insert ::
  "'e cache_data list \<Rightarrow> ('y, 'e, 'd) sql \<Rightarrow> (int list, ('y, 'e, 'd) sql) outcome" where
  "sql_batch_insert all_data s =
     (case map_out sql_insert all_data s of
        (Inl e, s') \<Rightarrow> (Inl e, s'\<lparr>sql_db := sql_db s\<rparr>)
      | (Inr ids, s') \<Rightarrow> (Inr ids, s'))"

definition sql_get_data_by_id ::
  "int \<Rightarrow> ('y, 'e, 'd) sql \<Rightarrow> ('e cache_data option, ('y, 'e, 'd) sql) outcome" where
  "sql_get_data_by_id key s =
     (let api = sql_api s
      in case t_select (db_ques api) (\<lambda>r. qr_id r = key \<and> qr_deleted r = 0) (sql_db s) of
           [] \<Rightarrow> (Inr None, s)
         | qs # _ \<Rightarrow>
             let last_access = qr_last_access qs;
                 (now, s) = sql_clock s;
                 d = t_update (db_ques api) (\<lambda>r. qr_id r = qr_id qs) (\<lambda>r. r\<lparr>qr_last_access := now\<rparr>) (sql_db s);
                 ans = t_select (db_ans api) (\<lambda>r. ar_question_id r = qr_id qs) d;
                 deps = t_select (db_dep api) (\<lambda>r. dr_question_id r = qr_id qs) d;
                 session_ids = t_select (db_session api) (\<lambda>r. sr_question_id r = qr_id qs) d;
                 res_ans = map (\<lambda>r. ItemTuple (ar_answer r) (ar_type r)) ans;
                 res_deps = map (\<lambda>r. \<lparr>dep_name = dr_name r, dep_data = dr_data r,
                                      dep_type = Plain (dr_type r)\<rparr>) deps;
                 s = s\<lparr>sql_db := d\<rparr>
             in case qr_embedding qs of
                  None \<Rightarrow> (Inl TypeError, s)
                | Some bytes \<Rightarrow>
                    (Inr (Some (cache_data_init
                       (if deps = [] then QStr (qr_question qs)
                        else QObj \<lparr>q_content = qr_question qs, q_deps = Some res_deps\<rparr>)
                       (AnsList res_ans) (Some (sql_frombuffer s bytes))
                       (SessionNames (map sr_session_id session_ids))
                       (Some (qr_create_on qs)) (Some last_access))), s))"

definition sql_get_ids :: "bool \<Rightarrow> ('y, 'e, 'd) sql \<Rightarrow> int list" where
  "sql_get_ids deleted s =
     (let state = (if deleted then - 1 else 0)
      in map qr_id (t_select (db_ques (sql_api s)) (\<lambda>r. qr_deleted r = state) (sql_db s)))"

definition sql_mark_deleted :: "int list \<Rightarrow> ('y, 'e, 'd) sql \<Rightarrow> (unit, ('y, 'e, 'd) sql) outcome" where
  "sql_mark_deleted keys s =
     (Inr (), s\<lparr>sql_db := t_update (db_ques (sql_api s)) (\<lambda>r. qr_id r \<in> set keys)
                           (\<lambda>r. r\<lparr>qr_deleted := - 1\<rparr>) (sql_db s)\<rparr>)"

definition sql_clear_deleted_data :: "('y, 'e, 'd) sql \<Rightarrow> (unit, ('y, 'e, 'd) sql) outcome" where
  "sql_clear_deleted_data s =
     (let api = sql_api s; d = sql_db s;
          q_ids = map qr_id (t_select (db_ques api) (\<lambda>r. qr_deleted r = - 1) d);
          d = t_delete (db_ans api) (\<lambda>r. ar_question_id r \<in> set q_ids) d;
          d = t_delete (db_dep api) (\<lambda>r. dr_question_id r \<in> set q_ids) d;
          d = t_delete (db_session api) (\<lambda>r. sr_question_id r \<in> set q_ids) d;
          d = t_delete (db_ques api) (\<lambda>r. qr_deleted r = - 1) d
      in (Inr (), s\<lparr>sql_db := d\<rparr>))"

definition sql_count :: "int \<Rightarrow> bool \<Rightarrow> ('y, 'e, 'd) sql \<Rightarrow> int" where
  "sql_count state is_all s =
     (if is_all then int (length (t_select (db_ques (sql_api s)) (\<lambda>_. True) (sql_db s)))
      else int (length (t_select (db_ques (sql_api s)) (\<lambda>r. qr_deleted r = state) (sql_db s))))"

definition sql_add_session ::
  "int \<Rightarrow> string \<Rightarrow> string \<Rightarrow> ('y, 'e, 'd) sql \<Rightarrow> (unit, ('y, 'e, 'd) sql) outcome" where
  "sql_add_session question_id session_id session_question s =
     (Inr (), s\<lparr>sql_db := snd (t_insert (db_session (sql_api s))
        (\<lambda>i. \<lparr>sr_id = i, sr_question_id = question_id, sr_session_id = session_id,
              sr_session_question = session_question\<rparr>) (sql_db s))\<rparr>)"

fun session_key_id :: "('y, 'e, 'd) sql \<Rightarrow> session_key \<Rightarrow> int option" where
  "session_key_id s (IdKey i) = Some i"
| "session_key_id s (NameKey n) = sql_id_of_string s n"

definition sql_delete_session :: "session_key list \<Rightarrow> ('y, 'e, 'd) sql \<Rightarrow> (unit, ('y, 'e, 'd) sql) outcome" where
  "sql_delete_session keys s =
     (Inr (), s\<lparr>sql_db := t_delete (db_session (sql_api s))
                  (\<lambda>r. Some (sr_id r) \<in> session_key_id s ` set keys) (sql_db s)\<rparr>)"

definition sql_list_sessions ::
  "string option \<Rightarrow> int option \<Rightarrow> ('y, 'e, 'd) sql \<Rightarrow> session_row list" where
  "sql_list_sessions session_id key s =
     t_select (db_session (sql_api s))
       (\<lambda>r. if session_id \<noteq> None \<and> session_id \<noteq> Some [] then session_id = Some (sr_session_id r)
            else if key \<noteq> None \<and> key \<noteq> Some 0 then key = Some (sr_question_id r)
            else True) (sql_db s)"

definition sql_report_cache :: "report_entry \<Rightarrow> ('y, 'e, 'd) sql \<Rightarrow> (unit, ('y, 'e, 'd) sql) outcome" where
  "sql_report_cache entry s0 =
     (let (now, s) = sql_clock s0
      in (Inr (), s\<lparr>sql_db := snd (t_insert (db_report (sql_api s))
           (\<lambda>i. \<lparr>rr_id = i, rr_entry = entry, rr_time = now\<rparr>) (sql_db s))\<rparr>))"

definition sql_ops :: "('e, ('y, 'e, 'd) sql) storage_ops" where
  "sql_ops =
     \<lparr>so_batch_insert = sql_batch_insert, so_get_data_by_id = sql_get_data_by_id,
      so_mark_deleted = sql_mark_deleted, so_clear_deleted_data = sql_clear_deleted_data,
      so_get_ids = sql_get_ids, so_count = sql_count, so_add_session = sql_add_session,
      so_list_sessions = sql_list_sessions, so_delete_session = sql_delete_session,
      so_report_cache = sql_report_cache\<rparr>"

section \<open>What the queries do\<close>

lemma table_select:
  assumes "table_contract key other T"
  shows "mset (t_select T P d) = mset (filter P (t_rows T d))"
    and "set (t_select T P d) = {r \<in> set (t_rows T d). P r}"
    and "length (t_select T P d) = length (filter P (t_rows T d))"
proof -
  show m: "mset (t_select T P d) = mset (filter P (t_rows T d))"
    using assms by (simp add: table_contract_def)
  show "set (t_select T P d) = {r \<in> set (t_rows T d). P r}"
    using arg_cong[OF m, of set_mset] by simp
  show "length (t_select T P d) = length (filter P (t_rows T d))"
    using mset_eq_length[OF m] .
qed

lemma table_insert:
  assumes "table_contract key other T"
  shows "t_rows T (snd (t_insert T mk d)) = t_rows T d @ [mk (fst (t_insert T mk d))]"
    and "1 \<le> fst (t_insert T mk d)" and "fst (t_insert T mk d) \<notin> key ` set (t_rows T d)"
    and "other (snd (t_insert T mk d)) = other d"
  using assms unfolding table_contract_def by (metis prod.collapse)+

lemma table_update:
  assumes "table_contract key other T"
  shows "t_rows T (t_update T P f d) = map (\<lambda>r. if P r then f r else r) (t_rows T d)"
    and "other (t_update T P f d) = other d"
  using assms unfolding table_contract_def by blast+

lemma table_delete:
  assumes "table_contract key other T"
  shows "t_rows T (t_delete T P d) = filter (\<lambda>r. \<not> P r) (t_rows T d)"
    and "other (t_delete T P d) = other d"
  using assms unfolding table_contract_def by blast+

lemma db_contractD:
  assumes "db_contract db"
  shows "table_contract qr_id (\<lambda>d. (t_rows (db_ans db) d, t_rows (db_dep db) d, t_rows (db_session db) d,
      t_rows (db_report db) d)) (db_ques db)"
    and "table_contract ar_id (\<lambda>d. (t_rows (db_ques db) d, t_rows (db_dep db) d, t_rows (db_session db) d,
      t_rows (db_report db) d)) (db_ans db)"
    and "table_contract dr_id (\<lambda>d. (t_rows (db_ques db) d, t_rows (db_ans db) d, t_rows (db_session db) d,
      t_rows (db_report db) d)) (db_dep db)"
    and "table_contract sr_id (\<lambda>d. (t_rows (db_ques db) d, t_rows (db_ans db) d, t_rows (db_dep db) d,
      t_rows (db_report db) d)) (db_session db)"
    and "table_contract rr_id (\<lambda>d. (t_rows (db_ques db) d, t_rows (db_ans db) d, t_rows (db_dep db) d,
      t_rows (db_session db) d)) (db_report db)"
  using assms by (simp_all add: db_contract_def Let_def)

lemmas ques_select = table_select[OF db_contractD(1)]
lemmas ans_select = table_select[OF db_contractD(2)]
lemmas dep_select = table_select[OF db_contractD(3)]
lemmas session_select = table_select[OF db_contractD(4)]
lemmas ques_insert = table_insert[OF db_contractD(1), simplified]
lemmas ans_insert = table_insert[OF db_contractD(2), simplified]
lemmas dep_insert = table_insert[OF db_contractD(3), simplified]
lemmas session_insert = table_insert[OF db_contractD(4), simplified]
lemmas report_insert = table_insert[OF db_contractD(5), simplified]
lemmas ques_update = table_update[OF db_contractD(1), simplified]
lemmas ques_delete = table_delete[OF db_contractD(1), simplified]
lemmas ans_delete = table_delete[OF db_contractD(2), simplified]
lemmas dep_delete = table_delete[OF db_contractD(3), simplified]
lemmas session_delete = table_delete[OF db_contractD(4), simplified]

lemmas sql_reads = ques_select ans_select dep_select session_select
lemmas sql_writes = ques_insert ans_insert dep_insert session_insert report_insert ques_update
  ques_delete ans_delete dep_delete session_delete

section \<open>Insertion\<close>

lemma fold_insert:
  assumes "table_contract key other T"
  shows "\<exists>ids. length ids = length xs \<and>
      t_rows T (fold (\<lambda>x d. snd (t_insert T (mk x) d)) xs d) = t_rows T d @ map2 mk xs ids \<and>
      other (fold (\<lambda>x d. snd (t_insert T (mk x) d)) xs d) = other d"
proof (induction xs arbitrary: d)
  case (Cons x xs)
  from Cons[of "snd (t_insert T (mk x) d)"] obtain ids where "length ids = length xs"
    "t_rows T (fold (\<lambda>x d. snd (t_insert T (mk x) d)) xs (snd (t_insert T (mk x) d))) =
       t_rows T (snd (t_insert T (mk x) d)) @ map2 mk xs ids"
    "other (fold (\<lambda>x d. snd (t_insert T (mk x) d)) xs (snd (t_insert T (mk x) d))) = other d"
    using table_insert(4)[OF assms] by metis
  then show ?case using table_insert(1)[OF assms]
    by (intro exI[of _ "fst (t_insert T (mk x) d) # ids"]) simp
qed simp

definition qrows :: "('y, 'e, 'd) sql \<Rightarrow> 'y ques_row list" where
  "qrows s = t_rows (db_ques (sql_api s)) (sql_db s)"

definition arows :: "('y, 'e, 'd) sql \<Rightarrow> ans_row list" where
  "arows s = t_rows (db_ans (sql_api s)) (sql_db s)"

definition drows :: "('y, 'e, 'd) sql \<Rightarrow> dep_row list" where
  "drows s = t_rows (db_dep (sql_api s)) (sql_db s)"

definition srows :: "('y, 'e, 'd) sql \<Rightarrow> session_row list" where
  "srows s = t_rows (db_session (sql_api s)) (sql_db s)"

definition rrows :: "('y, 'e, 'd) sql \<Rightarrow> report_row list" where
  "rrows s = t_rows (db_report (sql_api s)) (sql_db s)"

lemmas sql_rows_defs = qrows_def arows_def drows_def srows_def rrows_def

definition same_engine :: "('y, 'e, 'd) sql \<Rightarrow> ('y, 'e, 'd) sql \<Rightarrow> bool" where
  "same_engine s s' \<longleftrightarrow> sql_api s' = sql_api s \<and> sql_tobytes s' = sql_tobytes s \<and>
     sql_frombuffer s' = sql_frombuffer s \<and> sql_now s' = sql_now s"

text \<open>What a batch entry must be for \<open>_insert\<close> not to raise: no list as its \<open>session_id\<close>.\<close>

fun session_bindable :: "session_field \<Rightarrow> bool" where
  "session_bindable (SessionNames ns) = (ns = [])"
| "session_bindable (SessionDocs ss) = (ss = [])"
| "session_bindable _ = True"

fun question_deps :: "question_arg \<Rightarrow> question_dep list" where
  "question_deps (QStr s) = []"
| "question_deps (QObj q) = (case q_deps q of None \<Rightarrow> [] | Some ds \<Rightarrow> ds)"

definition ans_row_of :: "int \<Rightarrow> answer \<Rightarrow> int \<Rightarrow> ans_row" where
  "ans_row_of qid a i = \<lparr>ar_id = i, ar_question_id = qid, ar_answer = ans_content a, ar_type = ans_type a\<rparr>"

definition dep_row_of :: "int \<Rightarrow> question_dep \<Rightarrow> int \<Rightarrow> dep_row" where
  "dep_row_of qid e i = \<lparr>dr_id = i, dr_question_id = qid, dr_name = dep_name e, dr_data = dep_data e,
     dr_type = dep_kind_int (dep_type e)\<rparr>"

text \<open>The rows that one \<open>_insert\<close> adds.\<close>

definition inserted ::
  "'e cache_data \<Rightarrow> int \<Rightarrow> int \<Rightarrow> int \<Rightarrow> ('y, 'e, 'd) sql \<Rightarrow> ('y, 'e, 'd) sql \<Rightarrow> bool" where
  "inserted data qid created accessed s s' \<longleftrightarrow> same_engine s s' \<and> 1 \<le> qid \<and> qid \<notin> qr_id ` set (qrows s) \<and>
     qrows s' = qrows s @ [\<lparr>qr_id = qid, qr_question = question_text (cd_question data),
       qr_create_on = created, qr_last_access = accessed,
       qr_embedding = map_option (sql_tobytes s) (cd_embedding data), qr_deleted = 0\<rparr>] \<and>
     (\<exists>ids. length ids = length (cd_answers data) \<and>
        arows s' = arows s @ map2 (ans_row_of qid) (cd_answers data) ids) \<and>
     (\<exists>ids. length ids = length (question_deps (cd_question data)) \<and>
        drows s' = drows s @ map2 (dep_row_of qid) (question_deps (cd_question data)) ids) \<and>
     rrows s' = rrows s \<and>
     (\<exists>i. i \<notin> sr_id ` set (srows s) \<and> srows s' = srows s @ (case cd_session data of
        SessionName n \<Rightarrow> if n = [] then [] else [\<lparr>sr_id = i, sr_question_id = qid, sr_session_id = n,
           sr_session_question = question_text (cd_question data)\<rparr>]
      | _ \<Rightarrow> []))"

lemma insert_answers_rows:
  assumes "db_contract db"
  obtains ids where "length ids = length as"
    "t_rows (db_ans db) (insert_answers (db_ans db) qid as d) =
       t_rows (db_ans db) d @ map2 (ans_row_of qid) as ids"
    "t_rows (db_ques db) (insert_answers (db_ans db) qid as d) = t_rows (db_ques db) d"
    "t_rows (db_dep db) (insert_answers (db_ans db) qid as d) = t_rows (db_dep db) d"
    "t_rows (db_session db) (insert_answers (db_ans db) qid as d) = t_rows (db_session db) d"
    "t_rows (db_report db) (insert_answers (db_ans db) qid as d) = t_rows (db_report db) d"
proof -
  have "insert_answers (db_ans db) qid as d =
      fold (\<lambda>a d. snd (t_insert (db_ans db) (ans_row_of qid a) d)) as d"
    by (simp add: insert_answers_def ans_row_of_def [abs_def])
  with that fold_insert[OF db_contractD(2)[OF assms], where mk = "ans_row_of qid" and xs = as and d = d]
  show thesis by auto
qed

lemma insert_deps_rows:
  assumes "db_contract db"
  obtains ids where "length ids = length ds"
    "t_rows (db_dep db) (insert_deps (db_dep db) qid ds d) =
       t_rows (db_dep db) d @ map2 (dep_row_of qid) ds ids"
    "t_rows (db_ques db) (insert_deps (db_dep db) qid ds d) = t_rows (db_ques db) d"
    "t_rows (db_ans db) (insert_deps (db_dep db) qid ds d) = t_rows (db_ans db) d"
    "t_rows (db_session db) (insert_deps (db_dep db) qid ds d) = t_rows (db_session db) d"
    "t_rows (db_report db) (insert_deps (db_dep db) qid ds d) = t_rows (db_report db) d"
proof -
  have "insert_deps (db_dep db) qid ds d =
      fold (\<lambda>e d. snd (t_insert (db_dep db) (dep_row_of qid e) d)) ds d"
    by (simp add: insert_deps_def dep_row_of_def [abs_def])
  with that fold_insert[OF db_contractD(3)[OF assms], where mk = "dep_row_of qid" and xs = ds and d = d]
  show thesis by auto
qed

lemma insert_deps_Nil [simp]: "insert_deps T qid [] d = d"
  by (simp add: insert_deps_def)

lemma insert_session_rows:
  assumes db: "db_contract db" and "session_bindable sess"
  obtains d' i where "insert_session (db_session db) qid sess text d = Inr d'"
    "i \<notin> sr_id ` set (t_rows (db_session db) d)"
    "t_rows (db_session db) d' = t_rows (db_session db) d @ (case sess of
        SessionName n \<Rightarrow> if n = [] then [] else [\<lparr>sr_id = i, sr_question_id = qid, sr_session_id = n,
           sr_session_question = text\<rparr>]
      | _ \<Rightarrow> [])"
    "t_rows (db_ques db) d' = t_rows (db_ques db) d" "t_rows (db_ans db) d' = t_rows (db_ans db) d"
    "t_rows (db_dep db) d' = t_rows (db_dep db) d" "t_rows (db_report db) d' = t_rows (db_report db) d"
proof (cases sess)
  case (SessionName n)
  define mk where "mk = (\<lambda>i. \<lparr>sr_id = i, sr_question_id = qid, sr_session_id = n,
    sr_session_question = text\<rparr>)"
  show thesis
    by (rule that[of "if n = [] then d else snd (t_insert (db_session db) mk d)"
          "fst (t_insert (db_session db) mk d)"])
      (simp_all add: SessionName insert_session_def session_insert[OF db] mk_def)
next
  case NoSession
  show thesis
    by (rule that[of d "fst (t_insert (db_session db) undefined d)"])
      (simp_all add: NoSession insert_session_def session_insert[OF db])
next
  case (SessionNames ns)
  show thesis
    by (rule that[of d "fst (t_insert (db_session db) undefined d)"])
      (use assms(2) in \<open>simp_all add: SessionNames insert_session_def session_insert[OF db]\<close>)
next
  case (SessionDocs ss)
  show thesis
    by (rule that[of d "fst (t_insert (db_session db) undefined d)"])
      (use assms(2) in \<open>simp_all add: SessionDocs insert_session_def session_insert[OF db]\<close>)
qed

lemma sql_insert_deps_case:
  "(case q of QStr _ \<Rightarrow> d | QObj q' \<Rightarrow> (case q_deps q' of None \<Rightarrow> d | Some deps \<Rightarrow> insert_deps T qid deps d)) =
     insert_deps T qid (question_deps q) d"
  by (cases q) (auto split: option.splits)

lemma sql_insert_spec:
  assumes db: "db_contract (sql_api s)" and sess: "session_bindable (cd_session data)"
  shows "\<exists>qid s' created accessed. sql_insert data s = (Inr qid, s') \<and> inserted data qid created accessed s s'"
proof -
  define created where "created = sql_now s (sql_ticks s)"
  define accessed where "accessed = sql_now s (Suc (sql_ticks s))"
  define mk where "mk = (\<lambda>i. \<lparr>qr_id = i, qr_question = question_text (cd_question data),
    qr_create_on = created, qr_last_access = accessed,
    qr_embedding = map_option (sql_tobytes s) (cd_embedding data), qr_deleted = 0\<rparr>)"
  define db where "db = sql_api s"
  obtain qid d1 where q: "t_insert (db_ques db) mk (sql_db s) = (qid, d1)" by fastforce
  have db': "db_contract db" using db by (simp add: db_def)
  note qi = ques_insert[OF db', of mk "sql_db s", unfolded q fst_conv snd_conv]
  let ?d2 = "insert_deps (db_dep db) qid (question_deps (cd_question data)) d1"
  let ?d3 = "insert_answers (db_ans db) qid (cd_answers data) ?d2"
  obtain dids where d2: "length dids = length (question_deps (cd_question data))"
    "t_rows (db_dep db) ?d2 = t_rows (db_dep db) d1 @ map2 (dep_row_of qid) (question_deps (cd_question data)) dids"
    "t_rows (db_ques db) ?d2 = t_rows (db_ques db) d1" "t_rows (db_ans db) ?d2 = t_rows (db_ans db) d1"
    "t_rows (db_session db) ?d2 = t_rows (db_session db) d1"
    "t_rows (db_report db) ?d2 = t_rows (db_report db) d1"
    by (rule insert_deps_rows[OF db'])
  obtain aids where d3: "length aids = length (cd_answers data)"
    "t_rows (db_ans db) ?d3 = t_rows (db_ans db) ?d2 @ map2 (ans_row_of qid) (cd_answers data) aids"
    "t_rows (db_ques db) ?d3 = t_rows (db_ques db) ?d2" "t_rows (db_dep db) ?d3 = t_rows (db_dep db) ?d2"
    "t_rows (db_session db) ?d3 = t_rows (db_session db) ?d2"
    "t_rows (db_report db) ?d3 = t_rows (db_report db) ?d2"
    by (rule insert_answers_rows[OF db'])
  obtain d4 i where d4: "insert_session (db_session db) qid (cd_session data)
      (question_text (cd_question data)) ?d3 = Inr d4"
    "i \<notin> sr_id ` set (t_rows (db_session db) ?d3)"
    "t_rows (db_session db) d4 = t_rows (db_session db) ?d3 @ (case cd_session data of
        SessionName n \<Rightarrow> if n = [] then [] else [\<lparr>sr_id = i, sr_question_id = qid, sr_session_id = n,
           sr_session_question = question_text (cd_question data)\<rparr>]
      | _ \<Rightarrow> [])"
    "t_rows (db_ques db) d4 = t_rows (db_ques db) ?d3" "t_rows (db_ans db) d4 = t_rows (db_ans db) ?d3"
    "t_rows (db_dep db) d4 = t_rows (db_dep db) ?d3" "t_rows (db_report db) d4 = t_rows (db_report db) ?d3"
    by (rule insert_session_rows[OF db' sess])
  let ?s = "s\<lparr>sql_ticks := Suc (Suc (sql_ticks s)), sql_db := d4\<rparr>"
  have "sql_insert data s = (Inr qid, ?s)"
    using q d4(1) by (simp add: sql_insert_def sql_clock_def Let_def sql_insert_deps_case mk_def
        created_def accessed_def db_def)
  moreover have "inserted data qid created accessed s ?s"
    unfolding inserted_def same_engine_def sql_rows_defs
    using qi d2 d3 d4(2-) by (auto simp: mk_def db_def)
  ultimately show ?thesis by blast
qed

section \<open>The invariant of the storage\<close>

text \<open>
  Ids are unique (those of session rows too) and positive, the \<open>deleted\<close> flag is 0 or -1, every question has its embedding, and
  every answer and dependency belongs to a question (the schema declares no foreign key).
\<close>

definition sql_inv :: "('y, 'e, 'd) sql \<Rightarrow> bool" where
  "sql_inv s \<longleftrightarrow> db_contract (sql_api s) \<and> distinct (map qr_id (qrows s)) \<and>
     (\<forall>r \<in> set (qrows s). 1 \<le> qr_id r \<and> qr_deleted r \<in> {0, - 1} \<and> qr_embedding r \<noteq> None) \<and>
     (\<forall>r \<in> set (arows s). ar_question_id r \<in> qr_id ` set (qrows s)) \<and>
     (\<forall>r \<in> set (drows s). dr_question_id r \<in> qr_id ` set (qrows s)) \<and>
     distinct (map sr_id (srows s))"

definition sql_with :: "int \<Rightarrow> ('y, 'e, 'd) sql \<Rightarrow> int set" where
  "sql_with state s = qr_id ` {r \<in> set (qrows s). qr_deleted r = state}"

definition sql_insertable :: "'e cache_data \<Rightarrow> bool" where
  "sql_insertable data \<longleftrightarrow> cd_embedding data \<noteq> None \<and> session_bindable (cd_session data)"

lemma sql_invD:
  assumes "sql_inv s"
  shows "db_contract (sql_api s)" "distinct (map qr_id (qrows s))"
    "r \<in> set (qrows s) \<Longrightarrow> 1 \<le> qr_id r \<and> qr_deleted r \<in> {0, - 1} \<and> qr_embedding r \<noteq> None"
    "a \<in> set (arows s) \<Longrightarrow> ar_question_id a \<in> qr_id ` set (qrows s)"
    "e \<in> set (drows s) \<Longrightarrow> dr_question_id e \<in> qr_id ` set (qrows s)"
    "distinct (map sr_id (srows s))"
  using assms by (auto simp: sql_inv_def)

lemma card_keys_filter:
  "distinct (map f xs) \<Longrightarrow> card (f ` {r \<in> set xs. P r}) = length (filter P xs)"
proof (induction xs)
  case (Cons x xs)
  have "{r \<in> set (x # xs). P r} = (if P x then insert x {r \<in> set xs. P r} else {r \<in> set xs. P r})"
    by auto
  moreover have "f x \<notin> f ` {r \<in> set xs. P r}" using Cons.prems by auto
  ultimately show ?case using Cons by simp
qed simp

lemma sql_row_unique:
  "sql_inv s \<Longrightarrow> r \<in> set (qrows s) \<Longrightarrow> r' \<in> set (qrows s) \<Longrightarrow> qr_id r = qr_id r' \<Longrightarrow> r = r'"
proof -
  assume "sql_inv s" and r: "r \<in> set (qrows s)" "r' \<in> set (qrows s)" "qr_id r = qr_id r'"
  then have "inj_on qr_id (set (qrows s))" using sql_invD(2)[of s] by (simp only: distinct_map)
  from inj_onD[OF this r(3,1,2)] show "r = r'" .
qed

lemma sql_with_disjoint: "sql_inv s \<Longrightarrow> sql_with 0 s \<inter> sql_with (- 1) s = {}"
proof -
  assume inv: "sql_inv s"
  have "\<not> (qr_deleted r = 0 \<and> qr_deleted r' = - 1)"
    if "r \<in> set (qrows s)" "r' \<in> set (qrows s)" "qr_id r = qr_id r'" for r r'
    using sql_row_unique[OF inv that] by simp
  then show "sql_with 0 s \<inter> sql_with (- 1) s = {}" unfolding sql_with_def by fastforce
qed

lemma sql_with_all: "sql_inv s \<Longrightarrow> sql_with 0 s \<union> sql_with (- 1) s = qr_id ` set (qrows s)"
proof -
  assume inv: "sql_inv s"
  have "qr_deleted r = 0 \<or> qr_deleted r = - 1" if "r \<in> set (qrows s)" for r
    using sql_invD(3)[OF inv that] by simp
  then show "sql_with 0 s \<union> sql_with (- 1) s = qr_id ` set (qrows s)" unfolding sql_with_def by blast
qed

lemma ans_rows_of: "r \<in> set (map2 (ans_row_of qid) as ids) \<Longrightarrow> ar_question_id r = qid"
  by (auto simp: ans_row_of_def)

lemma dep_rows_of: "r \<in> set (map2 (dep_row_of qid) ds ids) \<Longrightarrow> dr_question_id r = qid"
  by (auto simp: dep_row_of_def)

lemma inserted_inv:
  assumes ins: "inserted data qid created accessed s s'" and inv: "sql_inv s" and "sql_insertable data"
  shows "sql_inv s'" "sql_with 0 s' = insert qid (sql_with 0 s)" "sql_with (- 1) s' = sql_with (- 1) s"
    "qid \<notin> sql_with 0 s \<union> sql_with (- 1) s"
proof -
  from ins obtain aids dids i where api: "sql_api s' = sql_api s" and qid: "1 \<le> qid" "qid \<notin> qr_id ` set (qrows s)"
    and q: "qrows s' = qrows s @ [\<lparr>qr_id = qid, qr_question = question_text (cd_question data),
       qr_create_on = created, qr_last_access = accessed,
       qr_embedding = map_option (sql_tobytes s) (cd_embedding data), qr_deleted = 0\<rparr>]"
    and a: "arows s' = arows s @ map2 (ans_row_of qid) (cd_answers data) aids"
    and d: "drows s' = drows s @ map2 (dep_row_of qid) (question_deps (cd_question data)) dids"
    and sr: "i \<notin> sr_id ` set (srows s)" "srows s' = srows s @ (case cd_session data of
        SessionName n \<Rightarrow> if n = [] then [] else [\<lparr>sr_id = i, sr_question_id = qid, sr_session_id = n,
           sr_session_question = question_text (cd_question data)\<rparr>]
      | _ \<Rightarrow> [])"
    unfolding inserted_def same_engine_def by blast
  show "qid \<notin> sql_with 0 s \<union> sql_with (- 1) s" using qid(2) by (simp add: sql_with_all[OF inv])
  show "sql_inv s'"
    unfolding sql_inv_def
  proof (intro conjI ballI)
    show "db_contract (sql_api s')" using sql_invD(1)[OF inv] by (simp add: api)
    show "distinct (map qr_id (qrows s'))" using sql_invD(2)[OF inv] qid(2) by (simp add: q)
    show "distinct (map sr_id (srows s'))"
      using sql_invD(6)[OF inv] sr(1) unfolding sr(2) by (cases "cd_session data") simp_all
  next
    fix r assume "r \<in> set (qrows s')"
    then have "r \<in> set (qrows s) \<or> r = last (qrows s')" by (auto simp: q)
    with sql_invD(3)[OF inv] qid(1) assms(3)
    show "1 \<le> qr_id r" "qr_deleted r \<in> {0, - 1}" "qr_embedding r \<noteq> None"
      by (auto simp: q sql_insertable_def)
  next
    fix r assume "r \<in> set (arows s')"
    with sql_invD(4)[OF inv, of r] ans_rows_of[of r qid]
    show "ar_question_id r \<in> qr_id ` set (qrows s')" unfolding a q by auto
  next
    fix r assume "r \<in> set (drows s')"
    with sql_invD(5)[OF inv, of r] dep_rows_of[of r qid]
    show "dr_question_id r \<in> qr_id ` set (qrows s')" unfolding d q by auto
  qed
  have "{r \<in> set (qrows s'). qr_deleted r = c} = (if c = 0 then insert (last (qrows s')) else id)
      {r \<in> set (qrows s). qr_deleted r = c}" for c by (auto simp: q)
  then show "sql_with 0 s' = insert qid (sql_with 0 s)" "sql_with (- 1) s' = sql_with (- 1) s"
    by (simp_all add: sql_with_def q)
qed

lemma sql_batch_spec:
  assumes "sql_inv s" and "\<And>d. d \<in> set ds \<Longrightarrow> sql_insertable d"
  shows "\<exists>ids s'. map_out sql_insert ds s = (Inr ids, s') \<and> length ids = length ds \<and> distinct ids \<and>
    set ids \<inter> (sql_with 0 s \<union> sql_with (- 1) s) = {} \<and> sql_with 0 s' = sql_with 0 s \<union> set ids \<and>
    sql_with (- 1) s' = sql_with (- 1) s \<and> sql_inv s'"
  using assms
proof (induction ds arbitrary: s)
  case (Cons d ds)
  have ok: "sql_insertable d" using Cons.prems(2) by simp
  then obtain qid s1 created accessed where ins: "sql_insert d s = (Inr qid, s1)"
    "inserted d qid created accessed s s1"
    using sql_insert_spec[OF sql_invD(1)[OF Cons.prems(1)], of d] unfolding sql_insertable_def by blast
  note I = inserted_inv[OF ins(2) Cons.prems(1) ok]
  from Cons.IH[OF I(1)] Cons.prems(2) obtain ids s' where rest: "map_out sql_insert ds s1 = (Inr ids, s')"
    "length ids = length ds" "distinct ids" "set ids \<inter> (sql_with 0 s1 \<union> sql_with (- 1) s1) = {}"
    "sql_with 0 s' = sql_with 0 s1 \<union> set ids" "sql_with (- 1) s' = sql_with (- 1) s1" "sql_inv s'"
    by (metis list.set_intros(2))
  have "map_out sql_insert (d # ds) s = (Inr (qid # ids), s')" by (simp add: ins(1) rest(1))
  moreover have "distinct (qid # ids)" using rest(3,4) I(2) by auto
  moreover have "set (qid # ids) \<inter> (sql_with 0 s \<union> sql_with (- 1) s) = {}" using rest(4) I by auto
  moreover have "sql_with 0 s' = sql_with 0 s \<union> set (qid # ids)" using rest(5) I(2) by auto
  ultimately show ?case using rest I(3) by (metis length_Cons)
qed simp

text \<open>Statements that rewrite question rows one by one, keeping ids, flags and embeddings.\<close>

lemma qr_ids_map:
  assumes "\<And>r. qr_id (f r) = qr_id r"
  shows "map qr_id (map f rows) = map qr_id rows" "qr_id ` set (map f rows) = qr_id ` set rows"
  using assms by (simp_all add: image_image)

lemma sql_rewrite_inv:
  assumes inv: "sql_inv s"
    and s': "sql_api s' = sql_api s" "qrows s' = map f (qrows s)" "arows s' = arows s" "drows s' = drows s"
      "srows s' = srows s"
    and f: "\<And>r. qr_id (f r) = qr_id r" "\<And>r. qr_embedding (f r) = qr_embedding r"
      "\<And>r. qr_deleted (f r) = qr_deleted r \<or> qr_deleted (f r) = - 1"
  shows "sql_inv s'"
proof -
  have "1 \<le> qr_id r \<and> qr_deleted r \<in> {0, - 1} \<and> qr_embedding r \<noteq> None" if "r \<in> set (map f (qrows s))" for r
  proof -
    from that obtain r0 where "r0 \<in> set (qrows s)" "r = f r0" by auto
    with sql_invD(3)[OF inv, of r0] f(1,2,3)[of r0] show ?thesis by auto
  qed
  with sql_invD(1,2,4,5,6)[OF inv] show ?thesis
    unfolding sql_inv_def s' qr_ids_map[OF f(1)] by blast
qed

lemma sql_touch_inv:
  assumes inv: "sql_inv s"
    and s': "sql_api s' = sql_api s" "qrows s' = map f (qrows s)" "arows s' = arows s" "drows s' = drows s"
      "srows s' = srows s"
    and f: "\<And>r. qr_id (f r) = qr_id r" "\<And>r. qr_embedding (f r) = qr_embedding r"
      "\<And>r. qr_deleted (f r) = qr_deleted r"
  shows "sql_inv s'" "sql_with c s' = sql_with c s"
proof -
  show "sql_inv s'" by (rule sql_rewrite_inv[OF inv s']) (simp_all add: f)
  have "{r \<in> set (map f (qrows s)). qr_deleted r = c} = f ` {r \<in> set (qrows s). qr_deleted r = c}"
    using f(3) by auto
  then show "sql_with c s' = sql_with c s" by (simp add: sql_with_def s' image_image f(1))
qed

lemma sql_mark_spec:
  assumes inv: "sql_inv s" and s'_def: "s' = snd (sql_mark_deleted ks s)"
  shows "sql_inv s'" "sql_with 0 s' = sql_with 0 s - set ks"
    "sql_with (- 1) s' = sql_with (- 1) s \<union> (sql_with 0 s \<inter> set ks)"
proof -
  define f :: "'a ques_row \<Rightarrow> 'a ques_row" where
    "f = (\<lambda>r. if qr_id r \<in> set ks then r\<lparr>qr_deleted := - 1\<rparr> else r)"
  note upd = ques_update[OF sql_invD(1)[OF inv]]
  have rows: "sql_api s' = sql_api s" "qrows s' = map f (qrows s)" "arows s' = arows s" "drows s' = drows s"
    "srows s' = srows s"
    by (simp_all add: s'_def sql_mark_deleted_def sql_rows_defs upd f_def)
  have f: "qr_id (f r) = qr_id r" "qr_embedding (f r) = qr_embedding r"
    "qr_deleted (f r) = (if qr_id r \<in> set ks then - 1 else qr_deleted r)" for r
    by (simp_all add: f_def)
  show "sql_inv s'" by (rule sql_rewrite_inv[OF inv rows]) (simp_all add: f)
  have w: "sql_with c s' = {qr_id r |r. r \<in> set (qrows s) \<and> qr_deleted (f r) = c}" for c
    by (auto simp: sql_with_def rows(2) f(1) image_iff) (metis f(1))+
  have d: "qr_deleted r = 0 \<or> qr_deleted r = - 1" if "r \<in> set (qrows s)" for r
    using sql_invD(3)[OF inv that] by simp
  show "sql_with 0 s' = sql_with 0 s - set ks"
    unfolding w f(3) by (auto simp: sql_with_def split: if_splits)
  show "sql_with (- 1) s' = sql_with (- 1) s \<union> (sql_with 0 s \<inter> set ks)"
    unfolding w f(3) by (auto simp: sql_with_def split: if_splits dest: d)
qed

lemma sql_clear_spec:
  assumes inv: "sql_inv s" and s'_def: "s' = snd (sql_clear_deleted_data s)"
  shows "sql_inv s'" "sql_with 0 s' = sql_with 0 s" "sql_with (- 1) s' = {}"
    "arows s' = filter (\<lambda>a. ar_question_id a \<notin> sql_with (- 1) s) (arows s)"
    "drows s' = filter (\<lambda>a. dr_question_id a \<notin> sql_with (- 1) s) (drows s)"
    "srows s' = filter (\<lambda>a. sr_question_id a \<notin> sql_with (- 1) s) (srows s)"
proof -
  note db = sql_invD(1)[OF inv]
  have sel: "set (map qr_id (t_select (db_ques (sql_api s)) (\<lambda>r. qr_deleted r = - 1) (sql_db s))) =
      sql_with (- 1) s"
    by (simp add: ques_select[OF db] sql_with_def qrows_def)
  have rows: "sql_api s' = sql_api s" "qrows s' = filter (\<lambda>r. qr_deleted r \<noteq> - 1) (qrows s)"
    and a: "arows s' = filter (\<lambda>a. ar_question_id a \<notin> sql_with (- 1) s) (arows s)"
    and e: "drows s' = filter (\<lambda>a. dr_question_id a \<notin> sql_with (- 1) s) (drows s)"
    and sr: "srows s' = filter (\<lambda>a. sr_question_id a \<notin> sql_with (- 1) s) (srows s)"
    using sel by (simp_all add: s'_def sql_clear_deleted_data_def sql_rows_defs Let_def
        ques_delete[OF db] ans_delete[OF db] dep_delete[OF db] session_delete[OF db])
  show "arows s' = filter (\<lambda>a. ar_question_id a \<notin> sql_with (- 1) s) (arows s)"
    "drows s' = filter (\<lambda>a. dr_question_id a \<notin> sql_with (- 1) s) (drows s)"
    "srows s' = filter (\<lambda>a. sr_question_id a \<notin> sql_with (- 1) s) (srows s)" by (fact a e sr)+
  show "sql_with 0 s' = sql_with 0 s" by (auto simp: sql_with_def rows(2) image_iff)
  show "sql_with (- 1) s' = {}" by (auto simp: sql_with_def rows(2))
  have kept: "i \<in> qr_id ` set (qrows s')" if "i \<in> qr_id ` set (qrows s)" "i \<notin> sql_with (- 1) s" for i
    using that by (auto simp: rows(2) sql_with_def)
  show "sql_inv s'"
    unfolding sql_inv_def
  proof (intro conjI ballI)
    show "distinct (map qr_id (qrows s'))"
      using sql_invD(2)[OF inv] by (simp add: rows(2) distinct_map_filter)
    show "distinct (map sr_id (srows s'))"
      using sql_invD(6)[OF inv] by (simp add: sr distinct_map_filter)
    show "ar_question_id r \<in> qr_id ` set (qrows s')" if "r \<in> set (arows s')" for r
      using that kept[OF sql_invD(4)[OF inv]] by (auto simp: a)
    show "dr_question_id r \<in> qr_id ` set (qrows s')" if "r \<in> set (drows s')" for r
      using that kept[OF sql_invD(5)[OF inv]] by (auto simp: e)
  qed (use db sql_invD(3)[OF inv] in \<open>auto simp: rows\<close>)
qed

section \<open>Reading an entry\<close>

definition ans_of_row :: "ans_row \<Rightarrow> answer" where
  "ans_of_row r = \<lparr>ans_content = ar_answer r, ans_type = ar_type r\<rparr>"

definition dep_of_row :: "dep_row \<Rightarrow> question_dep" where
  "dep_of_row r = \<lparr>dep_name = dr_name r, dep_data = dr_data r, dep_type = Plain (dr_type r)\<rparr>"

text \<open>\<open>served r s data\<close>: \<open>data\<close> is the entry of the question row \<open>r\<close> in the storage \<open>s\<close>.\<close>

definition served :: "'y ques_row \<Rightarrow> ('y, 'e, 'd) sql \<Rightarrow> 'e cache_data \<Rightarrow> bool" where
  "served r s data \<longleftrightarrow> question_text (cd_question data) = qr_question r \<and>
     mset (question_deps (cd_question data)) =
       mset (map dep_of_row (filter (\<lambda>e. dr_question_id e = qr_id r) (drows s))) \<and>
     mset (cd_answers data) = mset (map ans_of_row (filter (\<lambda>a. ar_question_id a = qr_id r) (arows s))) \<and>
     cd_embedding data = map_option (sql_frombuffer s) (qr_embedding r) \<and>
     (\<exists>ns. cd_session data = SessionNames ns \<and>
        mset ns = mset (map sr_session_id (filter (\<lambda>x. sr_question_id x = qr_id r) (srows s)))) \<and>
     cd_create_on data = Some (qr_create_on r) \<and> cd_last_access data = Some (qr_last_access r)"

lemma sql_get_live:
  assumes inv: "sql_inv s" and r: "r \<in> set (qrows s)" "qr_deleted r = 0"
  shows "\<exists>data s'. sql_get_data_by_id (qr_id r) s = (Inr (Some data), s') \<and> served r s data \<and>
    sql_api s' = sql_api s \<and>
    qrows s' = map (\<lambda>q. if qr_id q = qr_id r then q\<lparr>qr_last_access := sql_now s (sql_ticks s)\<rparr> else q) (qrows s) \<and>
    arows s' = arows s \<and> drows s' = drows s \<and> srows s' = srows s"
proof -
  note db = sql_invD(1)[OF inv]
  let ?sel = "t_select (db_ques (sql_api s)) (\<lambda>q. qr_id q = qr_id r \<and> qr_deleted q = 0) (sql_db s)"
  have sel: "set ?sel = {q \<in> set (qrows s). qr_id q = qr_id r \<and> qr_deleted q = 0}"
    by (simp add: ques_select[OF db] qrows_def)
  have "r \<in> set ?sel" unfolding sel using r by simp
  then obtain rest where hd: "?sel = r # rest"
    using sel sql_row_unique[OF inv _ r(1)] by (cases ?sel) auto
  obtain y where y: "qr_embedding r = Some y" using sql_invD(3)[OF inv r(1)] by auto
  define now where "now = sql_now s (sql_ticks s)"
  define d where "d = t_update (db_ques (sql_api s)) (\<lambda>q. qr_id q = qr_id r)
    (\<lambda>q. q\<lparr>qr_last_access := now\<rparr>) (sql_db s)"
  define ans where "ans = t_select (db_ans (sql_api s)) (\<lambda>a. ar_question_id a = qr_id r) d"
  define deps where "deps = t_select (db_dep (sql_api s)) (\<lambda>e. dr_question_id e = qr_id r) d"
  define sess where "sess = t_select (db_session (sql_api s)) (\<lambda>x. sr_question_id x = qr_id r) d"
  note upd = ques_update[OF db, where P = "\<lambda>q. qr_id q = qr_id r" and f = "\<lambda>q. q\<lparr>qr_last_access := now\<rparr>"
      and d = "sql_db s", folded d_def]
  let ?s = "s\<lparr>sql_ticks := Suc (sql_ticks s), sql_db := d\<rparr>"
  let ?data = "cache_data_init
     (if deps = [] then QStr (qr_question r) else QObj \<lparr>q_content = qr_question r, q_deps = Some (map dep_of_row deps)\<rparr>)
     (AnsList (map (\<lambda>a. ItemTuple (ar_answer a) (ar_type a)) ans)) (Some (sql_frombuffer s y))
     (SessionNames (map sr_session_id sess)) (Some (qr_create_on r)) (Some (qr_last_access r))"
  have get: "sql_get_data_by_id (qr_id r) s = (Inr (Some ?data), ?s)"
    unfolding sql_get_data_by_id_def Let_def hd
    by (simp add: sql_clock_def y d_def now_def ans_def deps_def sess_def dep_of_row_def [abs_def])
  have m: "mset ans = mset (filter (\<lambda>a. ar_question_id a = qr_id r) (arows s))"
    "mset deps = mset (filter (\<lambda>e. dr_question_id e = qr_id r) (drows s))"
    "mset sess = mset (filter (\<lambda>x. sr_question_id x = qr_id r) (srows s))"
    by (simp_all only: ans_def deps_def sess_def ans_select(1)[OF db] dep_select(1)[OF db]
        session_select(1)[OF db] upd arows_def drows_def srows_def)
  have "served r s ?data"
  proof -
    have mm: "mset (map f ans) = mset (map f (filter (\<lambda>a. ar_question_id a = qr_id r) (arows s)))"
      "mset (map g deps) = mset (map g (filter (\<lambda>e. dr_question_id e = qr_id r) (drows s)))"
      "mset (map h sess) = mset (map h (filter (\<lambda>x. sr_question_id x = qr_id r) (srows s)))"
      for f :: "ans_row \<Rightarrow> answer" and g :: "dep_row \<Rightarrow> question_dep" and h :: "session_row \<Rightarrow> string"
      by (simp_all only: mset_map m)
    have "deps = [] \<longleftrightarrow> filter (\<lambda>e. dr_question_id e = qr_id r) (drows s) = []"
      using m(2) mset_eq_length by fastforce
    then show ?thesis
      unfolding served_def cache_data_init_def
      using mm(1)[of ans_of_row] mm(2)[of dep_of_row] mm(3)[of sr_session_id]
      by (cases "deps = []") (simp_all add: y o_def ans_of_row_def [abs_def] del: mset_map mset_filter)
  qed
  with get show ?thesis
    by (intro exI[of _ ?data] exI[of _ ?s]) (simp add: sql_rows_defs upd now_def)
qed

lemma sql_get_touch:
  assumes inv: "sql_inv s" and i: "i \<in> sql_with 0 s"
  shows "\<exists>d s'. sql_get_data_by_id i s = (Inr (Some d), s') \<and> sql_with 0 s' = sql_with 0 s \<and>
    sql_with (- 1) s' = sql_with (- 1) s \<and> sql_inv s'"
proof -
  from i obtain r where r: "r \<in> set (qrows s)" "qr_deleted r = 0" "i = qr_id r" by (auto simp: sql_with_def)
  define f :: "'a ques_row \<Rightarrow> 'a ques_row" where
    "f = (\<lambda>q. if qr_id q = qr_id r then q\<lparr>qr_last_access := sql_now s (sql_ticks s)\<rparr> else q)"
  have f: "qr_id (f q) = qr_id q" "qr_embedding (f q) = qr_embedding q" "qr_deleted (f q) = qr_deleted q" for q
    by (simp_all add: f_def)
  from sql_get_live[OF inv r(1,2), folded f_def] obtain d s' where
    get: "sql_get_data_by_id i s = (Inr (Some d), s')" and
    s': "sql_api s' = sql_api s" "qrows s' = map f (qrows s)" "arows s' = arows s" "drows s' = drows s"
      "srows s' = srows s"
    unfolding r(3) by blast
  with sql_touch_inv[OF inv s' f] show ?thesis by blast
qed

lemma sql_get_gone:
  assumes inv: "sql_inv s" and i: "i \<notin> sql_with 0 s"
  shows "sql_get_data_by_id i s = (Inr None, s)"
proof -
  have "set (t_select (db_ques (sql_api s)) (\<lambda>r. qr_id r = i \<and> qr_deleted r = 0) (sql_db s)) = {}"
    using i by (auto simp: ques_select(2)[OF sql_invD(1)[OF inv]] sql_with_def simp flip: qrows_def)
  then show ?thesis by (simp add: sql_get_data_by_id_def)
qed

lemma sql_ids_spec:
  assumes inv: "sql_inv s"
  shows "set (sql_get_ids b s) = sql_with (if b then - 1 else 0) s" "distinct (sql_get_ids b s)"
proof -
  note db = sql_invD(1)[OF inv]
  define P where "P = (\<lambda>r::'a ques_row. qr_deleted r = (if b then - 1 else 0))"
  have ids: "sql_get_ids b s = map qr_id (t_select (db_ques (sql_api s)) P (sql_db s))"
    by (simp add: sql_get_ids_def P_def)
  then show "set (sql_get_ids b s) = sql_with (if b then - 1 else 0) s"
    by (simp add: ques_select(2)[OF db] sql_with_def P_def flip: qrows_def)
  have "mset (sql_get_ids b s) = mset (map qr_id (filter P (qrows s)))"
    unfolding ids by (simp only: mset_map ques_select(1)[OF db] qrows_def)
  moreover have "distinct (map qr_id (filter P (qrows s)))"
    using sql_invD(2)[OF inv] by (simp add: distinct_map_filter)
  ultimately show "distinct (sql_get_ids b s)" using mset_eq_imp_distinct_iff by blast
qed

lemma sql_count_spec:
  assumes inv: "sql_inv s"
  shows "sql_count c False s = int (card (sql_with c s))"
    and "sql_count c' True s = int (card (sql_with 0 s \<union> sql_with (- 1) s))"
proof -
  note sel = ques_select(3)[OF sql_invD(1)[OF inv]]
  note card = card_keys_filter[OF sql_invD(2)[OF inv]]
  show "sql_count c False s = int (card (sql_with c s))"
    using card[of "\<lambda>r. qr_deleted r = c"] by (simp add: sql_count_def sel sql_with_def flip: qrows_def)
  show "sql_count c' True s = int (card (sql_with 0 s \<union> sql_with (- 1) s))"
    using card[of "\<lambda>r. True"] by (simp add: sql_with_all[OF inv] sql_count_def sel flip: qrows_def)
qed

interpretation sql: scalar_store "sql_ops :: ('e, ('y, 'e, 'd) sql) storage_ops" "sql_with 0" "sql_with (- 1)" sql_inv sql_insertable
proof
  fix s :: "('y, 'e, 'd) sql" and ds :: "'e cache_data list" and ks :: "int list" and i :: int
  assume inv: "sql_inv s"
  show "\<forall>d \<in> set ds. sql_insertable d \<Longrightarrow>
      \<exists>ids s'. so_batch_insert sql_ops ds s = (Inr ids, s') \<and> length ids = length ds \<and> distinct ids \<and>
        set ids \<inter> (sql_with 0 s \<union> sql_with (- 1) s) = {} \<and> sql_with 0 s' = sql_with 0 s \<union> set ids \<and>
        sql_with (- 1) s' = sql_with (- 1) s \<and> sql_inv s'"
    using sql_batch_spec[OF inv, of ds] by (auto simp: sql_ops_def sql_batch_insert_def)
  show "\<exists>s'. so_mark_deleted sql_ops ks s = (Inr (), s') \<and> sql_with 0 s' = sql_with 0 s - set ks \<and>
      sql_with (- 1) s' = sql_with (- 1) s \<union> (sql_with 0 s \<inter> set ks) \<and> sql_inv s'"
    using sql_mark_spec[OF inv refl, of ks] by (simp add: sql_ops_def sql_mark_deleted_def)
  show "\<exists>s'. so_clear_deleted_data sql_ops s = (Inr (), s') \<and> sql_with 0 s' = sql_with 0 s \<and>
      sql_with (- 1) s' = {} \<and> sql_inv s'"
    using sql_clear_spec[OF inv refl] by (simp add: sql_ops_def sql_clear_deleted_data_def Let_def)
  show "set (so_get_ids sql_ops False s) = sql_with 0 s \<and> distinct (so_get_ids sql_ops False s)"
    "set (so_get_ids sql_ops True s) = sql_with (- 1) s \<and> distinct (so_get_ids sql_ops True s)"
    using sql_ids_spec[OF inv] by (simp_all add: sql_ops_def)
  show "so_count sql_ops (- 1) False s = int (card (sql_with (- 1) s))"
    "so_count sql_ops 0 True s = int (card (sql_with 0 s \<union> sql_with (- 1) s))"
    using sql_count_spec[OF inv] by (simp_all add: sql_ops_def)
  show "i \<in> sql_with 0 s \<Longrightarrow> \<exists>d s'. so_get_data_by_id sql_ops i s = (Inr (Some d), s') \<and>
      sql_with 0 s' = sql_with 0 s \<and> sql_with (- 1) s' = sql_with (- 1) s \<and> sql_inv s'"
    using sql_get_touch[OF inv] by (simp add: sql_ops_def)
  show "i \<notin> sql_with 0 s \<Longrightarrow> so_get_data_by_id sql_ops i s = (Inr None, s)"
    using sql_get_gone[OF inv] by (simp add: sql_ops_def)
  show "sql_with 0 s \<inter> sql_with (- 1) s = {}" by (rule sql_with_disjoint[OF inv])
  show "finite (sql_with 0 s) \<and> finite (sql_with (- 1) s)" by (simp add: sql_with_def)
qed

section \<open>The storage as a map from ids to entries\<close>

text \<open>
  The abstract value of the storage: for every live id the question's text, its dependencies and
  answers (SQL does not fix their order) and its embedding.
\<close>

type_synonym 'e entry = "string \<times> question_dep multiset \<times> answer multiset \<times> 'e option"

definition sql_entry :: "('y, 'e, 'd) sql \<Rightarrow> int \<Rightarrow> 'e entry option" where
  "sql_entry s i =
     (case filter (\<lambda>r. qr_id r = i \<and> qr_deleted r = 0) (qrows s) of
        [] \<Rightarrow> None
      | r # _ \<Rightarrow> Some (qr_question r, mset (map dep_of_row (filter (\<lambda>e. dr_question_id e = i) (drows s))),
          mset (map ans_of_row (filter (\<lambda>a. ar_question_id a = i) (arows s))),
          map_option (sql_frombuffer s) (qr_embedding r)))"

text \<open>What is stored of an entry: dependency types as integers, the embedding as bytes.\<close>

definition plain_dep :: "question_dep \<Rightarrow> question_dep" where
  "plain_dep e = e\<lparr>dep_type := Plain (dep_kind_int (dep_type e))\<rparr>"

definition data_entry :: "('y, 'e, 'd) sql \<Rightarrow> 'e cache_data \<Rightarrow> 'e entry" where
  "data_entry s data = (question_text (cd_question data), mset (map plain_dep (question_deps (cd_question data))),
     mset (cd_answers data), map_option (\<lambda>e. sql_frombuffer s (sql_tobytes s e)) (cd_embedding data))"

lemma ans_of_row_of [simp]: "ans_of_row (ans_row_of q a i) = a"
  by (simp add: ans_of_row_def ans_row_of_def)

lemma dep_of_row_of [simp]: "dep_of_row (dep_row_of q e i) = plain_dep e"
  by (simp add: dep_of_row_def dep_row_of_def plain_dep_def)

lemma row_question [simp]:
  "ar_question_id (ans_row_of q a i) = q" "dr_question_id (dep_row_of q e i) = q"
  by (simp_all add: ans_row_of_def dep_row_of_def)

lemma filter_map2:
  assumes "\<And>x y. P (f x y) = b" and "length ys = length xs"
  shows "filter P (map2 f xs ys) = (if b then map2 f xs ys else [])"
  using assms(2) by (induction xs ys rule: list_induct2') (auto simp: assms(1))

lemma map_map2:
  assumes "\<And>x y. g (f x y) = h x" and "length ys = length xs"
  shows "map g (map2 f xs ys) = map h xs"
  using assms(2) by (induction xs ys rule: list_induct2') (auto simp: assms(1))

lemma inserted_entry:
  assumes ins: "inserted data qid created accessed s s'" and inv: "sql_inv s"
  shows "sql_entry s' = (sql_entry s)(qid \<mapsto> data_entry s data)"
proof
  fix i
  from ins obtain aids dids where eng: "sql_frombuffer s' = sql_frombuffer s"
    and qid: "qid \<notin> qr_id ` set (qrows s)"
    and q: "qrows s' = qrows s @ [\<lparr>qr_id = qid, qr_question = question_text (cd_question data),
       qr_create_on = created, qr_last_access = accessed,
       qr_embedding = map_option (sql_tobytes s) (cd_embedding data), qr_deleted = 0\<rparr>]"
    and a: "arows s' = arows s @ map2 (ans_row_of qid) (cd_answers data) aids" "length aids = length (cd_answers data)"
    and d: "drows s' = drows s @ map2 (dep_row_of qid) (question_deps (cd_question data)) dids"
      "length dids = length (question_deps (cd_question data))"
    unfolding inserted_def same_engine_def by blast
  have new: "filter (\<lambda>a. ar_question_id a = i) (map2 (ans_row_of qid) (cd_answers data) aids) =
      (if qid = i then map2 (ans_row_of qid) (cd_answers data) aids else [])"
    "filter (\<lambda>e. dr_question_id e = i) (map2 (dep_row_of qid) (question_deps (cd_question data)) dids) =
      (if qid = i then map2 (dep_row_of qid) (question_deps (cd_question data)) dids else [])"
    using a(2) d(2) by (simp_all add: filter_map2)
  show "sql_entry s' i = ((sql_entry s)(qid \<mapsto> data_entry s data)) i"
  proof (cases "i = qid")
    case True
    have "filter (\<lambda>r. qr_id r = qid \<and> qr_deleted r = 0) (qrows s) = []"
      using qid by (auto simp: filter_empty_conv)
    moreover have "filter (\<lambda>a. ar_question_id a = qid) (arows s) = []"
      using qid sql_invD(4)[OF inv] by (auto simp: filter_empty_conv)
    moreover have "filter (\<lambda>e. dr_question_id e = qid) (drows s) = []"
      using qid sql_invD(5)[OF inv] by (auto simp: filter_empty_conv)
    moreover have "map ans_of_row (map2 (ans_row_of qid) (cd_answers data) aids) = map (\<lambda>x. x) (cd_answers data)"
      by (rule map_map2[where g = ans_of_row and f = "ans_row_of qid", OF ans_of_row_of a(2)])
    moreover have "map dep_of_row (map2 (dep_row_of qid) (question_deps (cd_question data)) dids) =
        map plain_dep (question_deps (cd_question data))"
      by (rule map_map2[where g = dep_of_row and f = "dep_row_of qid", OF dep_of_row_of d(2)])
    ultimately show ?thesis using True new
      by (simp only: sql_entry_def q a(1) d(1) filter_append map_append data_entry_def eng)
        (simp add: option.map_comp o_def del: mset_map)
  next
    case False
    then show ?thesis using new by (simp add: sql_entry_def q a(1) d(1) eng split: list.split)
  qed
qed

lemma map_upd_add: "m(k \<mapsto> v) ++ map_of (rev zs) = m ++ map_of (rev ((k, v) # zs))"
  by simp

lemma data_entry_engine: "same_engine s s' \<Longrightarrow> data_entry s' = data_entry s"
  by (simp add: data_entry_def same_engine_def fun_eq_iff)

text \<open>
  The session table is not part of an entry. Its contents: which question belongs to which session, with the text it was
  asked by, in the order of insertion.
\<close>

definition session_links :: "('y, 'e, 'd) sql \<Rightarrow> (int \<times> string \<times> string) list" where
  "session_links s = map (\<lambda>r. (sr_question_id r, sr_session_id r, sr_session_question r)) (srows s)"

definition data_links :: "int \<Rightarrow> 'e cache_data \<Rightarrow> (int \<times> string \<times> string) list" where
  "data_links qid data = (case cd_session data of
     SessionName n \<Rightarrow> if n = [] then [] else [(qid, n, question_text (cd_question data))] | _ \<Rightarrow> [])"

lemma inserted_links:
  assumes "inserted data qid created accessed s s'"
  shows "session_links s' = session_links s @ data_links qid data"
proof -
  from assms obtain i where "srows s' = srows s @ (case cd_session data of
      SessionName n \<Rightarrow> if n = [] then [] else [\<lparr>sr_id = i, sr_question_id = qid, sr_session_id = n,
         sr_session_question = question_text (cd_question data)\<rparr>] | _ \<Rightarrow> [])"
    unfolding inserted_def by blast
  then show ?thesis by (simp add: session_links_def data_links_def split: session_field.split)
qed

lemma sql_batch_entries:
  assumes "sql_inv s" and "\<And>d. d \<in> set ds \<Longrightarrow> sql_insertable d"
    and "sql_batch_insert ds s = (Inr ids, s')"
  shows "sql_entry s' = sql_entry s ++ map_of (rev (zip ids (map (data_entry s) ds))) \<and>
    session_links s' = session_links s @ concat (map2 data_links ids ds) \<and> same_engine s s'"
proof -
  have "map_out sql_insert ds s = (Inr ids, s')"
    using assms(3) by (auto simp: sql_batch_insert_def split: prod.splits sum.splits)
  then show ?thesis using assms(1,2)
  proof (induction ds arbitrary: s ids)
    case Nil
    then show ?case by (simp add: same_engine_def)
  next
    case (Cons d ds)
    have ok: "sql_insertable d" using Cons.prems(3) by simp
    from Cons.prems(2) obtain qid s1 created accessed where ins: "sql_insert d s = (Inr qid, s1)"
      "inserted d qid created accessed s s1"
      using sql_insert_spec[OF sql_invD(1), of s d] ok unfolding sql_insertable_def by blast
    from Cons.prems(1) ins(1) obtain ids' where rest: "ids = qid # ids'" "map_out sql_insert ds s1 = (Inr ids', s')"
      by (auto simp: bind_out_Inr_iff)
    have eng: "same_engine s s1" using ins(2) by (simp add: inserted_def)
    have IH: "sql_entry s' = sql_entry s1 ++ map_of (rev (zip ids' (map (data_entry s1) ds)))"
      "session_links s' = session_links s1 @ concat (map2 data_links ids' ds)" "same_engine s1 s'"
      using Cons.IH[OF rest(2) inserted_inv(1)[OF ins(2) Cons.prems(2) ok]] Cons.prems(3) by simp_all
    have "sql_entry s' = sql_entry s ++ map_of (rev (zip ids (map (data_entry s) (d # ds))))"
      by (simp only: IH(1) rest(1) inserted_entry[OF ins(2) Cons.prems(2)] data_entry_engine[OF eng]
          list.map zip_Cons_Cons map_upd_add)
    moreover have "session_links s' = session_links s @ concat (map2 data_links ids (d # ds))"
      using IH(2) inserted_links[OF ins(2)] by (simp add: rest(1))
    moreover have "same_engine s s'" using eng IH(3) by (simp add: same_engine_def)
    ultimately show ?case by simp
  qed
qed

lemma sql_entry_dom: "sql_inv s \<Longrightarrow> dom (sql_entry s) = sql_with 0 s"
proof -
  have "sql_entry s i \<noteq> None \<longleftrightarrow> i \<in> sql_with 0 s" for i
    by (cases "filter (\<lambda>r. qr_id r = i \<and> qr_deleted r = 0) (qrows s)")
      (auto simp: sql_entry_def sql_with_def filter_empty_conv filter_eq_Cons_iff)
  then show "dom (sql_entry s) = sql_with 0 s" unfolding dom_def by blast
qed

lemma sql_entry_row:
  assumes inv: "sql_inv s" and r: "r \<in> set (qrows s)" "qr_deleted r = 0"
  shows "sql_entry s (qr_id r) = Some (qr_question r,
    mset (map dep_of_row (filter (\<lambda>e. dr_question_id e = qr_id r) (drows s))),
    mset (map ans_of_row (filter (\<lambda>a. ar_question_id a = qr_id r) (arows s))),
    map_option (sql_frombuffer s) (qr_embedding r))"
proof -
  let ?rows = "filter (\<lambda>q. qr_id q = qr_id r \<and> qr_deleted q = 0) (qrows s)"
  have "r \<in> set ?rows" using r by simp
  then obtain q rest where "?rows = q # rest" by (cases ?rows) auto
  moreover then have "q \<in> set ?rows" by simp
  then have "q = r" using sql_row_unique[OF inv _ r(1)] by simp
  ultimately show ?thesis by (simp add: sql_entry_def)
qed

lemma served_entry:
  "served r s data \<Longrightarrow> (question_text (cd_question data), mset (question_deps (cd_question data)),
      mset (cd_answers data), cd_embedding data) = (qr_question r,
    mset (map dep_of_row (filter (\<lambda>e. dr_question_id e = qr_id r) (drows s))),
    mset (map ans_of_row (filter (\<lambda>a. ar_question_id a = qr_id r) (arows s))),
    map_option (sql_frombuffer s) (qr_embedding r))"
  by (simp add: served_def)

text \<open>Two storages whose rows show the same for an id have the same entry there.\<close>

lemma sql_entry_cong:
  assumes "map (\<lambda>r. (qr_question r, qr_embedding r)) (filter (\<lambda>r. qr_id r = i \<and> qr_deleted r = 0) (qrows s')) =
      map (\<lambda>r. (qr_question r, qr_embedding r)) (filter (\<lambda>r. qr_id r = i \<and> qr_deleted r = 0) (qrows s))"
    and "filter (\<lambda>e. dr_question_id e = i) (drows s') = filter (\<lambda>e. dr_question_id e = i) (drows s)"
    and "filter (\<lambda>a. ar_question_id a = i) (arows s') = filter (\<lambda>a. ar_question_id a = i) (arows s)"
    and "sql_frombuffer s' = sql_frombuffer s"
  shows "sql_entry s' i = sql_entry s i"
  using assms by (auto simp: sql_entry_def split: list.splits)

lemma sql_mark_entry:
  assumes inv: "sql_inv s"
  shows "sql_entry (snd (sql_mark_deleted ks s)) = sql_entry s |` (- set ks)"
proof
  fix i
  note upd = ques_update[OF sql_invD(1)[OF inv]]
  let ?s' = "snd (sql_mark_deleted ks s)"
  have rows: "qrows ?s' = map (\<lambda>r. if qr_id r \<in> set ks then r\<lparr>qr_deleted := - 1\<rparr> else r) (qrows s)"
    "drows ?s' = drows s" "arows ?s' = arows s" "sql_frombuffer ?s' = sql_frombuffer s"
    by (simp_all add: sql_mark_deleted_def sql_rows_defs upd)
  have "map (\<lambda>r. (qr_question r, qr_embedding r)) (filter (\<lambda>r. qr_id r = i \<and> qr_deleted r = 0)
        (map (\<lambda>r. if qr_id r \<in> set ks then r\<lparr>qr_deleted := - 1\<rparr> else r) rs)) =
      (if i \<in> set ks then [] else map (\<lambda>r. (qr_question r, qr_embedding r))
        (filter (\<lambda>r. qr_id r = i \<and> qr_deleted r = 0) rs))" for rs :: "'a ques_row list"
    by (induction rs) auto
  note f = this[of "qrows s"]
  show "sql_entry ?s' i = (sql_entry s |` (- set ks)) i"
  proof (cases "i \<in> set ks")
    case True
    with f show ?thesis by (simp add: sql_entry_def rows(1))
  next
    case False
    with f have "sql_entry ?s' i = sql_entry s i" by (intro sql_entry_cong) (simp_all add: rows)
    with False show ?thesis by simp
  qed
qed

lemma sql_clear_entry:
  assumes inv: "sql_inv s"
  shows "sql_entry (snd (sql_clear_deleted_data s)) = sql_entry s"
proof
  fix i
  let ?s' = "snd (sql_clear_deleted_data s)"
  note db = sql_invD(1)[OF inv] and C = sql_clear_spec[OF inv refl]
  have q: "qrows ?s' = filter (\<lambda>r. qr_deleted r \<noteq> - 1) (qrows s)" "sql_frombuffer ?s' = sql_frombuffer s"
    by (simp_all add: sql_clear_deleted_data_def sql_rows_defs Let_def
        ques_delete[OF db] ans_delete[OF db] dep_delete[OF db] session_delete[OF db])
  show "sql_entry ?s' i = sql_entry s i"
  proof (cases "i \<in> sql_with 0 s")
    case True
    with sql_with_disjoint[OF inv] have i: "i \<notin> sql_with (- 1) s" by blast
    have del: "(qr_deleted r \<noteq> - 1 \<and> qr_id r = i \<and> qr_deleted r = 0) = (qr_id r = i \<and> qr_deleted r = 0)"
      for r :: "'a ques_row" by auto
    show ?thesis
    proof (rule sql_entry_cong)
      show "filter (\<lambda>e. dr_question_id e = i) (drows ?s') = filter (\<lambda>e. dr_question_id e = i) (drows s)"
        unfolding C(5) filter_filter by (rule filter_cong) (use i in auto)
      show "filter (\<lambda>a. ar_question_id a = i) (arows ?s') = filter (\<lambda>a. ar_question_id a = i) (arows s)"
        unfolding C(4) filter_filter by (rule filter_cong) (use i in auto)
    qed (simp_all add: q del)
  next
    case False
    then have "i \<notin> dom (sql_entry s)" "i \<notin> dom (sql_entry ?s')"
      by (simp_all add: sql_entry_dom[OF inv] sql_entry_dom[OF C(1)] C(2))
    then have "sql_entry s i = None" "sql_entry ?s' i = None" unfolding dom_def by blast+
    then show ?thesis by simp
  qed
qed

lemma sql_get_entry:
  assumes inv: "sql_inv s" and e: "sql_entry s i = Some e"
  shows "\<exists>data s'. sql_get_data_by_id i s = (Inr (Some data), s') \<and>
    (question_text (cd_question data), mset (question_deps (cd_question data)), mset (cd_answers data),
     cd_embedding data) = e \<and> sql_entry s' = sql_entry s"
proof -
  have "i \<in> sql_with 0 s" using e sql_entry_dom[OF inv] by auto
  then obtain r where r: "r \<in> set (qrows s)" "qr_deleted r = 0" "i = qr_id r" by (auto simp: sql_with_def)
  from sql_get_live[OF inv r(1,2)] obtain data s' where get: "sql_get_data_by_id i s = (Inr (Some data), s')"
    and data: "served r s data"
    and rows: "qrows s' = map (\<lambda>q. if qr_id q = qr_id r then q\<lparr>qr_last_access := sql_now s (sql_ticks s)\<rparr> else q) (qrows s)"
      "arows s' = arows s" "drows s' = drows s" unfolding r(3) by blast
  have buf: "sql_frombuffer s' = sql_frombuffer s"
    using get by (auto simp: sql_get_data_by_id_def sql_clock_def Let_def split: list.splits option.splits)
  have "sql_entry s' j = sql_entry s j" for j
  proof (rule sql_entry_cong)
    have "map (\<lambda>r. (qr_question r, qr_embedding r)) (filter (\<lambda>r. qr_id r = j \<and> qr_deleted r = 0)
          (map (\<lambda>q. if qr_id q = k then q\<lparr>qr_last_access := t\<rparr> else q) rs)) =
        map (\<lambda>r. (qr_question r, qr_embedding r)) (filter (\<lambda>r. qr_id r = j \<and> qr_deleted r = 0) rs)"
      for rs :: "'a ques_row list" and k t by (induction rs) auto
    then show "map (\<lambda>r. (qr_question r, qr_embedding r)) (filter (\<lambda>r. qr_id r = j \<and> qr_deleted r = 0) (qrows s')) =
        map (\<lambda>r. (qr_question r, qr_embedding r)) (filter (\<lambda>r. qr_id r = j \<and> qr_deleted r = 0) (qrows s))"
      by (simp only: rows)
  qed (simp_all add: rows buf)
  then have "sql_entry s' = sql_entry s" by blast
  moreover have "(question_text (cd_question data), mset (question_deps (cd_question data)), mset (cd_answers data),
     cd_embedding data) = e"
    using served_entry[OF data] sql_entry_row[OF inv r(1,2)] e unfolding r(3) by simp
  ultimately show ?thesis using get by blast
qed

section \<open>An engine that meets the contract\<close>

text \<open>Tables as lists; the next key is one more than the largest. Used to instantiate hypotheses.\<close>

record 'y list_db =
  ld_ques :: "'y ques_row list"
  ld_ans :: "ans_row list"
  ld_dep :: "dep_row list"
  ld_session :: "session_row list"
  ld_report :: "report_row list"

definition next_key :: "int list \<Rightarrow> int" where
  "next_key ks = 1 + foldr max ks 0"

definition list_table :: "('r \<Rightarrow> int) \<Rightarrow> ('d \<Rightarrow> 'r list) \<Rightarrow> ('r list \<Rightarrow> 'd \<Rightarrow> 'd) \<Rightarrow> ('r, 'd) table_api" where
  "list_table key rows put =
     \<lparr>t_rows = rows, t_select = (\<lambda>P d. filter P (rows d)),
      t_insert = (\<lambda>mk d. let i = next_key (map key (rows d)) in (i, put (rows d @ [mk i]) d)),
      t_update = (\<lambda>P f d. put (map (\<lambda>r. if P r then f r else r) (rows d)) d),
      t_delete = (\<lambda>P d. put (filter (\<lambda>r. \<not> P r) (rows d)) d)\<rparr>"

lemma next_key_fresh: "1 \<le> next_key ks" "k \<in> set ks \<Longrightarrow> k < next_key ks"
  by (induction ks) (auto simp: next_key_def)

lemma list_table_contract:
  assumes "\<And>d rs. rows (put rs d) = rs" "\<And>d rs. other (put rs d) = other d"
  shows "table_contract key other (list_table key rows put)"
proof -
  have "i \<notin> key ` set (rows d)" if "i = next_key (map key (rows d))" for i d
    using next_key_fresh(2)[of _ "map key (rows d)"] that by auto
  with assms next_key_fresh(1) show ?thesis
    by (simp add: table_contract_def list_table_def Let_def)
qed

definition list_db_api :: "('y, 'y list_db) db_api" where
  "list_db_api =
     \<lparr>db_ques = list_table qr_id ld_ques (\<lambda>rs d. d\<lparr>ld_ques := rs\<rparr>),
      db_ans = list_table ar_id ld_ans (\<lambda>rs d. d\<lparr>ld_ans := rs\<rparr>),
      db_dep = list_table dr_id ld_dep (\<lambda>rs d. d\<lparr>ld_dep := rs\<rparr>),
      db_session = list_table sr_id ld_session (\<lambda>rs d. d\<lparr>ld_session := rs\<rparr>),
      db_report = list_table rr_id ld_report (\<lambda>rs d. d\<lparr>ld_report := rs\<rparr>)\<rparr>"

lemma list_db_contract: "db_contract list_db_api"
proof -
  have rows: "t_rows (list_table key rows put) = rows" for key :: "'r \<Rightarrow> int" and rows :: "'d \<Rightarrow> 'r list" and put
    by (simp add: list_table_def)
  show ?thesis
    unfolding db_contract_def Let_def
    by (intro conjI) (simp_all add: list_db_api_def rows, (rule list_table_contract; simp)+)
qed

definition sql_new :: "(nat, nat, nat list_db) sql" where
  "sql_new = \<lparr>sql_api = list_db_api, sql_tobytes = (\<lambda>e. e), sql_frombuffer = (\<lambda>y. y), sql_now = int,
     sql_id_of_string = (\<lambda>_. None),
     sql_ticks = 0, sql_db = \<lparr>ld_ques = [], ld_ans = [], ld_dep = [], ld_session = [], ld_report = []\<rparr>\<rparr>"

lemma sql_new_inv: "sql_inv sql_new"
proof -
  have "sql_api sql_new = list_db_api" by (simp add: sql_new_def)
  moreover have "qrows sql_new = []" "arows sql_new = []" "drows sql_new = []" "srows sql_new = []"
    by (simp_all add: sql_new_def sql_rows_defs list_db_api_def list_table_def)
  ultimately show ?thesis by (simp add: sql_inv_def list_db_contract)
qed

lemma sql_new_entry: "sql_entry sql_new = Map.empty"
  by (rule ext) (simp add: sql_entry_def sql_new_def sql_rows_defs list_db_api_def list_table_def)

section \<open>Properties\<close>

definition sample_data :: "string \<Rightarrow> nat cache_data" where
  "sample_data q = cache_data_init (QObj \<lparr>q_content = q, q_deps = Some [\<lparr>dep_name = ''n'', dep_data = ''d'',
     dep_type = Member DT_IMAGE_URL\<rparr>]\<rparr>) (AnsStr ''a'') (Some 7) (SessionName ''u'') None None"

lemma sample_insertable: "sql_insertable (sample_data q)"
  by (simp add: sample_data_def sql_insertable_def cache_data_init_def)

text \<open>
  C10. \<open>batch_insert\<close> stores a batch as one map update: it returns fresh, distinct ids, one per entry and
  in order; reading the storage at these ids gives the entries of the batch (the question's text, its
  dependencies and answers up to order, the embedding through its byte form), every other entry is as
  before, every entry with a session adds its row to the session table, and the storage's invariant (unique ids, no answer or dependency without its question) is kept.
\<close>

theorem sql_batch_insert_refines:
  assumes "sql_inv s" and "\<forall>d \<in> set ds. sql_insertable d"
  shows "\<exists>ids s'. sql_batch_insert ds s = (Inr ids, s') \<and> length ids = length ds \<and> distinct ids \<and>
    set ids \<inter> qr_id ` set (qrows s) = {} \<and>
    sql_entry s' = sql_entry s ++ map_of (zip ids (map (data_entry s) ds)) \<and>
    session_links s' = session_links s @ concat (map2 data_links ids ds) \<and> sql_inv s'"
proof -
  from sql.insert[OF assms] obtain ids s' where ins: "sql_batch_insert ds s = (Inr ids, s')"
    and ids: "length ids = length ds" "distinct ids" "set ids \<inter> (sql_with 0 s \<union> sql_with (- 1) s) = {}"
    and inv: "sql_inv s'" by (auto simp: sql_ops_def)
  have "sql_entry s' = sql_entry s ++ map_of (rev (zip ids (map (data_entry s) ds)))"
    "session_links s' = session_links s @ concat (map2 data_links ids ds)"
    using sql_batch_entries[OF assms(1) _ ins] assms(2) by blast+
  moreover have "map_of (rev (zip ids (map (data_entry s) ds))) = map_of (zip ids (map (data_entry s) ds))"
    using ids(1,2) by (subst map_of_inject_set) (simp_all add: rev_map [symmetric])
  ultimately show ?thesis using ins ids inv sql_with_all[OF assms(1)] by metis
qed

theorem sql_batch_insert_refines_witness:
  "\<exists>ids s'. sql_batch_insert [sample_data ''q'', sample_data ''r''] sql_new = (Inr ids, s') \<and> length ids = 2"
  using sql_batch_insert_refines[OF sql_new_inv, of "[sample_data ''q'', sample_data ''r'']"]
  by (auto simp: sample_insertable)

text \<open>
  \<open>get_data_by_id\<close> returns exactly the entry the storage holds for a live id and \<open>None\<close> for every
  other id, including those marked as deleted; apart from the access time it changes nothing.
\<close>

theorem sql_get_refines:
  assumes "sql_inv s"
  shows "case sql_entry s i of
      None \<Rightarrow> sql_get_data_by_id i s = (Inr None, s)
    | Some e \<Rightarrow> (\<exists>data s'. sql_get_data_by_id i s = (Inr (Some data), s') \<and>
        (question_text (cd_question data), mset (question_deps (cd_question data)),
         mset (cd_answers data), cd_embedding data) = e \<and> sql_entry s' = sql_entry s \<and> sql_inv s')"
proof (cases "sql_entry s i")
  case None
  then have "i \<notin> sql_with 0 s" using sql_entry_dom[OF assms] by blast
  with None show ?thesis using sql_get_gone[OF assms] by simp
next
  case (Some e)
  then have "i \<in> sql_with 0 s" using sql_entry_dom[OF assms] by blast
  from sql_get_touch[OF assms this] sql_get_entry[OF assms Some] Some show ?thesis by auto
qed

theorem sql_get_refines_witness:
  "sql_get_data_by_id 3 sql_new = (Inr None, sql_new)"
  using sql_get_refines[OF sql_new_inv, of 3] by (simp add: sql_new_entry)

text \<open>
  C14. Deletion is in two steps: \<open>mark_deleted\<close> removes exactly the given ids from what is served,
  whether or not they exist, and \<open>clear_deleted_data\<close> then changes no entry that is served, leaves no
  question row marked and no answer, dependency or session row of a removed question.
\<close>

theorem sql_two_step_delete:
  assumes "sql_inv s"
  shows "\<exists>s1 s2. sql_mark_deleted ks s = (Inr (), s1) \<and> sql_clear_deleted_data s1 = (Inr (), s2) \<and>
    sql_entry s1 = sql_entry s |` (- set ks) \<and> sql_entry s2 = sql_entry s1 \<and> sql_inv s2 \<and>
    sql_get_ids True s2 = [] \<and> (\<forall>i \<in> set (sql_get_ids True s1).
      i \<notin> ar_question_id ` set (arows s2) \<and> i \<notin> dr_question_id ` set (drows s2) \<and>
      i \<notin> sr_question_id ` set (srows s2))"
proof -
  let ?s1 = "snd (sql_mark_deleted ks s)"
  let ?s2 = "snd (sql_clear_deleted_data ?s1)"
  note M = sql_mark_spec[OF assms refl, of ks]
  note C = sql_clear_spec[OF M(1) refl]
  have "set (sql_get_ids True ?s2) = {}" using sql_ids_spec(1)[OF C(1), of True] C(3) by simp
  moreover have "\<forall>i \<in> set (sql_get_ids True ?s1).
      i \<notin> ar_question_id ` set (arows ?s2) \<and> i \<notin> dr_question_id ` set (drows ?s2) \<and>
      i \<notin> sr_question_id ` set (srows ?s2)"
    using sql_ids_spec(1)[OF M(1), of True] unfolding C(4,5,6) by auto
  moreover have "sql_mark_deleted ks s = (Inr (), ?s1)" "sql_clear_deleted_data ?s1 = (Inr (), ?s2)"
    by (simp_all add: sql_mark_deleted_def sql_clear_deleted_data_def Let_def)
  ultimately show ?thesis
    using sql_mark_entry[OF assms, of ks] sql_clear_entry[OF M(1)] C(1) by (metis set_empty)
qed

theorem sql_two_step_delete_witness:
  "\<exists>s1 s2. sql_mark_deleted [1, 2] sql_new = (Inr (), s1) \<and> sql_clear_deleted_data s1 = (Inr (), s2) \<and>
     sql_inv s2"
  using sql_two_step_delete[OF sql_new_inv, of "[1, 2]"] by blast

end
