(* ===== verification/Vector_Data.thy ===== *)
theory Vector_Data
  imports Prelude
begin

text \<open>
  The vector stores (\<open>gptcache/manager/vector_data/\<close>): the interface \<open>VectorBase\<close> of \<open>base.py\<close>, as the
  record \<open>vector_ops\<close> of the methods the cache calls and the locale \<open>vector_store\<close> of what the data
  manager relies on, and the store \<open>Faiss\<close> of \<open>faiss.py\<close>, whose index library is a parameter.

  \<open>'e\<close> is the type of numpy vectors; \<open>np_float32\<close> converts one to float32.
\<close>

section \<open>The interface VectorBase\<close>

record ('e, 'v) vector_ops =
  vo_mul_add :: "(int \<times> 'e) list \<Rightarrow> 'v \<Rightarrow> (unit, 'v) outcome"
  vo_search :: "'e \<Rightarrow> int \<Rightarrow> 'v \<Rightarrow> ((real \<times> int) list option, 'v) outcome"
  vo_rebuild :: "int list \<Rightarrow> 'v \<Rightarrow> (unit, 'v) outcome"
  vo_delete :: "int list \<Rightarrow> 'v \<Rightarrow> (unit, 'v) outcome"

text \<open>
  \<open>ids\<close> are the ids that have a vector, \<open>fits v e\<close> says that the store accepts the vector \<open>e\<close> (its
  dimension). The laws are limited to what every caller in the repository keeps to: fresh ids are
  added, known ids are deleted, and the list of ids is not empty and has no duplicates.
\<close>

locale vector_store =
  fixes vops :: "('e, 'v) vector_ops"
    and ids :: "'v \<Rightarrow> int set"
    and vinv :: "'v \<Rightarrow> bool"
    and fits :: "'v \<Rightarrow> 'e \<Rightarrow> bool"
  assumes add: "vinv v \<Longrightarrow> ds \<noteq> [] \<Longrightarrow> distinct (map fst ds) \<Longrightarrow> fst ` set ds \<inter> ids v = {} \<Longrightarrow>
      \<forall>d \<in> set ds. fits v (snd d) \<Longrightarrow>
      \<exists>v'. vo_mul_add vops ds v = (Inr (), v') \<and> ids v' = ids v \<union> fst ` set ds \<and> vinv v' \<and> fits v' = fits v"
    and del: "vinv v \<Longrightarrow> ks \<noteq> [] \<Longrightarrow> distinct ks \<Longrightarrow> set ks \<subseteq> ids v \<Longrightarrow>
      \<exists>v'. vo_delete vops ks v = (Inr (), v') \<and> ids v' = ids v - set ks \<and> vinv v' \<and> fits v' = fits v"
    and rebuild: "vinv v \<Longrightarrow> ks \<noteq> [] \<Longrightarrow> distinct ks \<Longrightarrow> set ks \<subseteq> ids v \<Longrightarrow>
      \<exists>v'. vo_rebuild vops ks v = (Inr (), v') \<and> set ks \<subseteq> ids v' \<and> ids v' \<subseteq> ids v \<and> vinv v' \<and> fits v' = fits v"
    and search: "vinv v \<Longrightarrow> vo_search vops e k v = (Inr (Some hits), v') \<Longrightarrow>
      v' = v \<and> snd ` set hits \<subseteq> insert (- 1) (ids v)"
begin

lemmas vector_laws = add del rebuild search

text \<open>A vector that was deleted is not found any more.\<close>

lemma deleted_not_found:
  assumes "vinv v" "ks \<noteq> []" "distinct ks" "set ks \<subseteq> ids v" "vo_delete vops ks v = (Inr (), v')"
    and "vo_search vops e k v' = (Inr (Some hits), v'')" "(d, i) \<in> set hits" "i \<in> set ks" "i \<noteq> - 1"
  shows False
  using del[OF assms(1-4)] search[of v' e k hits v''] assms(5-) by force

end

section \<open>Faiss\<close>

text \<open>
  The library's index: \<open>fx_add\<close> is \<open>add_with_ids\<close>, \<open>fx_search\<close> is \<open>search\<close> (distances and ids, padded with
  the id -1 when there are fewer vectors than asked for), \<open>fx_remove\<close> is \<open>remove_ids\<close>, \<open>fx_total\<close> is
  \<open>ntotal\<close>. \<open>fx_ids\<close> lists the ids in the index; no method reads it.
\<close>

record ('e, 'i) faiss_lib =
  fx_ids :: "'i \<Rightarrow> int set"
  fx_total :: "'i \<Rightarrow> nat"
  fx_fits :: "'i \<Rightarrow> 'e \<Rightarrow> bool"
  fx_add :: "(int \<times> 'e) list \<Rightarrow> 'i \<Rightarrow> (unit, 'i) outcome"
  fx_search :: "'e \<Rightarrow> int \<Rightarrow> 'i \<Rightarrow> (real \<times> int) list result"
  fx_remove :: "int list \<Rightarrow> 'i \<Rightarrow> 'i"

definition faiss_contract :: "('e \<Rightarrow> 'e) \<Rightarrow> ('e, 'i) faiss_lib \<Rightarrow> bool" where
  "faiss_contract f32 lib \<longleftrightarrow>
     (\<forall>i. fx_total lib i = 0 \<longleftrightarrow> fx_ids lib i = {}) \<and>
     (\<forall>i e. fx_fits lib i (f32 e) = fx_fits lib i e) \<and>
     (\<forall>ds i. (\<forall>d \<in> set ds. fx_fits lib i (snd d)) \<longrightarrow>
        (\<exists>i'. fx_add lib ds i = (Inr (), i') \<and> fx_ids lib i' = fx_ids lib i \<union> fst ` set ds \<and>
           fx_fits lib i' = fx_fits lib i)) \<and>
     (\<forall>e k i hits. fx_search lib e k i = Inr hits \<longrightarrow> snd ` set hits \<subseteq> insert (- 1) (fx_ids lib i)) \<and>
     (\<forall>ks i. fx_ids lib (fx_remove lib ks i) = fx_ids lib i - set ks \<and>
        fx_fits lib (fx_remove lib ks i) = fx_fits lib i)"

record ('e, 'i) faiss =
  fa_lib :: "('e, 'i) faiss_lib"
  fa_float32 :: "'e \<Rightarrow> 'e"
  fa_index :: 'i
  fa_top_k :: int

text \<open>
  \<open>mul_add\<close> unpacks the transposed list into two lists: for an empty list there is nothing to
  unpack, a \<open>ValueError\<close>.
\<close>

definition faiss_mul_add :: "(int \<times> 'e) list \<Rightarrow> ('e, 'i) faiss \<Rightarrow> (unit, ('e, 'i) faiss) outcome" where
  "faiss_mul_add datas f =
     (if datas = [] then (Inl ValueError, f)
      else case fx_add (fa_lib f) (map (\<lambda>(i, e). (i, fa_float32 f e)) datas) (fa_index f) of
             (r, index) \<Rightarrow> (r, f\<lparr>fa_index := index\<rparr>))"

definition faiss_search ::
  "'e \<Rightarrow> int \<Rightarrow> ('e, 'i) faiss \<Rightarrow> ((real \<times> int) list option, ('e, 'i) faiss) outcome" where
  "faiss_search data top_k f =
     (if fx_total (fa_lib f) (fa_index f) = 0 then (Inr None, f)
      else let top_k = (if top_k = - 1 then fa_top_k f else top_k)
           in (bind_res (fx_search (fa_lib f) (fa_float32 f data) top_k (fa_index f)) (\<lambda>h. Inr (Some h)), f))"

definition faiss_rebuild :: "int list \<Rightarrow> ('e, 'i) faiss \<Rightarrow> (unit, ('e, 'i) faiss) outcome" where
  "faiss_rebuild ks f = (Inr (), f)"

definition faiss_delete :: "int list \<Rightarrow> ('e, 'i) faiss \<Rightarrow> (unit, ('e, 'i) faiss) outcome" where
  "faiss_delete ks f = (Inr (), f\<lparr>fa_index := fx_remove (fa_lib f) ks (fa_index f)\<rparr>)"

definition faiss_ops :: "('e, ('e, 'i) faiss) vector_ops" where
  "faiss_ops = \<lparr>vo_mul_add = faiss_mul_add, vo_search = faiss_search, vo_rebuild = faiss_rebuild,
     vo_delete = faiss_delete\<rparr>"

definition faiss_ids :: "('e, 'i) faiss \<Rightarrow> int set" where
  "faiss_ids f = fx_ids (fa_lib f) (fa_index f)"

definition faiss_inv :: "('e, 'i) faiss \<Rightarrow> bool" where
  "faiss_inv f \<longleftrightarrow> faiss_contract (fa_float32 f) (fa_lib f)"

definition faiss_fits :: "('e, 'i) faiss \<Rightarrow> 'e \<Rightarrow> bool" where
  "faiss_fits f = fx_fits (fa_lib f) (fa_index f)"

lemma faiss_contractD:
  assumes "faiss_contract f32 lib"
  shows "fx_total lib i = 0 \<longleftrightarrow> fx_ids lib i = {}" "fx_fits lib i (f32 e) = fx_fits lib i e"
    "\<forall>d \<in> set ds. fx_fits lib i (snd d) \<Longrightarrow> \<exists>i'. fx_add lib ds i = (Inr (), i') \<and>
       fx_ids lib i' = fx_ids lib i \<union> fst ` set ds \<and> fx_fits lib i' = fx_fits lib i"
    "fx_search lib e k i = Inr hits \<Longrightarrow> snd ` set hits \<subseteq> insert (- 1) (fx_ids lib i)"
    "fx_ids lib (fx_remove lib ks i) = fx_ids lib i - set ks"
    "fx_fits lib (fx_remove lib ks i) = fx_fits lib i"
proof -
  note c = assms[unfolded faiss_contract_def]
  show "fx_total lib i = 0 \<longleftrightarrow> fx_ids lib i = {}" "fx_fits lib i (f32 e) = fx_fits lib i e" using c by simp_all
  show "fx_ids lib (fx_remove lib ks i) = fx_ids lib i - set ks"
    "fx_fits lib (fx_remove lib ks i) = fx_fits lib i" using c by simp_all
  show "\<forall>d \<in> set ds. fx_fits lib i (snd d) \<Longrightarrow> \<exists>i'. fx_add lib ds i = (Inr (), i') \<and>
       fx_ids lib i' = fx_ids lib i \<union> fst ` set ds \<and> fx_fits lib i' = fx_fits lib i"
    using c[THEN conjunct2, THEN conjunct2, THEN conjunct1] by blast
  show "fx_search lib e k i = Inr hits \<Longrightarrow> snd ` set hits \<subseteq> insert (- 1) (fx_ids lib i)"
    using c[THEN conjunct2, THEN conjunct2, THEN conjunct2, THEN conjunct1] by blast
qed

interpretation faiss: vector_store "faiss_ops :: ('e, ('e, 'i) faiss) vector_ops" faiss_ids faiss_inv faiss_fits
proof
  fix v v' :: "('e, 'i) faiss" and ds :: "(int \<times> 'e) list" and ks :: "int list" and hits and e :: 'e and k :: int
  assume inv: "faiss_inv v"
  note C = faiss_contractD[OF inv[unfolded faiss_inv_def]]
  show "\<exists>v'. vo_delete faiss_ops ks v = (Inr (), v') \<and> faiss_ids v' = faiss_ids v - set ks \<and>
      faiss_inv v' \<and> faiss_fits v' = faiss_fits v"
    using inv C(5,6) by (auto simp: faiss_ops_def faiss_delete_def faiss_ids_def faiss_inv_def faiss_fits_def)
  show "set ks \<subseteq> faiss_ids v \<Longrightarrow> \<exists>v'. vo_rebuild faiss_ops ks v = (Inr (), v') \<and> set ks \<subseteq> faiss_ids v' \<and>
      faiss_ids v' \<subseteq> faiss_ids v \<and> faiss_inv v' \<and> faiss_fits v' = faiss_fits v"
    using inv by (simp add: faiss_ops_def faiss_rebuild_def)
  show "vo_search faiss_ops e k v = (Inr (Some hits), v') \<Longrightarrow>
      v' = v \<and> snd ` set hits \<subseteq> insert (- 1) (faiss_ids v)"
    using C(4)[of _ _ "fa_index v" hits] by (simp add: faiss_ops_def faiss_search_def faiss_ids_def Let_def
        bind_res_Inr_iff split: if_splits) blast+
  assume ds: "ds \<noteq> []" "\<forall>d \<in> set ds. faiss_fits v (snd d)"
  let ?ds = "map (\<lambda>(i, e). (i, fa_float32 v e)) ds"
  have "\<forall>d \<in> set ?ds. fx_fits (fa_lib v) (fa_index v) (snd d)"
    using ds(2) C(2) by (auto simp: faiss_fits_def)
  from C(3)[OF this] obtain i' where "fx_add (fa_lib v) ?ds (fa_index v) = (Inr (), i')"
    "fx_ids (fa_lib v) i' = fx_ids (fa_lib v) (fa_index v) \<union> fst ` set ?ds"
    "fx_fits (fa_lib v) i' = fx_fits (fa_lib v) (fa_index v)" by blast
  moreover have "fst ` set ?ds = fst ` set ds" by force
  ultimately show "\<exists>v'. vo_mul_add faiss_ops ds v = (Inr (), v') \<and> faiss_ids v' = faiss_ids v \<union> fst ` set ds \<and>
      faiss_inv v' \<and> faiss_fits v' = faiss_fits v"
    using ds(1) inv by (simp add: faiss_ops_def faiss_mul_add_def faiss_ids_def faiss_inv_def faiss_fits_def)
qed

text \<open>An index kept as an association list meets the contract.\<close>

definition list_index :: "(nat, (int \<times> nat) list) faiss_lib" where
  "list_index =
     \<lparr>fx_ids = (\<lambda>i. fst ` set i), fx_total = length, fx_fits = (\<lambda>i e. True),
      fx_add = (\<lambda>ds i. (Inr (), i @ ds)), fx_search = (\<lambda>e k i. Inr (map (\<lambda>(j, x). (0, j)) (take (nat k) i))),
      fx_remove = (\<lambda>ks i. filter (\<lambda>(j, x). j \<notin> set ks) i)\<rparr>"

definition faiss_new :: "(nat, (int \<times> nat) list) faiss" where
  "faiss_new = \<lparr>fa_lib = list_index, fa_float32 = (\<lambda>e. e), fa_index = [], fa_top_k = 1\<rparr>"

lemma list_index_contract: "faiss_contract (\<lambda>e. e) list_index"
  by (auto simp: faiss_contract_def list_index_def image_iff dest!: in_set_takeD) force+

lemma faiss_new_inv: "faiss_inv faiss_new" "faiss_ids faiss_new = {}" "faiss_fits faiss_new e"
  using list_index_contract by (simp_all add: faiss_inv_def faiss_new_def faiss_ids_def faiss_fits_def list_index_def)

end
