(* ===== verification/Eviction_Manager.thy ===== *)
theory Eviction_Manager
  imports Sql_Storage Vector_Data
begin

text \<open>
  \<open>gptcache/manager/eviction_manager.py\<close>: entries are evicted in two steps. \<open>soft_evict\<close> marks them in the
  scalar storage; when many are marked, \<open>delete\<close> removes them from both stores, and every fifth
  deletion rebuilds the vector index. The storages are given by their method tables (\<open>S\<close>, \<open>V\<close>).

  The locale \<open>stores\<close> puts the two storage interfaces side by side; in it the methods are shown to keep
  the two stores in step (\<open>in_step\<close>: exactly the live and the marked entries have a vector).
\<close>

section \<open>State and methods\<close>

record ('s, 'v) ev_manager =
  em_scalar_storage :: 's
  em_vector_base :: 'v
  em_delete_count :: nat

definition MAX_MARK_COUNT :: int where "MAX_MARK_COUNT = 5000"
definition MAX_MARK_RATE :: "(real \<Rightarrow> real) \<Rightarrow> real" where "MAX_MARK_RATE rnd = rnd (1 / 10)"
definition REBUILD_CONDITION :: nat where "REBUILD_CONDITION = 5"

text \<open>A method of one of the two storages, called on the manager's field.\<close>

definition on_storage :: "('s \<Rightarrow> ('a, 's) outcome) \<Rightarrow> ('s, 'v) ev_manager \<Rightarrow> ('a, ('s, 'v) ev_manager) outcome" where
  "on_storage f w = (case f (em_scalar_storage w) of (r, s) \<Rightarrow> (r, w\<lparr>em_scalar_storage := s\<rparr>))"

definition on_vector :: "('v \<Rightarrow> ('a, 'v) outcome) \<Rightarrow> ('s, 'v) ev_manager \<Rightarrow> ('a, ('s, 'v) ev_manager) outcome" where
  "on_vector f w = (case f (em_vector_base w) of (r, v) \<Rightarrow> (r, w\<lparr>em_vector_base := v\<rparr>))"

definition check_evict ::
  "(real \<Rightarrow> real) \<Rightarrow> ('e, 's) storage_ops \<Rightarrow> ('s, 'v) ev_manager \<Rightarrow> bool result" where
  "check_evict rnd S w =
     (let mark_count = so_count S (- 1) False (em_scalar_storage w);
          all_count = so_count S 0 True (em_scalar_storage w)
      in if MAX_MARK_COUNT < mark_count then Inr True
         else if all_count = 0 then Inl ZeroDivisionError
         else Inr (MAX_MARK_RATE rnd < rnd (of_int mark_count / of_int all_count)))"

definition em_rebuild ::
  "('e, 's) storage_ops \<Rightarrow> ('e, 'v) vector_ops \<Rightarrow> ('s, 'v) ev_manager \<Rightarrow> (unit, ('s, 'v) ev_manager) outcome"
where
  "em_rebuild S V w =
     bind_out (on_storage (so_clear_deleted_data S) w) (\<lambda>_ w.
       let ids = so_get_ids S False (em_scalar_storage w)
       in bind_out (on_vector (vo_rebuild V ids) w) (\<lambda>_ w. (Inr (), w\<lparr>em_delete_count := 0\<rparr>)))"

definition em_delete ::
  "('e, 's) storage_ops \<Rightarrow> ('e, 'v) vector_ops \<Rightarrow> ('s, 'v) ev_manager \<Rightarrow> (unit, ('s, 'v) ev_manager) outcome"
where
  "em_delete S V w =
     (let mark_ids = so_get_ids S True (em_scalar_storage w)
      in bind_out (on_storage (so_clear_deleted_data S) w) (\<lambda>_ w.
           bind_out (on_vector (vo_delete V mark_ids) w) (\<lambda>_ w.
             let w = w\<lparr>em_delete_count := em_delete_count w + 1\<rparr>
             in if REBUILD_CONDITION \<le> em_delete_count w then em_rebuild S V w else (Inr (), w))))"

definition soft_evict ::
  "('e, 's) storage_ops \<Rightarrow> int list \<Rightarrow> ('s, 'v) ev_manager \<Rightarrow> (unit, ('s, 'v) ev_manager) outcome" where
  "soft_evict S marked_keys = on_storage (so_mark_deleted S marked_keys)"

section \<open>The stores stay in step\<close>

locale stores = scalar_store S live marked sinv insertable + vector_store V ids vinv fits
  for S :: "('e, 's) storage_ops" and live marked sinv insertable
    and V :: "('e, 'v) vector_ops" and ids vinv fits
begin

definition in_step :: "('s, 'v) ev_manager \<Rightarrow> bool" where
  "in_step w \<longleftrightarrow> sinv (em_scalar_storage w) \<and> vinv (em_vector_base w) \<and>
     ids (em_vector_base w) = live (em_scalar_storage w) \<union> marked (em_scalar_storage w) \<and>
     em_delete_count w < REBUILD_CONDITION"

lemma in_stepD:
  assumes "in_step w"
  shows "sinv (em_scalar_storage w)" "vinv (em_vector_base w)" "em_delete_count w < REBUILD_CONDITION"
    "ids (em_vector_base w) = live (em_scalar_storage w) \<union> marked (em_scalar_storage w)"
  using assms by (simp_all add: in_step_def)

lemma soft_evict_in_step:
  assumes "in_step w"
  shows "\<exists>w'. soft_evict S ks w = (Inr (), w') \<and> in_step w' \<and> em_vector_base w' = em_vector_base w \<and>
    em_delete_count w' = em_delete_count w \<and>
    live (em_scalar_storage w') = live (em_scalar_storage w) - set ks \<and>
    marked (em_scalar_storage w') = marked (em_scalar_storage w) \<union> (live (em_scalar_storage w) \<inter> set ks)"
proof -
  from mark[OF in_stepD(1)[OF assms], of ks] obtain s' where
    "so_mark_deleted S ks (em_scalar_storage w) = (Inr (), s')"
    "live s' = live (em_scalar_storage w) - set ks"
    "marked s' = marked (em_scalar_storage w) \<union> (live (em_scalar_storage w) \<inter> set ks)" "sinv s'" by blast
  with assms show ?thesis by (auto simp: soft_evict_def on_storage_def in_step_def)
qed

lemma rebuild_spec:
  assumes "sinv (em_scalar_storage w)" "vinv (em_vector_base w)"
    "ids (em_vector_base w) = live (em_scalar_storage w)" "live (em_scalar_storage w) \<noteq> {}"
  shows "\<exists>w'. em_rebuild S V w = (Inr (), w') \<and> in_step w' \<and>
    live (em_scalar_storage w') = live (em_scalar_storage w) \<and> marked (em_scalar_storage w') = {} \<and>
    em_delete_count w' = 0 \<and> fits (em_vector_base w') = fits (em_vector_base w)"
proof -
  from clear[OF assms(1)] obtain s' where s': "so_clear_deleted_data S (em_scalar_storage w) = (Inr (), s')"
    "live s' = live (em_scalar_storage w)" "marked s' = {}" "sinv s'" by blast
  let ?ids = "so_get_ids S False s'"
  have ids': "set ?ids = live (em_scalar_storage w)" "distinct ?ids" using ids_live[OF s'(4)] s'(2) by simp_all
  with assms(4) have "?ids \<noteq> []" by auto
  from rebuild[OF assms(2) this ids'(2)] ids'(1) assms(3) obtain v' where "vo_rebuild V ?ids (em_vector_base w) = (Inr (), v')"
    "ids v' = live s'" "vinv v'" "fits v' = fits (em_vector_base w)" using s'(2) by auto
  with s' show ?thesis
    by (simp add: em_rebuild_def on_storage_def on_vector_def in_step_def REBUILD_CONDITION_def)
qed

lemma delete_spec:
  assumes w: "in_step w" and "marked (em_scalar_storage w) \<noteq> {}" "live (em_scalar_storage w) \<noteq> {}"
  shows "\<exists>w'. em_delete S V w = (Inr (), w') \<and> in_step w' \<and>
    live (em_scalar_storage w') = live (em_scalar_storage w) \<and> marked (em_scalar_storage w') = {} \<and>
    em_delete_count w' = (em_delete_count w + 1) mod REBUILD_CONDITION \<and>
    fits (em_vector_base w') = fits (em_vector_base w)"
proof -
  note W = in_stepD[OF w]
  let ?ks = "so_get_ids S True (em_scalar_storage w)"
  have ks: "set ?ks = marked (em_scalar_storage w)" "distinct ?ks" using ids_marked[OF W(1)] by simp_all
  with assms(2) have "?ks \<noteq> []" by auto
  from del[OF W(2) this ks(2)] ks(1) W(4) obtain v' where v': "vo_delete V ?ks (em_vector_base w) = (Inr (), v')"
    "ids v' = (live (em_scalar_storage w) \<union> marked (em_scalar_storage w)) - marked (em_scalar_storage w)"
    "vinv v'" "fits v' = fits (em_vector_base w)" by auto
  from clear[OF W(1)] obtain s' where s': "so_clear_deleted_data S (em_scalar_storage w) = (Inr (), s')"
    "live s' = live (em_scalar_storage w)" "marked s' = {}" "sinv s'" by blast
  define w1 where "w1 = w\<lparr>em_scalar_storage := s', em_vector_base := v', em_delete_count := em_delete_count w + 1\<rparr>"
  have ids': "ids v' = live s'" using v'(2) disjoint[OF W(1)] s'(2) by auto
  have del: "em_delete S V w = (if REBUILD_CONDITION \<le> em_delete_count w + 1 then em_rebuild S V w1 else (Inr (), w1))"
    by (simp add: em_delete_def on_storage_def on_vector_def s'(1) v'(1) w1_def)
  show ?thesis
  proof (cases "REBUILD_CONDITION \<le> em_delete_count w + 1")
    case True
    then have "em_delete_count w + 1 = REBUILD_CONDITION" using W(3) by simp
    moreover have "\<exists>w'. em_rebuild S V w1 = (Inr (), w') \<and> in_step w' \<and>
        live (em_scalar_storage w') = live s' \<and> marked (em_scalar_storage w') = {} \<and>
        em_delete_count w' = 0 \<and> fits (em_vector_base w') = fits v'"
      using rebuild_spec[of w1] s' v'(3) ids' assms(3) by (simp add: w1_def)
    ultimately show ?thesis using del True s'(2) v'(4) by auto
  next
    case False
    with del s' v' ids' show ?thesis by (auto simp: w1_def in_step_def)
  qed
qed

text \<open>
  \<open>check_evict\<close> divides by the number of stored entries: it fails exactly when there is none, and when
  it answers yes there is something to delete.
\<close>

lemma check_evict_ok:
  assumes w: "in_step w" and "live (em_scalar_storage w) \<noteq> {}" and rnd: "float_rounding rnd"
  shows "\<exists>b. check_evict rnd S w = Inr b \<and> (b \<longrightarrow> marked (em_scalar_storage w) \<noteq> {})"
proof -
  note W = in_stepD[OF w]
  have fin: "finite (live (em_scalar_storage w) \<union> marked (em_scalar_storage w))"
    using finite_ids[OF W(1)] by simp
  then have all: "so_count S 0 True (em_scalar_storage w) \<noteq> 0"
    using count_all[OF W(1)] assms(2) by simp
  have "marked (em_scalar_storage w) \<noteq> {}"
    if "MAX_MARK_COUNT < so_count S (- 1) False (em_scalar_storage w) \<or>
      MAX_MARK_RATE rnd < rnd (of_int (so_count S (- 1) False (em_scalar_storage w)) / of_int n)" for n
  proof
    assume "marked (em_scalar_storage w) = {}"
    with that have "MAX_MARK_RATE rnd < 0"
      using count_marked[OF W(1)] rnd by (simp add: MAX_MARK_COUNT_def)
    with rnd_nonneg[OF rnd, of "1 / 10"] show False by (simp add: MAX_MARK_RATE_def)
  qed
  with all show ?thesis by (auto simp: check_evict_def Let_def)
qed

end

end
