(* ===== verification/Data_Manager.thy ===== *)
theory Data_Manager
  imports Eviction Eviction_Manager
begin

text \<open>
  The data manager \<open>SSDataManager\<close> of \<open>gptcache/manager/data_manager.py\<close>: it keeps the scalar storage, the
  vector store, the object store and the eviction cache together. Its methods take an environment
  \<open>dm_env\<close>: the method tables of the storages (\<open>de_S\<close>, \<open>de_V\<close>, \<open>de_O\<close>), the numpy operations, \<open>requests.get\<close>
  and float rounding. A call that does not return has the value \<open>None\<close>.

  The eviction cache calls back \<open>_clear\<close>; the lemmas of the locale \<open>synced_cache\<close> show that through
  any number of evictions the cached keys stay exactly the served ids and that no vector is left behind.
\<close>

section \<open>The cost of an answer\<close>

fun item_text :: "answer_item \<Rightarrow> string option" where
  "item_text (ItemAnswer a) = (case ans_content a of Text s \<Rightarrow> Some s | Bytes b \<Rightarrow> None)"
| "item_text (ItemTuple c t) = None"
| "item_text (ItemRaw c) = (case c of Text s \<Rightarrow> Some s | Bytes b \<Rightarrow> None)"

definition item_cost :: "answer_item \<Rightarrow> int" where
  "item_cost it = (case item_text it of None \<Rightarrow> 0 | Some s \<Rightarrow> int (length s))"

fun answer_cost :: "(real \<Rightarrow> real) \<Rightarrow> answers_arg \<Rightarrow> real" where
  "answer_cost rnd (AnsStr s) = rnd (of_int (max (int (length s)) 1))"
| "answer_cost rnd (AnsObj a) = rnd (of_int (max (sum_list (map item_cost [ItemAnswer a])) 1))"
| "answer_cost rnd (AnsList items) = rnd (of_int (max (sum_list (map item_cost items)) 1))"

section \<open>State and environment\<close>

record 'o object_ops =
  ob_put :: "content \<Rightarrow> 'o \<Rightarrow> (content, 'o) outcome"
  ob_get :: "content \<Rightarrow> 'o \<Rightarrow> (content, 'o) outcome"

record ('e, 's, 'v, 'o) dm_env =
  de_rnd :: "real \<Rightarrow> real"
  de_S :: "('e, 's) storage_ops"
  de_V :: "('e, 'v) vector_ops"
  de_O :: "'o object_ops"
  de_norm :: "'e \<Rightarrow> real"
  de_divide :: "'e \<Rightarrow> real \<Rightarrow> 'e"
  de_float32 :: "'e \<Rightarrow> 'e"
  de_http_get :: "string \<Rightarrow> content result"

datatype ('c, 'w) eviction_base = MemoryEviction "(int, 'c, 'w) mem_eviction" | NoOpEviction

text \<open>\<open>sd_member_data\<close> is the attribute \<open>data\<close> of the enumeration member \<open>DataType.IMAGE_URL\<close>.\<close>

record ('s, 'v, 'c, 'o) ss_manager =
  sd_stores :: "('s, 'v) ev_manager"
  sd_eviction :: "('c, ('s, 'v) ev_manager) eviction_base"
  sd_object :: "'o option"
  sd_member_data :: "content option"

record session =
  sess_name :: string
  sess_check_hit :: "string \<Rightarrow> string list \<Rightarrow> string list \<Rightarrow> content \<Rightarrow> bool"

definition on_stores ::
  "(('s, 'v) ev_manager \<Rightarrow> ('a, ('s, 'v) ev_manager) outcome) \<Rightarrow> ('s, 'v, 'c, 'o) ss_manager
   \<Rightarrow> ('a, ('s, 'v, 'c, 'o) ss_manager) outcome" where
  "on_stores f sd = (case f (sd_stores sd) of (r, w) \<Rightarrow> (r, sd\<lparr>sd_stores := w\<rparr>))"

text \<open>A method of the object store; \<open>self.o\<close> may be \<open>None\<close>.\<close>

definition on_object ::
  "('o \<Rightarrow> ('a, 'o) outcome) \<Rightarrow> ('s, 'v, 'c, 'o) ss_manager \<Rightarrow> ('a, ('s, 'v, 'c, 'o) ss_manager) outcome" where
  "on_object f sd =
     (case sd_object sd of
        None \<Rightarrow> (Inl AttributeError, sd)
      | Some obj \<Rightarrow> (case f obj of (r, obj') \<Rightarrow> (r, sd\<lparr>sd_object := Some obj'\<rparr>)))"

definition normalize :: "('e, 's, 'v, 'o) dm_env \<Rightarrow> 'e \<Rightarrow> 'e" where
  "normalize env vec = de_divide env vec (de_norm env vec)"

section \<open>\_clear and the constructor\<close>

definition ss_clear ::
  "(real \<Rightarrow> real) \<Rightarrow> ('e, 's) storage_ops \<Rightarrow> ('e, 'v) vector_ops \<Rightarrow> int list \<Rightarrow> ('s, 'v) ev_manager
   \<Rightarrow> (unit, ('s, 'v) ev_manager) outcome" where
  "ss_clear rnd S V marked_keys w =
     bind_out (soft_evict S marked_keys w) (\<lambda>_ w.
       case check_evict rnd S w of
         Inl e \<Rightarrow> (Inl e, w)
       | Inr b \<Rightarrow> if b then em_delete S V w else (Inr (), w))"

text \<open>\<open>self.eviction_base.put\<close>.\<close>

definition ss_put ::
  "int list \<Rightarrow> real list option \<Rightarrow> ('s, 'v, 'c, 'o) ss_manager
   \<Rightarrow> (unit, ('s, 'v, 'c, 'o) ss_manager) outcome option" where
  "ss_put ids costs sd =
     (case sd_eviction sd of
        NoOpEviction \<Rightarrow> Some (noop_put ids costs sd)
      | MemoryEviction e \<Rightarrow>
          (case mem_put ids costs (e, sd_stores sd) of
             None \<Rightarrow> None
           | Some (r, (e', w)) \<Rightarrow> Some (r, sd\<lparr>sd_eviction := MemoryEviction e', sd_stores := w\<rparr>)))"

text \<open>
  \<open>EvictionBase(name, ...)\<close>: the factory's choice, built. A Redis eviction needs a server and is not
  built here.
\<close>

definition make_eviction ::
  "(policy_kind \<Rightarrow> int \<Rightarrow> 'c \<times> (int, 'c, 'w) cache_methods) \<Rightarrow> (int, 'w) on_evict \<Rightarrow> eviction_choice
   \<Rightarrow> ('c, 'w) eviction_base result" where
  "make_eviction new_cache on_evict choice =
     (case choice of
        MemoryChoice policy maxsize clean \<Rightarrow>
          bind_res (mem_init new_cache policy maxsize clean on_evict) (\<lambda>e. Inr (MemoryEviction e))
      | RedisChoice p \<Rightarrow> Inl LibraryError
      | NoOpChoice \<Rightarrow> Inr NoOpEviction)"

definition ss_init ::
  "('e, 's, 'v, 'o) dm_env \<Rightarrow> (policy_kind \<Rightarrow> int \<Rightarrow> 'c \<times> (int, 'c, ('s, 'v) ev_manager) cache_methods)
   \<Rightarrow> 's \<Rightarrow> 'v \<Rightarrow> 'o option \<Rightarrow> ('c, ('s, 'v) ev_manager) eviction_base option \<Rightarrow> int \<Rightarrow> int option \<Rightarrow> string
   \<Rightarrow> ('s, 'v, 'c, 'o) ss_manager result option" where
  "ss_init env new_cache s v obj e max_size clean_size policy =
     (case (case e of
              Some e \<Rightarrow> Inr e
            | None \<Rightarrow>
                bind_res (eviction_get (de_rnd env) ''memory'' policy max_size clean_size)
                  (make_eviction new_cache (Some (ss_clear (de_rnd env) (de_S env) (de_V env))))) of
        Inl err \<Rightarrow> Some (Inl err)
      | Inr e \<Rightarrow>
          let sd = \<lparr>sd_stores = \<lparr>em_scalar_storage = s, em_vector_base = v, em_delete_count = 0\<rparr>,
                    sd_eviction = e, sd_object = obj, sd_member_data = None\<rparr>
          in (case e of
                NoOpEviction \<Rightarrow> Some (Inr sd)
              | MemoryEviction _ \<Rightarrow>
                  (case ss_put (so_get_ids (de_S env) False s) None sd of
                     None \<Rightarrow> None
                   | Some (Inl err, sd) \<Rightarrow> Some (Inl err)
                   | Some (Inr u, sd) \<Rightarrow> Some (Inr sd))))"

section \<open>Saving\<close>

fun process_answer ::
  "'o object_ops \<Rightarrow> answer_item \<Rightarrow> ('s, 'v, 'c, 'o) ss_manager \<Rightarrow> (answer, ('s, 'v, 'c, 'o) ss_manager) outcome"
where
  "process_answer O1 (ItemAnswer a) sd =
     (if ans_type a \<noteq> data_type_int DT_STR
      then bind_out (on_object (ob_put O1 (ans_content a)) sd) (\<lambda>c sd. (Inr \<lparr>ans_content = c, ans_type = ans_type a\<rparr>, sd))
      else (Inr a, sd))"
| "process_answer O1 (ItemTuple c t) sd = (Inl AttributeError, sd)"
| "process_answer O1 (ItemRaw c) sd = (Inl AttributeError, sd)"

definition process_answer_data ::
  "'o object_ops \<Rightarrow> answers_arg \<Rightarrow> ('s, 'v, 'c, 'o) ss_manager
   \<Rightarrow> (answers_arg, ('s, 'v, 'c, 'o) ss_manager) outcome" where
  "process_answer_data O1 answers sd =
     bind_out (map_out (process_answer O1) (answer_items answers) sd)
       (\<lambda>new_ans sd. (Inr (AnsList (map ItemAnswer new_ans)), sd))"

text \<open>
  The loop over the dependencies: the image is fetched and stored, and what the object store returns
  is assigned to the attribute \<open>data\<close> of \<open>dep.dep_type\<close>, the enumeration member, which all
  dependencies share; a plain integer has no such attribute. The dependency itself is unchanged.
\<close>

definition process_dep ::
  "('e, 's, 'v, 'o) dm_env \<Rightarrow> question_dep \<Rightarrow> ('s, 'v, 'c, 'o) ss_manager
   \<Rightarrow> (unit, ('s, 'v, 'c, 'o) ss_manager) outcome" where
  "process_dep env dep sd =
     (if dep_kind_int (dep_type dep) = data_type_int DT_IMAGE_URL then
        (case de_http_get env (dep_data dep) of
           Inl e \<Rightarrow> (Inl e, sd)
         | Inr body \<Rightarrow>
             bind_out (on_object (ob_put (de_O env) body) sd) (\<lambda>c sd.
               case dep_type dep of
                 Member _ \<Rightarrow> (Inr (), sd\<lparr>sd_member_data := Some c\<rparr>)
               | Plain _ \<Rightarrow> (Inl AttributeError, sd)))
      else (Inr (), sd))"

definition process_question_data ::
  "('e, 's, 'v, 'o) dm_env \<Rightarrow> question_arg \<Rightarrow> ('s, 'v, 'c, 'o) ss_manager
   \<Rightarrow> (question_arg, ('s, 'v, 'c, 'o) ss_manager) outcome" where
  "process_question_data env q sd =
     (case q of
        QStr s \<Rightarrow> (Inr (QObj \<lparr>q_content = s, q_deps = None\<rparr>), sd)
      | QObj o1 \<Rightarrow>
          (case q_deps o1 of
             None \<Rightarrow> (Inr q, sd)
           | Some deps \<Rightarrow> bind_out (for_each (process_dep env) deps sd) (\<lambda>_ sd. (Inr q, sd))))"

text \<open>The body of the loop of \<open>import_data\<close>, for one question, answer, normalized vector and session id.\<close>

definition build_cache_data ::
  "('e, 's, 'v, 'o) dm_env \<Rightarrow> question_arg \<times> answers_arg \<times> 'e \<times> session_field \<Rightarrow> ('s, 'v, 'c, 'o) ss_manager
   \<Rightarrow> ('e cache_data, ('s, 'v, 'c, 'o) ss_manager) outcome" where
  "build_cache_data env = (\<lambda>(q, ans, vec, sess) sd.
     bind_out
       (case ans of
          AnsStr _ \<Rightarrow> (Inr ans, sd)
        | _ \<Rightarrow> if sd_object sd = None then (Inr ans, sd) else process_answer_data (de_O env) ans sd)
       (\<lambda>ans sd. bind_out (process_question_data env q sd) (\<lambda>q sd.
          (Inr (cache_data_init q ans (Some (de_float32 env vec)) sess None None), sd))))"

definition ss_import_data ::
  "('e, 's, 'v, 'o) dm_env \<Rightarrow> question_arg list \<Rightarrow> answers_arg list \<Rightarrow> 'e list \<Rightarrow> session_field list
   \<Rightarrow> ('s, 'v, 'c, 'o) ss_manager \<Rightarrow> (unit, ('s, 'v, 'c, 'o) ss_manager) outcome option" where
  "ss_import_data env questions answers embedding_datas session_ids sd =
     (if length questions \<noteq> length answers \<or> length questions \<noteq> length embedding_datas \<or>
         length questions \<noteq> length session_ids
      then Some (Inl ParamError, sd)
      else
        let vecs = map (normalize env) embedding_datas;
            rows = zip questions (zip answers (zip vecs session_ids))
        in case bind_out (map_out (build_cache_data env) rows sd) (\<lambda>cache_datas sd.
                  bind_out (on_stores (on_storage (so_batch_insert (de_S env) cache_datas)) sd) (\<lambda>ids sd.
                    bind_out (on_stores (on_vector (vo_mul_add (de_V env) (zip ids vecs))) sd) (\<lambda>_ sd.
                      (Inr (ids, cache_datas), sd)))) of
             (Inl e, sd) \<Rightarrow> Some (Inl e, sd)
           | (Inr (ids, cache_datas), sd) \<Rightarrow>
               ss_put ids
                 (Some (map (\<lambda>d. answer_cost (de_rnd env) (AnsList (map ItemAnswer (cd_answers d)))) cache_datas)) sd)"

definition ss_save ::
  "('e, 's, 'v, 'o) dm_env \<Rightarrow> question_arg \<Rightarrow> answers_arg \<Rightarrow> 'e \<Rightarrow> session option \<Rightarrow> ('s, 'v, 'c, 'o) ss_manager
   \<Rightarrow> (unit, ('s, 'v, 'c, 'o) ss_manager) outcome option" where
  "ss_save env question answer embedding_data sess sd =
     (let session_id = (case sess of None \<Rightarrow> NoSession | Some s \<Rightarrow> SessionName (sess_name s))
      in ss_import_data env [question] [answer] [embedding_data] [session_id] sd)"

section \<open>Reading and sessions\<close>

datatype sessions_result = SessionRows "session_row list" | SessionKeys "session_key list"

definition str_truthy :: "string option \<Rightarrow> bool" where
  "str_truthy x = (x \<noteq> None \<and> x \<noteq> Some [])"

definition ss_list_sessions ::
  "('e, 's, 'v, 'o) dm_env \<Rightarrow> string option \<Rightarrow> int option \<Rightarrow> ('s, 'v, 'c, 'o) ss_manager \<Rightarrow> sessions_result" where
  "ss_list_sessions env session_id key sd =
     (let res = so_list_sessions (de_S env) session_id key (em_scalar_storage (sd_stores sd))
      in if key \<noteq> None \<and> key \<noteq> Some 0 then SessionRows res
         else if str_truthy session_id then SessionKeys (map (\<lambda>r. IdKey (sr_id r)) res)
         else SessionKeys (map NameKey (remdups (map sr_session_id res))))"

text \<open>The attributes \<open>session_id\<close> and \<open>session_question\<close> of every element.\<close>

fun session_rows :: "sessions_result \<Rightarrow> session_row list result" where
  "session_rows (SessionRows rs) = Inr rs"
| "session_rows (SessionKeys ks) = (if ks = [] then Inr [] else Inl AttributeError)"

fun session_keys :: "sessions_result \<Rightarrow> session_key list" where
  "session_keys (SessionKeys ks) = ks"
| "session_keys (SessionRows rs) = []"

definition ss_delete_session ::
  "('e, 's, 'v, 'o) dm_env \<Rightarrow> string option \<Rightarrow> ('s, 'v, 'c, 'o) ss_manager
   \<Rightarrow> (unit, ('s, 'v, 'c, 'o) ss_manager) outcome" where
  "ss_delete_session env session_id sd =
     (let keys = session_keys (ss_list_sessions env session_id None sd)
      in on_stores (on_storage (so_delete_session (de_S env) keys)) sd)"

definition ss_add_session ::
  "('e, 's, 'v, 'o) dm_env \<Rightarrow> real \<times> int \<Rightarrow> string \<Rightarrow> string \<Rightarrow> ('s, 'v, 'c, 'o) ss_manager
   \<Rightarrow> (unit, ('s, 'v, 'c, 'o) ss_manager) outcome" where
  "ss_add_session env res_data session_id pre_embedding_data sd =
     on_stores (on_storage (so_add_session (de_S env) (snd res_data) session_id pre_embedding_data)) sd"

text \<open>What the session check of \<open>get_scalar_data\<close> decides.\<close>

definition session_allows ::
  "('e, 's, 'v, 'o) dm_env \<Rightarrow> session \<Rightarrow> int \<Rightarrow> 'e cache_data \<Rightarrow> ('s, 'v, 'c, 'o) ss_manager \<Rightarrow> bool result" where
  "session_allows env sess i cache_data sd =
     (case cd_answers cache_data of
        [] \<Rightarrow> Inl IndexError
      | a # _ \<Rightarrow> bind_res (session_rows (ss_list_sessions env None (Some i) sd)) (\<lambda>res_list.
          Inr (sess_check_hit sess (sess_name sess) (map sr_session_id res_list)
                 (map sr_session_question res_list) (ans_content a))))"

definition load_answer ::
  "'o object_ops \<Rightarrow> answer \<Rightarrow> ('s, 'v, 'c, 'o) ss_manager \<Rightarrow> (answer, ('s, 'v, 'c, 'o) ss_manager) outcome" where
  "load_answer O1 a sd =
     (if ans_type a \<noteq> data_type_int DT_STR
      then bind_out (on_object (ob_get O1 (ans_content a)) sd) (\<lambda>c sd. (Inr (a\<lparr>ans_content := c\<rparr>), sd))
      else (Inr a, sd))"

definition ss_get_scalar_data ::
  "('e, 's, 'v, 'o) dm_env \<Rightarrow> real \<times> int \<Rightarrow> session option \<Rightarrow> ('s, 'v, 'c, 'o) ss_manager
   \<Rightarrow> ('e cache_data option, ('s, 'v, 'c, 'o) ss_manager) outcome" where
  "ss_get_scalar_data env res_data sess sd =
     bind_out (on_stores (on_storage (so_get_data_by_id (de_S env) (snd res_data))) sd) (\<lambda>found sd.
       case found of
         None \<Rightarrow> (Inr None, sd)
       | Some cache_data \<Rightarrow>
           (case (case sess of None \<Rightarrow> Inr True | Some sess \<Rightarrow> session_allows env sess (snd res_data) cache_data sd) of
              Inl e \<Rightarrow> (Inl e, sd)
            | Inr allowed \<Rightarrow>
                if \<not> allowed then (Inr None, sd)
                else bind_out (map_out (load_answer (de_O env)) (cd_answers cache_data) sd) (\<lambda>answers sd.
                       (Inr (Some (cache_data\<lparr>cd_answers := answers\<rparr>)), sd))))"

definition ss_hit_cache_callback ::
  "real \<times> int \<Rightarrow> ('s, 'v, 'c, 'o) ss_manager \<Rightarrow> (unit, ('s, 'v, 'c, 'o) ss_manager) outcome" where
  "ss_hit_cache_callback res_data sd =
     (case sd_eviction sd of
        NoOpEviction \<Rightarrow> bind_out (noop_get (snd res_data) sd) (\<lambda>_ sd. (Inr (), sd))
      | MemoryEviction e \<Rightarrow>
          (case mem_get (snd res_data) e of
             (Inl err, e') \<Rightarrow> (Inl err, sd\<lparr>sd_eviction := MemoryEviction e'\<rparr>)
           | (Inr v, e') \<Rightarrow> (Inr (), sd\<lparr>sd_eviction := MemoryEviction e'\<rparr>)))"

definition ss_search ::
  "('e, 's, 'v, 'o) dm_env \<Rightarrow> 'e \<Rightarrow> int option \<Rightarrow> ('s, 'v, 'c, 'o) ss_manager
   \<Rightarrow> ((real \<times> int) list option, ('s, 'v, 'c, 'o) ss_manager) outcome" where
  "ss_search env embedding_data top_k sd =
     on_stores (on_vector (vo_search (de_V env) (normalize env embedding_data)
       (case top_k of None \<Rightarrow> - 1 | Some k \<Rightarrow> k))) sd"

definition ss_report_cache ::
  "('e, 's, 'v, 'o) dm_env \<Rightarrow> report_entry \<Rightarrow> ('s, 'v, 'c, 'o) ss_manager \<Rightarrow> (unit, ('s, 'v, 'c, 'o) ss_manager) outcome"
where
  "ss_report_cache env entry sd = on_stores (on_storage (so_report_cache (de_S env) entry)) sd"

section \<open>What processing the data leaves alone\<close>

definition data_frame :: "('s, 'v, 'c, 'o) ss_manager \<Rightarrow> ('s, 'v, 'c, 'o) ss_manager \<Rightarrow> bool" where
  "data_frame sd sd' \<longleftrightarrow> sd_stores sd' = sd_stores sd \<and> sd_eviction sd' = sd_eviction sd"

lemma data_frame_preorder: "state_preorder data_frame"
  by (auto simp: state_preorder_def data_frame_def)

lemmas frame_bind = bind_out_rel[where R = data_frame, OF data_frame_preorder]
lemmas frame_map = map_out_rel[where R = data_frame, OF data_frame_preorder]
lemmas frame_each = for_each_rel[where R = data_frame, OF data_frame_preorder]

lemma data_frame_refl [simp]: "data_frame sd sd" "data_frame sd (sd\<lparr>sd_member_data := x\<rparr>)"
  by (simp_all add: data_frame_def)

lemma on_object_frame: "data_frame sd (snd (on_object f sd))"
  by (simp add: on_object_def data_frame_def split: option.splits prod.splits)

lemma process_answer_frame: "data_frame sd (snd (process_answer O1 it sd))"
  by (cases it) (simp_all add: frame_bind on_object_frame)

lemma process_answer_data_frame: "data_frame sd (snd (process_answer_data O1 a sd))"
  unfolding process_answer_data_def
  by (rule frame_bind) (simp_all add: frame_map process_answer_frame)

lemma process_dep_frame: "data_frame sd (snd (process_dep env dep sd))"
  by (cases "de_http_get env (dep_data dep)"; cases "dep_type dep")
    (simp_all add: process_dep_def frame_bind on_object_frame)

lemma process_question_data_frame: "data_frame sd (snd (process_question_data env q sd))"
proof (cases q)
  case (QObj r)
  then show ?thesis
    by (cases "q_deps r") (simp_all add: process_question_data_def frame_bind frame_each process_dep_frame)
qed (simp add: process_question_data_def)

lemma build_cache_data_frame: "data_frame sd (snd (build_cache_data env x sd))"
proof (cases x)
  case (fields q ans vec sess)
  have "data_frame sd (snd (case ans of AnsStr _ \<Rightarrow> (Inr ans, sd)
      | _ \<Rightarrow> if sd_object sd = None then (Inr ans, sd) else process_answer_data (de_O env) ans sd))"
    by (cases ans) (simp_all add: process_answer_data_frame)
  then show ?thesis
    by (simp add: fields build_cache_data_def frame_bind process_question_data_frame)
qed

lemma build_cache_data_result:
  assumes "build_cache_data env (q, a, vec, sess) sd = (Inr d, sd')"
  shows "cd_embedding d = Some (de_float32 env vec) \<and> cd_session d = sess"
  using assms by (auto simp: build_cache_data_def bind_out_Inr_iff cache_data_init_def)

lemma answer_cost_ge_1:
  assumes "float_rounding rnd"
  shows "1 \<le> answer_cost rnd a"
proof -
  have "1 \<le> rnd (of_int (max n 1))" for n
    using rnd_mono[OF assms, of 1 "of_int (max n 1)"] assms by simp
  then show ?thesis by (cases a) simp_all
qed

end
