(* ===== verification/Sync.thy ===== *)
theory Sync
  imports Data_Manager
begin

text \<open>
  The eviction cache and the two stores of \<open>SSDataManager\<close> together. The locale \<open>synced_cache\<close> joins an
  eviction policy and the stores; \<open>synced P\<close> says that the cached keys are the served ids, except for
  the ids \<open>P\<close> that are stored but not yet put into the eviction cache. Every assignment to the cache,
  with the evictions it causes, keeps it.
\<close>

locale synced_cache =
  cache_policy popitem getitem store keys maxsize cinv storable room too_large +
  stores S live marked sinv insertable V ids vinv fits
  for popitem :: "'c \<Rightarrow> (int \<times> pyval, 'c) outcome" and getitem store keys maxsize cinv storable room too_large
    and S :: "('e, 's) storage_ops" and live marked sinv insertable
    and V :: "('e, 'v) vector_ops" and ids vinv fits +
  fixes rnd :: "real \<Rightarrow> real"
  assumes storable_cost: "0 \<le> x \<Longrightarrow> storable (VFloat x)"
    and storable_true: "storable (VBool True)"
begin

definition synced :: "int set \<Rightarrow> (int, 'c, ('s, 'v) ev_manager) mem_eviction \<times> ('s, 'v) ev_manager \<Rightarrow> bool" where
  "synced P = (\<lambda>(e, w). float_rounding rnd \<and> cinv (me_cache e) \<and>
     policy_methods popitem getitem store room too_large (me_methods e) \<and>
     me_on_evict e = Some (ss_clear rnd S V) \<and>
     1 \<le> me_clean e \<and> me_clean e \<le> int (maxsize (me_cache e)) \<and>
     card (keys (me_cache e)) \<le> maxsize (me_cache e) \<and> in_step w \<and>
     live (em_scalar_storage w) = keys (me_cache e) \<union> P \<and> keys (me_cache e) \<inter> P = {})"

lemma syncedD:
  assumes "synced P (e, w)"
  shows "float_rounding rnd" "cinv (me_cache e)"
    "policy_methods popitem getitem store room too_large (me_methods e)"
    "me_on_evict e = Some (ss_clear rnd S V)" "1 \<le> me_clean e" "me_clean e \<le> int (maxsize (me_cache e))"
    "card (keys (me_cache e)) \<le> maxsize (me_cache e)" "in_step w"
    "live (em_scalar_storage w) = keys (me_cache e) \<union> P" "keys (me_cache e) \<inter> P = {}"
  using assms by (simp_all add: synced_def)

lemma clear_spec:
  assumes w: "in_step w" and rnd: "float_rounding rnd" and rest: "live (em_scalar_storage w) - set ks \<noteq> {}"
  shows "\<exists>w'. ss_clear rnd S V ks w = (Inr (), w') \<and> in_step w' \<and>
    live (em_scalar_storage w') = live (em_scalar_storage w) - set ks \<and>
    fits (em_vector_base w') = fits (em_vector_base w)"
proof -
  from soft_evict_in_step[OF w, of ks] obtain w1 where soft: "soft_evict S ks w = (Inr (), w1)"
    and w1: "in_step w1" "em_vector_base w1 = em_vector_base w"
      "live (em_scalar_storage w1) = live (em_scalar_storage w) - set ks" by blast
  have live1: "live (em_scalar_storage w1) \<noteq> {}" using w1(3) rest by simp
  from check_evict_ok[OF w1(1) live1 rnd] obtain b where b: "check_evict rnd S w1 = Inr b"
    "b \<longrightarrow> marked (em_scalar_storage w1) \<noteq> {}" by blast
  show ?thesis
  proof (cases b)
    case True
    with b(2) delete_spec[OF w1(1) _ live1] w1 soft b(1) show ?thesis by (auto simp: ss_clear_def)
  next
    case False
    with w1 soft b(1) show ?thesis by (simp add: ss_clear_def)
  qed
qed

lemma put_one:
  assumes sync: "synced (insert obj P) (e, w)" and obj: "obj \<notin> P" and v: "storable v"
  shows "\<exists>c' w'. mem_set obj v (e, w) = Some (Inr (), (e\<lparr>me_cache := c'\<rparr>, w')) \<and>
    synced P (e\<lparr>me_cache := c'\<rparr>, w') \<and> obj \<in> keys c' \<and> fits (em_vector_base w') = fits (em_vector_base w) \<and>
    keys c' \<subseteq> insert obj (keys (me_cache e)) \<and> maxsize c' = maxsize (me_cache e)"
proof -
  note D = syncedD[OF sync]
  let ?c = "me_cache e"
  have m1: "1 \<le> maxsize ?c" using D(5,6) by simp
  have obj': "obj \<notin> keys ?c" using D(10) by blast
  note m_pop = policy_methodsD(1)[OF D(3)]
  show ?thesis
  proof (cases "card (keys ?c) < maxsize ?c")
    case True
    let ?c' = "store obj v ?c"
    have "mem_set obj v (e, w) = Some (Inr (), (e\<lparr>me_cache := ?c'\<rparr>, w))"
      using setitem_room[OF D(3,2) m1] True by (simp add: mem_set_def)
    moreover have "synced P (e\<lparr>me_cache := ?c'\<rparr>, w)"
      using D True obj obj' store_keys[OF D(2) v, of obj] store_inv[OF D(2) v, of obj]
        store_maxsize[OF D(2) v, of obj] keys_finite[OF D(2)]
      by (simp add: synced_def)
    ultimately show ?thesis using store_keys[OF D(2) v, of obj] store_maxsize[OF D(2) v, of obj] by blast
  next
    case False
    then have full: "card (keys ?c) = maxsize ?c" using D(7) by simp
    obtain ks c1 where ks: "set ks \<subseteq> keys ?c" "distinct ks" "length ks = nat (me_clean e)"
      and c1: "keys c1 = keys ?c - set ks" "cinv c1" "maxsize c1 = maxsize ?c"
      and run: "m_setitem (me_methods e) (popitem_wrapper popitem (me_on_evict e) (me_clean e)) obj v (?c, w) =
       (case call_on_evict (me_on_evict e) ks w of
          (Inl er, w') \<Rightarrow> Some (Inl er, (c1, w'))
        | (Inr u, w') \<Rightarrow> Some (Inr (), (store obj v c1, w')))"
      and "pop_n (nat (me_clean e)) popitem ?c = (Inr ks, c1)"
      by (rule setitem_full[OF D(3,2) m1 obj' full D(5,6)])
    have "live (em_scalar_storage w) - set ks \<noteq> {}" using D(9) ks(1) obj' by auto
    from clear_spec[OF D(8,1) this] obtain w' where w': "ss_clear rnd S V ks w = (Inr (), w')" "in_step w'"
      "live (em_scalar_storage w') = live (em_scalar_storage w) - set ks"
      "fits (em_vector_base w') = fits (em_vector_base w)" by blast
    let ?c' = "store obj v c1"
    have set: "mem_set obj v (e, w) = Some (Inr (), (e\<lparr>me_cache := ?c'\<rparr>, w'))"
      using run w'(1) by (simp add: mem_set_def m_pop call_on_evict_def D(4))
    have "ks \<noteq> []" using ks(3) D(5) by auto
    then have "keys c1 \<subset> keys ?c" using ks(1) c1(1) by (cases ks) auto
    then have "card (keys c1) < maxsize ?c"
      using psubset_card_mono[OF keys_finite[OF D(2)]] full by metis
    then have "card (keys ?c') \<le> maxsize ?c"
      using store_keys[OF c1(2) v, of obj] card_insert_le_m1[of "maxsize ?c" "keys c1" obj] m1 by simp
    then have "synced P (e\<lparr>me_cache := ?c'\<rparr>, w')"
      using D w' c1 obj obj' ks(1) store_keys[OF c1(2) v, of obj] store_inv[OF c1(2) v, of obj]
        store_maxsize[OF c1(2) v, of obj]
      by (auto simp: synced_def)
    moreover have "obj \<in> keys ?c'" "keys ?c' \<subseteq> insert obj (keys ?c)" "maxsize ?c' = maxsize ?c"
      using store_keys[OF c1(2) v, of obj] c1(1,3) store_maxsize[OF c1(2) v, of obj] by auto
    ultimately show ?thesis using set w'(4) by blast
  qed
qed

lemma put_all:
  assumes "synced (set objs) (e, w)" "distinct objs"
    and "\<And>i. i < length objs \<Longrightarrow> \<exists>v. cost_value costs (n + i) = Inr v \<and> storable v"
  shows "\<exists>c' w'. mem_put_from n objs costs (e, w) = Some (Inr (), (e\<lparr>me_cache := c'\<rparr>, w')) \<and>
    synced {} (e\<lparr>me_cache := c'\<rparr>, w') \<and> (objs \<noteq> [] \<longrightarrow> last objs \<in> keys c') \<and>
    fits (em_vector_base w') = fits (em_vector_base w) \<and>
    keys c' \<subseteq> keys (me_cache e) \<union> set objs \<and> maxsize c' = maxsize (me_cache e)"
  using assms
proof (induction objs arbitrary: n e w)
  case Nil
  then show ?case by (intro exI[of _ "me_cache e"] exI[of _ w]) simp
next
  case (Cons obj objs)
  from Cons.prems(3)[of 0] obtain v where v: "cost_value costs n = Inr v" "storable v" by auto
  have "synced (insert obj (set objs)) (e, w)" "obj \<notin> set objs" using Cons.prems(1,2) by simp_all
  from put_one[OF this v(2)] obtain c1 w1 where one: "mem_set obj v (e, w) = Some (Inr (), (e\<lparr>me_cache := c1\<rparr>, w1))"
    "synced (set objs) (e\<lparr>me_cache := c1\<rparr>, w1)" "obj \<in> keys c1" "fits (em_vector_base w1) = fits (em_vector_base w)"
    "keys c1 \<subseteq> insert obj (keys (me_cache e))" "maxsize c1 = maxsize (me_cache e)" by blast
  have costs: "\<exists>v. cost_value costs (Suc n + i) = Inr v \<and> storable v" if "i < length objs" for i
    using Cons.prems(3)[of "Suc i"] that by simp
  from Cons.IH[OF one(2) _ costs] Cons.prems(2) obtain c' w' where rest:
    "mem_put_from (Suc n) objs costs (e\<lparr>me_cache := c1\<rparr>, w1) = Some (Inr (), (e\<lparr>me_cache := c'\<rparr>, w'))"
    "synced {} (e\<lparr>me_cache := c'\<rparr>, w')" "objs \<noteq> [] \<longrightarrow> last objs \<in> keys c'"
    "fits (em_vector_base w') = fits (em_vector_base w1)" "keys c' \<subseteq> keys c1 \<union> set objs" "maxsize c' = maxsize c1"
    by auto
  have "objs = [] \<Longrightarrow> c' = c1" using rest(1) by (auto dest: arg_cong[where f = me_cache])
  with rest one v(1) show ?case by (intro exI[of _ c'] exI[of _ w']) (cases "objs = []", auto)
qed


text \<open>Saving a batch: stored, indexed, and put into the eviction cache.\<close>

lemma import_data_synced:
  assumes env: "de_rnd env = rnd" "de_S env = S" "de_V env = V"
    and sd: "sd_eviction sd = MemoryEviction e" "synced {} (e, sd_stores sd)"
    and len: "length as = length qs" "length es = length qs" "length ss = length qs" "qs \<noteq> []"
    and built: "map_out (build_cache_data env) (zip qs (zip as (zip (map (normalize env) es) ss))) sd =
      (Inr datas, sd1)"
    and ins: "\<forall>d \<in> set datas. insertable d"
    and fit: "\<forall>x \<in> set es. fits (em_vector_base (sd_stores sd)) (normalize env x)"
  shows "\<exists>sd' c' ids. ss_import_data env qs as es ss sd = Some (Inr (), sd') \<and>
    sd_eviction sd' = MemoryEviction (e\<lparr>me_cache := c'\<rparr>) \<and> synced {} (e\<lparr>me_cache := c'\<rparr>, sd_stores sd') \<and>
    length ids = length qs \<and> distinct ids \<and> last ids \<in> keys c' \<and> keys c' \<subseteq> keys (me_cache e) \<union> set ids \<and>
    set ids \<inter> (live (em_scalar_storage (sd_stores sd)) \<union> marked (em_scalar_storage (sd_stores sd))) = {} \<and>
    fits (em_vector_base (sd_stores sd')) = fits (em_vector_base (sd_stores sd))"
proof -
  let ?w = "sd_stores sd"
  note D = syncedD[OF sd(2)] and W = in_stepD[OF syncedD(8)[OF sd(2)]]
  have "data_frame sd (snd (map_out (build_cache_data env) (zip qs (zip as (zip (map (normalize env) es) ss))) sd))"
    by (rule frame_map) (rule build_cache_data_frame)
  then have sd1: "sd_stores sd1 = ?w" "sd_eviction sd1 = MemoryEviction e"
    using built sd(1) by (simp_all add: data_frame_def)
  have lend: "length datas = length qs" using map_out_length[OF built] len by simp
  from insert[OF W(1) ins] obtain new s' where batch: "so_batch_insert S datas (em_scalar_storage ?w) = (Inr new, s')"
    and new: "length new = length datas" "distinct new"
      "set new \<inter> (live (em_scalar_storage ?w) \<union> marked (em_scalar_storage ?w)) = {}"
    and s': "live s' = live (em_scalar_storage ?w) \<union> set new" "marked s' = marked (em_scalar_storage ?w)" "sinv s'"
    by blast
  let ?vs = "zip new (map (normalize env) es)"
  have fst: "map fst ?vs = new" using new(1) lend len by simp
  then have fst': "fst ` set ?vs = set new" by (metis set_map)
  have "?vs \<noteq> []" using fst new(1) lend len(4) by auto
  moreover have "\<forall>d \<in> set ?vs. fits (em_vector_base ?w) (snd d)"
    using fit by (auto dest!: set_zip_rightD)
  moreover have "fst ` set ?vs \<inter> ids (em_vector_base ?w) = {}" using new(3) fst' W(4) by simp
  ultimately obtain v' where add: "vo_mul_add V ?vs (em_vector_base ?w) = (Inr (), v')"
    and v': "ids v' = ids (em_vector_base ?w) \<union> set new" "vinv v'" "fits v' = fits (em_vector_base ?w)"
    using add[OF W(2), of ?vs] new(2) fst fst' by auto
  define sd2 where "sd2 = sd1\<lparr>sd_stores := ?w\<lparr>em_scalar_storage := s', em_vector_base := v'\<rparr>\<rparr>"
  let ?costs = "map (\<lambda>d. answer_cost rnd (AnsList (map ItemAnswer (cd_answers d)))) datas"
  have "synced (set new) (e, sd_stores sd2)"
    using D W new(3) s' v' by (auto simp: synced_def in_step_def sd2_def)
  moreover have "\<exists>v. cost_value (Some ?costs) (0 + i) = Inr v \<and> storable v" if "i < length new" for i
  proof -
    have "0 \<le> answer_cost rnd a" for a using answer_cost_ge_1[OF D(1), of a] by simp
    then have "0 \<le> ?costs ! i" using that new(1) by (simp del: answer_cost.simps)
    then show ?thesis using that new(1) by (auto simp: cost_value_def py_nth_def intro!: storable_cost)
  qed
  ultimately obtain c' w' where put: "mem_put_from 0 new (Some ?costs) (e, sd_stores sd2) =
      Some (Inr (), (e\<lparr>me_cache := c'\<rparr>, w'))"
    and c': "synced {} (e\<lparr>me_cache := c'\<rparr>, w')" "new \<noteq> [] \<longrightarrow> last new \<in> keys c'"
      "fits (em_vector_base w') = fits (em_vector_base (sd_stores sd2))"
      "keys c' \<subseteq> keys (me_cache e) \<union> set new"
    using put_all[of new e "sd_stores sd2" "Some ?costs" 0] new(2) by blast
  have "new \<noteq> []" using new(1) lend len(4) by auto
  define sd3 where "sd3 = sd2\<lparr>sd_eviction := MemoryEviction (e\<lparr>me_cache := c'\<rparr>), sd_stores := w'\<rparr>"
  have "ss_import_data env qs as es ss sd = Some (Inr (), sd3)"
    using built batch add put sd1 len
    by (simp add: ss_import_data_def env on_stores_def on_storage_def on_vector_def ss_put_def mem_put_def
        sd2_def sd3_def)
  then show ?thesis
    using c' new lend \<open>new \<noteq> []\<close> v'(3) by (intro exI[of _ sd3] exI[of _ c'] exI[of _ new]) (simp add: sd3_def sd2_def)
qed


text \<open>A hit touches the policy's bookkeeping only.\<close>

lemma hit_synced:
  assumes "synced P (e, w)"
  shows "\<exists>v c'. mem_get i e = (Inr v, e\<lparr>me_cache := c'\<rparr>) \<and> synced P (e\<lparr>me_cache := c'\<rparr>, w) \<and>
    keys c' = keys (me_cache e) \<and> (v = None \<longleftrightarrow> i \<notin> live (em_scalar_storage w) - P)"
proof -
  note D = syncedD[OF assms]
  from get_total[OF D(2), of i] obtain v c' where "mapping_get getitem i (me_cache e) = (Inr v, c')"
    "keys c' = keys (me_cache e)" "cinv c'" "maxsize c' = maxsize (me_cache e)" "v = None \<longleftrightarrow> i \<notin> keys (me_cache e)"
    by blast
  moreover have "live (em_scalar_storage w) - P = keys (me_cache e)" using D(9,10) by blast
  ultimately show ?thesis using assms
    by (intro exI[of _ v] exI[of _ c']) (simp add: mem_get_def policy_methodsD(2)[OF D(3)] synced_def)
qed

text \<open>
  Start-up: all persisted ids are put into an empty cache, which may already evict some of them.
\<close>

lemma init_synced:
  assumes env: "de_rnd env = rnd" "de_S env = S" "de_V env = V" and rnd: "float_rounding rnd"
    and kind: "select_policy policy = Inr kind"
    and new: "cinv (fst (new_cache kind max_size))" "keys (fst (new_cache kind max_size)) = {}"
      "maxsize (fst (new_cache kind max_size)) = nat max_size"
      "policy_methods popitem getitem store room too_large (snd (new_cache kind max_size))"
    and clean: "1 \<le> n" "n \<le> max_size"
      "n = (if clean_size = None \<or> clean_size = Some 0 then default_clean_size rnd max_size else the clean_size)"
    and stores: "sinv s" "vinv v" "ids v = live s \<union> marked s"
  shows "\<exists>sd e. ss_init env new_cache s v obj None max_size clean_size policy = Some (Inr sd) \<and>
    sd_eviction sd = MemoryEviction e \<and> synced {} (e, sd_stores sd) \<and>
    keys (me_cache e) \<subseteq> live s \<and> maxsize (me_cache e) = nat max_size \<and> me_clean e = n \<and>
    fits (em_vector_base (sd_stores sd)) = fits v"
proof -
  let ?c = "fst (new_cache kind max_size)"
  let ?e = "\<lparr>me_policy = py_upper policy, me_cache = ?c, me_methods = snd (new_cache kind max_size),
    me_clean = n, me_on_evict = Some (ss_clear rnd S V)\<rparr>"
  let ?w = "\<lparr>em_scalar_storage = s, em_vector_base = v, em_delete_count = 0\<rparr>"
  let ?ids = "so_get_ids S False s"
  have choice: "eviction_get rnd ''memory'' policy max_size clean_size = Inr (MemoryChoice policy max_size n)"
    using clean(3) by (auto simp: eviction_get_def Let_def split: option.splits)
  have init: "mem_init new_cache policy max_size n (Some (ss_clear rnd S V)) = Inr ?e"
    by (simp add: mem_init_def kind)
  have ids': "set ?ids = live s" "distinct ?ids" using ids_live[OF stores(1)] by simp_all
  have "synced (set ?ids) (?e, ?w)"
    using rnd new clean(1,2) stores ids'(1) by (simp add: synced_def in_step_def REBUILD_CONDITION_def)
  from put_all[OF this ids'(2), of None 0] storable_true obtain c' w' where
    put: "mem_put_from 0 ?ids None (?e, ?w) = Some (Inr (), (?e\<lparr>me_cache := c'\<rparr>, w'))"
    and c': "synced {} (?e\<lparr>me_cache := c'\<rparr>, w')" "keys c' \<subseteq> keys (me_cache ?e) \<union> set ?ids"
      "maxsize c' = maxsize (me_cache ?e)" "fits (em_vector_base w') = fits (em_vector_base ?w)"
    by (auto simp: cost_value_def)
  let ?sd = "\<lparr>sd_stores = w', sd_eviction = MemoryEviction (?e\<lparr>me_cache := c'\<rparr>), sd_object = obj,
    sd_member_data = None\<rparr>"
  have "ss_init env new_cache s v obj None max_size clean_size policy = Some (Inr ?sd)"
    using put by (simp add: ss_init_def env choice make_eviction_def init ss_put_def mem_put_def)
  then show ?thesis using c' new(2,3) ids'(1) by (intro exI[of _ ?sd] exI[of _ "?e\<lparr>me_cache := c'\<rparr>"]) simp
qed

text \<open>What is read: a cached id is served, any other id is not, and the cache stays synchronized.\<close>

lemma served_iff_cached:
  assumes "synced {} (e, w)"
  shows "\<exists>r s'. so_get_data_by_id S i (em_scalar_storage w) = (Inr r, s') \<and>
    (r \<noteq> None \<longleftrightarrow> i \<in> keys (me_cache e)) \<and> synced {} (e, w\<lparr>em_scalar_storage := s'\<rparr>)"
proof -
  note D = syncedD[OF assms] and W = in_stepD[OF syncedD(8)[OF assms]]
  show ?thesis
  proof (cases "i \<in> keys (me_cache e)")
    case True
    with D(9) have "i \<in> live (em_scalar_storage w)" by simp
    from get_live[OF W(1) this] obtain d s' where "so_get_data_by_id S i (em_scalar_storage w) = (Inr (Some d), s')"
      "live s' = live (em_scalar_storage w)" "marked s' = marked (em_scalar_storage w)" "sinv s'" by blast
    with True assms show ?thesis by (auto simp: synced_def in_step_def)
  next
    case False
    with D(9) have "i \<notin> live (em_scalar_storage w)" by simp
    from get_gone[OF W(1) this] False assms show ?thesis by simp
  qed
qed

end

section \<open>The GDSF cache with the relational storage and Faiss\<close>

interpretation gsf: synced_cache gdsf_popitem "gdsf_getitem rnd" "gdsf_store rnd" gdsf_keys
    "gdsf_maxsize msz" "gdsf_policy_inv rnd msz" "\<lambda>v. 0 \<le> cost_of rnd v" gdsf_room gdsf_too_large
    "sql_ops :: ('e, ('y, 'e, 'd) sql) storage_ops" "sql_with 0" "sql_with (- 1)" sql_inv sql_insertable
    "faiss_ops :: ('e, ('e, 'i) faiss) vector_ops" faiss_ids faiss_inv faiss_fits rnd
  for rnd msz
  by unfold_locales simp_all

text \<open>The invariant of the data manager, spelled out for this choice of components.\<close>

definition manager_inv where
  "manager_inv rnd msz sd \<longleftrightarrow>
     (case sd_eviction sd of
        NoOpEviction \<Rightarrow> False
      | MemoryEviction e \<Rightarrow>
          float_rounding rnd \<and> gdsf_policy_inv rnd msz (me_cache e) \<and>
          policy_methods gdsf_popitem (gdsf_getitem rnd) (gdsf_store rnd) gdsf_room gdsf_too_large (me_methods e) \<and>
          me_on_evict e = Some (ss_clear rnd sql_ops faiss_ops) \<and>
          1 \<le> me_clean e \<and> me_clean e \<le> int (gdsf_maxsize msz (me_cache e)) \<and>
          card (gdsf_keys (me_cache e)) \<le> gdsf_maxsize msz (me_cache e) \<and>
          sql_inv (em_scalar_storage (sd_stores sd)) \<and> faiss_inv (em_vector_base (sd_stores sd)) \<and>
          faiss_ids (em_vector_base (sd_stores sd)) =
            sql_with 0 (em_scalar_storage (sd_stores sd)) \<union> sql_with (- 1) (em_scalar_storage (sd_stores sd)) \<and>
          em_delete_count (sd_stores sd) < REBUILD_CONDITION \<and>
          sql_with 0 (em_scalar_storage (sd_stores sd)) = gdsf_keys (me_cache e))"

text \<open>The ids in the eviction cache, its bound, and the ids the storage serves.\<close>

definition cached_ids where
  "cached_ids sd = (case sd_eviction sd of NoOpEviction \<Rightarrow> {} | MemoryEviction e \<Rightarrow> gdsf_keys (me_cache e))"

definition cache_bound where
  "cache_bound msz sd = (case sd_eviction sd of NoOpEviction \<Rightarrow> 0 | MemoryEviction e \<Rightarrow> gdsf_maxsize msz (me_cache e))"

definition served_ids where
  "served_ids sd = sql_with 0 (em_scalar_storage (sd_stores sd))"

definition vector_fits where
  "vector_fits sd = faiss_fits (em_vector_base (sd_stores sd))"

lemma manager_inv_synced:
  "sd_eviction sd = MemoryEviction e \<Longrightarrow> manager_inv rnd msz sd \<longleftrightarrow> gsf.synced rnd msz {} (e, sd_stores sd)"
  by (auto simp: manager_inv_def gsf.synced_def gsf.in_step_def)

lemma manager_invE:
  assumes "manager_inv rnd msz sd"
  obtains e where "sd_eviction sd = MemoryEviction e" "gsf.synced rnd msz {} (e, sd_stores sd)"
proof (cases "sd_eviction sd")
  case (MemoryEviction e)
  with that assms show thesis by (simp add: manager_inv_synced)
qed (use assms in \<open>simp add: manager_inv_def\<close>)

lemma manager_inv_bound:
  assumes "manager_inv rnd msz sd"
  shows "served_ids sd = cached_ids sd" "card (cached_ids sd) \<le> cache_bound msz sd" "finite (cached_ids sd)"
proof -
  from assms obtain e where e: "sd_eviction sd = MemoryEviction e" "gsf.synced rnd msz {} (e, sd_stores sd)"
    by (rule manager_invE)
  note D = gsf.syncedD[OF e(2)]
  show "served_ids sd = cached_ids sd" "card (cached_ids sd) \<le> cache_bound msz sd"
    using D(7,9) by (simp_all add: served_ids_def cached_ids_def cache_bound_def e(1))
  show "finite (cached_ids sd)" using gdsf.keys_finite[OF D(2)] by (simp add: cached_ids_def e(1))
qed

lemma built_insertable:
  assumes "map_out (build_cache_data env) (zip qs (zip as (zip vs ss))) sd = (Inr datas, sd1)"
    and "\<forall>x \<in> set ss. session_bindable x" and "d \<in> set datas"
  shows "sql_insertable d"
proof -
  define P :: "question_arg \<times> answers_arg \<times> 'a \<times> session_field \<Rightarrow> 'a cache_data \<Rightarrow> bool" where
    "P = (\<lambda>r d. cd_embedding d \<noteq> None \<and> cd_session d = snd (snd (snd r)))"
  have "list_all2 P (zip qs (zip as (zip vs ss))) datas"
  proof (rule map_out_results[OF assms(1)])
    fix r s y s'
    assume "build_cache_data env r s = (Inr y, s')"
    then show "P r y" by (cases r) (auto simp: P_def dest: build_cache_data_result)
  qed
  with assms(3) obtain r where r: "r \<in> set (zip qs (zip as (zip vs ss)))" "P r d"
    by (metis in_set_conv_nth list_all2_conv_all_nth)
  have "snd (snd (snd r)) \<in> set ss"
    using r(1) set_zip_rightD[of "fst r" "snd r"] set_zip_rightD[of "fst (snd r)" "snd (snd r)"]
      set_zip_rightD[of "fst (snd (snd r))" "snd (snd (snd r))"] by (metis prod.collapse)
  with r(2) assms(2) show ?thesis by (auto simp: P_def sql_insertable_def)
qed

lemma load_text_answers:
  "\<forall>a \<in> set as. ans_type a = data_type_int DT_STR \<Longrightarrow> map_out (load_answer O1) as sd = (Inr as, sd)"
  by (induction as) (simp_all add: load_answer_def)

lemma manager_inv_storage:
  assumes "manager_inv rnd msz sd" "sql_inv s'"
    "sql_with 0 s' = sql_with 0 (em_scalar_storage (sd_stores sd))"
    "sql_with (- 1) s' = sql_with (- 1) (em_scalar_storage (sd_stores sd))"
  shows "manager_inv rnd msz (sd\<lparr>sd_stores := (sd_stores sd)\<lparr>em_scalar_storage := s'\<rparr>\<rparr>)"
    "cached_ids (sd\<lparr>sd_stores := (sd_stores sd)\<lparr>em_scalar_storage := s'\<rparr>\<rparr>) = cached_ids sd"
  using assms by (auto simp: manager_inv_def cached_ids_def split: eviction_base.splits)

lemma get_scalar_data_cached:
  assumes "de_S env = sql_ops" and inv: "manager_inv rnd msz sd" and i: "i \<in> cached_ids sd"
    and e: "sql_entry (em_scalar_storage (sd_stores sd)) i = Some (q, deps, answers, emb)"
    and plain: "\<forall>a \<in># answers. ans_type a = data_type_int DT_STR"
  shows "\<exists>d sd'. ss_get_scalar_data env (x, i) None sd = (Inr (Some d), sd') \<and>
    (question_text (cd_question d), mset (question_deps (cd_question d)), mset (cd_answers d), cd_embedding d) =
      (q, deps, answers, emb) \<and> manager_inv rnd msz sd' \<and> cached_ids sd' = cached_ids sd"
proof -
  let ?s = "em_scalar_storage (sd_stores sd)"
  have sinv: "sql_inv ?s" using inv by (auto simp: manager_inv_def split: eviction_base.splits)
  have "i \<in> sql_with 0 ?s" using i manager_inv_bound(1)[OF inv] by (simp add: served_ids_def)
  with sql_get_touch[OF sinv] obtain d s' where get: "sql_get_data_by_id i ?s = (Inr (Some d), s')"
    and s': "sql_with 0 s' = sql_with 0 ?s" "sql_with (- 1) s' = sql_with (- 1) ?s" "sql_inv s'" by blast
  have d: "(question_text (cd_question d), mset (question_deps (cd_question d)), mset (cd_answers d), cd_embedding d) =
      (q, deps, answers, emb)"
    using sql_get_entry[OF sinv e] get by auto
  let ?sd = "sd\<lparr>sd_stores := (sd_stores sd)\<lparr>em_scalar_storage := s'\<rparr>\<rparr>"
  have "\<forall>a \<in> set (cd_answers d). ans_type a = data_type_int DT_STR" using d plain by auto
  from load_text_answers[OF this, of "de_O env" ?sd] have "ss_get_scalar_data env (x, i) None sd = (Inr (Some d), ?sd)"
    by (simp add: ss_get_scalar_data_def on_stores_def on_storage_def assms(1) sql_ops_def get)
  with d manager_inv_storage[OF inv s'(3,1,2)] show ?thesis by blast
qed

lemma get_scalar_data_gone:
  assumes "de_S env = sql_ops" and inv: "manager_inv rnd msz sd" and i: "i \<notin> cached_ids sd"
  shows "ss_get_scalar_data env (x, i) sess sd = (Inr None, sd)"
proof -
  have sinv: "sql_inv (em_scalar_storage (sd_stores sd))"
    using inv by (auto simp: manager_inv_def split: eviction_base.splits)
  have "i \<notin> sql_with 0 (em_scalar_storage (sd_stores sd))"
    using i manager_inv_bound(1)[OF inv] by (simp add: served_ids_def)
  from sql_get_gone[OF sinv this] show ?thesis
    by (simp add: ss_get_scalar_data_def on_stores_def on_storage_def assms(1) sql_ops_def)
qed

section \<open>A concrete data manager\<close>

text \<open>
  Exact floats, an empty relational store, an empty index and a GDSF cache for \<open>n\<close> entries that evicts
  \<open>k\<close> at a time. Used to show that the hypotheses of the properties can hold.
\<close>

type_synonym sample_world = "((nat, nat, nat list_db) sql, (nat, (int \<times> nat) list) faiss) ev_manager"

definition sample_env ::
  "(nat, (nat, nat, nat list_db) sql, (nat, (int \<times> nat) list) faiss, unit) dm_env" where
  "sample_env = \<lparr>de_rnd = (\<lambda>x. x), de_S = sql_ops, de_V = faiss_ops,
     de_O = \<lparr>ob_put = (\<lambda>c u. (Inr c, u)), ob_get = (\<lambda>c u. (Inr c, u))\<rparr>,
     de_norm = (\<lambda>e. 1), de_divide = (\<lambda>e x. e), de_float32 = (\<lambda>e. e), de_http_get = (\<lambda>u. Inr (Bytes u))\<rparr>"

definition sample_cache :: "nat \<Rightarrow> (int, nat \<times> (int \<times> pyval) list) gdsf" where
  "sample_cache n = gdsf_init list_cls (n, [])"

definition sample_eviction ::
  "nat \<Rightarrow> int \<Rightarrow> (int, (int, nat \<times> (int \<times> pyval) list) gdsf, sample_world) mem_eviction" where
  "sample_eviction n k = \<lparr>me_policy = ''GDSF'', me_cache = sample_cache n,
     me_methods = gdsf_methods (\<lambda>x. x) run_base_set, me_clean = k,
     me_on_evict = Some (ss_clear (\<lambda>x. x) sql_ops faiss_ops)\<rparr>"

definition sample_manager where
  "sample_manager n k = \<lparr>sd_stores = \<lparr>em_scalar_storage = sql_new, em_vector_base = faiss_new, em_delete_count = 0\<rparr>,
     sd_eviction = MemoryEviction (sample_eviction n k), sd_object = None :: unit option, sd_member_data = None\<rparr>"

lemma sample_env_sel [simp]:
  "de_rnd sample_env = (\<lambda>x. x)" "de_S sample_env = sql_ops" "de_V sample_env = faiss_ops"
  "normalize sample_env e = e"
  by (simp_all add: sample_env_def normalize_def)

lemma sample_cache_inv:
  "gdsf_policy_inv (\<lambda>x. x) fst (sample_cache n)" "gdsf_keys (sample_cache n) = {}"
  "gdsf_maxsize fst (sample_cache n) = n"
proof -
  have get: "c_get list_cls (n, []) = Map.empty" by (simp add: list_cls_def)
  show "gdsf_policy_inv (\<lambda>x. x) fst (sample_cache n)"
    using gdsf_inv_init[where base = "(n, [])", OF float_rounding_id list_cls_contract get] list_cls_unit
    by (simp add: gdsf_policy_inv_def sample_cache_def gdsf_init_def)
  show "gdsf_keys (sample_cache n) = {}" "gdsf_maxsize fst (sample_cache n) = n"
    by (simp_all add: sample_cache_def gdsf_keys_def gdsf_init_def get gdsf_maxsize_def)
qed

lemma sql_new_ids: "sql_with c sql_new = {}"
  by (simp add: sql_with_def sql_new_def qrows_def list_db_api_def list_table_def)

lemma sample_manager_inv:
  assumes "1 \<le> k" "k \<le> int n"
  shows "manager_inv (\<lambda>x. x) fst (sample_manager n k)"
  using assms sample_cache_inv[of n] sql_new_inv faiss_new_inv float_rounding_id
    gdsf_policy_methods[OF run_base_set_contract, of "\<lambda>x. x"]
  by (simp add: manager_inv_def sample_manager_def sample_eviction_def REBUILD_CONDITION_def sql_new_ids)

lemma sample_manager_fits: "vector_fits (sample_manager n k) x"
  by (simp add: vector_fits_def sample_manager_def faiss_new_inv(3))

section \<open>Properties\<close>

text \<open>
  C1. Saving a batch of questions keeps the data manager's invariant, whatever the batch evicts: after
  \<open>import_data\<close> returns, the ids in the eviction cache are exactly the ids that the scalar storage serves,
  every one of them has a vector and no other vector remains except those of entries marked as deleted,
  and no more than \<open>maxsize\<close> entries are cached. The call returns normally, the batch's last entry is
  cached, and every cached id is an old one or one of the new ones. (Processing the questions and
  answers, which talks to the object store, is assumed not to raise; the evicting policy is GDSF.)
\<close>

theorem import_data_keeps_sync:
  assumes "de_S env = sql_ops" "de_V env = faiss_ops" and inv: "manager_inv (de_rnd env) msz sd"
    and len: "length as = length qs" "length es = length qs" "length ss = length qs" "qs \<noteq> []"
    and built: "map_out (build_cache_data env) (zip qs (zip as (zip (map (normalize env) es) ss))) sd =
      (Inr datas, sd1)"
    and sess: "\<forall>x \<in> set ss. session_bindable x"
    and fit: "\<forall>x \<in> set es. vector_fits sd (normalize env x)"
  shows "\<exists>sd' new. ss_import_data env qs as es ss sd = Some (Inr (), sd') \<and> manager_inv (de_rnd env) msz sd' \<and>
    served_ids sd' = cached_ids sd' \<and> card (cached_ids sd') \<le> cache_bound msz sd' \<and>
    length new = length qs \<and> last new \<in> served_ids sd' \<and> cached_ids sd' \<subseteq> cached_ids sd \<union> set new"
proof -
  from inv obtain e where e: "sd_eviction sd = MemoryEviction e" "gsf.synced (de_rnd env) msz {} (e, sd_stores sd)"
    by (rule manager_invE)
  have "\<forall>d \<in> set datas. sql_insertable d" using built_insertable[OF built sess] by blast
  from gsf.import_data_synced[OF refl assms(1,2) e len built this] fit obtain sd' c' new where
    sd': "ss_import_data env qs as es ss sd = Some (Inr (), sd')" "sd_eviction sd' = MemoryEviction (e\<lparr>me_cache := c'\<rparr>)"
    "gsf.synced (de_rnd env) msz {} (e\<lparr>me_cache := c'\<rparr>, sd_stores sd')" "length new = length qs"
    "last new \<in> gdsf_keys c'" "gdsf_keys c' \<subseteq> gdsf_keys (me_cache e) \<union> set new"
    unfolding vector_fits_def by blast
  have "manager_inv (de_rnd env) msz sd'" using sd'(2,3) manager_inv_synced by blast
  with sd' manager_inv_bound[OF this] show ?thesis by (auto simp: cached_ids_def e(1))
qed

theorem import_data_keeps_sync_witness:
  "\<exists>sd' new. ss_import_data sample_env [QStr ''q''] [AnsStr ''a''] [5] [NoSession] (sample_manager 2 1) =
      Some (Inr (), sd') \<and> length new = 1 \<and> last new \<in> served_ids sd' \<and> cached_ids sd' \<subseteq> set new"
proof -
  have "cached_ids (sample_manager 2 1) = {}"
    by (simp add: cached_ids_def sample_manager_def sample_eviction_def sample_cache_inv)
  with import_data_keeps_sync[of sample_env fst "sample_manager 2 1" "[AnsStr ''a'']" "[QStr ''q'']" "[5]" "[NoSession]"]
  show ?thesis
    using sample_manager_inv[of 1 2]
    by (simp add: sample_manager_fits build_cache_data_def process_question_data_def) blast
qed

text \<open>
  C2. What the data manager serves is what its eviction cache holds. \<open>get_scalar_data\<close> of an id that is not
  cached (never stored, or evicted, or marked as deleted) returns \<open>None\<close> and changes nothing, with or
  without a session; of a cached id whose answers are text it returns, without a session, the stored
  question, dependencies, answers and embedding, and the manager's invariant and the cached ids are kept.
\<close>

theorem get_scalar_data_serves_cached:
  assumes "de_S env = sql_ops" and "manager_inv rnd msz sd"
  shows "case sql_entry (em_scalar_storage (sd_stores sd)) i of
      None \<Rightarrow> i \<notin> cached_ids sd \<and> ss_get_scalar_data env (x, i) sess sd = (Inr None, sd)
    | Some (q, deps, answers, emb) \<Rightarrow> i \<in> cached_ids sd \<and>
        ((\<forall>a \<in># answers. ans_type a = data_type_int DT_STR) \<longrightarrow>
         (\<exists>d sd'. ss_get_scalar_data env (x, i) None sd = (Inr (Some d), sd') \<and>
            (question_text (cd_question d), mset (question_deps (cd_question d)),
             mset (cd_answers d), cd_embedding d) = (q, deps, answers, emb) \<and>
            manager_inv rnd msz sd' \<and> cached_ids sd' = cached_ids sd))"
proof -
  have sinv: "sql_inv (em_scalar_storage (sd_stores sd))"
    using assms(2) by (auto simp: manager_inv_def split: eviction_base.splits)
  have "dom (sql_entry (em_scalar_storage (sd_stores sd))) = cached_ids sd"
    using sql_entry_dom[OF sinv] manager_inv_bound(1)[OF assms(2)] by (simp add: served_ids_def)
  then have "i \<in> cached_ids sd \<longleftrightarrow> sql_entry (em_scalar_storage (sd_stores sd)) i \<noteq> None"
    by (metis domIff)
  then show ?thesis
    using get_scalar_data_cached[OF assms] get_scalar_data_gone[OF assms]
    by (cases "sql_entry (em_scalar_storage (sd_stores sd)) i") auto
qed

theorem get_scalar_data_serves_cached_witness:
  "ss_get_scalar_data sample_env (0, 4) None (sample_manager 2 1) = (Inr None, sample_manager 2 1)"
proof -
  have "sql_entry (em_scalar_storage (sd_stores (sample_manager 2 1))) 4 = None"
    by (simp add: sample_manager_def sql_new_entry)
  with get_scalar_data_serves_cached[of sample_env "\<lambda>x. x" fst "sample_manager 2 1" 4 0 None]
  show ?thesis using sample_manager_inv[of 1 2] by simp
qed

text \<open>
  C18. \<open>delete_session\<close> of a name removes exactly the session rows of that name, for every question and
  whatever other sessions share the questions; nothing else of the storage changes.
\<close>

theorem delete_session_exact:
  assumes "de_S env = sql_ops" and inv: "sql_inv (em_scalar_storage (sd_stores sd))" and "name \<noteq> []"
  shows "\<exists>s'. ss_delete_session env (Some name) sd =
      (Inr (), sd\<lparr>sd_stores := (sd_stores sd)\<lparr>em_scalar_storage := s'\<rparr>\<rparr>) \<and>
    srows s' = filter (\<lambda>r. sr_session_id r \<noteq> name) (srows (em_scalar_storage (sd_stores sd))) \<and>
    qrows s' = qrows (em_scalar_storage (sd_stores sd)) \<and> arows s' = arows (em_scalar_storage (sd_stores sd)) \<and>
    drows s' = drows (em_scalar_storage (sd_stores sd)) \<and> rrows s' = rrows (em_scalar_storage (sd_stores sd))"
proof -
  let ?s = "em_scalar_storage (sd_stores sd)"
  note db = sql_invD(1)[OF inv]
  define sel where "sel = t_select (db_session (sql_api ?s)) (\<lambda>r. name = sr_session_id r) (sql_db ?s)"
  have sel: "set sel = {r \<in> set (srows ?s). name = sr_session_id r}"
    unfolding sel_def srows_def by (rule session_select(2)[OF db])
  define keys where "keys = map (\<lambda>r. IdKey (sr_id r)) sel"
  have keys: "session_keys (ss_list_sessions env (Some name) None sd) = keys"
    by (simp add: ss_list_sessions_def str_truthy_def assms(1,3) sql_ops_def sql_list_sessions_def keys_def sel_def)
  have uniq: "Some (sr_id r) \<in> session_key_id ?s ` set keys \<longleftrightarrow> sr_session_id r = name"
    if "r \<in> set (srows ?s)" for r
  proof -
    have "inj_on sr_id (set (srows ?s))" using sql_invD(6)[OF inv] by (simp add: distinct_map)
    then have "sr_id r \<in> sr_id ` set sel \<longleftrightarrow> r \<in> set sel"
      using that sel by (intro inj_on_image_mem_iff) auto
    moreover have "session_key_id ?s ` set keys = Some ` sr_id ` set sel" by (force simp: keys_def)
    ultimately show ?thesis using sel that by auto
  qed
  let ?s' = "snd (sql_delete_session keys ?s)"
  have "ss_delete_session env (Some name) sd = (Inr (), sd\<lparr>sd_stores := (sd_stores sd)\<lparr>em_scalar_storage := ?s'\<rparr>\<rparr>)"
    by (simp add: ss_delete_session_def keys on_stores_def on_storage_def assms(1) sql_ops_def sql_delete_session_def)
  moreover have "srows ?s' = filter (\<lambda>r. sr_session_id r \<noteq> name) (srows ?s)"
    using uniq by (simp add: sql_delete_session_def srows_def session_delete[OF db] cong: filter_cong)
  moreover have "qrows ?s' = qrows ?s" "arows ?s' = arows ?s" "drows ?s' = drows ?s" "rrows ?s' = rrows ?s"
    by (simp_all add: sql_delete_session_def sql_rows_defs session_delete[OF db])
  ultimately show ?thesis by blast
qed

theorem delete_session_exact_witness:
  "\<exists>s'. ss_delete_session sample_env (Some ''u'') (sample_manager 2 1) =
     (Inr (), (sample_manager 2 1)\<lparr>sd_stores := (sd_stores (sample_manager 2 1))\<lparr>em_scalar_storage := s'\<rparr>\<rparr>) \<and> srows s' = []"
proof -
  have s: "em_scalar_storage (sd_stores (sample_manager 2 1)) = sql_new" by (simp add: sample_manager_def)
  have "srows sql_new = []" by (simp add: sql_new_def srows_def list_db_api_def list_table_def)
  with delete_session_exact[of sample_env "sample_manager 2 1" "''u''"] show ?thesis
    unfolding s using sql_new_inv by auto
qed

definition sample_new_cache where
  "sample_new_cache kind n = (gdsf_init list_cls (nat n, [] :: (int \<times> pyval) list), gdsf_methods (\<lambda>x. x) run_base_set)"

text \<open>
  C11. Starting on persisted stores establishes the manager's invariant: \<open>__init__\<close> puts every live id of
  the storage into an empty cache and returns, also when there are more of them than \<open>maxsize\<close>; the
  surplus is then evicted from the stores. Afterwards the cached ids are exactly the served ones, and
  all of them were live before. (The stores must agree at the start: every live or marked entry, and
  nothing else, has a vector.)
\<close>

theorem restart_establishes_sync:
  assumes env: "de_S env = sql_ops" "de_V env = faiss_ops" and rnd: "float_rounding (de_rnd env)"
    and policy: "select_policy policy = Inr kind"
    and new: "new_cache kind max_size = (gdsf_init cls base, gdsf_methods (de_rnd env) base_set)"
      "super_contract cls" "unit_sized cls msz" "c_get cls base = Map.empty" "msz base = nat max_size"
      "base_set_contract base_set"
    and clean: "1 \<le> n" "n \<le> max_size"
      "n = (if clean_size = None \<or> clean_size = Some 0 then default_clean_size (de_rnd env) max_size else the clean_size)"
    and stores: "sql_inv s" "faiss_inv v" "faiss_ids v = sql_with 0 s \<union> sql_with (- 1) s"
  shows "\<exists>sd. ss_init env new_cache s v obj None max_size clean_size policy = Some (Inr sd) \<and>
    manager_inv (de_rnd env) msz sd \<and> served_ids sd = cached_ids sd \<and> cached_ids sd \<subseteq> sql_with 0 s \<and>
    cache_bound msz sd = nat max_size"
proof -
  let ?c = "fst (new_cache kind max_size)"
  have c: "gdsf_policy_inv (de_rnd env) msz ?c" "gdsf_keys ?c = {}" "gdsf_maxsize msz ?c = nat max_size"
    "policy_methods gdsf_popitem (gdsf_getitem (de_rnd env)) (gdsf_store (de_rnd env)) gdsf_room gdsf_too_large
       (snd (new_cache kind max_size))"
    using gdsf_inv_init[OF rnd new(2,4)] gdsf_policy_methods[OF new(6)] new(3,4,5)
    by (simp_all add: new(1) gdsf_policy_inv_def gdsf_maxsize_def gdsf_keys_def gdsf_init_def)
  from gsf.init_synced[where new_cache = new_cache and obj = obj, OF refl env rnd policy c clean stores] obtain sd e where sd:
    "ss_init env new_cache s v obj None max_size clean_size policy = Some (Inr sd)"
    "sd_eviction sd = MemoryEviction e" "gsf.synced (de_rnd env) msz {} (e, sd_stores sd)"
    "gdsf_keys (me_cache e) \<subseteq> sql_with 0 s" "gdsf_maxsize msz (me_cache e) = nat max_size" by blast
  have "manager_inv (de_rnd env) msz sd" using sd(2,3) manager_inv_synced by blast
  with sd manager_inv_bound(1)[OF this] show ?thesis by (auto simp: cached_ids_def cache_bound_def)
qed

theorem restart_establishes_sync_witness:
  "\<exists>sd. ss_init sample_env sample_new_cache sql_new faiss_new None None 10 (Some 2) ''gdsf'' = Some (Inr sd) \<and>
     cached_ids sd = {} \<and> cache_bound fst sd = 10"
proof -
  have policy: "select_policy ''gdsf'' = Inr GDSF"
    by code_simp
  have "c_get list_cls (nat 10, [] :: (int \<times> pyval) list) = Map.empty" by simp
  with restart_establishes_sync[of sample_env "''gdsf''" GDSF sample_new_cache 10 list_cls "(nat 10, [])" run_base_set fst
      2 "Some 2" sql_new faiss_new None] policy
  show ?thesis
    using list_cls_contract list_cls_unit run_base_set_contract sql_new_inv faiss_new_inv float_rounding_id
    by (simp add: sample_new_cache_def sql_new_ids) blast
qed

text \<open>
  C17. A hit never disturbs the stores: the callback of a cache hit looks the id up in the eviction cache,
  which finds exactly the cached ids, leaves the cached ids, the served ids and the stores as they are and keeps the
  manager's invariant; on an id that is not cached it
  changes nothing at all in the sets (it raises no \<open>KeyError\<close>).
\<close>

theorem hit_callback_keeps_sync:
  assumes "manager_inv rnd msz sd"
  shows "\<exists>e r e' sd'. sd_eviction sd = MemoryEviction e \<and> mem_get i e = (Inr r, e') \<and> (r = None \<longleftrightarrow> i \<notin> cached_ids sd) \<and>
    ss_hit_cache_callback (x, i) sd = (Inr (), sd') \<and> sd_eviction sd' = MemoryEviction e' \<and> manager_inv rnd msz sd' \<and>
    cached_ids sd' = cached_ids sd \<and> sd_stores sd' = sd_stores sd"
proof -
  from assms obtain e where e: "sd_eviction sd = MemoryEviction e" "gsf.synced rnd msz {} (e, sd_stores sd)"
    by (rule manager_invE)
  from gsf.hit_synced[OF e(2), of i] obtain v c' where hit: "mem_get i e = (Inr v, e\<lparr>me_cache := c'\<rparr>)"
    "gsf.synced rnd msz {} (e\<lparr>me_cache := c'\<rparr>, sd_stores sd)" "gdsf_keys c' = gdsf_keys (me_cache e)"
    "v = None \<longleftrightarrow> i \<notin> sql_with 0 (em_scalar_storage (sd_stores sd)) - {}" by blast
  let ?sd = "sd\<lparr>sd_eviction := MemoryEviction (e\<lparr>me_cache := c'\<rparr>)\<rparr>"
  have "ss_hit_cache_callback (x, i) sd = (Inr (), ?sd)" by (simp add: ss_hit_cache_callback_def e(1) hit(1))
  moreover have "manager_inv rnd msz ?sd" using hit(2) manager_inv_synced[of ?sd] by simp
  moreover have "v = None \<longleftrightarrow> i \<notin> cached_ids sd"
    using hit(4) manager_inv_bound(1)[OF assms] by (simp add: served_ids_def)
  moreover have "cached_ids ?sd = cached_ids sd" using hit(3) by (simp add: cached_ids_def e(1))
  ultimately show ?thesis using e(1) hit(1) by (intro exI[of _ e] exI[of _ v] exI[of _ "e\<lparr>me_cache := c'\<rparr>"] exI[of _ ?sd]) simp
qed

theorem hit_callback_keeps_sync_witness:
  "\<exists>sd'. ss_hit_cache_callback (1 / 2, 9) (sample_manager 2 1) = (Inr (), sd') \<and> cached_ids sd' = {}"
proof -
  have "cached_ids (sample_manager 2 1) = {}"
    by (simp add: cached_ids_def sample_manager_def sample_eviction_def sample_cache_inv)
  with hit_callback_keeps_sync[OF sample_manager_inv[of 1 2], of 9 "1 / 2"] show ?thesis by auto
qed

end
