(* ===== verification/Report.thy ===== *)
theory Report
  imports Prelude
begin

text \<open>
  The bookkeeping of a cache: \<open>gptcache/report.py\<close> (counters and times of the operations), the decorator
  \<open>time_cal\<close> of \<open>gptcache/utils/time.py\<close>, and the configuration \<open>gptcache/config.py\<close>. Times are floats;
  \<open>clock t\<close> is what the \<open>t\<close>-th reading of the clock returns.
\<close>

section \<open>OpCounter and Report\<close>

record op_counter =
  oc_count :: nat
  oc_total_time :: real

definition op_counter_init :: op_counter where
  "op_counter_init = \<lparr>oc_count = 0, oc_total_time = 0\<rparr>"

text \<open>\<open>round4\<close> is Python's \<open>round(x, 4)\<close>.\<close>

definition average :: "(real \<Rightarrow> real) \<Rightarrow> (real \<Rightarrow> real) \<Rightarrow> op_counter \<Rightarrow> real" where
  "average rnd round4 c =
     (if oc_count c \<noteq> 0 then round4 (rnd (oc_total_time c / real (oc_count c))) else 0)"

definition op_add :: "(real \<Rightarrow> real) \<Rightarrow> real \<Rightarrow> op_counter \<Rightarrow> op_counter" where
  "op_add rnd delta_time c =
     c\<lparr>oc_total_time := rnd (oc_total_time c + delta_time), oc_count := oc_count c + 1\<rparr>"

record report =
  op_pre :: op_counter
  op_embedding :: op_counter
  op_search :: op_counter
  op_data :: op_counter
  op_evaluation :: op_counter
  op_post :: op_counter
  op_llm :: op_counter
  op_save :: op_counter
  hint_cache_count :: nat

definition report_init :: report where
  "report_init =
     \<lparr>op_pre = op_counter_init, op_embedding = op_counter_init, op_search = op_counter_init,
      op_data = op_counter_init, op_evaluation = op_counter_init, op_post = op_counter_init,
      op_llm = op_counter_init, op_save = op_counter_init, hint_cache_count = 0\<rparr>"

type_synonym report_func = "(real \<Rightarrow> real) \<Rightarrow> real \<Rightarrow> report \<Rightarrow> report"

definition rep_pre :: report_func where "rep_pre rnd dt r = r\<lparr>op_pre := op_add rnd dt (op_pre r)\<rparr>"
definition rep_embedding :: report_func where
  "rep_embedding rnd dt r = r\<lparr>op_embedding := op_add rnd dt (op_embedding r)\<rparr>"
definition rep_search :: report_func where "rep_search rnd dt r = r\<lparr>op_search := op_add rnd dt (op_search r)\<rparr>"
definition rep_data :: report_func where "rep_data rnd dt r = r\<lparr>op_data := op_add rnd dt (op_data r)\<rparr>"
definition rep_evaluation :: report_func where
  "rep_evaluation rnd dt r = r\<lparr>op_evaluation := op_add rnd dt (op_evaluation r)\<rparr>"
definition rep_post :: report_func where "rep_post rnd dt r = r\<lparr>op_post := op_add rnd dt (op_post r)\<rparr>"
definition rep_llm :: report_func where "rep_llm rnd dt r = r\<lparr>op_llm := op_add rnd dt (op_llm r)\<rparr>"
definition rep_save :: report_func where "rep_save rnd dt r = r\<lparr>op_save := op_add rnd dt (op_save r)\<rparr>"

definition hint_cache :: "report \<Rightarrow> report" where
  "hint_cache r = r\<lparr>hint_cache_count := hint_cache_count r + 1\<rparr>"

section \<open>time\_cal\<close>

text \<open>
  The decorated call reads the clock before and after; when the call raises, nothing is reported. The
  state is a report, the number of clock readings and the rest \<open>'s\<close>; \<open>log_time_func\<close>, a hook for
  logging, is not modelled.
\<close>

definition time_cal ::
  "(real \<Rightarrow> real) \<Rightarrow> (nat \<Rightarrow> real) \<Rightarrow> report_func \<Rightarrow> (report \<times> nat \<times> 's \<Rightarrow> ('a, report \<times> nat \<times> 's) outcome)
   \<Rightarrow> report \<times> nat \<times> 's \<Rightarrow> ('a, report \<times> nat \<times> 's) outcome" where
  "time_cal rnd clock rep func = (\<lambda>(r, t, s).
     bind_out (func (r, Suc t, s)) (\<lambda>res (r, t', s).
       (Inr res, (rep rnd (rnd (clock t' - clock t)) r, Suc t', s))))"

section \<open>Config\<close>

record config =
  cf_similarity_threshold :: real
  cf_prompts :: "string list option"
  cf_template :: "string option"
  cf_auto_flush :: int
  cf_enable_token_counter :: bool
  cf_input_summary_len :: "int option"
  cf_context_len :: "int option"
  cf_skip_list :: "string list"
  cf_data_check :: bool
  cf_disable_report :: bool

definition config_init ::
  "real \<Rightarrow> string list option \<Rightarrow> string option \<Rightarrow> int \<Rightarrow> bool \<Rightarrow> int option \<Rightarrow> int option \<Rightarrow> string list option
   \<Rightarrow> bool \<Rightarrow> bool \<Rightarrow> config result" where
  "config_init similarity_threshold prompts template auto_flush enable_token_counter input_summary_len
     context_len skip_list data_check disable_report =
     (if similarity_threshold < 0 \<or> similarity_threshold > 1 then Inl CacheError
      else Inr \<lparr>cf_similarity_threshold = similarity_threshold, cf_prompts = prompts, cf_template = template,
        cf_auto_flush = auto_flush, cf_enable_token_counter = enable_token_counter,
        cf_input_summary_len = input_summary_len, cf_context_len = context_len,
        cf_skip_list = (case skip_list of None \<Rightarrow> [''system'', ''assistant''] | Some l \<Rightarrow> l),
        cf_data_check = data_check, cf_disable_report = disable_report\<rparr>)"

lemma config_threshold:
  "config_init th p te af tc il cl sl dc dr = Inr c \<Longrightarrow>
     0 \<le> cf_similarity_threshold c \<and> cf_similarity_threshold c \<le> 1"
  by (auto simp: config_init_def split: if_splits)

end
