(* ===== verification/Post.thy ===== *)
theory Post
  imports Scalar_Data
begin

text \<open>
  \<open>gptcache/processor/post.py\<close> (choosing an answer among the hits), \<open>utils/softmax.py\<close> and
  \<open>processor/check_hit.py\<close>. The random choices of numpy and \<open>random\<close> are parameters \<open>pick\<close>; the LLM that
  verifies an answer is the parameter \<open>ask\<close>. Scores are compared exactly. \<open>softmax\<close> is its real-valued definition: float
  rounding, the underflow of small weights to 0, and the overflow of \<open>score / temperature\<close> to infinity (after which
  \<open>numpy.random.choice\<close> raises) are not modelled, so statements about weights are about real numbers.
\<close>

section \<open>softmax\<close>

definition list_max :: "real list \<Rightarrow> real" where
  "list_max xs = foldr max (tl xs) (hd xs)"

definition softmax :: "real list \<Rightarrow> real list" where
  "softmax x =
     (let max_val = list_max x;
          e_x = map (\<lambda>v. exp (v - max_val)) x
      in map (\<lambda>e. e / sum_list e_x) e_x)"

lemma softmax_length [simp]: "length (softmax x) = length x"
  by (simp add: softmax_def Let_def)

text \<open>Subtracting the greatest value changes nothing: the weights are those of the usual definition.\<close>

lemma softmax_closed_form: "softmax x = map (\<lambda>v. exp v / sum_list (map exp x)) x"
proof -
  let ?m = "list_max x"
  have shift: "map (\<lambda>v. exp (v - ?m)) x = map (\<lambda>v. v * inverse (exp ?m)) (map exp x)"
    by (simp add: exp_diff divide_inverse)
  have "sum_list (map (\<lambda>v. exp (v - ?m)) x) = sum_list (map exp x) * inverse (exp ?m)"
    unfolding shift using sum_list_mult_const[of "\<lambda>v. v" "inverse (exp ?m)" "map exp x"] by (simp del: map_map)
  then show ?thesis by (simp add: softmax_def Let_def exp_diff divide_inverse)
qed

section \<open>Choosing an answer\<close>

definition random_one :: "('m list \<Rightarrow> 'm) \<Rightarrow> 'm list \<Rightarrow> 'm result" where
  "random_one pick messages = (if messages = [] then Inl IndexError else Inr (pick messages))"

definition post_first :: "'m list \<Rightarrow> 'm result" where
  "post_first messages = py_nth messages 0"

definition post_nop :: "'m list \<Rightarrow> 'm list" where
  "post_nop messages = messages"

text \<open>\<open>sorted(..., reverse=True)\<close> keeps the order of equal elements, as \<open>sort_key\<close> on the negated key does.\<close>

definition temperature_softmax ::
  "('m list \<Rightarrow> real list \<Rightarrow> 'm) \<Rightarrow> 'm list \<Rightarrow> real list \<Rightarrow> real \<Rightarrow> 'm result" where
  "temperature_softmax pick messages scores temperature =
     (if temperature > 0 then
        (if messages = [] then Inl ValueError
         else Inr (pick messages (softmax (map (\<lambda>x. x / temperature) scores))))
      else
        let m_s = zip messages scores
        in bind_res (py_nth (sort_key (\<lambda>x. - snd x) m_s) 0) (\<lambda>x. Inr (fst x)))"

text \<open>\<open>scores.index(max(scores))\<close>.\<close>

fun index_of :: "real \<Rightarrow> real list \<Rightarrow> nat" where
  "index_of v [] = 0"
| "index_of v (x # xs) = (if x = v then 0 else Suc (index_of v xs))"

definition best_message :: "'m list \<Rightarrow> real list option \<Rightarrow> 'm result" where
  "best_message messages scores =
     (case scores of
        None \<Rightarrow> py_nth messages 0
      | Some s \<Rightarrow> if s = [] then py_nth messages 0 else py_nth messages (index_of (list_max s) s))"

text \<open>
  \<open>ask question answer\<close> is the lower-cased reply of the verifying LLM, an error when the call raised; every
  error counts as a rejection. \<open>original_question\<close> is falsy when it is \<open>None\<close> or empty.
\<close>

definition llm_semantic_verification ::
  "(string \<Rightarrow> 'm \<Rightarrow> string result) \<Rightarrow> 'm list \<Rightarrow> real list option \<Rightarrow> string option \<Rightarrow> 'm option result" where
  "llm_semantic_verification ask messages scores original_question =
     (if messages = [] then Inr None
      else case original_question of
          None \<Rightarrow> Inr None
        | Some q \<Rightarrow>
            if q = [] then Inr None
            else bind_res (best_message messages scores) (\<lambda>best_answer.
              case ask q best_answer of
                Inl e \<Rightarrow> Inr None
              | Inr verdict \<Rightarrow> if verdict = ''yes'' then Inr (Some best_answer) else Inr None))"

text \<open>\<open>LlmVerifier.__call__\<close> with the arguments it is given.\<close>

definition verifier_call ::
  "(string \<Rightarrow> 'm \<Rightarrow> string result) \<Rightarrow> 'm list \<Rightarrow> real list option \<Rightarrow> string option \<Rightarrow> 'm option result" where
  "verifier_call ask messages scores original_question =
     llm_semantic_verification ask messages scores original_question"

text \<open>The head of a stable sort is the first of the least elements.\<close>

lemma hd_sort_key:
  fixes f :: "'a \<Rightarrow> 'b :: linorder"
  assumes "xs \<noteq> []"
  shows "\<exists>i < length xs. hd (sort_key f xs) = xs ! i \<and> (\<forall>j < length xs. f (xs ! i) \<le> f (xs ! j)) \<and>
    (\<forall>j < i. f (xs ! i) < f (xs ! j))"
  using assms
proof (induction xs)
  case (Cons x xs)
  show ?case
  proof (cases "xs = []")
    case False
    with Cons.IH obtain i where i: "i < length xs" "hd (sort_key f xs) = xs ! i" "\<forall>j < length xs. f (xs ! i) \<le> f (xs ! j)"
      "\<forall>j < i. f (xs ! i) < f (xs ! j)" by blast
    obtain y ys where ys: "sort_key f xs = y # ys" using False by (cases "sort_key f xs") (auto dest: arg_cong[where f = set])
    then have hd: "hd (sort_key f (x # xs)) = (if f x \<le> f y then x else y)" by simp
    have y: "y = xs ! i" using i(2) ys by simp
    show ?thesis
    proof (cases "f x \<le> f y")
      case True
      with hd y i show ?thesis by (intro exI[of _ 0]) (auto simp: nth_Cons split: nat.splits intro: order_trans)
    next
      case False
      with hd y i show ?thesis by (intro exI[of _ "Suc i"]) (auto simp: nth_Cons split: nat.splits)
    qed
  qed simp
qed simp

lemma greedy_least:
  fixes xs :: "('a \<times> real) list"
  assumes "xs \<noteq> []"
  shows "hd (sort_key (\<lambda>x. - snd x) xs) \<in> set xs \<and>
    (\<forall>y \<in> set xs. snd y \<le> snd (hd (sort_key (\<lambda>x. - snd x) xs)))"
proof -
  let ?f = "\<lambda>x :: 'a \<times> real. - snd x"
  obtain i where i: "i < length xs" "hd (sort_key ?f xs) = xs ! i" "\<forall>j < length xs. ?f (xs ! i) \<le> ?f (xs ! j)"
    using hd_sort_key[OF assms, of ?f] by blast
  have "snd y \<le> snd (xs ! i)" if "y \<in> set xs" for y
    using that i(3) by (metis in_set_conv_nth neg_le_iff_le)
  with i show ?thesis by simp
qed

section \<open>check\_hit\_session\<close>

definition check_hit_session :: "string \<Rightarrow> string list \<Rightarrow> string list \<Rightarrow> content \<Rightarrow> bool" where
  "check_hit_session cur_session_id cache_session_ids cache_questions cache_answer =
     (cur_session_id \<notin> set cache_session_ids)"

section \<open>Properties\<close>

text \<open>
  C20. Answer selection. At temperature 0 or below, \<open>temperature_softmax\<close> returns the first of the messages of
  highest score. Above 0, the random choice is made with the softmax weights of the scores divided by the temperature:
  message \<open>i\<close> gets \<open>exp (scores[i] / temperature)\<close> over the sum of these, so subtracting the greatest score first, as
  the code does to keep the exponentials small, does not change the weights. The weights are real numbers here; the
  rounding and the underflow of floats are not modelled.
\<close>

theorem temperature_softmax_selects:
  assumes "length scores = length messages" "messages \<noteq> []"
  shows "(temperature \<le> 0 \<longrightarrow> (\<exists>i < length messages. temperature_softmax pick messages scores temperature = Inr (messages ! i) \<and>
      (\<forall>j < length messages. scores ! j \<le> scores ! i) \<and> (\<forall>j < i. scores ! j < scores ! i))) \<and>
    (temperature > 0 \<longrightarrow> temperature_softmax pick messages scores temperature =
      Inr (pick messages (map (\<lambda>s. exp (s / temperature) / (\<Sum>t\<leftarrow>scores. exp (t / temperature))) scores)))"
proof (intro conjI impI)
  assume t: "temperature \<le> 0"
  let ?ms = "zip messages scores" and ?f = "\<lambda>x. - snd x"
  have ne: "?ms \<noteq> []" using assms by (cases messages; cases scores) auto
  obtain i where i: "i < length ?ms" "hd (sort_key ?f ?ms) = ?ms ! i" "\<forall>j < length ?ms. ?f (?ms ! i) \<le> ?f (?ms ! j)"
    "\<forall>j < i. ?f (?ms ! i) < ?f (?ms ! j)" using hd_sort_key[OF ne, of ?f] by blast
  have "sort_key ?f ?ms \<noteq> []" using ne by (metis set_empty set_sort)
  then have "temperature_softmax pick messages scores temperature = Inr (fst (?ms ! i))"
    using t i(2) by (auto simp: temperature_softmax_def py_nth_def hd_conv_nth)
  with i assms show "\<exists>i < length messages. temperature_softmax pick messages scores temperature = Inr (messages ! i) \<and>
      (\<forall>j < length messages. scores ! j \<le> scores ! i) \<and> (\<forall>j < i. scores ! j < scores ! i)"
    by (intro exI[of _ i]) auto
next
  assume "temperature > 0"
  with assms show "temperature_softmax pick messages scores temperature =
      Inr (pick messages (map (\<lambda>s. exp (s / temperature) / (\<Sum>t\<leftarrow>scores. exp (t / temperature))) scores))"
    by (simp add: temperature_softmax_def softmax_closed_form comp_def)
qed

theorem temperature_softmax_selects_witness:
  "temperature_softmax (\<lambda>ms p. hd ms) [''a'', ''b'', ''c''] [1, 2, 2] 0 = Inr ''b''"
proof -
  obtain i where i: "i < 3" "temperature_softmax (\<lambda>ms p. hd ms) [''a'', ''b'', ''c''] [1, 2, 2] 0 = Inr ([''a'', ''b'', ''c''] ! i)"
    "\<forall>j < 3. [1, 2, 2 :: real] ! j \<le> [1, 2, 2] ! i" "\<forall>j < i. [1, 2, 2 :: real] ! j < [1, 2, 2] ! i"
    using temperature_softmax_selects[of "[1, 2, 2]" "[''a'', ''b'', ''c'']" 0 "\<lambda>ms p. hd ms"]
    by (simp add: numeral_3_eq_3) blast
  then have "i = 1" by (auto simp: numeral_3_eq_3 less_Suc_eq)
  with i(2) show ?thesis by simp
qed

end
