(* ===== verification/Adapter.thy ===== *)
theory Adapter
  imports Data_Manager Report Post
begin

text \<open>
  The request path of the cache, \<open>gptcache/adapter/adapter.py\<close>: \<open>adapt\<close>, its asynchronous copy \<open>aadapt\<close>, and
  \<open>cache_health_check\<close>. A cache and its \<open>next_cache\<close> chain are a list, the cache in use first; each has
  its functions and settings (\<open>cache_cfg\<close>), its report and the state of its data manager. The data
  manager is given by its methods (\<open>dm_ops\<close>), the LLM and the adapter's callbacks are parameters.

  The calls of the LLM and of the hit callback are recorded in a trace, so that properties can say
  which calls are made and with what. \<open>'e\<close> are embeddings, \<open>'r\<close> search results, \<open>'x\<close> preprocessed
  questions, \<open>'d\<close> data manager states, \<open>'k\<close> the request's other arguments, \<open>'m\<close> LLM responses.
\<close>

section \<open>Requests\<close>

text \<open>The keyword arguments that the adapter looks at; \<open>None\<close> is an absent argument.\<close>

record 'k req_context =
  cx_deps :: "string list option"
  cx_more :: "'k option"

record 'k kwargs =
  kw_search_only :: "bool option"
  kw_temperature :: "real option"
  kw_top_k :: "int option"
  kw_session :: "session option"
  kw_require_object_store :: "bool option"
  kw_cache_context :: "'k req_context option"
  kw_cache_skip :: "bool option"
  kw_cache_factor :: "real option"
  kw_hit_callback :: bool
  kw_rest :: 'k

definition pop_or :: "'a option \<Rightarrow> 'a \<Rightarrow> 'a" where
  "pop_or x d = (case x of None \<Rightarrow> d | Some v \<Rightarrow> v)"

lemma pop_or_simps [simp]: "pop_or None d = d" "pop_or (Some v) d = v"
  by (simp_all add: pop_or_def)

section \<open>A cache object\<close>

datatype 'x saved_question = SaveRaw 'x | SaveObj "question_dep list option" 'x

record ('e, 'r, 'x, 'd) dm_ops =
  do_has_object :: "'d \<Rightarrow> bool result"
  do_search :: "'e \<Rightarrow> int \<Rightarrow> 'd \<Rightarrow> ('r list option, 'd) outcome"
  do_get :: "'r \<Rightarrow> session option \<Rightarrow> 'd \<Rightarrow> ('e cache_data option, 'd) outcome"
  do_hit :: "'r \<Rightarrow> 'd \<Rightarrow> (unit, 'd) outcome"
  do_add_session :: "'r \<Rightarrow> string \<Rightarrow> 'x \<Rightarrow> 'd \<Rightarrow> (unit, 'd) outcome"
  do_report :: "string \<Rightarrow> string \<Rightarrow> 'r \<Rightarrow> string \<Rightarrow> real \<Rightarrow> real \<Rightarrow> 'd \<Rightarrow> (unit, 'd) outcome"
  do_save :: "'x saved_question \<Rightarrow> answers_arg \<Rightarrow> 'e \<Rightarrow> session option \<Rightarrow> 'd \<Rightarrow> (unit, 'd) outcome option"
  do_flush :: "'d \<Rightarrow> (unit, 'd) outcome"
  do_get_embeddings :: "'r \<Rightarrow> 'd \<Rightarrow> ('e option, 'd) outcome"
  do_update_embeddings :: "'r \<Rightarrow> 'e option \<Rightarrow> 'd \<Rightarrow> (unit, 'd) outcome"

record ('e, 'x) eval_query =
  eq_question :: "'x + string"
  eq_embedding :: "'e option"

record ('e, 'r) eval_cache =
  ec_question :: question_arg
  ec_answer :: content
  ec_search_result :: 'r
  ec_cache_data :: "'e cache_data"
  ec_embedding :: "'e option"

datatype 'x pre_result = PreTuple 'x 'x | PreOne 'x

text \<open>
  What a post-processing function returns, and the three cases that the adapter tells apart with \<open>is\<close>:
  the function \<open>temperature_softmax\<close>, the class \<open>LlmVerifier\<close> itself, and everything else (an instance
  of \<open>LlmVerifier\<close> too), which is called with the messages only.
\<close>

datatype post_message = MsgNone | MsgOne content | MsgList "content list"
datatype post_func = PostSoftmax | PostVerifierClass | PostOther "content list \<Rightarrow> nat \<Rightarrow> post_message result"

record ('e, 'r, 'x, 'd, 'k) cache_cfg =
  cc_has_init :: bool
  cc_enable :: "'k kwargs \<Rightarrow> bool result"
  cc_pre_embedding :: "'k kwargs \<Rightarrow> 'k req_context \<Rightarrow> config \<Rightarrow> 'x pre_result result"
  cc_embedding :: "'x \<Rightarrow> 'k req_context \<Rightarrow> 'e result"
  cc_dm :: "('e, 'r, 'x, 'd) dm_ops"
  cc_range :: "real \<times> real"
  cc_evaluation :: "('e, 'x) eval_query \<Rightarrow> ('e, 'r) eval_cache \<Rightarrow> 'k req_context \<Rightarrow> real result"
  cc_post :: post_func
  cc_config :: config

text \<open>The surroundings: clock, random choices, and operations on preprocessed questions.\<close>

record ('e, 'x, 'm) adapter_env =
  ae_rnd :: "real \<Rightarrow> real"
  ae_clock :: "nat \<Rightarrow> real"
  ae_round6 :: "real \<Rightarrow> real"
  ae_pick_skip :: "nat \<Rightarrow> bool list \<Rightarrow> real list \<Rightarrow> bool"
  ae_pick_answer :: "nat \<Rightarrow> content list \<Rightarrow> real list \<Rightarrow> content"
  ae_str :: "post_message \<Rightarrow> string"
  ae_len :: "'x \<Rightarrow> int"
  ae_summarize :: "'x \<Rightarrow> int \<Rightarrow> 'x result"
  ae_as_str :: "'x \<Rightarrow> string option"
  ae_same_embedding :: "'e option \<Rightarrow> 'e option \<Rightarrow> bool"
  ae_truthy :: "'m \<Rightarrow> bool"

text \<open>The trace: the LLM's arguments, and what the hit callback is given, newest first.\<close>

record 'k trace =
  tr_llm :: "'k kwargs list"
  tr_hits :: "(question_arg \<times> real) list list"

text \<open>The state while one cache works: its report, the clock, its data manager and the trace.\<close>

type_synonym ('d, 'k) work = "report \<times> nat \<times> 'd \<times> 'k trace"

definition on_dm :: "('d \<Rightarrow> ('a, 'd) outcome) \<Rightarrow> ('d, 'k) work \<Rightarrow> ('a, ('d, 'k) work) outcome" where
  "on_dm f = (\<lambda>(r, t, d, tr). case f d of (res, d') \<Rightarrow> (res, (r, t, d', tr)))"

definition timed ::
  "('e, 'x, 'm) adapter_env \<Rightarrow> report_func \<Rightarrow> (('d, 'k) work \<Rightarrow> ('a, ('d, 'k) work) outcome)
   \<Rightarrow> ('d, 'k) work \<Rightarrow> ('a, ('d, 'k) work) outcome" where
  "timed env rep f = time_cal (ae_rnd env) (ae_clock env) rep f"

section \<open>The evaluation of the search results\<close>

definition cache_health_check ::
  "('e, 'x, 'm) adapter_env \<Rightarrow> ('e, 'r, 'x, 'd) dm_ops \<Rightarrow> 'e option \<Rightarrow> 'r \<Rightarrow> 'd \<Rightarrow> (bool, 'd) outcome" where
  "cache_health_check env dm emb_in_cache search_result d =
     bind_out (do_get_embeddings dm search_result d) (\<lambda>emb_in_vec d.
       let flag = ae_same_embedding env emb_in_cache emb_in_vec
       in if \<not> flag then bind_out (do_update_embeddings dm search_result emb_in_cache d) (\<lambda>_ d. (Inr flag, d))
          else (Inr flag, d))"

definition rank_threshold :: "(real \<Rightarrow> real) \<Rightarrow> real \<times> real \<Rightarrow> real \<Rightarrow> real \<Rightarrow> real" where
  "rank_threshold rnd = (\<lambda>(min_rank, max_rank) similarity_threshold cache_factor.
     let t = rnd (rnd (rnd (max_rank - min_rank) * similarity_threshold) * cache_factor)
     in if t > max_rank then max_rank else if t < min_rank then min_rank else t)"

definition first_answer :: "'e cache_data \<Rightarrow> content result" where
  "first_answer data = bind_res (py_nth (cd_answers data) 0) (\<lambda>a. Inr (ans_content a))"

definition eval_args ::
  "'k req_context \<Rightarrow> 'x \<Rightarrow> 'e \<Rightarrow> 'r \<Rightarrow> 'e cache_data \<Rightarrow> (('e, 'x) eval_query \<times> ('e, 'r) eval_cache) result" where
  "eval_args ctx pre_store_data embedding_data search_data cache_data =
     (case (cx_deps ctx, cd_question cache_data) of
        (Some ctx_deps, QObj q) \<Rightarrow>
          bind_res (py_nth ctx_deps 0) (\<lambda>user_dep.
          bind_res (case q_deps q of None \<Rightarrow> Inl TypeError | Some deps \<Rightarrow> py_nth deps 0) (\<lambda>dep.
          bind_res (first_answer cache_data) (\<lambda>ans.
            Inr (\<lparr>eq_question = Inr user_dep, eq_embedding = None\<rparr>,
                 \<lparr>ec_question = QStr (dep_data dep), ec_answer = ans, ec_search_result = search_data,
                  ec_cache_data = cache_data, ec_embedding = None\<rparr>))))
      | _ \<Rightarrow>
          bind_res (first_answer cache_data) (\<lambda>ans.
            Inr (\<lparr>eq_question = Inl pre_store_data, eq_embedding = Some embedding_data\<rparr>,
                 \<lparr>ec_question = cd_question cache_data, ec_answer = ans, ec_search_result = search_data,
                  ec_cache_data = cache_data, ec_embedding = cd_embedding cache_data\<rparr>)))"

type_synonym ('e, 'r) hit = "real \<times> content \<times> 'r \<times> 'e cache_data"

text \<open>One search result: \<open>None\<close> when it is passed over, its hit otherwise.\<close>

definition evaluate_one ::
  "bool \<Rightarrow> ('e, 'x, 'm) adapter_env \<Rightarrow> ('e, 'r, 'x, 'd, 'k) cache_cfg \<Rightarrow> 'k req_context \<Rightarrow> session option \<Rightarrow> real
   \<Rightarrow> 'x \<Rightarrow> 'e \<Rightarrow> 'r \<Rightarrow> ('d, 'k) work \<Rightarrow> (('e, 'r) hit option, ('d, 'k) work) outcome" where
  "evaluate_one sync env cfg ctx sess threshold pre_store_data embedding_data search_data s =
     bind_out (timed env rep_data (on_dm (do_get (cc_dm cfg) search_data sess)) s) (\<lambda>found s.
       case found of
         None \<Rightarrow> (Inr None, s)
       | Some cache_data \<Rightarrow>
           bind_out (if sync \<and> cf_data_check (cc_config cfg)
                     then on_dm (cache_health_check env (cc_dm cfg) (cd_embedding cache_data) search_data) s
                     else (Inr True, s)) (\<lambda>is_healthy s.
             if \<not> is_healthy then (Inr None, s)
             else case eval_args ctx pre_store_data embedding_data search_data cache_data of
                    Inl e \<Rightarrow> (Inl e, s)
                  | Inr (q, c) \<Rightarrow>
                      bind_out (timed env rep_evaluation (\<lambda>s. (cc_evaluation cfg q c ctx, s)) s) (\<lambda>rank s.
                        if threshold \<le> rank
                        then bind_out (on_dm (do_hit (cc_dm cfg) search_data) s) (\<lambda>_ s.
                               (Inr (Some (rank, ec_answer c, search_data, cache_data)), s))
                        else (Inr None, s))))"

fun evaluate_all ::
  "bool \<Rightarrow> ('e, 'x, 'm) adapter_env \<Rightarrow> ('e, 'r, 'x, 'd, 'k) cache_cfg \<Rightarrow> 'k req_context \<Rightarrow> session option \<Rightarrow> real
   \<Rightarrow> 'x \<Rightarrow> 'e \<Rightarrow> 'r list \<Rightarrow> ('d, 'k) work \<Rightarrow> (('e, 'r) hit list, ('d, 'k) work) outcome" where
  "evaluate_all sync env cfg ctx sess threshold pre_store_data embedding_data [] s = (Inr [], s)"
| "evaluate_all sync env cfg ctx sess threshold pre_store_data embedding_data (x # xs) s =
     bind_out (evaluate_one sync env cfg ctx sess threshold pre_store_data embedding_data x s) (\<lambda>h s.
       bind_out (evaluate_all sync env cfg ctx sess threshold pre_store_data embedding_data xs s) (\<lambda>hs s.
         (Inr (case h of None \<Rightarrow> hs | Some h \<Rightarrow> h # hs), s)))"

section \<open>Choosing the answer and reporting the hit\<close>

definition post_process ::
  "('e, 'x, 'm) adapter_env \<Rightarrow> post_func \<Rightarrow> real \<Rightarrow> ('e, 'r) hit list \<Rightarrow> ('d, 'k) work
   \<Rightarrow> (post_message, ('d, 'k) work) outcome" where
  "post_process env post temperature cache_answers = (\<lambda>(r, t, d, tr).
     let messages = map (\<lambda>h. fst (snd h)) cache_answers; scores = map fst cache_answers
     in (case post of
           PostSoftmax \<Rightarrow>
             bind_res (temperature_softmax (ae_pick_answer env t) messages scores temperature) (\<lambda>m. Inr (MsgOne m))
         | PostVerifierClass \<Rightarrow> Inl TypeError
         | PostOther f \<Rightarrow> f messages t, (r, Suc t, d, tr)))"

definition text_or_empty :: "content \<Rightarrow> string" where
  "text_or_empty c = (case c of Text s \<Rightarrow> s | Bytes b \<Rightarrow> [])"

definition question_or_empty :: "question_arg \<Rightarrow> string" where
  "question_or_empty q = (case q of QStr s \<Rightarrow> s | QObj o1 \<Rightarrow> [])"

definition report_hit ::
  "('e, 'x, 'm) adapter_env \<Rightarrow> ('e, 'r, 'x, 'd) dm_ops \<Rightarrow> nat \<Rightarrow> 'x \<Rightarrow> ('e, 'r) hit \<Rightarrow> ('d, 'k) work
   \<Rightarrow> (unit, ('d, 'k) work) outcome" where
  "report_hit env dm start_time pre_store_data = (\<lambda>(rank, ans, search_data, cache_data) (r, t, d, tr).
     on_dm (do_report dm (pop_or (ae_as_str env pre_store_data) []) (question_or_empty (cd_question cache_data))
              search_data (text_or_empty ans) rank
              (ae_round6 env (ae_rnd env (ae_clock env t - ae_clock env start_time))))
       (r, Suc t, d, tr))"

text \<open>
  The block under \<open>if cache_enable and not cache_skip\<close>, from its end to its beginning. \<open>Some m\<close> is returned
  to the caller, \<open>None\<close> goes on to the next cache or the LLM with the arguments that are left. \<open>sync\<close> is
  \<open>True\<close> for \<open>adapt\<close>; the copy in \<open>aadapt\<close> has no consistency check, no hit callback and ignores
  \<open>disable_report\<close>. \<open>whole\<close> is the hit that \<open>answers_dict\<close> finds for the returned message.
\<close>

definition finish_hit ::
  "bool \<Rightarrow> ('e, 'x, 'm) adapter_env \<Rightarrow> ('e, 'r, 'x, 'd, 'k) cache_cfg \<Rightarrow> (post_message \<Rightarrow> 'm result)
   \<Rightarrow> 'k kwargs \<Rightarrow> session option \<Rightarrow> nat \<Rightarrow> 'x \<Rightarrow> 'x \<Rightarrow> ('e, 'r) hit option \<Rightarrow> post_message \<Rightarrow> ('d, 'k) work
   \<Rightarrow> ('m option \<times> 'k kwargs, ('d, 'k) work) outcome" where
  "finish_hit sync env cfg convert kw sess start_time pre_store_data pre_embedding_data whole return_message s =
     (let s = (case s of (r, w) \<Rightarrow> (hint_cache r, w))
      in bind_out
           (case (sess, whole) of
              (Some ss, Some h) \<Rightarrow>
                on_dm (do_add_session (cc_dm cfg) (fst (snd (snd h))) (sess_name ss) pre_embedding_data) s
            | _ \<Rightarrow> (Inr (), s)) (\<lambda>_ s.
         bind_out
           (case whole of
              Some h \<Rightarrow> if sync \<and> cf_disable_report (cc_config cfg) then (Inr (), s)
                        else report_hit env (cc_dm cfg) start_time pre_store_data h s
            | None \<Rightarrow> (Inr (), s)) (\<lambda>_ s.
         (bind_res (convert return_message) (\<lambda>m. Inr (Some m, kw)), s))))"

definition call_hit_callback ::
  "bool \<Rightarrow> ('e, 'x, 'm) adapter_env \<Rightarrow> real \<times> real \<Rightarrow> ('e, 'r) hit list \<Rightarrow> 'k kwargs \<Rightarrow> ('d, 'k) work
   \<Rightarrow> 'k kwargs \<times> ('d, 'k) work" where
  "call_hit_callback sync env rank_range cache_answers kw = (\<lambda>(r, t, d, tr).
     if sync \<and> kw_hit_callback kw
     then let factor = ae_rnd env (snd rank_range - fst rank_range);
              hits = map (\<lambda>h. (cd_question (snd (snd (snd h))),
                           if factor \<noteq> 0 then ae_rnd env (fst h / factor) else fst h)) cache_answers
          in (kw\<lparr>kw_hit_callback := False\<rparr>, (r, t, d, tr\<lparr>tr_hits := hits # tr_hits tr\<rparr>))
     else (kw, (r, t, d, tr)))"

definition answer_hits ::
  "bool \<Rightarrow> ('e, 'x, 'm) adapter_env \<Rightarrow> ('e, 'r, 'x, 'd, 'k) cache_cfg \<Rightarrow> (post_message \<Rightarrow> 'm result)
   \<Rightarrow> 'k kwargs \<Rightarrow> session option \<Rightarrow> real \<Rightarrow> nat \<Rightarrow> 'x \<Rightarrow> 'x \<Rightarrow> ('e, 'r) hit list \<Rightarrow> ('d, 'k) work
   \<Rightarrow> ('m option \<times> 'k kwargs, ('d, 'k) work) outcome" where
  "answer_hits sync env cfg convert kw sess temperature start_time pre_store_data pre_embedding_data hits s =
     (let cache_answers = sort_key (\<lambda>h. - fst h) hits;
          answers_dict = map_of (rev (map (\<lambda>h. (fst (snd h), h)) cache_answers))
      in if cache_answers = [] then (Inr (None, kw), s)
         else
           let (kw, s) = call_hit_callback sync env (cc_range cfg) cache_answers kw s
           in bind_out (timed env rep_post (post_process env (cc_post cfg) temperature cache_answers) s)
                (\<lambda>return_message s.
                  if return_message = MsgNone then (Inr (None, kw), s)
                  else finish_hit sync env cfg convert kw sess start_time pre_store_data pre_embedding_data
                         (answers_dict (Text (ae_str env return_message))) return_message s))"

definition cache_lookup ::
  "bool \<Rightarrow> ('e, 'x, 'm) adapter_env \<Rightarrow> ('e, 'r, 'x, 'd, 'k) cache_cfg \<Rightarrow> (post_message \<Rightarrow> 'm result)
   \<Rightarrow> 'k kwargs \<Rightarrow> bool \<Rightarrow> 'k req_context \<Rightarrow> session option \<Rightarrow> real \<Rightarrow> real \<Rightarrow> nat \<Rightarrow> 'x \<Rightarrow> 'x \<Rightarrow> 'e
   \<Rightarrow> ('d, 'k) work \<Rightarrow> ('m option \<times> 'k kwargs, ('d, 'k) work) outcome" where
  "cache_lookup sync env cfg convert kw user_temperature ctx sess temperature cache_factor start_time
     pre_store_data pre_embedding_data embedding_data s =
     (let top_k = (if user_temperature \<and> kw_top_k kw = None then 5 else pop_or (kw_top_k kw) (- 1));
          kw = kw\<lparr>kw_top_k := None\<rparr>;
          threshold = rank_threshold (ae_rnd env) (cc_range cfg) (cf_similarity_threshold (cc_config cfg)) cache_factor
      in bind_out (timed env rep_search (on_dm (do_search (cc_dm cfg) embedding_data top_k)) s) (\<lambda>found s.
         bind_out (evaluate_all sync env cfg ctx sess threshold pre_store_data embedding_data (pop_or found []) s)
           (\<lambda>hits s. answer_hits sync env cfg convert kw sess temperature start_time pre_store_data
                       pre_embedding_data hits s)))"

section \<open>The beginning of a request\<close>

text \<open>
  What is left of a request once the cache in use has been consulted: the remaining arguments and the
  local variables that the rest of \<open>adapt\<close> uses.
\<close>

record ('e, 'x, 'k) pending =
  pd_kwargs :: "'k kwargs"
  pd_search_only :: bool
  pd_context :: "'k req_context"
  pd_session :: "session option"
  pd_cache_skip :: bool
  pd_cache_factor :: real
  pd_embedding :: "'e option"
  pd_pre_store :: 'x

definition default_skip ::
  "('e, 'x, 'm) adapter_env \<Rightarrow> real \<Rightarrow> nat \<Rightarrow> bool result" where
  "default_skip env temperature t =
     (if 0 < temperature \<and> temperature < 2
      then temperature_softmax (ae_pick_skip env t) [True, False] [0, 1] temperature
      else if temperature \<ge> 2 then Inr True else Inr False)"

text \<open>
  \<open>_summarize_input\<close>: a text that fits is kept, a longer one is given to the summarizer
  (\<open>SummarizationContextProcess\<close> over a model, a parameter).
\<close>

definition summarize_input :: "('e, 'x, 'm) adapter_env \<Rightarrow> 'x \<Rightarrow> int \<Rightarrow> 'x result" where
  "summarize_input env text1 text_length =
     (if ae_len env text1 \<le> text_length then Inr text1 else ae_summarize env text1 text_length)"

definition pre_embed ::
  "('e, 'x, 'm) adapter_env \<Rightarrow> ('e, 'r, 'x, 'd, 'k) cache_cfg \<Rightarrow> 'k kwargs \<Rightarrow> 'k req_context \<Rightarrow> ('d, 'k) work
   \<Rightarrow> ('x \<times> 'x, ('d, 'k) work) outcome" where
  "pre_embed env cfg kw ctx s =
     bind_out (timed env rep_pre (\<lambda>s. (cc_pre_embedding cfg kw ctx (cc_config cfg), s)) s) (\<lambda>res s.
       let (pre_store_data, pre_embedding_data) = (case res of PreTuple a b \<Rightarrow> (a, b) | PreOne a \<Rightarrow> (a, a))
       in case cf_input_summary_len (cc_config cfg) of
            None \<Rightarrow> (Inr (pre_store_data, pre_embedding_data), s)
          | Some n \<Rightarrow>
              (bind_res (summarize_input env pre_embedding_data n) (\<lambda>x. Inr (pre_store_data, x)), s))"

text \<open>
  From the entry of \<open>adapt\<close> to the end of the lookup, in two parts. The default of \<open>cache_skip\<close> is computed
  even when the argument is given.
\<close>

definition front_lookup ::
  "bool \<Rightarrow> ('e, 'x, 'm) adapter_env \<Rightarrow> (post_message \<Rightarrow> 'm result) \<Rightarrow> ('e, 'r, 'x, 'd, 'k) cache_cfg \<Rightarrow> 'k kwargs
   \<Rightarrow> 'k kwargs \<Rightarrow> bool \<Rightarrow> 'k req_context \<Rightarrow> bool \<Rightarrow> real \<Rightarrow> nat \<Rightarrow> ('d, 'k) work
   \<Rightarrow> ('m + ('e, 'x, 'k) pending, ('d, 'k) work) outcome" where
  "front_lookup sync env convert cfg kw0 kw cache_enable ctx cache_skip cache_factor start_time s =
     bind_out (pre_embed env cfg kw ctx s) (\<lambda>pre s.
     bind_out
       (if cache_enable
        then bind_out (timed env rep_embedding (\<lambda>s. (cc_embedding cfg (snd pre) ctx, s)) s) (\<lambda>e s. (Inr (Some e), s))
        else (Inr None, s)) (\<lambda>embedding_data s.
     bind_out
       (case embedding_data of
          Some e \<Rightarrow>
            if cache_skip then (Inr (None, kw), s)
            else cache_lookup sync env cfg convert kw (kw_temperature kw0 \<noteq> None) ctx (kw_session kw0)
                   (pop_or (kw_temperature kw0) 0) cache_factor start_time (fst pre) (snd pre) e s
        | None \<Rightarrow> (Inr (None, kw), s)) (\<lambda>answer s.
     (Inr (case fst answer of
             Some m \<Rightarrow> Inl m
           | None \<Rightarrow> Inr \<lparr>pd_kwargs = snd answer,
               pd_search_only = (if sync then pop_or (kw_search_only kw0) False else False),
               pd_context = ctx, pd_session = kw_session kw0, pd_cache_skip = cache_skip,
               pd_cache_factor = cache_factor, pd_embedding = embedding_data, pd_pre_store = fst pre\<rparr>), s))))"

definition adapt_front ::
  "bool \<Rightarrow> ('e, 'x, 'm) adapter_env \<Rightarrow> (post_message \<Rightarrow> 'm result) \<Rightarrow> ('e, 'r, 'x, 'd, 'k) cache_cfg \<Rightarrow> 'k kwargs
   \<Rightarrow> ('d, 'k) work \<Rightarrow> ('m + ('e, 'x, 'k) pending, ('d, 'k) work) outcome" where
  "adapt_front sync env convert cfg kw0 = (\<lambda>(r, t, d, tr).
     let start_time = t; s = (r, Suc t, d, tr);
         kw = kw0\<lparr>kw_search_only := (if sync then None else kw_search_only kw0), kw_temperature := None,
                   kw_session := None, kw_require_object_store := None\<rparr>
     in bind_out
          (if pop_or (kw_require_object_store kw0) False
           then bind_res (do_has_object (cc_dm cfg) d) (\<lambda>b. if b then Inr () else Inl AssertionError)
           else Inr (), s) (\<lambda>_ s.
        if \<not> cc_has_init cfg then (Inl NotInitError, s)
        else bind_out (cc_enable cfg kw, s) (\<lambda>cache_enable s.
             bind_out (default_skip env (pop_or (kw_temperature kw0) 0) (fst (snd s)), s) (\<lambda>skip s.
               front_lookup sync env convert cfg kw0
                 (kw\<lparr>kw_cache_context := None, kw_cache_skip := None, kw_cache_factor := None\<rparr>)
                 cache_enable (pop_or (kw_cache_context kw) \<lparr>cx_deps = None, cx_more = None\<rparr>)
                 (pop_or (kw_cache_skip kw) skip) (pop_or (kw_cache_factor kw) 1) start_time s))))"

section \<open>Saving and the two entry points\<close>

type_synonym ('e, 'r, 'x, 'd, 'k) cache_obj = "('e, 'r, 'x, 'd, 'k) cache_cfg \<times> report \<times> 'd"
type_synonym 'k world = "nat \<times> 'k trace"

text \<open>\<open>Cache.flush\<close>: this cache's data manager, then the one of \<open>next_cache\<close>.\<close>

fun cache_flush :: "('e, 'r, 'x, 'd, 'k) cache_obj list \<Rightarrow> (unit, ('e, 'r, 'x, 'd, 'k) cache_obj list) outcome" where
  "cache_flush [] = (Inr (), [])"
| "cache_flush ((cfg, r, d) # rest) =
     (case do_flush (cc_dm cfg) d of
        (Inl e, d') \<Rightarrow> (Inl e, (cfg, r, d') # rest)
      | (Inr u, d') \<Rightarrow>
          (case rest of
             [] \<Rightarrow> (Inr (), [(cfg, r, d')])
           | (cfg2, r2, d2) # rest2 \<Rightarrow>
               (case do_flush (cc_dm cfg2) d2 of (res, d2') \<Rightarrow> (res, (cfg, r, d') # (cfg2, r2, d2') # rest2))))"

text \<open>
  \<open>update_cache_func\<close>, called by the adapter's callback with a handled answer and an optional question
  object, whose content is set to the preprocessed question.
\<close>

definition update_cache_func ::
  "('e, 'x, 'm) adapter_env \<Rightarrow> ('e, 'x, 'k) pending \<Rightarrow> 'e \<Rightarrow> answers_arg \<times> question option
   \<Rightarrow> ('e, 'r, 'x, 'd, 'k) cache_obj \<Rightarrow> ('e, 'r, 'x, 'd, 'k) cache_obj list \<Rightarrow> nat
   \<Rightarrow> (unit result \<times> ('e, 'r, 'x, 'd, 'k) cache_obj list \<times> nat) option" where
  "update_cache_func env pd e = (\<lambda>(handled, question) (cfg, r, d) rest t.
     let q = (case question of None \<Rightarrow> SaveRaw (pd_pre_store pd) | Some q \<Rightarrow> SaveObj (q_deps q) (pd_pre_store pd))
     in case do_save (cc_dm cfg) q handled e (pd_session pd) d of
          None \<Rightarrow> None
        | Some (Inl err, d') \<Rightarrow> Some (Inl err, (cfg, r, d') # rest, Suc t)
        | Some (Inr u, d') \<Rightarrow>
            let r = rep_save (ae_rnd env) (ae_rnd env (ae_clock env (Suc t) - ae_clock env t)) r;
                count = int (oc_count (op_save r)); auto_flush = cf_auto_flush (cc_config cfg)
            in if auto_flush = 0 then Some (Inl ZeroDivisionError, (cfg, r, d') # rest, Suc (Suc t))
               else if count mod auto_flush = 0
               then (case cache_flush ((cfg, r, d') # rest) of (res, cs) \<Rightarrow> Some (res, cs, Suc (Suc t)))
               else Some (Inr (), (cfg, r, d') # rest, Suc (Suc t)))"

fun save_all ::
  "('e, 'x, 'm) adapter_env \<Rightarrow> ('e, 'x, 'k) pending \<Rightarrow> 'e \<Rightarrow> (answers_arg \<times> question option) list
   \<Rightarrow> ('e, 'r, 'x, 'd, 'k) cache_obj list \<Rightarrow> nat
   \<Rightarrow> (unit result \<times> ('e, 'r, 'x, 'd, 'k) cache_obj list \<times> nat) option" where
  "save_all env pd e [] cs t = Some (Inr (), cs, t)"
| "save_all env pd e (x # xs) [] t = Some (Inr (), [], t)"
| "save_all env pd e (x # xs) (c # rest) t =
     (case update_cache_func env pd e x c rest t of
        None \<Rightarrow> None
      | Some (Inl err, cs, t') \<Rightarrow> Some (Inl err, cs, t')
      | Some (Inr u, cs, t') \<Rightarrow> save_all env pd e xs cs t')"

text \<open>
  \<open>update m kw\<close> is the adapter's callback for the response \<open>m\<close>: the saves it makes, then the response it
  returns or the exception it raises. Every exception is logged and the response kept as it is.
\<close>

definition save_response ::
  "('e, 'x, 'm) adapter_env \<Rightarrow> ('m \<Rightarrow> 'k kwargs \<Rightarrow> (answers_arg \<times> question option) list \<times> 'm result)
   \<Rightarrow> ('e, 'x, 'k) pending \<Rightarrow> 'm \<Rightarrow> 'k kwargs \<Rightarrow> ('e, 'r, 'x, 'd, 'k) cache_obj list \<Rightarrow> 'k world
   \<Rightarrow> ('m option result \<times> ('e, 'r, 'x, 'd, 'k) cache_obj list \<times> 'k world) option" where
  "save_response env update pd m kw cs = (\<lambda>(t, tr).
     case pd_embedding pd of
       None \<Rightarrow> Some (Inr (Some m), cs, (t, tr))
     | Some e \<Rightarrow>
         (case save_all env pd e (fst (update m kw)) cs t of
            None \<Rightarrow> None
          | Some (Inl err, cs, t) \<Rightarrow> Some (Inr (Some m), cs, (t, tr))
          | Some (Inr u, cs, t) \<Rightarrow>
              Some (Inr (Some (case snd (update m kw) of Inl err \<Rightarrow> m | Inr m' \<Rightarrow> m')), cs, (t, tr))))"

text \<open>The arguments that the recursive call for \<open>next_cache\<close> gets.\<close>

definition next_kwargs :: "('e, 'x, 'k) pending \<Rightarrow> 'k kwargs" where
  "next_kwargs pd = (pd_kwargs pd)\<lparr>kw_cache_context := Some (pd_context pd), kw_cache_skip := Some (pd_cache_skip pd),
     kw_cache_factor := Some (pd_cache_factor pd), kw_search_only := Some (pd_search_only pd)\<rparr>"

definition call_llm ::
  "('e, 'x, 'm) adapter_env \<Rightarrow> ('k kwargs \<Rightarrow> nat \<Rightarrow> 'm option result) \<Rightarrow> 'k kwargs \<Rightarrow> ('d, 'k) work
   \<Rightarrow> ('m option, ('d, 'k) work) outcome" where
  "call_llm env llm kw = timed env rep_llm (\<lambda>(r, t, d, tr).
     (llm kw t, (r, Suc t, d, tr\<lparr>tr_llm := kw # tr_llm tr\<rparr>)))"

fun adapt ::
  "('e, 'x, 'm) adapter_env \<Rightarrow> (post_message \<Rightarrow> 'm result)
   \<Rightarrow> ('m \<Rightarrow> 'k kwargs \<Rightarrow> (answers_arg \<times> question option) list \<times> 'm result)
   \<Rightarrow> ('k kwargs \<Rightarrow> nat \<Rightarrow> 'm option result) \<Rightarrow> 'k kwargs \<Rightarrow> ('e, 'r, 'x, 'd, 'k) cache_obj list \<Rightarrow> 'k world
   \<Rightarrow> ('m option result \<times> ('e, 'r, 'x, 'd, 'k) cache_obj list \<times> 'k world) option" where
  "adapt env convert update llm kw [] w = Some (Inl NotInitError, [], w)"
| "adapt env convert update llm kw ((cfg, r, d) # rest) (t, tr) =
     (case adapt_front True env convert cfg kw (r, t, d, tr) of
        (Inl e, (r, t, d, tr)) \<Rightarrow> Some (Inl e, (cfg, r, d) # rest, (t, tr))
      | (Inr (Inl m), (r, t, d, tr)) \<Rightarrow> Some (Inr (Some m), (cfg, r, d) # rest, (t, tr))
      | (Inr (Inr pd), (r, t, d, tr)) \<Rightarrow>
          if rest \<noteq> [] then
            (case adapt env convert update llm (next_kwargs pd) rest (t, tr) of
               None \<Rightarrow> None
             | Some (Inl e, rest, w) \<Rightarrow> Some (Inl e, (cfg, r, d) # rest, w)
             | Some (Inr None, rest, w) \<Rightarrow> Some (Inr None, (cfg, r, d) # rest, w)
             | Some (Inr (Some m), rest, w) \<Rightarrow>
                 if ae_truthy env m then save_response env update pd m (next_kwargs pd) ((cfg, r, d) # rest) w
                 else Some (Inr None, (cfg, r, d) # rest, w))
          else if pd_search_only pd then Some (Inr None, [(cfg, r, d)], (t, tr))
          else
            (case call_llm env llm (pd_kwargs pd) (r, t, d, tr) of
               (Inl e, (r, t, d, tr)) \<Rightarrow> Some (Inl e, [(cfg, r, d)], (t, tr))
             | (Inr None, (r, t, d, tr)) \<Rightarrow> Some (Inr None, [(cfg, r, d)], (t, tr))
             | (Inr (Some m), (r, t, d, tr)) \<Rightarrow>
                 if ae_truthy env m then save_response env update pd m (pd_kwargs pd) [(cfg, r, d)] (t, tr)
                 else Some (Inr None, [(cfg, r, d)], (t, tr))))"

text \<open>
  The asynchronous copy repeats the beginning of \<open>adapt\<close> and its lookup with three differences, which the
  flag \<open>sync\<close> of the definitions above switches: it does not take \<open>search_only\<close> out of the arguments, it
  checks no consistency of the stores and calls no hit callback, and it reports every hit.
\<close>

definition aadapt_lookup ::
  "('e, 'x, 'm) adapter_env \<Rightarrow> ('e, 'r, 'x, 'd, 'k) cache_cfg \<Rightarrow> (post_message \<Rightarrow> 'm result)
   \<Rightarrow> 'k kwargs \<Rightarrow> bool \<Rightarrow> 'k req_context \<Rightarrow> session option \<Rightarrow> real \<Rightarrow> real \<Rightarrow> nat \<Rightarrow> 'x \<Rightarrow> 'x \<Rightarrow> 'e
   \<Rightarrow> ('d, 'k) work \<Rightarrow> ('m option \<times> 'k kwargs, ('d, 'k) work) outcome" where
  "aadapt_lookup = cache_lookup False"

definition aadapt_front ::
  "('e, 'x, 'm) adapter_env \<Rightarrow> (post_message \<Rightarrow> 'm result) \<Rightarrow> ('e, 'r, 'x, 'd, 'k) cache_cfg \<Rightarrow> 'k kwargs
   \<Rightarrow> ('d, 'k) work \<Rightarrow> ('m + ('e, 'x, 'k) pending, ('d, 'k) work) outcome" where
  "aadapt_front = adapt_front False"

text \<open>
  \<open>aadapt\<close>: with a next cache it reads the variable \<open>search_only_flag\<close>, which it never assigns; without one
  it awaits the LLM (whose time is not reported) and tries to save whatever the LLM returned.
\<close>

definition aadapt ::
  "('e, 'x, 'm) adapter_env \<Rightarrow> (post_message \<Rightarrow> 'm result)
   \<Rightarrow> ('m \<Rightarrow> 'k kwargs \<Rightarrow> (answers_arg \<times> question option) list \<times> 'm result)
   \<Rightarrow> ('k kwargs \<Rightarrow> nat \<Rightarrow> 'm result) \<Rightarrow> 'k kwargs \<Rightarrow> ('e, 'r, 'x, 'd, 'k) cache_obj \<Rightarrow> ('e, 'r, 'x, 'd, 'k) cache_obj list
   \<Rightarrow> 'k world \<Rightarrow> ('m option result \<times> ('e, 'r, 'x, 'd, 'k) cache_obj list \<times> 'k world) option" where
  "aadapt env convert update llm kw = (\<lambda>(cfg, r, d) rest (t, tr).
     case aadapt_front env convert cfg kw (r, t, d, tr) of
       (Inl e, (r, t, d, tr)) \<Rightarrow> Some (Inl e, (cfg, r, d) # rest, (t, tr))
     | (Inr (Inl m), (r, t, d, tr)) \<Rightarrow> Some (Inr (Some m), (cfg, r, d) # rest, (t, tr))
     | (Inr (Inr pd), (r, t, d, tr)) \<Rightarrow>
         if rest \<noteq> [] then Some (Inl NameError, (cfg, r, d) # rest, (t, tr))
         else
           (case llm (pd_kwargs pd) t of
              Inl e \<Rightarrow> Some (Inl e, [(cfg, r, d)], (Suc t, tr\<lparr>tr_llm := pd_kwargs pd # tr_llm tr\<rparr>))
            | Inr m \<Rightarrow> save_response env update pd m (pd_kwargs pd) [(cfg, r, d)]
                (Suc t, tr\<lparr>tr_llm := pd_kwargs pd # tr_llm tr\<rparr>)))"

section \<open>The lookup calls no LLM\<close>

definition no_llm :: "('d, 'k) work \<Rightarrow> ('d, 'k) work \<Rightarrow> bool" where
  "no_llm s s' \<longleftrightarrow> tr_llm (snd (snd (snd s'))) = tr_llm (snd (snd (snd s)))"

lemma no_llm_preorder: "state_preorder no_llm"
  by (simp add: state_preorder_def no_llm_def)

lemma no_llm_refl [simp]: "no_llm s s"
  by (simp add: no_llm_def)

lemmas no_llm_bind = bind_out_rel[where R = no_llm, OF no_llm_preorder]

lemma no_llm_dm: "no_llm s (snd (on_dm f s))"
  by (cases s) (simp add: on_dm_def no_llm_def split: prod.splits)

lemma no_llm_timed:
  assumes "\<And>s. no_llm s (snd (f s))"
  shows "no_llm s (snd (timed env rep f s))"
proof -
  obtain r t d tr where s: "s = (r, t, d, tr)" by (cases s)
  have "no_llm s (snd (f (r, Suc t, d, tr)))"
    using assms[of "(r, Suc t, d, tr)"] by (simp add: s no_llm_def)
  then show ?thesis
    unfolding timed_def time_cal_def s
    by (cases "f (r, Suc t, d, tr)"; cases "fst (f (r, Suc t, d, tr))") (auto simp: no_llm_def split: prod.splits)
qed

lemma no_llm_evaluate_one:
  "no_llm s (snd (evaluate_one sync env cfg ctx sess threshold pre emb x s))"
proof -
  have get: "no_llm s (snd (timed env rep_data (on_dm f) s))" for f s by (rule no_llm_timed) (rule no_llm_dm)
  have ev: "no_llm s (snd (timed env rep_evaluation (\<lambda>s. (y, s)) s))" for y s by (rule no_llm_timed) simp
  show ?thesis
    unfolding evaluate_one_def
    by (rule no_llm_bind[OF get]) (auto intro!: no_llm_bind ev no_llm_dm split: option.split sum.split)
qed

lemma no_llm_evaluate_all:
  "no_llm s (snd (evaluate_all sync env cfg ctx sess threshold pre emb xs s))"
proof (induction xs arbitrary: s)
  case (Cons x xs)
  show ?case unfolding evaluate_all.simps
    by (rule no_llm_bind[OF no_llm_evaluate_one]) (rule no_llm_bind[OF Cons], simp)
qed simp

lemma no_llm_post: "no_llm s (snd (timed env rep_post (post_process env post temperature hs) s))"
  by (rule no_llm_timed) (auto simp: post_process_def no_llm_def Let_def split: prod.splits)

lemma no_llm_report_hit: "no_llm s (snd (report_hit env dm start pre h s))"
proof -
  obtain r t d tr where s: "s = (r, t, d, tr)" by (cases s)
  have "no_llm s (snd (on_dm f (r, Suc t, d, tr)))" for f
    using no_llm_dm[of "(r, Suc t, d, tr)" f] by (simp add: s no_llm_def)
  then show ?thesis by (cases h) (simp add: report_hit_def s)
qed

lemma no_llm_finish: "no_llm s (snd (finish_hit sync env cfg convert kw sess start pre pe whole msg s))"
proof -
  let ?s = "case s of (r, w) \<Rightarrow> (hint_cache r, w)"
  have hint: "no_llm s ?s" by (cases s) (simp add: no_llm_def)
  have "no_llm ?s (snd (finish_hit sync env cfg convert kw sess start pre pe whole msg s))"
    unfolding finish_hit_def Let_def
    by (cases sess; cases whole) (auto intro!: no_llm_bind no_llm_dm no_llm_report_hit)
  with hint show ?thesis by (simp add: no_llm_def)
qed

lemma no_llm_answer: "no_llm s (snd (answer_hits sync env cfg convert kw sess temp start pre pe hits s))"
proof -
  obtain kw' s' where cb: "call_hit_callback sync env (cc_range cfg) (sort_key (\<lambda>h. - fst h) hits) kw s = (kw', s')"
    by (rule prod.exhaust)
  then have s': "no_llm s s'"
    by (cases s) (auto simp: call_hit_callback_def no_llm_def Let_def split: if_splits)
  have "no_llm s' (snd (bind_out
      (timed env rep_post (post_process env (cc_post cfg) temp (sort_key (\<lambda>h. - fst h) hits)) s') (\<lambda>msg s.
      if msg = MsgNone then (Inr (None, kw'), s)
      else finish_hit sync env cfg convert kw' sess start pre pe (D msg) msg s)))" for D
    by (rule no_llm_bind[OF no_llm_post]) (simp add: no_llm_finish)
  with s' cb show ?thesis by (simp add: answer_hits_def Let_def no_llm_def)
qed

lemma no_llm_lookup:
  "no_llm s (snd (cache_lookup sync env cfg convert kw ut ctx sess temp factor start pre pe emb s))"
proof -
  have search: "no_llm s (snd (timed env rep_search (on_dm f) s))" for f s by (rule no_llm_timed) (rule no_llm_dm)
  show ?thesis unfolding cache_lookup_def Let_def
    by (rule no_llm_bind[OF search]) (rule no_llm_bind[OF no_llm_evaluate_all], rule no_llm_answer)
qed

lemma no_llm_pre_embed: "no_llm s (snd (pre_embed env cfg kw ctx s))"
  unfolding pre_embed_def
proof (rule no_llm_bind)
  show "no_llm s (snd (timed env rep_pre (\<lambda>s. (cc_pre_embedding cfg kw ctx (cc_config cfg), s)) s))"
    by (rule no_llm_timed) simp
qed (auto simp: Let_def split: prod.split option.split pre_result.split)

lemma no_llm_front_lookup:
  "no_llm s (snd (front_lookup sync env convert cfg kw0 kw en ctx skip factor start s))"
proof -
  have emb: "no_llm s (snd (timed env rep_embedding (\<lambda>s. (y, s)) s))" for y s by (rule no_llm_timed) simp
  show ?thesis unfolding front_lookup_def
    by (rule no_llm_bind[OF no_llm_pre_embed])
      (auto intro!: no_llm_bind emb no_llm_lookup split: option.split)
qed

lemma no_llm_front: "no_llm s (snd (adapt_front sync env convert cfg kw s))"
proof -
  obtain r t d tr where s: "s = (r, t, d, tr)" by (cases s)
  have "no_llm (r, Suc t, d, tr) (snd (adapt_front sync env convert cfg kw s))"
    unfolding adapt_front_def s prod.case Let_def
    by (intro no_llm_bind) (auto intro!: no_llm_bind simp: no_llm_front_lookup)
  then show ?thesis by (simp add: s no_llm_def)
qed

text \<open>What the lookup leaves of the arguments.\<close>

lemma lookup_kwargs:
  assumes "cache_lookup sync env cfg convert kw ut ctx sess temp factor start pre pe emb s = (Inr (a, kw'), s')"
  shows "kw' = kw\<lparr>kw_top_k := None\<rparr> \<or> kw' = kw\<lparr>kw_top_k := None, kw_hit_callback := False\<rparr>"
proof -
  have finish: "kw' = kw" if "finish_hit sync env cfg convert kw sess start pre pe whole msg s = (Inr (a, kw'), s')"
    for kw s whole msg using that by (auto simp: finish_hit_def Let_def bind_out_Inr_iff bind_res_Inr_iff)
  have answer: "kw' = kw \<or> kw' = kw\<lparr>kw_hit_callback := False\<rparr>"
    if "answer_hits sync env cfg convert kw sess temp start pre pe hits s = (Inr (a, kw'), s')" for kw s hits
  proof -
    obtain kw1 s1 where cb: "call_hit_callback sync env (cc_range cfg) (sort_key (\<lambda>h. - fst h) hits) kw s = (kw1, s1)"
      by (rule prod.exhaust)
    then have "kw1 = kw \<or> kw1 = kw\<lparr>kw_hit_callback := False\<rparr>"
      by (cases s) (auto simp: call_hit_callback_def Let_def split: if_splits)
    moreover have "kw' = kw1 \<or> kw' = kw"
      using that by (auto simp: answer_hits_def Let_def cb bind_out_Inr_iff split: if_splits dest: finish)
    ultimately show ?thesis by blast
  qed
  show ?thesis using assms
    by (auto simp: cache_lookup_def Let_def bind_out_Inr_iff dest!: answer)
qed

lemma front_lookup_pending:
  assumes "front_lookup sync env convert cfg kw0 kw en ctx skip factor start s = (Inr (Inr pd), s')"
  shows "pd_kwargs pd = kw \<or> pd_kwargs pd = kw\<lparr>kw_top_k := None\<rparr> \<or>
      pd_kwargs pd = kw\<lparr>kw_top_k := None, kw_hit_callback := False\<rparr>"
    and "pd_search_only pd = (if sync then pop_or (kw_search_only kw0) False else False)"
    and "pd_embedding pd \<noteq> None \<longleftrightarrow> en" and "pd_session pd = kw_session kw0"
proof -
  from assms obtain pre emb a kw1 s1 s2 where
    emb: "(if en then bind_out (timed env rep_embedding (\<lambda>s. (cc_embedding cfg (snd pre) ctx, s)) s1)
        (\<lambda>e s. (Inr (Some e), s)) else (Inr None, s1)) = (Inr emb, s2)"
    and look: "(case emb of Some e \<Rightarrow> if skip then (Inr (None, kw), s2)
        else cache_lookup sync env cfg convert kw (kw_temperature kw0 \<noteq> None) ctx (kw_session kw0)
               (pop_or (kw_temperature kw0) 0) factor start (fst pre) (snd pre) e s2
      | None \<Rightarrow> (Inr (None, kw), s2)) = (Inr (None, kw1), s')"
    and pd: "pd = \<lparr>pd_kwargs = kw1, pd_search_only = (if sync then pop_or (kw_search_only kw0) False else False),
               pd_context = ctx, pd_session = kw_session kw0, pd_cache_skip = skip,
               pd_cache_factor = factor, pd_embedding = emb, pd_pre_store = fst pre\<rparr>"
    unfolding front_lookup_def bind_out_Inr_iff by (auto split: option.splits)
  show "pd_search_only pd = (if sync then pop_or (kw_search_only kw0) False else False)"
    "pd_session pd = kw_session kw0" by (simp_all add: pd)
  show "pd_embedding pd \<noteq> None \<longleftrightarrow> en"
    using emb by (auto simp: pd bind_out_Inr_iff split: if_splits)
  show "pd_kwargs pd = kw \<or> pd_kwargs pd = kw\<lparr>kw_top_k := None\<rparr> \<or>
      pd_kwargs pd = kw\<lparr>kw_top_k := None, kw_hit_callback := False\<rparr>"
    using look lookup_kwargs[of sync env cfg convert kw]
    by (auto simp: pd split: option.splits if_splits)
qed

lemma front_pending:
  assumes "adapt_front sync env convert cfg kw s = (Inr (Inr pd), s')"
  shows "kw_temperature (pd_kwargs pd) = None" "kw_session (pd_kwargs pd) = None"
    "kw_rest (pd_kwargs pd) = kw_rest kw" "kw_cache_context (pd_kwargs pd) = None"
    "sync \<Longrightarrow> kw_search_only (pd_kwargs pd) = None"
    "sync \<Longrightarrow> pd_search_only pd = pop_or (kw_search_only kw) False"
    "pd_session pd = kw_session kw"
proof -
  obtain r t d tr where s: "s = (r, t, d, tr)" by (cases s)
  let ?kw = "kw\<lparr>kw_search_only := (if sync then None else kw_search_only kw), kw_temperature := None,
     kw_session := None, kw_require_object_store := None, kw_cache_context := None, kw_cache_skip := None,
     kw_cache_factor := None\<rparr>"
  from assms obtain en ctx skip factor s1 where
    "front_lookup sync env convert cfg kw ?kw en ctx skip factor t s1 = (Inr (Inr pd), s')"
    unfolding adapt_front_def s prod.case Let_def bind_out_Inr_iff by (auto split: if_splits simp: bind_out_Inr_iff)
  note P = front_lookup_pending[OF this]
  show "kw_temperature (pd_kwargs pd) = None" "kw_session (pd_kwargs pd) = None"
    "kw_rest (pd_kwargs pd) = kw_rest kw" "kw_cache_context (pd_kwargs pd) = None" using P(1) by auto
  show "sync \<Longrightarrow> kw_search_only (pd_kwargs pd) = None" using P(1) by auto
  show "sync \<Longrightarrow> pd_search_only pd = pop_or (kw_search_only kw) False" "pd_session pd = kw_session kw"
    using P(2,4) by simp_all
qed

end
