(* ===== verification/Requests.thy ===== *)
theory Requests
  imports Adapter
begin

text \<open>
  Properties of a request through \<open>adapt\<close> and \<open>aadapt\<close>: which calls of the LLM are made and with what, which
  answer is chosen, what a disabled cache touches, and what the next cache is given.
\<close>

section \<open>Calls of the LLM\<close>

definition llm_call_ok :: "'k kwargs \<Rightarrow> 'k trace \<Rightarrow> 'k trace \<Rightarrow> bool" where
  "llm_call_ok kw tr tr' \<longleftrightarrow>
     tr_llm tr' = tr_llm tr \<or>
     (\<exists>k. tr_llm tr' = k # tr_llm tr \<and> kw_temperature k = None \<and> kw_session k = None \<and>
        kw_search_only k = None \<and> kw_cache_context k = None \<and> kw_rest k = kw_rest kw \<and>
        pop_or (kw_search_only kw) False = False)"

lemma save_response_trace:
  "save_response env update pd m kw cs (t, tr) = Some (res, cs', (t', tr')) \<Longrightarrow> tr' = tr \<and> (\<exists>m'. res = Inr (Some m'))"
  by (auto simp: save_response_def split: option.splits sum.splits)

lemma front_trace:
  assumes "adapt_front sync env convert cfg kw (r, t, d, tr) = (x, (r', t', d', tr'))"
  shows "tr_llm tr' = tr_llm tr"
  using no_llm_front[of "(r, t, d, tr)" sync env convert cfg kw] assms by (simp add: no_llm_def)

lemma call_llm_trace:
  assumes "call_llm env llm kw (r, t, d, tr) = (x, (r', t', d', tr'))"
  shows "tr_llm tr' = kw # tr_llm tr"
  using assms by (cases "llm kw (Suc t)") (auto simp: call_llm_def timed_def time_cal_def)

lemma adapt_calls:
  assumes "adapt env convert update llm kw cs (t, tr) = Some (res, cs', (t', tr'))"
  shows "llm_call_ok kw tr tr'"
  using assms
proof (induction cs arbitrary: kw t tr res cs' t' tr')
  case Nil
  then show ?case by (simp add: llm_call_ok_def)
next
  case (Cons c rest)
  obtain cfg r d where c: "c = (cfg, r, d)" by (rule prod_cases3)
  obtain x r1 t1 d1 tr1 where front: "adapt_front True env convert cfg kw (r, t, d, tr) = (x, (r1, t1, d1, tr1))"
    by (metis prod.exhaust)
  note tr1 = front_trace[OF front]
  show ?case
  proof (cases "\<exists>pd. x = Inr (Inr pd)")
    case False
    then have "tr' = tr1" using Cons.prems by (auto simp: c front split: sum.splits)
    then show ?thesis by (simp add: llm_call_ok_def tr1)
  next
    case True
    then obtain pd where x: "x = Inr (Inr pd)" by blast
    note P = front_pending[OF front[unfolded x]]
    show ?thesis
    proof (cases "rest = []")
      case False
      then obtain y cs1 t2 tr2 where rec: "adapt env convert update llm (next_kwargs pd) rest (t1, tr1) = Some (y, cs1, (t2, tr2))"
        using Cons.prems by (auto simp: c front x split: option.splits)
      have "tr' = tr2"
        using Cons.prems False
        by (auto simp: c front x rec split: sum.splits option.splits if_splits dest!: save_response_trace)
      with Cons.IH[OF rec] show ?thesis
        by (auto simp: llm_call_ok_def tr1 next_kwargs_def P)
    next
      case rest: True
      show ?thesis
      proof (cases "pd_search_only pd")
        case True
        then have "tr' = tr1" using Cons.prems by (simp add: c front x rest)
        then show ?thesis by (simp add: llm_call_ok_def tr1)
      next
        case False
        obtain y r2 t2 d2 tr2 where call: "call_llm env llm (pd_kwargs pd) (r1, t1, d1, tr1) = (y, (r2, t2, d2, tr2))"
          by (metis prod.exhaust)
        have "tr' = tr2"
          using Cons.prems False
          by (auto simp: c front x rest call split: sum.splits option.splits if_splits dest!: save_response_trace)
        with call_llm_trace[OF call] False show ?thesis by (auto simp: llm_call_ok_def tr1 P)
      qed
    qed
  qed
qed


section \<open>A small cache for the witnesses\<close>

text \<open>
  Questions are strings, an embedding is the length of a question, the data manager is a list of questions
  and answers, and a search returns the positions of the entries with the same embedding.
\<close>

type_synonym small_store = "(string \<times> string) list"

definition small_entry :: "string \<times> string \<Rightarrow> nat cache_data" where
  "small_entry x = cache_data_init (QStr (fst x)) (AnsStr (snd x)) None NoSession None None"

fun saved_text :: "answers_arg \<Rightarrow> string" where
  "saved_text (AnsStr s) = s"
| "saved_text (AnsObj a) = []"
| "saved_text (AnsList l) = []"

fun saved_key :: "string saved_question \<Rightarrow> string" where
  "saved_key (SaveRaw x) = x"
| "saved_key (SaveObj ds x) = x"

definition small_dm :: "(nat, nat, string, small_store) dm_ops" where
  "small_dm = \<lparr>do_has_object = (\<lambda>d. Inr False),
     do_search = (\<lambda>e k d. (Inr (Some (filter (\<lambda>i. length (fst (d ! i)) = e) [0..<length d])), d)),
     do_get = (\<lambda>i s d. (Inr (Some (small_entry (d ! i))), d)),
     do_hit = (\<lambda>i d. (Inr (), d)),
     do_add_session = (\<lambda>i s x d. (Inr (), d)),
     do_report = (\<lambda>q cq i a v dt d. (Inr (), d)),
     do_save = (\<lambda>q a e s d. Some (Inr (), d @ [(saved_key q, saved_text a)])),
     do_flush = (\<lambda>d. (Inr (), d)),
     do_get_embeddings = (\<lambda>i d. (Inr None, d)),
     do_update_embeddings = (\<lambda>i e d. (Inr (), d))\<rparr>"

definition small_config :: config where
  "small_config = \<lparr>cf_similarity_threshold = 1 / 2, cf_prompts = None, cf_template = None, cf_auto_flush = 20,
     cf_enable_token_counter = True, cf_input_summary_len = None, cf_context_len = None, cf_skip_list = [],
     cf_data_check = False, cf_disable_report = False\<rparr>"

definition small_cfg ::
  "bool \<Rightarrow> post_func \<Rightarrow> (nat, nat, string, small_store, string) cache_cfg" where
  "small_cfg enable post = \<lparr>cc_has_init = True, cc_enable = (\<lambda>kw. Inr enable),
     cc_pre_embedding = (\<lambda>kw ctx cf. Inr (PreOne (kw_rest kw))), cc_embedding = (\<lambda>x ctx. Inr (length x)),
     cc_dm = small_dm, cc_range = (0, 1), cc_evaluation = (\<lambda>q c ctx. Inr 1), cc_post = post,
     cc_config = small_config\<rparr>"

definition small_env :: "(nat, string, string) adapter_env" where
  "small_env = \<lparr>ae_rnd = (\<lambda>x. x), ae_clock = real, ae_round6 = (\<lambda>x. x), ae_pick_skip = (\<lambda>t xs p. hd xs),
     ae_pick_answer = (\<lambda>t xs p. hd xs), ae_str = (\<lambda>m. []), ae_len = (\<lambda>x. int (length x)),
     ae_summarize = (\<lambda>x n. Inr x), ae_as_str = Some, ae_same_embedding = (=), ae_truthy = (\<lambda>m. m \<noteq> [])\<rparr>"

definition small_kw :: "string \<Rightarrow> string kwargs" where
  "small_kw x = \<lparr>kw_search_only = None, kw_temperature = Some 0, kw_top_k = None, kw_session = None,
     kw_require_object_store = None, kw_cache_context = None, kw_cache_skip = None, kw_cache_factor = None,
     kw_hit_callback = False, kw_rest = x\<rparr>"

fun small_convert :: "post_message \<Rightarrow> string result" where
  "small_convert (MsgOne (Text s)) = Inr s"
| "small_convert (MsgOne (Bytes s)) = Inr s"
| "small_convert MsgNone = Inl TypeError"
| "small_convert (MsgList l) = Inl TypeError"

definition small_update :: "string \<Rightarrow> string kwargs \<Rightarrow> (answers_arg \<times> question option) list \<times> string result" where
  "small_update m kw = ([(AnsStr m, None)], Inr m)"

definition small_llm :: "string kwargs \<Rightarrow> nat \<Rightarrow> string option result" where
  "small_llm kw t = Inr (Some (''re: '' @ kw_rest kw))"

definition no_calls :: "string trace" where
  "no_calls = \<lparr>tr_llm = [], tr_hits = []\<rparr>"

lemmas small_defs = small_cfg_def small_env_def small_kw_def small_dm_def small_config_def small_entry_def
  small_update_def small_llm_def no_calls_def cache_data_init_def

lemmas adapt_run_defs = adapt_front_def front_lookup_def pre_embed_def summarize_input_def timed_def time_cal_def default_skip_def
  cache_lookup_def on_dm_def evaluate_one_def eval_args_def first_answer_def py_nth_def answer_hits_def
  call_hit_callback_def post_process_def finish_hit_def report_hit_def rank_threshold_def call_llm_def
  save_response_def update_cache_func_def hint_cache_def text_or_empty_def question_or_empty_def
  temperature_softmax_def

section \<open>Properties\<close>

text \<open>
  C8. A request calls the LLM at most once through a whole chain of caches, and not at all with \<open>search_only\<close>;
  the request's own arguments arrive unchanged, but \<open>temperature\<close> and \<open>session\<close> never reach the LLM.
\<close>

theorem adapt_llm_calls:
  assumes "adapt env convert update llm kw cs (t, tr) = Some (res, cs', (t', tr'))"
  shows "tr_llm tr' = tr_llm tr \<or>
     (\<exists>k. tr_llm tr' = k # tr_llm tr \<and> kw_temperature k = None \<and> kw_session k = None \<and>
        kw_search_only k = None \<and> kw_cache_context k = None \<and> kw_rest k = kw_rest kw \<and>
        pop_or (kw_search_only kw) False = False)"
  using adapt_calls[OF assms] by (simp add: llm_call_ok_def)

lemma small_miss:
  "\<exists>cs t' k. adapt small_env small_convert small_update small_llm (small_kw ''hi'')
     [(small_cfg True PostSoftmax, report_init, [])] (0, no_calls) = Some (Inr (Some ''re: hi''), cs, (t', \<lparr>tr_llm = [k], tr_hits = []\<rparr>))"
  by (simp add: small_defs adapt_run_defs Let_def)

theorem adapt_llm_calls_witness:
  "\<exists>k. kw_temperature k = None \<and> kw_session k = None \<and> kw_rest k = ''hi'' \<and>
    (\<exists>cs t'. adapt small_env small_convert small_update small_llm (small_kw ''hi'')
      [(small_cfg True PostSoftmax, report_init, [])] (0, no_calls) =
      Some (Inr (Some ''re: hi''), cs, (t', \<lparr>tr_llm = [k], tr_hits = []\<rparr>)))"
proof -
  obtain cs t' k where "adapt small_env small_convert small_update small_llm (small_kw ''hi'')
     [(small_cfg True PostSoftmax, report_init, [])] (0, no_calls) = Some (Inr (Some ''re: hi''), cs, (t', \<lparr>tr_llm = [k], tr_hits = []\<rparr>))"
    using small_miss by blast
  with adapt_llm_calls[OF this] show ?thesis
    by (intro exI[of _ k]) (simp add: no_calls_def small_kw_def)
qed

text \<open>
  The threshold always lies in the evaluation's range, and it grows with the configured similarity
  threshold. For a range \<open>(0, m)\<close> and factor 1, the configured value 1 asks for the
  greatest possible rank and the value 0 accepts every rank of the range.
\<close>

theorem rank_threshold_in_range:
  assumes "float_rounding rnd" and "lo \<le> hi" and "0 \<le> factor" and "a \<le> b"
  shows "lo \<le> rank_threshold rnd (lo, hi) a factor \<and> rank_threshold rnd (lo, hi) a factor \<le> hi \<and>
    rank_threshold rnd (lo, hi) a factor \<le> rank_threshold rnd (lo, hi) b factor \<and>
    (lo = 0 \<and> rnd hi = hi \<longrightarrow> rank_threshold rnd (lo, hi) 1 1 = hi \<and> rank_threshold rnd (lo, hi) 0 1 = lo)"
proof -
  let ?t = "\<lambda>x. rnd (rnd (rnd (hi - lo) * x) * factor)"
  have "0 \<le> rnd (hi - lo)" using assms by (simp add: rnd_nonneg)
  from rnd_mono[OF assms(1) mult_left_mono[OF assms(4) this]]
  have "?t a \<le> ?t b" by (rule rnd_mono[OF assms(1) mult_right_mono[OF _ assms(3)]])
  with assms show ?thesis by (auto simp: rank_threshold_def Let_def)
qed

theorem rank_threshold_in_range_witness:
  "0 \<le> rank_threshold (\<lambda>x. x) (0, 4) (1 / 2) 1 \<and> rank_threshold (\<lambda>x. x) (0, 4) 1 1 = 4"
  using rank_threshold_in_range[of "\<lambda>x. x" 0 4 1 "1 / 2" 1] by (simp add: float_rounding_id)

lemma timed_result:
  assumes "timed env rep f s = (Inr x, s')"
  shows "\<exists>s1. fst (f s1) = Inr x"
proof -
  obtain r t w where s: "s = (r, t, w)" by (rule prod_cases3)
  from assms obtain s2 where "f (r, Suc t, w) = (Inr x, s2)"
    unfolding timed_def time_cal_def s prod.case bind_out_Inr_iff by (auto split: prod.splits)
  then show ?thesis by (intro exI[of _ "(r, Suc t, w)"]) simp
qed

lemma evaluate_one_hit:
  assumes "evaluate_one sync env cfg ctx sess thr pre emb x s = (Inr (Some h), s')"
  shows "thr \<le> fst h \<and> (\<exists>cd q c. eval_args ctx pre emb x cd = Inr (q, c) \<and>
    cc_evaluation cfg q c ctx = Inr (fst h) \<and> h = (fst h, ec_answer c, x, cd))"
proof -
  from assms obtain found s1 where found: "(case found of
      None \<Rightarrow> (Inr None, s1)
    | Some cache_data \<Rightarrow>
        bind_out (if sync \<and> cf_data_check (cc_config cfg)
                  then on_dm (cache_health_check env (cc_dm cfg) (cd_embedding cache_data) x) s1
                  else (Inr True, s1)) (\<lambda>is_healthy s.
          if \<not> is_healthy then (Inr None, s)
          else case eval_args ctx pre emb x cache_data of
                 Inl e \<Rightarrow> (Inl e, s)
               | Inr (q, c) \<Rightarrow>
                   bind_out (timed env rep_evaluation (\<lambda>s. (cc_evaluation cfg q c ctx, s)) s) (\<lambda>rank s.
                     if thr \<le> rank
                     then bind_out (on_dm (do_hit (cc_dm cfg) x) s) (\<lambda>_ s.
                            (Inr (Some (rank, ec_answer c, x, cache_data)), s))
                     else (Inr None, s)))) = (Inr (Some h), s')"
    unfolding evaluate_one_def bind_out_Inr_iff by blast
  then obtain cache_data where cd: "found = Some cache_data" by (cases found) simp_all
  from found[unfolded cd option.case bind_out_Inr_iff] obtain ok s2 where ok: "(if \<not> ok then (Inr None, s2)
      else case eval_args ctx pre emb x cache_data of
             Inl e \<Rightarrow> (Inl e, s2)
           | Inr (q, c) \<Rightarrow>
               bind_out (timed env rep_evaluation (\<lambda>s. (cc_evaluation cfg q c ctx, s)) s2) (\<lambda>rank s.
                 if thr \<le> rank
                 then bind_out (on_dm (do_hit (cc_dm cfg) x) s) (\<lambda>_ s.
                        (Inr (Some (rank, ec_answer c, x, cache_data)), s))
                 else (Inr None, s))) = (Inr (Some h), s')"
    unfolding bind_out_Inr_iff by blast
  then obtain q c where args: "eval_args ctx pre emb x cache_data = Inr (q, c)"
    and "bind_out (timed env rep_evaluation (\<lambda>s. (cc_evaluation cfg q c ctx, s)) s2) (\<lambda>rank s.
      if thr \<le> rank then bind_out (on_dm (do_hit (cc_dm cfg) x) s) (\<lambda>_ s.
        (Inr (Some (rank, ec_answer c, x, cache_data)), s)) else (Inr None, s)) = (Inr (Some h), s')"
    by (cases ok) (auto split: sum.splits)
  then obtain rank s3 where ev: "timed env rep_evaluation (\<lambda>s. (cc_evaluation cfg q c ctx, s)) s2 = (Inr rank, s3)"
    and "(if thr \<le> rank then bind_out (on_dm (do_hit (cc_dm cfg) x) s3) (\<lambda>_ s.
        (Inr (Some (rank, ec_answer c, x, cache_data)), s)) else (Inr None, s3)) = (Inr (Some h), s')"
    unfolding bind_out_Inr_iff by blast
  then have "thr \<le> rank" "h = (rank, ec_answer c, x, cache_data)"
    by (cases "thr \<le> rank", auto simp: bind_out_Inr_iff)+
  with args timed_result[OF ev] show ?thesis by auto
qed

text \<open>
  The loop of \<open>adapt\<close> over what its search has found, seen from outside: \<open>f\<close> is run on every element in turn, from
  the state the one before has left, and \<open>rs\<close> are its results.
\<close>

fun runs_over :: "('a \<Rightarrow> 's \<Rightarrow> ('b, 's) outcome) \<Rightarrow> 'a list \<Rightarrow> 'b list \<Rightarrow> 's \<Rightarrow> 's \<Rightarrow> bool" where
  "runs_over f [] rs s s' = (rs = [] \<and> s' = s)"
| "runs_over f (x # xs) [] s s' = False"
| "runs_over f (x # xs) (r # rs) s s' = (case f x s of (y, s1) \<Rightarrow> y = Inr r \<and> runs_over f xs rs s1 s')"

lemma runs_over_length: "runs_over f xs rs s s' \<Longrightarrow> length rs = length xs"
  by (induction f xs rs s s' rule: runs_over.induct) auto

lemma runs_over_result:
  "runs_over f xs rs s s' \<Longrightarrow> r \<in> set rs \<Longrightarrow> \<exists>x \<in> set xs. \<exists>s1 s2. f x s1 = (Inr r, s2)"
proof (induction f xs rs s s' rule: runs_over.induct)
  case (3 f x xs r' rs s s')
  obtain y s1 where y: "f x s = (y, s1)" by (cases "f x s")
  with "3.prems"(1) have "y = Inr r'" "runs_over f xs rs s1 s'" by simp_all
  with y "3.IH"[OF y[symmetric]] "3.prems"(2) show ?case by auto
qed simp_all

lemma evaluate_all_runs:
  assumes "evaluate_all sync env cfg ctx sess thr pre emb xs s = (Inr hs, s')"
  shows "\<exists>rs. runs_over (evaluate_one sync env cfg ctx sess thr pre emb) xs rs s s' \<and> set hs = {h. Some h \<in> set rs}"
  using assms
proof (induction xs arbitrary: s hs s')
  case (Cons x xs)
  from Cons.prems obtain h s1 hs1 s2 where
    one: "evaluate_one sync env cfg ctx sess thr pre emb x s = (Inr h, s1)"
    and all: "evaluate_all sync env cfg ctx sess thr pre emb xs s1 = (Inr hs1, s')"
    and hs: "hs = (case h of None \<Rightarrow> hs1 | Some h \<Rightarrow> h # hs1)"
    by (auto simp: bind_out_Inr_iff)
  from Cons.IH[OF all] obtain rs where "runs_over (evaluate_one sync env cfg ctx sess thr pre emb) xs rs s1 s'"
    "set hs1 = {h. Some h \<in> set rs}" by blast
  with one show ?case by (intro exI[of _ "h # rs"]) (auto simp: hs split: option.splits)
qed simp

lemma post_process_greedy:
  assumes "temperature \<le> 0" and "hits \<noteq> []"
    and "fst (post_process env PostSoftmax temperature hits s) = Inr msg"
  shows "\<exists>h \<in> set hits. msg = MsgOne (fst (snd h)) \<and> (\<forall>h' \<in> set hits. fst h' \<le> fst h)"
proof -
  let ?ms = "zip (map (\<lambda>h. fst (snd h)) hits) (map fst hits)"
  have zip: "?ms = map (\<lambda>h. (fst (snd h), fst h)) hits" by (induction hits) simp_all
  have ne: "?ms \<noteq> []" using assms(2) by (cases hits) simp_all
  then have "sort_key (\<lambda>x. - snd x) ?ms \<noteq> []" by (metis set_empty set_sort)
  then have "sort_key (\<lambda>x. - snd x) ?ms ! 0 = hd (sort_key (\<lambda>x. - snd x) ?ms)" by (simp add: hd_conv_nth)
  then have "msg = MsgOne (fst (hd (sort_key (\<lambda>x. - snd x) ?ms)))"
    using assms by (cases s) (auto simp: post_process_def temperature_softmax_def py_nth_def Let_def split: if_splits)
  moreover obtain h where "h \<in> set hits" "hd (sort_key (\<lambda>x. - snd x) ?ms) = (fst (snd h), fst h)"
    using greedy_least[OF ne] unfolding zip by auto
  ultimately show ?thesis
    using greedy_least[OF ne] unfolding zip by (intro bexI[of _ h]) auto
qed

text \<open>
  C7. The answer of a hit. With \<open>temperature_softmax\<close> and a temperature of 0 or below, a lookup that answers
  the request has evaluated every result \<open>xs\<close> of its own search, one after the other (\<open>rs\<close>: what came out of each,
  \<open>None\<close> for a result that does not pass), and the answer is the converted answer of a result that passed: its rank is
  what the similarity evaluation gave for it, it reaches the threshold, and no result of the search that passed has a
  higher rank.
\<close>

theorem lookup_answers_best:
  assumes post: "cc_post cfg = PostSoftmax" and t: "temperature \<le> 0"
    and thr: "thr = rank_threshold (ae_rnd env) (cc_range cfg) (cf_similarity_threshold (cc_config cfg)) factor"
    and res: "cache_lookup sync env cfg convert kw ut ctx sess temperature factor start pre pe emb s = (Inr (Some m, kw'), s')"
  shows "\<exists>top_k xs s1 rs s2.
    timed env rep_search (on_dm (do_search (cc_dm cfg) emb top_k)) s = (Inr (Some xs), s1) \<and>
    top_k = (if ut \<and> kw_top_k kw = None then 5 else case kw_top_k kw of None \<Rightarrow> - 1 | Some k \<Rightarrow> k) \<and>
    runs_over (evaluate_one sync env cfg ctx sess thr pre emb) xs rs s1 s2 \<and>
    (\<exists>rank x cd q c. x \<in> set xs \<and> Some (rank, ec_answer c, x, cd) \<in> set rs \<and> convert (MsgOne (ec_answer c)) = Inr m \<and>
       eval_args ctx pre emb x cd = Inr (q, c) \<and> cc_evaluation cfg q c ctx = Inr rank \<and> thr \<le> rank \<and>
       (\<forall>h'. Some h' \<in> set rs \<longrightarrow> fst h' \<le> rank))"
proof -
  let ?k = "if ut \<and> kw_top_k kw = None then 5 else pop_or (kw_top_k kw) (- 1)"
  from res obtain found s1 hits s2 where
    search: "timed env rep_search (on_dm (do_search (cc_dm cfg) emb ?k)) s = (Inr found, s1)"
    and all: "evaluate_all sync env cfg ctx sess thr pre emb (pop_or found []) s1 = (Inr hits, s2)"
    and ans: "answer_hits sync env cfg convert (kw\<lparr>kw_top_k := None\<rparr>) sess temperature start pre pe hits s2 = (Inr (Some m, kw'), s')"
    unfolding cache_lookup_def Let_def bind_out_Inr_iff thr by blast
  let ?hs = "sort_key (\<lambda>h. - fst h) hits"
  obtain kw1 s3 where cb: "call_hit_callback sync env (cc_range cfg) ?hs (kw\<lparr>kw_top_k := None\<rparr>) s2 = (kw1, s3)"
    by (rule prod.exhaust)
  from ans have ne: "?hs \<noteq> []" by (auto simp: answer_hits_def Let_def)
  with ans obtain msg s4 where
    pp: "timed env rep_post (post_process env PostSoftmax temperature ?hs) s3 = (Inr msg, s4)"
    and fin: "finish_hit sync env cfg convert kw1 sess start pre pe
        (map_of (rev (map (\<lambda>h. (fst (snd h), h)) ?hs)) (Text (ae_str env msg))) msg s4 = (Inr (Some m, kw'), s')"
    by (auto simp: answer_hits_def Let_def cb post bind_out_Inr_iff split: if_splits)
  from timed_result[OF pp] post_process_greedy[OF t ne] obtain h where
    h: "h \<in> set hits" "msg = MsgOne (fst (snd h))" "\<forall>h' \<in> set hits. fst h' \<le> fst h" by force
  from fin have conv: "convert msg = Inr m" by (auto simp: finish_hit_def Let_def bind_out_Inr_iff bind_res_Inr_iff)
  from all h(1) obtain xs where xs: "found = Some xs" by (cases found) (simp_all add: pop_or_def)
  with all have all': "evaluate_all sync env cfg ctx sess thr pre emb xs s1 = (Inr hits, s2)" by (simp add: pop_or_def)
  from evaluate_all_runs[OF all'] obtain rs where rs:
    "runs_over (evaluate_one sync env cfg ctx sess thr pre emb) xs rs s1 s2" "set hits = {h. Some h \<in> set rs}" by blast
  with h(1) runs_over_result[OF rs(1), of "Some h"] obtain x u1 u2 where x: "x \<in> set xs"
    "evaluate_one sync env cfg ctx sess thr pre emb x u1 = (Inr (Some h), u2)" by blast
  from evaluate_one_hit[OF x(2)] obtain cd q c where hit: "thr \<le> fst h" "eval_args ctx pre emb x cd = Inr (q, c)"
    "cc_evaluation cfg q c ctx = Inr (fst h)" "h = (fst h, ec_answer c, x, cd)" by blast
  have "x \<in> set xs \<and> Some (fst h, ec_answer c, x, cd) \<in> set rs \<and> convert (MsgOne (ec_answer c)) = Inr m \<and>
      eval_args ctx pre emb x cd = Inr (q, c) \<and> cc_evaluation cfg q c ctx = Inr (fst h) \<and> thr \<le> fst h \<and>
      (\<forall>h'. Some h' \<in> set rs \<longrightarrow> fst h' \<le> fst h)"
    using x(1) hit h rs(2) conv by (metis fst_conv mem_Collect_eq snd_conv)
  moreover have "?k = (if ut \<and> kw_top_k kw = None then 5 else case kw_top_k kw of None \<Rightarrow> - 1 | Some k \<Rightarrow> k)"
    by (simp add: pop_or_def)
  ultimately show ?thesis using search[unfolded xs] rs(1) by blast
qed

lemma small_lookup:
  "\<exists>s'. cache_lookup True small_env (small_cfg True PostSoftmax) small_convert (small_kw ''hi'') False
      \<lparr>cx_deps = None, cx_more = None\<rparr> None 0 1 0 ''hi'' ''hi'' 2 (report_init, 0, [(''ab'', ''yes'')], no_calls) =
      (Inr (Some ''yes'', small_kw ''hi''), s')"
  by (simp add: small_defs adapt_run_defs Let_def)

theorem lookup_answers_best_witness:
  "\<exists>rank x cd q c. small_convert (MsgOne (ec_answer c)) = Inr ''yes'' \<and>
    eval_args (\<lparr>cx_deps = None, cx_more = None\<rparr> :: string req_context) ''hi'' 2 x cd = Inr (q, c) \<and>
    cc_evaluation (small_cfg True PostSoftmax) q c \<lparr>cx_deps = None, cx_more = None\<rparr> = Inr rank \<and> 1 / 2 \<le> rank"
proof -
  obtain s' where run: "cache_lookup True small_env (small_cfg True PostSoftmax) small_convert (small_kw ''hi'') False
      \<lparr>cx_deps = None, cx_more = None\<rparr> None 0 1 0 ''hi'' ''hi'' 2 (report_init, 0, [(''ab'', ''yes'')], no_calls) =
      (Inr (Some ''yes'', small_kw ''hi''), s')" using small_lookup by blast
  have post: "cc_post (small_cfg True PostSoftmax) = PostSoftmax" by (simp add: small_cfg_def)
  have thr: "1 / 2 = rank_threshold (ae_rnd small_env) (cc_range (small_cfg True PostSoftmax))
      (cf_similarity_threshold (cc_config (small_cfg True PostSoftmax))) 1"
    by (simp add: small_defs rank_threshold_def Let_def)
  from lookup_answers_best[OF post order_refl thr run] show ?thesis by blast
qed

text \<open>
  C9. A response that the LLM has given is never lost: when the LLM returned a (truthy) response, \<open>adapt\<close>
  returns a response too, whatever the saving does; when saving raises, or the cache is disabled, it is the
  LLM's response itself. (A save that does not return is the only way out.)
\<close>

theorem response_survives_saving:
  assumes front: "adapt_front True env convert cfg kw (r, t, d, tr) = (Inr (Inr pd), s1)" and "\<not> pd_search_only pd"
    and call: "call_llm env llm (pd_kwargs pd) s1 = (Inr (Some m), (r2, t2, d2, tr2))" and "ae_truthy env m"
    and run: "adapt env convert update llm kw [(cfg, r, d)] (t, tr) = Some (res, cs, w)"
  shows "\<exists>m'. res = Inr (Some m') \<and>
    (pd_embedding pd = None \<longrightarrow> m' = m \<and> cs = [(cfg, r2, d2)]) \<and>
    (\<forall>e err cs' t'. pd_embedding pd = Some e \<longrightarrow>
       save_all env pd e (fst (update m (pd_kwargs pd))) [(cfg, r2, d2)] t2 = Some (Inl err, cs', t') \<longrightarrow> m' = m)"
proof -
  obtain r1 t1 d1 tr1 where s1: "s1 = (r1, t1, d1, tr1)" by (rule prod_cases4)
  have "save_response env update pd m (pd_kwargs pd) [(cfg, r2, d2)] (t2, tr2) = Some (res, cs, w)"
    using run assms(2,4) call front by (simp add: s1)
  then show ?thesis by (auto simp: save_response_def split: option.splits sum.splits)
qed

lemma small_front:
  "\<exists>pd s1 r2 t2 d2 tr2. adapt_front True small_env small_convert (small_cfg True PostSoftmax) (small_kw ''hi'')
      (report_init, 0, [], no_calls) = (Inr (Inr pd), s1) \<and> \<not> pd_search_only pd \<and>
    call_llm small_env small_llm (pd_kwargs pd) s1 = (Inr (Some ''re: hi''), (r2, t2, d2, tr2))"
  by (simp add: small_defs adapt_run_defs Let_def)

theorem response_survives_saving_witness:
  "\<exists>m' cs w. adapt small_env small_convert small_update small_llm (small_kw ''hi'')
     [(small_cfg True PostSoftmax, report_init, [])] (0, no_calls) = Some (Inr (Some m'), cs, w)"
proof -
  obtain pd s1 r2 t2 d2 tr2 where F: "adapt_front True small_env small_convert (small_cfg True PostSoftmax) (small_kw ''hi'')
      (report_init, 0, [], no_calls) = (Inr (Inr pd), s1)" "\<not> pd_search_only pd"
    "call_llm small_env small_llm (pd_kwargs pd) s1 = (Inr (Some ''re: hi''), (r2, t2, d2, tr2))"
    using small_front by blast
  obtain res cs w where run: "adapt small_env small_convert small_update small_llm (small_kw ''hi'')
     [(small_cfg True PostSoftmax, report_init, [])] (0, no_calls) = Some (res, cs, w)" using small_miss by blast
  have "ae_truthy small_env ''re: hi''" by (simp add: small_env_def)
  from response_survives_saving[OF F this run] show ?thesis using run by blast
qed

section \<open>A disabled cache\<close>

definition same_data :: "('d, 'k) work \<Rightarrow> ('d, 'k) work \<Rightarrow> bool" where
  "same_data s s' \<longleftrightarrow> fst (snd (snd s')) = fst (snd (snd s))"

lemma same_data_preorder: "state_preorder same_data"
  by (simp add: state_preorder_def same_data_def)

lemmas same_data_bind = bind_out_rel[where R = same_data, OF same_data_preorder]

lemma same_data_timed: "same_data s (snd (timed env rep (\<lambda>s. (y, s)) s))"
  by (cases s; cases y) (auto simp: timed_def time_cal_def same_data_def)

lemma same_data_pre_embed: "same_data s (snd (pre_embed env cfg kw ctx s))"
  unfolding pre_embed_def
  by (rule same_data_bind[OF same_data_timed])
    (auto simp: Let_def same_data_def split: prod.split option.split pre_result.split)

lemma same_data_front_lookup:
  "same_data s (snd (front_lookup sync env convert cfg kw0 kw False ctx skip factor start s))"
  unfolding front_lookup_def
  by (rule same_data_bind[OF same_data_pre_embed]) (simp add: same_data_def)

lemma disabled_front:
  assumes en: "\<forall>kw. cc_enable cfg kw = Inr False"
    and front: "adapt_front sync env convert cfg kw (r, t, d, tr) = (x, (r', t', d', tr'))"
  shows "d' = d" and "x = Inr (Inr pd) \<Longrightarrow> pd_embedding pd = None" and "x \<noteq> Inr (Inl m)"
proof -
  have refl: "same_data s s" for s :: "('g, 'h) work" by (simp add: same_data_def)
  have "same_data (r, Suc t, d, tr) (snd (adapt_front sync env convert cfg kw (r, t, d, tr)))"
    unfolding adapt_front_def prod.case Let_def
    by (intro same_data_bind) (auto simp: en refl intro!: same_data_bind same_data_front_lookup)
  then show "d' = d" by (simp add: front same_data_def)
  assume "x = Inr (Inr pd)"
  with front obtain kw' ctx skip factor s1 where
    "front_lookup sync env convert cfg kw kw' False ctx skip factor t s1 = (Inr (Inr pd), (r', t', d', tr'))"
    unfolding adapt_front_def prod.case Let_def bind_out_Inr_iff by (auto split: if_splits simp: bind_out_Inr_iff en)
  from front_lookup_pending(3)[OF this] show "pd_embedding pd = None" by simp
next
  show "x \<noteq> Inr (Inl m)"
  proof
    assume "x = Inr (Inl m)"
    with front obtain kw' ctx skip factor s1 where
      "front_lookup sync env convert cfg kw kw' False ctx skip factor t s1 = (Inr (Inl m), (r', t', d', tr'))"
      unfolding adapt_front_def prod.case Let_def bind_out_Inr_iff by (auto split: if_splits simp: bind_out_Inr_iff en)
    then show False by (simp add: front_lookup_def bind_out_Inr_iff)
  qed
qed

text \<open>
  C15. A disabled cache is passed by: when \<open>cache_enable_func\<close> says no, the data manager is neither read nor
  changed by the request, nothing is saved, and the answer is what the LLM said.
\<close>

theorem disabled_cache_untouched:
  assumes en: "\<forall>kw. cc_enable cfg kw = Inr False"
    and run: "adapt env convert update llm kw [(cfg, r, d)] (t, tr) = Some (res, cs, (t', tr'))"
  shows "(\<exists>r'. cs = [(cfg, r', d)]) \<and>
    (\<forall>m. res = Inr (Some m) \<longrightarrow> (\<exists>k n. tr_llm tr' = k # tr_llm tr \<and> llm k n = Inr (Some m)))"
proof -
  obtain x r1 t1 d1 tr1 where front: "adapt_front True env convert cfg kw (r, t, d, tr) = (x, (r1, t1, d1, tr1))"
    by (metis prod.exhaust)
  note D = disabled_front[OF en front]
  show ?thesis
  proof (cases "\<exists>pd. x = Inr (Inr pd) \<and> \<not> pd_search_only pd")
    case False
    then show ?thesis using run D by (auto simp: front split: sum.splits if_splits)
  next
    case True
    then obtain pd where pd: "x = Inr (Inr pd)" "\<not> pd_search_only pd" by blast
    obtain n where call: "call_llm env llm (pd_kwargs pd) (r1, t1, d, tr1) =
        bind_out (llm (pd_kwargs pd) n, (r1, Suc n, d, tr1\<lparr>tr_llm := pd_kwargs pd # tr_llm tr1\<rparr>)) (\<lambda>res (r, t', s).
          (Inr res, (rep_llm (ae_rnd env) (ae_rnd env (ae_clock env t' - ae_clock env t1)) r, Suc t', s)))"
      by (simp add: call_llm_def timed_def time_cal_def)
    note tr1 = front_trace[OF front]
    show ?thesis
      using run D pd(2) by (cases "llm (pd_kwargs pd) n")
        (auto simp: front pd(1) call tr1 save_response_def split: option.splits if_splits)
  qed
qed

theorem disabled_cache_untouched_witness:
  "\<exists>res w r'. adapt small_env small_convert small_update small_llm (small_kw ''hi'')
      [(small_cfg False PostSoftmax, report_init, [(''ab'', ''yes'')])] (0, no_calls) =
      Some (res, [(small_cfg False PostSoftmax, r', [(''ab'', ''yes'')])], w)"
proof -
  obtain res cs t' tr' where run: "adapt small_env small_convert small_update small_llm (small_kw ''hi'')
      [(small_cfg False PostSoftmax, report_init, [(''ab'', ''yes'')])] (0, no_calls) = Some (res, cs, (t', tr'))"
    by (simp add: small_defs adapt_run_defs Let_def)
  have "\<forall>kw. cc_enable (small_cfg False PostSoftmax) kw = Inr False" by (simp add: small_cfg_def)
  from disabled_cache_untouched[OF this run] run show ?thesis by blast
qed

section \<open>The LLM verifier and the asynchronous copy\<close>

definition verifier_post :: "(string \<Rightarrow> content \<Rightarrow> string result) \<Rightarrow> post_func" where
  "verifier_post ask = PostOther (\<lambda>messages t.
     bind_res (verifier_call ask messages None None) (\<lambda>a. Inr (case a of None \<Rightarrow> MsgNone | Some c \<Rightarrow> MsgOne c)))"

text \<open>
  The LLM verifier never confirms a hit. An instance of \<open>LlmVerifier\<close> is called without the original
  question and then rejects every answer without asking, so the cache never answers; the class itself, which
  the code compares with, is constructed with arguments it does not have: a lookup that finds a
  result raises \<open>TypeError\<close>.
\<close>

theorem llm_verifier_never_hits:
  "(cc_post cfg = verifier_post ask \<longrightarrow>
      cache_lookup sync env cfg convert kw ut ctx sess temp factor start pre pe emb s = (Inr (a, kw'), s') \<longrightarrow> a = None) \<and>
   (cc_post cfg = PostVerifierClass \<and> hits \<noteq> [] \<longrightarrow>
      fst (answer_hits sync env cfg convert kw sess temp start pre pe hits s) = Inl TypeError)"
proof (intro conjI impI)
  assume v: "cc_post cfg = verifier_post ask"
    and "cache_lookup sync env cfg convert kw ut ctx sess temp factor start pre pe emb s = (Inr (a, kw'), s')"
  then obtain hs s2 where
    ans: "answer_hits sync env cfg convert (kw\<lparr>kw_top_k := None\<rparr>) sess temp start pre pe hs s2 = (Inr (a, kw'), s')"
    unfolding cache_lookup_def Let_def bind_out_Inr_iff by blast
  let ?hs = "sort_key (\<lambda>h. - fst h) hs"
  have none: "x = MsgNone" if "timed env rep_post (post_process env (cc_post cfg) temp ?hs) s = (Inr x, s')" for x s s'
    using timed_result[OF that]
    by (auto simp: v verifier_post_def post_process_def verifier_call_def llm_semantic_verification_def Let_def split: if_splits)
  obtain kw1 s3 where cb: "call_hit_callback sync env (cc_range cfg) ?hs (kw\<lparr>kw_top_k := None\<rparr>) s2 = (kw1, s3)"
    by (rule prod.exhaust)
  from ans show "a = None"
    by (auto simp: answer_hits_def Let_def cb bind_out_Inr_iff split: if_splits dest!: none)
next
  assume c: "cc_post cfg = PostVerifierClass \<and> hits \<noteq> []"
  let ?hs = "sort_key (\<lambda>h. - fst h) hits"
  obtain kw1 r t d tr where cb: "call_hit_callback sync env (cc_range cfg) ?hs kw s = (kw1, (r, t, d, tr))"
    by (metis prod.exhaust)
  have "?hs \<noteq> []" using c by (metis set_empty set_sort)
  then show "fst (answer_hits sync env cfg convert kw sess temp start pre pe hits s) = Inl TypeError"
    using c by (simp add: answer_hits_def Let_def cb timed_def time_cal_def post_process_def)
qed

theorem llm_verifier_never_hits_witness:
  "fst (answer_hits True small_env (small_cfg True PostVerifierClass) small_convert (small_kw ''hi'') None 0 0 ''hi'' ''hi''
     [(1, Text ''yes'', 0, small_entry (''ab'', ''yes''))] (report_init, 0, [], no_calls)) = Inl TypeError"
  using llm_verifier_never_hits[of "small_cfg True PostVerifierClass" _ True small_env small_convert "small_kw ''hi''"
      _ _ None 0 _ 0 "''hi''" "''hi''" _ "(report_init, 0, [], no_calls)" _ _ _ "[(1, Text ''yes'', 0, small_entry (''ab'', ''yes''))]"]
  by (simp add: small_cfg_def)

text \<open>
  \<open>aadapt\<close> does not reach a next cache: with one it either answers from the first cache or raises, never
  calls the LLM, and leaves the other caches as they are.
\<close>

theorem aadapt_never_reaches_next_cache:
  assumes "rest \<noteq> []" and "aadapt env convert update llm kw (cfg, r, d) rest (t, tr) = Some (res, cs, (t', tr'))"
  shows "tr_llm tr' = tr_llm tr \<and> (\<exists>r' d'. cs = (cfg, r', d') # rest) \<and> res \<noteq> Inr None \<and>
    ((\<exists>pd. fst (aadapt_front env convert cfg kw (r, t, d, tr)) = Inr (Inr pd)) \<longrightarrow> res = Inl NameError)"
proof -
  obtain x r1 t1 d1 tr1 where front: "adapt_front False env convert cfg kw (r, t, d, tr) = (x, (r1, t1, d1, tr1))"
    by (metis prod.exhaust)
  have "tr' = tr1 \<and> (\<exists>r' d'. cs = (cfg, r', d') # rest) \<and> res \<noteq> Inr None \<and> ((\<exists>pd. x = Inr (Inr pd)) \<longrightarrow> res = Inl NameError)"
    using assms by (auto simp: aadapt_def aadapt_front_def front split: sum.splits)
  with front_trace[OF front] show ?thesis by (simp add: aadapt_front_def front)
qed

theorem aadapt_never_reaches_next_cache_witness:
  "\<exists>cs w. aadapt small_env small_convert small_update (\<lambda>kw t. Inr ''a'') (small_kw ''hi'')
     (small_cfg True PostSoftmax, report_init, []) [(small_cfg True PostSoftmax, report_init, [(''ab'', ''yes'')])]
     (0, no_calls) = Some (Inl NameError, cs, w)"
proof -
  let ?rest = "[(small_cfg True PostSoftmax, report_init, [(''ab'', ''yes'')])]"
  obtain pd s1 where front: "adapt_front False small_env small_convert (small_cfg True PostSoftmax) (small_kw ''hi'')
      (report_init, 0, [], no_calls) = (Inr (Inr pd), s1)"
    by (simp add: small_defs adapt_run_defs Let_def)
  then obtain res cs t' tr' where "aadapt small_env small_convert small_update (\<lambda>kw t. Inr ''a'') (small_kw ''hi'')
     (small_cfg True PostSoftmax, report_init, []) ?rest (0, no_calls) = Some (res, cs, (t', tr'))"
    by (cases s1) (simp add: aadapt_def aadapt_front_def)
  with aadapt_never_reaches_next_cache[OF _ this] front show ?thesis by (simp add: aadapt_front_def)
qed

end
