(* ===== verification/Map_Manager.thy ===== *)
theory Map_Manager
  imports Data_Manager Post "HOL-Library.List_Lexorder" "HOL-Library.Char_ord"
begin

text \<open>
  The data manager \<open>MapDataManager\<close> of \<open>gptcache/manager/data_manager.py\<close>: a mapping from embeddings (strings,
  as the default embedding makes them) to tuples of question, answer, embedding and a set of session
  names. The tuples are handed out by \<open>search\<close> and \<open>add_session\<close> changes their set in place, so the sets are
  objects of an explicit store: a tuple holds an address.

  The container (\<open>cachetools.LRUCache\<close>, or what \<open>get_data_container\<close> returns) is a parameter with its
  methods and the contract of a bounded mapping.
\<close>

section \<open>The container\<close>

record ('v, 'c) container_ops =
  ct_get :: "string \<Rightarrow> 'c \<Rightarrow> 'v result \<times> 'c"
  ct_set :: "string \<Rightarrow> 'v \<Rightarrow> 'c \<Rightarrow> (unit, 'c) outcome"
  ct_del :: "string \<Rightarrow> 'c \<Rightarrow> (unit, 'c) outcome"
  ct_keys :: "'c \<Rightarrow> string list"
  ct_lookup :: "'c \<Rightarrow> string \<Rightarrow> 'v option"

text \<open>
  \<open>ct_lookup\<close> is the content of a container. Reading may change the order of the entries but no content;
  storing may drop other entries.
\<close>

definition container_contract :: "('v, 'c) container_ops \<Rightarrow> bool" where
  "container_contract ops \<longleftrightarrow>
     (\<forall>k c. fst (ct_get ops k c) = (case ct_lookup ops c k of None \<Rightarrow> Inl KeyError | Some v \<Rightarrow> Inr v) \<and>
        ct_lookup ops (snd (ct_get ops k c)) = ct_lookup ops c) \<and>
     (\<forall>k v c. \<exists>c'. ct_set ops k v c = (Inr (), c') \<and> ct_lookup ops c' k = Some v \<and>
        (\<forall>k'. k' \<noteq> k \<longrightarrow> ct_lookup ops c' k' = ct_lookup ops c k' \<or> ct_lookup ops c' k' = None)) \<and>
     (\<forall>k c. ct_lookup ops c k \<noteq> None \<longrightarrow>
        (\<exists>c'. ct_del ops k c = (Inr (), c') \<and> ct_lookup ops c' = (ct_lookup ops c)(k := None))) \<and>
     (\<forall>c. set (ct_keys ops c) = {k. ct_lookup ops c k \<noteq> None})"

lemma container_get:
  "container_contract ops \<Longrightarrow>
     \<exists>c'. ct_get ops k c = ((case ct_lookup ops c k of None \<Rightarrow> Inl KeyError | Some v \<Rightarrow> Inr v), c') \<and>
       ct_lookup ops c' = ct_lookup ops c"
  unfolding container_contract_def by (metis prod.collapse)

lemma container_set:
  "container_contract ops \<Longrightarrow>
     \<exists>c'. ct_set ops k v c = (Inr (), c') \<and> ct_lookup ops c' k = Some v \<and>
       (\<forall>k'. k' \<noteq> k \<longrightarrow> ct_lookup ops c' k' = ct_lookup ops c k' \<or> ct_lookup ops c' k' = None)"
  unfolding container_contract_def by blast

lemma container_del:
  "container_contract ops \<Longrightarrow> ct_lookup ops c k \<noteq> None \<Longrightarrow>
     \<exists>c'. ct_del ops k c = (Inr (), c') \<and> ct_lookup ops c' = (ct_lookup ops c)(k := None)"
  unfolding container_contract_def by blast

lemma container_keys: "container_contract ops \<Longrightarrow> set (ct_keys ops c) = {k. ct_lookup ops c k \<noteq> None}"
  unfolding container_contract_def by blast

section \<open>State and operations\<close>

text \<open>A cached tuple; \<open>mt_sessions\<close> is the address of its set.\<close>

record map_tuple =
  mt_question :: string
  mt_answer :: answers_arg
  mt_embedding :: string
  mt_sessions :: nat

text \<open>What reading the data file gives.\<close>

datatype 'p data_file = FileMissing | FileDenied | FileData 'p

record 'c map_manager =
  mm_data :: 'c
  mm_sets :: "nat \<Rightarrow> string set"
  mm_next :: nat

type_synonym 'c snapshot = "'c map_manager"

definition map_new_set :: "string set \<Rightarrow> 'c map_manager \<Rightarrow> nat \<times> 'c map_manager" where
  "map_new_set s m = (mm_next m, m\<lparr>mm_sets := (mm_sets m)(mm_next m := s), mm_next := mm_next m + 1\<rparr>)"

text \<open>\<open>pickle\<close> stores a copy of the mapping with its sets.\<close>

definition map_init :: "'c snapshot data_file \<Rightarrow> 'c map_manager \<Rightarrow> 'c map_manager result" where
  "map_init file m =
     (case file of FileMissing \<Rightarrow> Inr m | FileDenied \<Rightarrow> Inl CacheError | FileData p \<Rightarrow> Inr p)"

definition map_manager_init :: "'c snapshot data_file \<Rightarrow> 'c \<Rightarrow> 'c map_manager result" where
  "map_manager_init file container =
     map_init file \<lparr>mm_data = container, mm_sets = (\<lambda>_. {}), mm_next = 0\<rparr>"

definition map_flush :: "bool \<Rightarrow> 'c map_manager \<Rightarrow> 'c snapshot data_file \<Rightarrow> 'c snapshot data_file" where
  "map_flush denied m file = (if denied then file else FileData m)"

definition map_store ::
  "(map_tuple, 'c) container_ops \<Rightarrow> string \<Rightarrow> answers_arg \<Rightarrow> string \<Rightarrow> string set \<Rightarrow> 'c map_manager
   \<Rightarrow> (unit, 'c map_manager) outcome" where
  "map_store ops question ans emb sessions m =
     (let (a, m) = map_new_set sessions m;
          (r, c) = ct_set ops emb \<lparr>mt_question = question, mt_answer = ans, mt_embedding = emb, mt_sessions = a\<rparr> (mm_data m)
      in (r, m\<lparr>mm_data := c\<rparr>))"

definition map_save ::
  "(map_tuple, 'c) container_ops \<Rightarrow> question_arg \<Rightarrow> answers_arg \<Rightarrow> string \<Rightarrow> session option \<Rightarrow> 'c map_manager
   \<Rightarrow> (unit, 'c map_manager) outcome" where
  "map_save ops question ans emb sess m =
     map_store ops (question_text question) ans emb (case sess of None \<Rightarrow> {} | Some s \<Rightarrow> {sess_name s}) m"

definition map_import_data ::
  "(map_tuple, 'c) container_ops \<Rightarrow> string list \<Rightarrow> answers_arg list \<Rightarrow> string list \<Rightarrow> string option list
   \<Rightarrow> 'c map_manager \<Rightarrow> (unit, 'c map_manager) outcome" where
  "map_import_data ops questions answers embs session_ids m =
     (if length questions \<noteq> length answers \<or> length questions \<noteq> length embs \<or> length questions \<noteq> length session_ids
      then (Inl ParamError, m)
      else for_each (\<lambda>(q, ans, emb, sid). map_store ops q ans emb (if str_truthy sid then {the sid} else {}))
             (zip questions (zip answers (zip embs session_ids))) m)"

fun answer_payload :: "answers_arg \<Rightarrow> content result" where
  "answer_payload (AnsStr s) = Inr (Text s)"
| "answer_payload (AnsObj a) = Inr (ans_content a)"
| "answer_payload (AnsList items) = Inl TypeError"

text \<open>
  \<open>order\<close> is the order in which Python lists a set. The check function is given the answer itself; a list
  of answers has no representation in its argument type here and counts as a \<open>TypeError\<close>.
\<close>

definition map_get_scalar_data ::
  "(string set \<Rightarrow> string list) \<Rightarrow> map_tuple \<Rightarrow> session option \<Rightarrow> 'c map_manager \<Rightarrow> 'e cache_data option result" where
  "map_get_scalar_data order res_data sess m =
     (let data = cache_data_init (QStr (mt_question res_data)) (mt_answer res_data) None NoSession None None
      in case sess of
           None \<Rightarrow> Inr (Some data)
         | Some s \<Rightarrow>
             bind_res (answer_payload (mt_answer res_data)) (\<lambda>ans.
               if sess_check_hit s (sess_name s) (order (mm_sets m (mt_sessions res_data))) [mt_question res_data] ans
               then Inr (Some data) else Inr None))"

definition map_search ::
  "(map_tuple, 'c) container_ops \<Rightarrow> string \<Rightarrow> 'c map_manager \<Rightarrow> (map_tuple list, 'c map_manager) outcome" where
  "map_search ops emb m =
     (let (r, c) = ct_get ops emb (mm_data m); m = m\<lparr>mm_data := c\<rparr>
      in case r of
           Inr v \<Rightarrow> (Inr [v], m)
         | Inl e \<Rightarrow> if e = KeyError then (Inr [], m) else (Inl e, m))"

definition map_add_session :: "map_tuple \<Rightarrow> string \<Rightarrow> 'c map_manager \<Rightarrow> 'c map_manager" where
  "map_add_session res_data session_id m =
     m\<lparr>mm_sets := (mm_sets m)(mt_sessions res_data := insert session_id (mm_sets m (mt_sessions res_data)))\<rparr>"

text \<open>\<open>self.data[k]\<close>.\<close>

definition map_item ::
  "(map_tuple, 'c) container_ops \<Rightarrow> string \<Rightarrow> 'c map_manager \<Rightarrow> (map_tuple, 'c map_manager) outcome" where
  "map_item ops k m = (case ct_get ops k (mm_data m) of (r, c) \<Rightarrow> (r, m\<lparr>mm_data := c\<rparr>))"

text \<open>
  The loop of \<open>list_sessions\<close>: one set collects the keys that hold the session and, from every other entry,
  the session names.
\<close>

fun map_collect ::
  "(map_tuple, 'c) container_ops \<Rightarrow> string option \<Rightarrow> string list \<Rightarrow> string set \<Rightarrow> 'c map_manager
   \<Rightarrow> (string set, 'c map_manager) outcome" where
  "map_collect ops session_id [] acc m = (Inr acc, m)"
| "map_collect ops session_id (k # ks) acc m =
     bind_out (map_item ops k m) (\<lambda>v m.
       let s = mm_sets m (mt_sessions v)
       in map_collect ops session_id ks
            (if str_truthy session_id \<and> the session_id \<in> s then insert k acc
             else if s \<noteq> {} then acc \<union> s else acc) m)"

definition map_list_sessions ::
  "(map_tuple, 'c) container_ops \<Rightarrow> (string set \<Rightarrow> string list) \<Rightarrow> string option \<Rightarrow> 'c map_manager
   \<Rightarrow> (string list, 'c map_manager) outcome" where
  "map_list_sessions ops order session_id m =
     bind_out (map_collect ops session_id (ct_keys ops (mm_data m)) {} m) (\<lambda>s m. (Inr (order s), m))"

text \<open>\<open>set.remove\<close> raises \<open>KeyError\<close> when the element is not there.\<close>

definition map_drop_key ::
  "(map_tuple, 'c) container_ops \<Rightarrow> string \<Rightarrow> string \<Rightarrow> 'c map_manager \<Rightarrow> (unit, 'c map_manager) outcome" where
  "map_drop_key ops session_id k m =
     bind_out (map_item ops k m) (\<lambda>v m.
       let a = mt_sessions v in
       if session_id \<notin> mm_sets m a then (Inl KeyError, m)
       else let m = m\<lparr>mm_sets := (mm_sets m)(a := mm_sets m a - {session_id})\<rparr>
            in bind_out (map_item ops k m) (\<lambda>v m.
                 if mm_sets m (mt_sessions v) = {}
                 then (case ct_del ops k (mm_data m) of (r, c) \<Rightarrow> (r, m\<lparr>mm_data := c\<rparr>))
                 else (Inr (), m)))"

definition map_delete_session ::
  "(map_tuple, 'c) container_ops \<Rightarrow> (string set \<Rightarrow> string list) \<Rightarrow> string \<Rightarrow> 'c map_manager
   \<Rightarrow> (unit, 'c map_manager) outcome" where
  "map_delete_session ops order session_id m =
     bind_out (map_list_sessions ops order (Some session_id) m) (\<lambda>keys m.
       for_each (map_drop_key ops session_id) keys m)"

section \<open>What is cached\<close>

text \<open>The content of the mapping, every tuple with the present value of its set.\<close>

definition map_view ::
  "(map_tuple, 'c) container_ops \<Rightarrow> 'c map_manager \<Rightarrow> string \<Rightarrow> (map_tuple \<times> string set) option" where
  "map_view ops m k = map_option (\<lambda>v. (v, mm_sets m (mt_sessions v))) (ct_lookup ops (mm_data m) k)"

text \<open>Cached tuples have sets of their own, allocated and finite.\<close>

definition map_inv :: "(map_tuple, 'c) container_ops \<Rightarrow> 'c map_manager \<Rightarrow> bool" where
  "map_inv ops m \<longleftrightarrow>
     (\<forall>k v. ct_lookup ops (mm_data m) k = Some v \<longrightarrow> mt_sessions v < mm_next m \<and> finite (mm_sets m (mt_sessions v))) \<and>
     (\<forall>k v k' v'. ct_lookup ops (mm_data m) k = Some v \<longrightarrow> ct_lookup ops (mm_data m) k' = Some v' \<longrightarrow>
        mt_sessions v = mt_sessions v' \<longrightarrow> k = k')"

definition lists_sets :: "(string set \<Rightarrow> string list) \<Rightarrow> bool" where
  "lists_sets order \<longleftrightarrow> (\<forall>s. finite s \<longrightarrow> set (order s) = s \<and> distinct (order s))"

lemma lists_sets_sorted: "lists_sets sorted_list_of_set"
  by (simp add: lists_sets_def)

lemma map_item_spec:
  assumes "container_contract ops"
  shows "\<exists>m'. map_item ops k m =
      ((case ct_lookup ops (mm_data m) k of None \<Rightarrow> Inl KeyError | Some v \<Rightarrow> Inr v), m') \<and>
    ct_lookup ops (mm_data m') = ct_lookup ops (mm_data m) \<and> mm_sets m' = mm_sets m \<and> mm_next m' = mm_next m"
  using container_get[OF assms, of k "mm_data m"] by (auto simp: map_item_def)

text \<open>One entry's contribution to the collected set.\<close>

definition map_listed :: "string option \<Rightarrow> string \<Rightarrow> string set \<Rightarrow> string set" where
  "map_listed session_id k s = (if str_truthy session_id \<and> the session_id \<in> s then {k} else s)"

lemma map_collect_spec:
  assumes "container_contract ops" and "\<forall>k \<in> set ks. map_view ops m k \<noteq> None"
  shows "\<exists>m'. map_collect ops session_id ks acc m =
      (Inr (acc \<union> (\<Union>k \<in> set ks. map_listed session_id k (snd (the (map_view ops m k))))), m') \<and>
    ct_lookup ops (mm_data m') = ct_lookup ops (mm_data m) \<and> mm_sets m' = mm_sets m \<and> mm_next m' = mm_next m"
  using assms(2)
proof (induction ks arbitrary: acc m)
  case (Cons k ks)
  obtain m1 where m1: "map_item ops k m = ((case ct_lookup ops (mm_data m) k of None \<Rightarrow> Inl KeyError | Some v \<Rightarrow> Inr v), m1)"
    "ct_lookup ops (mm_data m1) = ct_lookup ops (mm_data m)" "mm_sets m1 = mm_sets m" "mm_next m1 = mm_next m"
    using map_item_spec[OF assms(1)] by blast
  from Cons.prems obtain v where v: "ct_lookup ops (mm_data m) k = Some v" by (auto simp: map_view_def)
  have view: "map_view ops m1 = map_view ops m" by (simp add: fun_eq_iff map_view_def m1)
  let ?acc = "acc \<union> map_listed session_id k (mm_sets m (mt_sessions v))"
  have step: "map_collect ops session_id (k # ks) acc m = map_collect ops session_id ks ?acc m1"
    by (auto simp: m1 v Let_def map_listed_def)
  from Cons.IH[of m1 ?acc] Cons.prems obtain m2 where m2: "map_collect ops session_id ks ?acc m1 =
      (Inr (?acc \<union> (\<Union>k \<in> set ks. map_listed session_id k (snd (the (map_view ops m k))))), m2)"
    "ct_lookup ops (mm_data m2) = ct_lookup ops (mm_data m1)" "mm_sets m2 = mm_sets m1" "mm_next m2 = mm_next m1"
    by (auto simp: view)
  have "snd (the (map_view ops m k)) = mm_sets m (mt_sessions v)" by (simp add: map_view_def v)
  then show ?case unfolding step m2(1) by (intro exI[of _ m2]) (simp add: m1 m2 Un_assoc)
qed simp

lemma map_list_spec:
  assumes "container_contract ops"
  shows "\<exists>m'. map_list_sessions ops order session_id m =
      (Inr (order (\<Union>(k, v) \<in> Map.graph (map_view ops m). map_listed session_id k (snd v))), m') \<and>
    ct_lookup ops (mm_data m') = ct_lookup ops (mm_data m) \<and> mm_sets m' = mm_sets m \<and> mm_next m' = mm_next m"
proof -
  have keys: "set (ct_keys ops (mm_data m)) = {k. map_view ops m k \<noteq> None}"
    using container_keys[OF assms, of "mm_data m"] by (simp add: map_view_def)
  have "(\<Union>k \<in> {k. map_view ops m k \<noteq> None}. map_listed session_id k (snd (the (map_view ops m k)))) =
      (\<Union>(k, v) \<in> Map.graph (map_view ops m). map_listed session_id k (snd v))"
    by (force simp: Map.graph_def)
  then show ?thesis
    using map_collect_spec[OF assms, of "ct_keys ops (mm_data m)" m session_id "{}"]
    by (auto simp: map_list_sessions_def keys)
qed

text \<open>Dropping a session from one key.\<close>

lemma map_drop_spec:
  assumes C: "container_contract ops" and inv: "map_inv ops m"
  shows "\<exists>r m'. map_drop_key ops sid k m = (r, m') \<and> map_inv ops m' \<and>
    (case map_view ops m k of
       None \<Rightarrow> r = Inl KeyError \<and> map_view ops m' = map_view ops m
     | Some (v, s) \<Rightarrow>
         if sid \<in> s
         then r = Inr () \<and> map_view ops m' = (map_view ops m)(k := (if s = {sid} then None else Some (v, s - {sid})))
         else r = Inl KeyError \<and> map_view ops m' = map_view ops m)"
proof -
  obtain m1 where m1: "map_item ops k m = ((case ct_lookup ops (mm_data m) k of None \<Rightarrow> Inl KeyError | Some v \<Rightarrow> Inr v), m1)"
    "ct_lookup ops (mm_data m1) = ct_lookup ops (mm_data m)" "mm_sets m1 = mm_sets m" "mm_next m1 = mm_next m"
    using map_item_spec[OF C] by blast
  have same: "map_view ops m1 = map_view ops m" "map_inv ops m1"
    using inv by (simp_all add: fun_eq_iff map_view_def map_inv_def m1)
  show ?thesis
  proof (cases "ct_lookup ops (mm_data m) k")
    case None
    then show ?thesis using same by (simp add: map_drop_key_def m1 map_view_def)
  next
    case (Some v)
    let ?a = "mt_sessions v" and ?s = "mm_sets m (mt_sessions v)"
    show ?thesis
    proof (cases "sid \<in> ?s")
      case False
      then show ?thesis using same by (simp add: map_drop_key_def m1 Some map_view_def)
    next
      case True
      let ?m = "m1\<lparr>mm_sets := (mm_sets m)(?a := ?s - {sid})\<rparr>"
      obtain m2 where m2: "map_item ops k ?m = (Inr v, m2)" "ct_lookup ops (mm_data m2) = ct_lookup ops (mm_data m)"
        "mm_sets m2 = (mm_sets m)(?a := ?s - {sid})" "mm_next m2 = mm_next m"
        using map_item_spec[OF C, of k ?m] by (auto simp: m1 Some)
      have own: "mt_sessions v' = ?a \<longleftrightarrow> k' = k" if "ct_lookup ops (mm_data m) k' = Some v'" for k' v'
      proof
        show "k' = k" if "mt_sessions v' = ?a"
          using inv \<open>ct_lookup ops (mm_data m) k' = Some v'\<close> Some that unfolding map_inv_def by blast
        show "mt_sessions v' = ?a" if "k' = k" using \<open>ct_lookup ops (mm_data m) k' = Some v'\<close> Some that by simp
      qed
      have view2: "map_view ops m2 = (map_view ops m)(k := Some (v, ?s - {sid}))"
      proof
        fix k'
        show "map_view ops m2 k' = ((map_view ops m)(k := Some (v, ?s - {sid}))) k'"
          using own[of k'] by (cases "ct_lookup ops (mm_data m) k'") (auto simp: map_view_def m2 Some)
      qed
      have "finite ?s" using inv Some by (simp add: map_inv_def)
      then have inv2: "map_inv ops m2" using inv by (auto simp: map_inv_def m2)
      show ?thesis
      proof (cases "?s = {sid}")
        case False
        then have "?s - {sid} \<noteq> {}" using True by blast
        then show ?thesis
          using True False view2 inv2 by (simp add: map_drop_key_def m1 Some m2 Let_def map_view_def)
      next
        case one: True
        obtain c where c: "ct_del ops k (mm_data m2) = (Inr (), c)" "ct_lookup ops c = (ct_lookup ops (mm_data m))(k := None)"
          using container_del[OF C, of "mm_data m2" k] by (auto simp: m2 Some)
        let ?m3 = "m2\<lparr>mm_data := c\<rparr>"
        have "map_view ops ?m3 = (map_view ops m)(k := None)"
          using view2 by (auto simp: fun_eq_iff map_view_def c m2 split: if_splits)
        moreover have "map_inv ops ?m3" using inv2 by (auto simp: map_inv_def c m2 split: if_splits)
        moreover have "map_drop_key ops sid k m = (Inr (), ?m3)"
          using m2(1) one by (simp add: map_drop_key_def m1 Some m2(2-) c Let_def)
        ultimately show ?thesis using one by (simp add: map_view_def Some)
      qed
    qed
  qed
qed

lemma map_store_spec:
  assumes C: "container_contract ops" and inv: "map_inv ops m" and S: "finite S"
  shows "\<exists>m1. map_store ops q ans emb S m = (Inr (), m1) \<and> map_inv ops m1 \<and>
    map_view ops m1 emb = Some (\<lparr>mt_question = q, mt_answer = ans, mt_embedding = emb, mt_sessions = mm_next m\<rparr>, S) \<and>
    (\<forall>k. k \<noteq> emb \<longrightarrow> map_view ops m1 k = map_view ops m k \<or> map_view ops m1 k = None)"
proof -
  let ?v = "\<lparr>mt_question = q, mt_answer = ans, mt_embedding = emb, mt_sessions = mm_next m\<rparr>"
  obtain c where c: "ct_set ops emb ?v (mm_data m) = (Inr (), c)" "ct_lookup ops c emb = Some ?v"
    "\<And>k. k \<noteq> emb \<Longrightarrow> ct_lookup ops c k = ct_lookup ops (mm_data m) k \<or> ct_lookup ops c k = None"
    using container_set[OF C, of emb ?v "mm_data m"] by blast
  let ?m = "m\<lparr>mm_sets := (mm_sets m)(mm_next m := S), mm_next := mm_next m + 1, mm_data := c\<rparr>"
  have run: "map_store ops q ans emb S m = (Inr (), ?m)" by (simp add: map_store_def map_new_set_def c)
  have old: "k = emb \<and> v = ?v \<or> (k \<noteq> emb \<and> ct_lookup ops (mm_data m) k = Some v \<and> mt_sessions v < mm_next m)"
    if "ct_lookup ops c k = Some v" for k v
    using that c(2) c(3)[of k] inv by (cases "k = emb") (auto simp: map_inv_def)
  have inv1: "map_inv ops ?m" unfolding map_inv_def
  proof (intro conjI allI impI)
    fix k v assume v: "ct_lookup ops (mm_data ?m) k = Some v"
    with old[of k v] show "mt_sessions v < mm_next ?m" by auto
    show "finite (mm_sets ?m (mt_sessions v))" using old[of k v] v S inv by (auto simp: map_inv_def)
    fix k' v' assume "ct_lookup ops (mm_data ?m) k' = Some v'" "mt_sessions v = mt_sessions v'"
    with old[of k v] old[of k' v'] v show "k = k'" using inv by (auto simp: map_inv_def)
  qed
  have "map_view ops ?m k = map_view ops m k \<or> map_view ops ?m k = None" if "k \<noteq> emb" for k
  proof (cases "ct_lookup ops c k")
    case (Some v)
    with old[of k v] that show ?thesis by (auto simp: map_view_def)
  qed (simp add: map_view_def)
  then show ?thesis using run inv1 c(2) by (intro exI[of _ ?m]) (simp add: map_view_def)
qed

lemma map_search_spec:
  assumes "container_contract ops"
  shows "\<exists>m'. map_search ops emb m = (Inr (case map_view ops m emb of None \<Rightarrow> [] | Some (v, s) \<Rightarrow> [v]), m') \<and>
    map_view ops m' = map_view ops m \<and> mm_sets m' = mm_sets m \<and> (map_inv ops m \<longrightarrow> map_inv ops m')"
  using container_get[OF assms, of emb "mm_data m"]
  by (auto simp: map_search_def map_view_def map_inv_def fun_eq_iff Let_def split: option.splits)

section \<open>A container\<close>

text \<open>A dictionary as an association list; \<open>get_data_container=lambda n: {}\<close> gives such a container.\<close>

definition dict_container :: "('v, (string \<times> 'v) list) container_ops" where
  "dict_container = \<lparr>ct_get = (\<lambda>k c. ((case map_of c k of None \<Rightarrow> Inl KeyError | Some v \<Rightarrow> Inr v), c)),
     ct_set = (\<lambda>k v c. (Inr (), (k, v) # filter (\<lambda>x. fst x \<noteq> k) c)),
     ct_del = (\<lambda>k c. (if map_of c k = None then Inl KeyError else Inr (), filter (\<lambda>x. fst x \<noteq> k) c)),
     ct_keys = map fst, ct_lookup = map_of\<rparr>"

lemma dict_container_contract: "container_contract dict_container"
proof -
  have flt: "map_of (filter (\<lambda>x. fst x \<noteq> k) c) = (map_of c)(k := None)" for c :: "(string \<times> 'v) list" and k
    by (induction c) (auto simp: fun_eq_iff)
  show ?thesis
    unfolding container_contract_def
    by (auto simp: dict_container_def flt map_of_eq_None_iff split: option.splits)
qed

definition small_map :: "(string \<times> map_tuple) list map_manager" where
  "small_map = \<lparr>mm_data = [], mm_sets = (\<lambda>_. {}), mm_next = 0\<rparr>"

definition shared_map :: "(string \<times> map_tuple) list map_manager" where
  "shared_map = \<lparr>mm_data = [(''q1'', \<lparr>mt_question = ''a'', mt_answer = AnsStr ''x'', mt_embedding = ''q1'', mt_sessions = 0\<rparr>),
     (''q2'', \<lparr>mt_question = ''b'', mt_answer = AnsStr ''y'', mt_embedding = ''q2'', mt_sessions = 1\<rparr>)],
     mm_sets = (\<lambda>a. if a = 0 then {''one''} else {''two''}), mm_next = 2\<rparr>"

lemma small_map_inv: "map_inv dict_container small_map"
  by (simp add: map_inv_def small_map_def dict_container_def)

lemma shared_map_inv: "map_inv dict_container shared_map"
  by (auto simp: map_inv_def shared_map_def dict_container_def)

section \<open>Properties\<close>

text \<open>
  C22. What is saved is found: searching for an embedding just saved returns the one tuple with the saved
  question, answer and session, whatever the container dropped to make room; no other entry changes or
  appears. Reading the tuple gives the data back, but not within the session it was saved in (with the
  default session check), whose requests go to the LLM again.
\<close>

theorem map_save_then_search:
  assumes C: "container_contract ops" and inv: "map_inv ops m" and order: "lists_sets order"
  shows "\<exists>m1 v m2. map_save ops question ans emb sess m = (Inr (), m1) \<and> map_inv ops m1 \<and>
    (\<forall>k. k \<noteq> emb \<longrightarrow> map_view ops m1 k = map_view ops m k \<or> map_view ops m1 k = None) \<and>
    map_search ops emb m1 = (Inr [v], m2) \<and>
    map_get_scalar_data order v None m2 =
      Inr (Some (cache_data_init (QStr (question_text question)) ans None NoSession None None)) \<and>
    (\<forall>s s' payload. sess = Some s \<longrightarrow> answer_payload ans = Inr payload \<longrightarrow> sess_check_hit s' = check_hit_session \<longrightarrow>
       (map_get_scalar_data order v (Some s') m2 = Inr None \<longleftrightarrow> sess_name s' = sess_name s))"
proof -
  let ?S = "case sess of None \<Rightarrow> {} | Some s \<Rightarrow> {sess_name s}"
  have "finite ?S" by (simp split: option.split)
  from map_store_spec[OF C inv this, of "question_text question" ans emb] obtain m1 where m1:
    "map_save ops question ans emb sess m = (Inr (), m1)" "map_inv ops m1"
    "map_view ops m1 emb = Some (\<lparr>mt_question = question_text question, mt_answer = ans, mt_embedding = emb,
        mt_sessions = mm_next m\<rparr>, ?S)"
    "\<forall>k. k \<noteq> emb \<longrightarrow> map_view ops m1 k = map_view ops m k \<or> map_view ops m1 k = None"
    by (auto simp: map_save_def)
  obtain m2 where m2: "map_search ops emb m1 = (Inr [\<lparr>mt_question = question_text question, mt_answer = ans,
      mt_embedding = emb, mt_sessions = mm_next m\<rparr>], m2)" "mm_sets m2 = mm_sets m1"
    using map_search_spec[OF C, of emb m1] by (auto simp: m1(3))
  have "mm_sets m2 (mm_next m) = ?S" using m1(3) by (auto simp: m2(2) map_view_def)
  moreover have "set (order {x}) = {x}" for x using order by (simp add: lists_sets_def)
  ultimately show ?thesis
    using m1 m2(1) by (intro exI[of _ m1] exI[of _ m2] exI conjI)
      (auto simp: map_get_scalar_data_def check_hit_session_def Let_def)
qed

theorem map_save_then_search_witness:
  "\<exists>m1 v m2. map_save dict_container (QStr ''hi'') (AnsStr ''yes'') ''hi'' None small_map = (Inr (), m1) \<and>
    map_search dict_container ''hi'' m1 = (Inr [v], m2) \<and>
    map_get_scalar_data sorted_list_of_set v None m2 =
      Inr (Some (cache_data_init (QStr ''hi'') (AnsStr ''yes'') (None :: nat option) NoSession None None))"
  using map_save_then_search[OF dict_container_contract small_map_inv lists_sets_sorted,
      of "QStr ''hi''" "AnsStr ''yes''" "''hi''" None] by fastforce

lemma map_drop_all:
  assumes C: "container_contract ops"
  shows "map_inv ops m \<Longrightarrow> distinct ks \<Longrightarrow> \<forall>k \<in> set ks. \<exists>v s. map_view ops m k = Some (v, s) \<and> sid \<in> s \<Longrightarrow>
    \<exists>m'. for_each (map_drop_key ops sid) ks m = (Inr (), m') \<and> map_inv ops m' \<and>
      map_view ops m' = (\<lambda>k. if k \<in> set ks then (case map_view ops m k of None \<Rightarrow> None | Some (v, s) \<Rightarrow>
          if s = {sid} then None else Some (v, s - {sid})) else map_view ops m k)"
proof (induction ks arbitrary: m)
  case (Cons k ks)
  from Cons.prems(3) obtain v s where v: "map_view ops m k = Some (v, s)" "sid \<in> s" by auto
  from map_drop_spec[OF C Cons.prems(1), of sid k] v obtain m1 where m1: "map_drop_key ops sid k m = (Inr (), m1)"
    "map_inv ops m1" "map_view ops m1 = (map_view ops m)(k := (if s = {sid} then None else Some (v, s - {sid})))"
    by auto
  have "\<forall>k' \<in> set ks. \<exists>v s. map_view ops m1 k' = Some (v, s) \<and> sid \<in> s"
    using Cons.prems(2,3) by (auto simp: m1(3))
  from Cons.IH[OF m1(2) _ this] Cons.prems(2) obtain m2 where m2: "for_each (map_drop_key ops sid) ks m1 = (Inr (), m2)"
    "map_inv ops m2" "map_view ops m2 = (\<lambda>k. if k \<in> set ks then (case map_view ops m1 k of None \<Rightarrow> None | Some (v, s) \<Rightarrow>
          if s = {sid} then None else Some (v, s - {sid})) else map_view ops m1 k)" by auto
  then show ?case using v Cons.prems(2) by (intro exI[of _ m2]) (auto simp: m1 fun_eq_iff)
qed simp

text \<open>
  \<open>delete_session\<close> works when the session is the only one: if every entry with sessions belongs to the
  session, the session is taken from all of them, the entries left without a session disappear,
  and nothing else changes.
\<close>

theorem map_delete_only_session:
  assumes C: "container_contract ops" and inv: "map_inv ops m" and order: "lists_sets order" and "sid \<noteq> []"
    and only: "\<forall>k v s. map_view ops m k = Some (v, s) \<longrightarrow> s = {} \<or> sid \<in> s" and fin: "finite (dom (map_view ops m))"
  shows "\<exists>m'. map_delete_session ops order sid m = (Inr (), m') \<and> map_inv ops m' \<and>
    (\<forall>k. map_view ops m' k = (case map_view ops m k of
        None \<Rightarrow> None
      | Some (v, s) \<Rightarrow> if s = {sid} then None else Some (v, s - {sid})))"
proof -
  let ?K = "{k. \<exists>v s. map_view ops m k = Some (v, s) \<and> sid \<in> s}"
  have K: "(\<Union>(k, v) \<in> Map.graph (map_view ops m). map_listed (Some sid) k (snd v)) = ?K"
    using only \<open>sid \<noteq> []\<close> by (fastforce simp: map_listed_def str_truthy_def Map.graph_def split: if_splits)
  obtain m1 where m1: "map_list_sessions ops order (Some sid) m = (Inr (order ?K), m1)"
    "ct_lookup ops (mm_data m1) = ct_lookup ops (mm_data m)" "mm_sets m1 = mm_sets m" "mm_next m1 = mm_next m"
    using map_list_spec[OF C, of order "Some sid" m] unfolding K by blast
  have view: "map_view ops m1 = map_view ops m" "map_inv ops m1"
    using inv by (simp_all add: fun_eq_iff map_view_def map_inv_def m1)
  have "?K \<subseteq> dom (map_view ops m)" by auto
  with fin have "finite ?K" by (rule rev_finite_subset)
  then have keys: "set (order ?K) = ?K" "distinct (order ?K)" using order by (auto simp: lists_sets_def)
  have "\<forall>k \<in> set (order ?K). \<exists>v s. map_view ops m1 k = Some (v, s) \<and> sid \<in> s" by (simp add: keys view)
  from map_drop_all[OF C view(2) keys(2) this] obtain m2 where m2:
    "for_each (map_drop_key ops sid) (order ?K) m1 = (Inr (), m2)" "map_inv ops m2"
    "map_view ops m2 = (\<lambda>k. if k \<in> ?K then (case map_view ops m k of None \<Rightarrow> None | Some (v, s) \<Rightarrow>
        if s = {sid} then None else Some (v, s - {sid})) else map_view ops m k)" unfolding keys view(1) by blast
  have "map_view ops m2 k = (case map_view ops m k of None \<Rightarrow> None
      | Some (v, s) \<Rightarrow> if s = {sid} then None else Some (v, s - {sid}))" for k
    using only by (cases "map_view ops m k") (auto simp: m2(3))
  with m2 m1(1) show ?thesis by (intro exI[of _ m2]) (simp add: map_delete_session_def)
qed

theorem map_delete_only_session_witness:
  "\<exists>m'. map_delete_session dict_container sorted_list_of_set ''one'' small_map = (Inr (), m') \<and>
     map_view dict_container m' ''q1'' = None"
proof -
  have "map_view dict_container small_map = Map.empty"
    by (simp add: map_view_def small_map_def dict_container_def fun_eq_iff)
  with map_delete_only_session[OF dict_container_contract small_map_inv lists_sets_sorted, of "''one''"] show ?thesis
    by auto
qed

lemma map_drop_raises:
  assumes C: "container_contract ops"
  shows "map_inv ops m \<Longrightarrow> n \<in> set ks \<Longrightarrow> map_view ops m n = None \<Longrightarrow>
    \<exists>m'. for_each (map_drop_key ops sid) ks m = (Inl KeyError, m')"
proof (induction ks arbitrary: m)
  case (Cons k ks)
  from map_drop_spec[OF C Cons.prems(1), of sid k] obtain r m1 where m1: "map_drop_key ops sid k m = (r, m1)"
    "map_inv ops m1" "case map_view ops m k of
       None \<Rightarrow> r = Inl KeyError \<and> map_view ops m1 = map_view ops m
     | Some (v, s) \<Rightarrow>
         if sid \<in> s
         then r = Inr () \<and> map_view ops m1 = (map_view ops m)(k := (if s = {sid} then None else Some (v, s - {sid})))
         else r = Inl KeyError \<and> map_view ops m1 = map_view ops m" by blast
  show ?case
  proof (cases "r = Inr ()")
    case True
    with m1(3) obtain v s where "map_view ops m k = Some (v, s)"
      "map_view ops m1 = (map_view ops m)(k := (if s = {sid} then None else Some (v, s - {sid})))"
      by (cases "map_view ops m k") (simp_all split: prod.splits if_split_asm)
    with Cons.prems(3) have "k \<noteq> n" "map_view ops m1 n = None" by auto
    then show ?thesis using Cons.IH[OF m1(2)] Cons.prems(2) by (simp add: m1(1) True)
  next
    case False
    with m1(3) have "r = Inl KeyError" by (auto split: option.splits if_splits)
    then show ?thesis by (simp add: m1(1))
  qed
qed simp

text \<open>
  \<open>delete_session\<close> fails as soon as another session is in use: if some cached entry belongs only to other
  sessions, and one of their names is not itself a cached embedding, the call raises \<open>KeyError\<close>, whatever the order
  in which Python lists the collected set.
\<close>

theorem map_delete_session_raises:
  assumes C: "container_contract ops" and inv: "map_inv ops m" and order: "lists_sets order" and "sid \<noteq> []"
    and fin: "finite (dom (map_view ops m))"
    and other: "map_view ops m k = Some (v, s)" "sid \<notin> s" "n \<in> s" "map_view ops m n = None"
  shows "\<exists>m'. map_delete_session ops order sid m = (Inl KeyError, m')"
proof -
  let ?L = "\<Union>(k, v) \<in> Map.graph (map_view ops m). map_listed (Some sid) k (snd v)"
  obtain m1 where m1: "map_list_sessions ops order (Some sid) m = (Inr (order ?L), m1)"
    "ct_lookup ops (mm_data m1) = ct_lookup ops (mm_data m)" "mm_sets m1 = mm_sets m" "mm_next m1 = mm_next m"
    using map_list_spec[OF C, of order "Some sid" m] by blast
  have view: "map_view ops m1 = map_view ops m" "map_inv ops m1"
    using inv by (simp_all add: fun_eq_iff map_view_def map_inv_def m1)
  have "finite (Map.graph (map_view ops m))" using fin by (simp add: finite_graph_iff_finite_dom)
  moreover have "finite (map_listed (Some sid) k (snd x))" if "(k, x) \<in> Map.graph (map_view ops m)" for k x
    using that inv by (auto simp: Map.graph_def map_view_def map_inv_def map_listed_def)
  ultimately have "finite ?L" by auto
  moreover have "n \<in> ?L"
    using other by (auto simp: Map.graph_def map_listed_def intro!: exI[of _ k] exI[of _ v] exI[of _ s])
  ultimately have "n \<in> set (order ?L)" using order by (simp add: lists_sets_def)
  from map_drop_raises[OF C view(2) this, of sid] other(4) show ?thesis
    by (auto simp: map_delete_session_def m1(1) view)
qed

theorem map_delete_session_raises_witness:
  "\<exists>m'. map_delete_session dict_container sorted_list_of_set ''one'' shared_map = (Inl KeyError, m')"
proof -
  have "dom (map_view dict_container shared_map) \<subseteq> {''q1'', ''q2''}"
    by (auto simp: map_view_def shared_map_def dict_container_def split: if_splits)
  then have "finite (dom (map_view dict_container shared_map))" by (rule finite_subset) simp
  from map_delete_session_raises[OF dict_container_contract shared_map_inv lists_sets_sorted _ this,
      of "''one''" "''q2''" _ "{''two''}" "''two''"]
  show ?thesis by (simp add: map_view_def shared_map_def dict_container_def)
qed

end
