(* ===== verification/Bench.thy ===== *)
theory Bench
  imports Eviction
begin

text \<open>
  The benchmark harness \<open>benchmarks/run_bench.py\<close> and the workload generators of \<open>benchmarks/workloads.py\<close>. A workload is replayed against an eviction cache whose
  \<open>on_evict\<close> keeps the set \<open>in_cache\<close> in step; the set is the world of the eviction cache's callback.

  numpy's random generator, mean and percentile are parameters, as is the measured wall time. The lemmas of
  the locale \<open>cache_policy\<close> hold for every policy; the properties state them for GDSF.
\<close>

section \<open>The harness\<close>

record workload =
  wl_name :: string
  wl_requests :: "(nat \<times> real) list"
  wl_n_unique :: nat

record 'c bench_state =
  bs_cache :: "(nat, 'c, nat set) mem_eviction"
  bs_in_cache :: "nat set"
  bs_hits :: nat
  bs_saved :: real
  bs_total :: real
  bs_latencies :: "real list"

record latency_model =
  lm_base_ms :: real
  lm_ms_per_token :: real
  lm_hit_ms :: real

definition bench_on_evict :: "nat list \<Rightarrow> nat set \<Rightarrow> (unit, nat set) outcome" where
  "bench_on_evict keys in_cache = (Inr (), in_cache - set keys)"

definition bench_step ::
  "(real \<Rightarrow> real) \<Rightarrow> latency_model \<Rightarrow> nat \<times> real \<Rightarrow> 'c bench_state \<Rightarrow> 'c bench_state result option" where
  "bench_step rnd lm = (\<lambda>(pid, cost) st.
     let st = st\<lparr>bs_total := rnd (bs_total st + cost)\<rparr>
     in if pid \<in> bs_in_cache st
        then (case mem_get pid (bs_cache st) of
                (Inl e, _) \<Rightarrow> Some (Inl e)
              | (Inr v, c) \<Rightarrow> Some (Inr (st\<lparr>bs_cache := c, bs_hits := bs_hits st + 1, bs_saved := rnd (bs_saved st + cost),
                                       bs_latencies := bs_latencies st @ [lm_hit_ms lm]\<rparr>)))
        else (case mem_put [pid] (Some [cost]) (bs_cache st, bs_in_cache st) of
                None \<Rightarrow> None
              | Some (Inl e, _) \<Rightarrow> Some (Inl e)
              | Some (Inr u, (c, s)) \<Rightarrow>
                  Some (Inr (st\<lparr>bs_cache := c, bs_in_cache := insert pid s,
                     bs_latencies := bs_latencies st @ [rnd (lm_base_ms lm + rnd (lm_ms_per_token lm * cost))]\<rparr>))))"

fun bench_loop ::
  "(real \<Rightarrow> real) \<Rightarrow> latency_model \<Rightarrow> (nat \<times> real) list \<Rightarrow> 'c bench_state \<Rightarrow> 'c bench_state result option" where
  "bench_loop rnd lm [] st = Some (Inr st)"
| "bench_loop rnd lm (x # xs) st =
     (case bench_step rnd lm x st of
        None \<Rightarrow> None
      | Some (Inl e) \<Rightarrow> Some (Inl e)
      | Some (Inr st) \<Rightarrow> bench_loop rnd lm xs st)"

definition bench_clean_size :: "(real \<Rightarrow> real) \<Rightarrow> int \<Rightarrow> real \<Rightarrow> int" where
  "bench_clean_size rnd maxsize clean_ratio = max 1 (py_int (rnd (rnd (of_int maxsize) * clean_ratio)))"

definition bench_start :: "(nat, 'c, nat set) mem_eviction \<Rightarrow> 'c bench_state" where
  "bench_start e = \<lparr>bs_cache = e, bs_in_cache = {}, bs_hits = 0, bs_saved = 0, bs_total = 0, bs_latencies = []\<rparr>"

record bench_row =
  br_policy :: string
  br_maxsize :: int
  br_workload :: string
  br_n_requests :: nat
  br_n_unique :: nat
  br_hit_rate :: real
  br_cost_weighted_hit_rate :: real
  br_saved_tokens :: real
  br_total_tokens :: real
  br_latency_mean_ms :: real
  br_latency_p50_ms :: real
  br_latency_p95_ms :: real
  br_latency_p99_ms :: real
  br_evictions :: int
  br_harness_wall_s :: real
  br_harness_ops_per_s :: real

definition bench_report ::
  "(real \<Rightarrow> real) \<Rightarrow> (real list \<Rightarrow> real) \<Rightarrow> (real list \<Rightarrow> real \<Rightarrow> real) \<Rightarrow> real \<Rightarrow> string \<Rightarrow> int \<Rightarrow> workload
   \<Rightarrow> 'c bench_state \<Rightarrow> bench_row result" where
  "bench_report rnd np_mean np_percentile wall policy maxsize workload st =
     (let n = length (wl_requests workload)
      in if n = 0 \<or> bs_total st = 0 \<or> wall = 0 then Inl ZeroDivisionError
         else Inr \<lparr>br_policy = policy, br_maxsize = maxsize, br_workload = wl_name workload, br_n_requests = n,
           br_n_unique = wl_n_unique workload, br_hit_rate = rnd (real (bs_hits st) / real n),
           br_cost_weighted_hit_rate = rnd (bs_saved st / bs_total st), br_saved_tokens = bs_saved st,
           br_total_tokens = bs_total st, br_latency_mean_ms = np_mean (bs_latencies st),
           br_latency_p50_ms = np_percentile (bs_latencies st) 50,
           br_latency_p95_ms = np_percentile (bs_latencies st) 95,
           br_latency_p99_ms = np_percentile (bs_latencies st) 99,
           br_evictions = int n - int (bs_hits st) - int (card (bs_in_cache st)),
           br_harness_wall_s = wall, br_harness_ops_per_s = rnd (real n / wall)\<rparr>)"

text \<open>
  \<open>factory\<close> is \<open>eviction_factory\<close>; without it the cache is a \<open>MemoryCacheEviction\<close> of the named policy. Both take
  costs in \<open>put\<close>, so \<open>put_takes_cost\<close> is true. (\<open>return_latencies\<close> only changes what is returned.)
\<close>

definition run_one ::
  "(real \<Rightarrow> real) \<Rightarrow> (real list \<Rightarrow> real) \<Rightarrow> (real list \<Rightarrow> real \<Rightarrow> real) \<Rightarrow> real
   \<Rightarrow> (policy_kind \<Rightarrow> int \<Rightarrow> 'c \<times> (nat, 'c, nat set) cache_methods) \<Rightarrow> string \<Rightarrow> int \<Rightarrow> workload \<Rightarrow> real \<Rightarrow> latency_model
   \<Rightarrow> (int \<Rightarrow> int \<Rightarrow> (nat, nat set) on_evict \<Rightarrow> (nat, 'c, nat set) mem_eviction) option \<Rightarrow> bench_row result option" where
  "run_one rnd np_mean np_percentile wall new_cache policy maxsize workload clean_ratio lm factory =
     (let clean_size = bench_clean_size rnd maxsize clean_ratio
      in case (case factory of
                 Some f \<Rightarrow> Inr (f maxsize clean_size (Some bench_on_evict))
               | None \<Rightarrow> mem_init new_cache policy maxsize clean_size (Some bench_on_evict)) of
           Inl e \<Rightarrow> Some (Inl e)
         | Inr cache \<Rightarrow>
             (case bench_loop rnd lm (wl_requests workload) (bench_start cache) of
                None \<Rightarrow> None
              | Some (Inl e) \<Rightarrow> Some (Inl e)
              | Some (Inr st) \<Rightarrow> Some (bench_report rnd np_mean np_percentile wall policy maxsize workload st)))"

section \<open>The workloads\<close>

text \<open>
  What the generators draw from \<open>numpy.random\<close>: prompt ids, one cost for every unique prompt and a permutation.
  The clipping of the log-normal costs is the code's own.
\<close>

record rng =
  rg_choice :: "nat \<Rightarrow> nat \<Rightarrow> real list \<Rightarrow> nat list"
  rg_integers :: "nat \<Rightarrow> nat \<Rightarrow> nat list"
  rg_lognormal :: "nat \<Rightarrow> real list"
  rg_uniform :: "real \<Rightarrow> real \<Rightarrow> nat \<Rightarrow> real list"
  rg_permutation :: "nat \<Rightarrow> nat list"

definition make_costs :: "rng \<Rightarrow> nat \<Rightarrow> string \<Rightarrow> real list result" where
  "make_costs rng n_unique kind =
     (if kind = ''lognormal'' then Inr (map (\<lambda>c. min (max c 10) 4000) (rg_lognormal rng n_unique))
      else if kind = ''short'' then Inr (rg_uniform rng 10 50 n_unique)
      else if kind = ''long'' then Inr (rg_uniform rng 1000 3000 n_unique)
      else Inl ValueError)"

text \<open>\<open>probs = 1 / ranks**s; probs /= probs.sum()\<close>; \<open>pow\<close> is the float power.\<close>

definition zipf_probs :: "(real \<Rightarrow> real) \<Rightarrow> (real \<Rightarrow> real \<Rightarrow> real) \<Rightarrow> nat \<Rightarrow> real \<Rightarrow> real list" where
  "zipf_probs rnd pow n_unique s =
     (let probs = map (\<lambda>r. rnd (1 / pow (real r) s)) [1..<n_unique + 1]
      in map (\<lambda>p. rnd (p / sum_list probs)) probs)"

text \<open>\<open>ids[half:] = remap[ids[half:]]\<close>.\<close>

definition drift_ids :: "nat list \<Rightarrow> nat \<Rightarrow> nat list \<Rightarrow> nat list" where
  "drift_ids remap n_requests ids =
     (let half = n_requests div 2 in take half ids @ map (\<lambda>i. remap ! i) (drop half ids))"

definition with_costs :: "real list \<Rightarrow> nat list \<Rightarrow> (nat \<times> real) list" where
  "with_costs costs ids = map (\<lambda>i. (i, costs ! i)) ids"

definition zipf_workload ::
  "(real \<Rightarrow> real) \<Rightarrow> (real \<Rightarrow> real \<Rightarrow> real) \<Rightarrow> (real \<Rightarrow> string) \<Rightarrow> rng \<Rightarrow> nat \<Rightarrow> nat \<Rightarrow> real \<Rightarrow> string \<Rightarrow> bool \<Rightarrow> workload result"
where
  "zipf_workload rnd pow str rng n_requests n_unique s cost_kind drift =
     (let ids = rg_choice rng n_unique n_requests (zipf_probs rnd pow n_unique s);
          ids = (if drift then drift_ids (rg_permutation rng n_unique) n_requests ids else ids)
      in bind_res (make_costs rng n_unique cost_kind) (\<lambda>costs.
           Inr \<lparr>wl_name = ''zipf_s'' @ str s @ (if drift then ''_drift'' else []),
             wl_requests = with_costs costs ids, wl_n_unique = n_unique\<rparr>))"

definition repetitive_short_workload :: "rng \<Rightarrow> nat \<Rightarrow> nat \<Rightarrow> workload result" where
  "repetitive_short_workload rng n_requests n_unique =
     (let ids = rg_integers rng n_unique n_requests
      in bind_res (make_costs rng n_unique ''short'') (\<lambda>costs.
           Inr \<lparr>wl_name = ''repetitive_short'', wl_requests = with_costs costs ids, wl_n_unique = n_unique\<rparr>))"

definition novel_long_workload :: "rng \<Rightarrow> nat \<Rightarrow> workload result" where
  "novel_long_workload rng n_requests =
     bind_res (make_costs rng n_requests ''long'') (\<lambda>costs.
       Inr \<lparr>wl_name = ''novel_long'', wl_requests = with_costs costs [0..<n_requests], wl_n_unique = n_requests\<rparr>)"

text \<open>\<open>file_costs\<close> are the numbers of the data file.\<close>

definition oasst_workload ::
  "(real \<Rightarrow> real) \<Rightarrow> (real \<Rightarrow> real \<Rightarrow> real) \<Rightarrow> (real \<Rightarrow> string) \<Rightarrow> rng \<Rightarrow> rng \<Rightarrow> real list \<Rightarrow> nat \<Rightarrow> real \<Rightarrow> bool \<Rightarrow> workload"
where
  "oasst_workload rnd pow str rng rng2 file_costs n_requests s drift =
     (let n_unique = length file_costs;
          costs = map (\<lambda>i. file_costs ! i) (rg_permutation rng n_unique);
          ids = rg_choice rng n_unique n_requests (zipf_probs rnd pow n_unique s);
          ids = (if drift then drift_ids (rg_permutation rng2 n_unique) n_requests ids else ids)
      in \<lparr>wl_name = ''oasst_s'' @ str s @ (if drift then ''_drift'' else []),
          wl_requests = with_costs costs ids, wl_n_unique = n_unique\<rparr>)"

section \<open>A replay keeps the harness and the cache in step\<close>

text \<open>
  The books of a run as they ought to be, read off the states the harness goes through: which requests found their
  prompt in the cache (\<open>keys\<close>: the cached keys, whatever the harness's own set says), the requests' costs summed up in
  order, and the number of entries that have left the cache.
\<close>

fun bench_states ::
  "(real \<Rightarrow> real) \<Rightarrow> latency_model \<Rightarrow> (nat \<times> real) list \<Rightarrow> 'c bench_state \<Rightarrow> 'c bench_state list" where
  "bench_states rnd lm [] st = [st]"
| "bench_states rnd lm (x # xs) st =
     st # (case bench_step rnd lm x st of Some (Inr st') \<Rightarrow> bench_states rnd lm xs st' | _ \<Rightarrow> [])"

definition served_flags :: "('c \<Rightarrow> nat set) \<Rightarrow> 'c bench_state list \<Rightarrow> (nat \<times> real) list \<Rightarrow> bool list" where
  "served_flags keys sts reqs = map (\<lambda>(st, p, c). p \<in> keys (me_cache (bs_cache st))) (zip sts reqs)"

definition cost_sum :: "(real \<Rightarrow> real) \<Rightarrow> real \<Rightarrow> real list \<Rightarrow> real" where
  "cost_sum rnd a cs = foldl (\<lambda>s c. rnd (s + c)) a cs"

definition served_costs :: "bool list \<Rightarrow> (nat \<times> real) list \<Rightarrow> real list" where
  "served_costs flags reqs = map (snd \<circ> snd) (filter fst (zip flags reqs))"

definition request_latency :: "(real \<Rightarrow> real) \<Rightarrow> latency_model \<Rightarrow> bool \<Rightarrow> nat \<times> real \<Rightarrow> real" where
  "request_latency rnd lm served = (\<lambda>(p, c). if served then lm_hit_ms lm else rnd (lm_base_ms lm + rnd (lm_ms_per_token lm * c)))"

fun departures :: "('c \<Rightarrow> nat set) \<Rightarrow> 'c bench_state list \<Rightarrow> nat" where
  "departures keys (a # b # sts) =
     card (keys (me_cache (bs_cache a)) - keys (me_cache (bs_cache b))) + departures keys (b # sts)"
| "departures keys sts = 0"

lemma bench_states_Cons: "\<exists>sts. bench_states rnd lm xs st = st # sts"
  by (cases xs) simp_all

text \<open>
  \<open>e\<close> is an eviction cache of the policy with room for \<open>n\<close> entries whose keys are \<open>s\<close>, with the harness's callback
  and a clean size that the wrapped \<open>popitem\<close> can serve.
\<close>

definition bench_sync where
  "bench_sync popitem getitem store keys maxsize ok room too_large n e s \<longleftrightarrow>
     policy_methods popitem getitem store room too_large (me_methods e) \<and> ok (me_cache e) \<and>
     maxsize (me_cache e) = n \<and> 1 \<le> n \<and> keys (me_cache e) = s \<and> card s \<le> n \<and>
     1 \<le> me_clean e \<and> me_clean e \<le> int n \<and> me_on_evict e = Some bench_on_evict"

locale bench_policy = cache_policy popitem getitem store keys maxsize inv storable room too_large
  for popitem :: "'c \<Rightarrow> (nat \<times> pyval, 'c) outcome" and getitem store keys maxsize inv storable room too_large
begin

abbreviation sync where
  "sync \<equiv> bench_sync popitem getitem store keys maxsize inv room too_large"

lemma sync_finite: "sync n e s \<Longrightarrow> finite s"
  using keys_finite unfolding bench_sync_def by blast

lemma put_sync:
  assumes s: "sync n e s" and v: "storable (VFloat cost)" and k: "k \<notin> s"
  shows "\<exists>e' s'. mem_put [k] (Some [cost]) (e, s) = Some (Inr (), (e', s')) \<and> sync n e' (insert k s') \<and>
    s' \<subseteq> s \<and> (card s < n \<longrightarrow> s' = s)"
proof -
  let ?c = "me_cache e"
  have m: "policy_methods popitem getitem store room too_large (me_methods e)" and c: "inv ?c" "1 \<le> maxsize ?c"
    and n: "maxsize ?c = n" "keys ?c = s" "card s \<le> n" "1 \<le> me_clean e" "me_clean e \<le> int (maxsize ?c)"
    and f: "me_on_evict e = Some bench_on_evict"
    using s by (auto simp: bench_sync_def)
  have put: "mem_put [k] (Some [cost]) (e, s) = mem_set k (VFloat cost) (e, s)"
    by (auto simp: mem_put_def cost_value_def py_nth_def split: option.splits sum.splits)
  show ?thesis
  proof (cases "card s < n")
    case True
    let ?e = "e\<lparr>me_cache := store k (VFloat cost) ?c\<rparr>"
    have run: "mem_put [k] (Some [cost]) (e, s) = Some (Inr (), (?e, s))"
      unfolding put using setitem_room[OF m c] True n by (simp add: mem_set_def)
    have fin: "finite s" using keys_finite[OF c(1)] n(2) by simp
    have "sync n ?e (insert k s)"
      using m c n f v True fin by (auto simp: bench_sync_def store_keys store_inv store_maxsize card_insert_if)
    with run show ?thesis by (intro exI[of _ ?e] exI[of _ s]) simp
  next
    case False
    then have full: "card (keys ?c) = maxsize ?c" "k \<notin> keys ?c" using n k by auto
    obtain ks c1 where ks: "set ks \<subseteq> keys ?c" "distinct ks" "length ks = nat (me_clean e)"
      and c1: "keys c1 = keys ?c - set ks" "inv c1" "maxsize c1 = maxsize ?c"
      and run: "m_setitem (me_methods e) (popitem_wrapper popitem (me_on_evict e) (me_clean e)) k (VFloat cost) (?c, s) =
       (case call_on_evict (me_on_evict e) ks s of
          (Inl er, w') \<Rightarrow> Some (Inl er, (c1, w'))
        | (Inr u, w') \<Rightarrow> Some (Inr (), (store k (VFloat cost) c1, w')))"
      by (rule setitem_full[OF m c full(2,1) n(4,5)])
    let ?e = "e\<lparr>me_cache := store k (VFloat cost) c1\<rparr>"
    have run: "mem_put [k] (Some [cost]) (e, s) = Some (Inr (), (?e, s - set ks))"
      unfolding put using run by (simp add: mem_set_def policy_methodsD(1)[OF m] f call_on_evict_def bench_on_evict_def)
    have fin: "finite s" using keys_finite[OF c(1)] n(2) by simp
    have "ks \<noteq> []" using ks(3) n(4) by auto
    then have "s - set ks \<subset> s" using ks(1) n(2) by (cases ks) auto
    then have "card (s - set ks) < card s" by (rule psubset_card_mono[OF fin])
    then have "card (insert k (s - set ks)) \<le> n" using fin n(3) by (simp add: card_insert_if)
    then have "sync n ?e (insert k (s - set ks))"
      using m c c1 n f v by (auto simp: bench_sync_def store_keys store_inv store_maxsize)
    with run False show ?thesis by (intro exI[of _ ?e] exI[of _ "s - set ks"]) auto
  qed
qed

lemma get_sync:
  assumes s: "sync n e s" and k: "k \<in> s"
  shows "\<exists>v e'. mem_get k e = (Inr (Some v), e') \<and> sync n e' s"
proof -
  have m: "policy_methods popitem getitem store room too_large (me_methods e)" and c: "inv (me_cache e)" and n: "keys (me_cache e) = s"
    using s by (auto simp: bench_sync_def)
  from get_total[OF c, of k] k n obtain v c1 where g: "mapping_get getitem k (me_cache e) = (Inr (Some v), c1)"
    "keys c1 = keys (me_cache e)" "inv c1" "maxsize c1 = maxsize (me_cache e)" by fastforce
  then have "mem_get k e = (Inr (Some v), e\<lparr>me_cache := c1\<rparr>)"
    by (simp add: mem_get_def policy_methodsD(2)[OF m])
  with g s show ?thesis by (auto simp: bench_sync_def)
qed

text \<open>One request.\<close>

lemma step_sync:
  assumes s: "sync n (bs_cache st) (bs_in_cache st)" and v: "storable (VFloat cost)"
  shows "\<exists>st'. bench_step rnd lm (pid, cost) st = Some (Inr st') \<and> sync n (bs_cache st') (bs_in_cache st') \<and>
    bs_total st' = rnd (bs_total st + cost) \<and>
    pid \<in> bs_in_cache st' \<and> bs_in_cache st' \<subseteq> insert pid (bs_in_cache st) \<and>
    (pid \<in> bs_in_cache st \<longrightarrow> bs_in_cache st' = bs_in_cache st \<and> bs_hits st' = bs_hits st + 1 \<and>
       bs_saved st' = rnd (bs_saved st + cost) \<and> bs_latencies st' = bs_latencies st @ [lm_hit_ms lm]) \<and>
    (pid \<notin> bs_in_cache st \<longrightarrow> bs_hits st' = bs_hits st \<and> bs_saved st' = bs_saved st \<and>
       (card (bs_in_cache st) < n \<longrightarrow> bs_in_cache st' = insert pid (bs_in_cache st)) \<and>
       bs_latencies st' = bs_latencies st @ [rnd (lm_base_ms lm + rnd (lm_ms_per_token lm * cost))])"
proof (cases "pid \<in> bs_in_cache st")
  case True
  from get_sync[OF s True] obtain v e' where g: "mem_get pid (bs_cache st) = (Inr (Some v), e')"
    and e': "sync n e' (bs_in_cache st)" by blast
  from g e' True show ?thesis by (auto simp: bench_step_def Let_def)
next
  case False
  from put_sync[OF s v False] obtain e' s' where g: "mem_put [pid] (Some [cost]) (bs_cache st, bs_in_cache st) = Some (Inr (), (e', s'))"
    and e': "sync n e' (insert pid s')" "s' \<subseteq> bs_in_cache st" "card (bs_in_cache st) < n \<longrightarrow> s' = bs_in_cache st" by blast
  from g e' False show ?thesis by (auto simp: bench_step_def Let_def)
qed

lemma loop_sync:
  assumes "sync n (bs_cache st) (bs_in_cache st)" and "\<forall>(p, c) \<in> set xs. storable (VFloat c)"
  shows "\<exists>st'. bench_loop rnd lm xs st = Some (Inr st') \<and> sync n (bs_cache st') (bs_in_cache st') \<and>
    bs_in_cache st' \<subseteq> bs_in_cache st \<union> fst ` set xs \<and>
    length (bs_latencies st') = length (bs_latencies st) + length xs \<and>
    bs_hits st \<le> bs_hits st' \<and> bs_hits st' \<le> bs_hits st + length xs \<and>
    bs_hits st' + card (bs_in_cache st') \<le> bs_hits st + card (bs_in_cache st) + length xs"
  using assms
proof (induction xs arbitrary: st)
  case (Cons x xs)
  obtain pid cost where x: "x = (pid, cost)" by (rule prod.exhaust)
  with Cons.prems(2) have v: "storable (VFloat cost)" by simp
  from step_sync[OF Cons.prems(1) v, of rnd lm pid] obtain st1 where
    st1: "bench_step rnd lm (pid, cost) st = Some (Inr st1)" "sync n (bs_cache st1) (bs_in_cache st1)"
      "bs_in_cache st1 \<subseteq> insert pid (bs_in_cache st)"
      "pid \<in> bs_in_cache st \<longrightarrow> bs_in_cache st1 = bs_in_cache st \<and> bs_hits st1 = bs_hits st + 1"
      "pid \<notin> bs_in_cache st \<longrightarrow> bs_hits st1 = bs_hits st"
      "length (bs_latencies st1) = Suc (length (bs_latencies st))" by fastforce
  from Cons.IH[OF st1(2)] Cons.prems(2) obtain st' where
    st': "bench_loop rnd lm xs st1 = Some (Inr st')" "sync n (bs_cache st') (bs_in_cache st')"
      "bs_in_cache st' \<subseteq> bs_in_cache st1 \<union> fst ` set xs"
      "length (bs_latencies st') = length (bs_latencies st1) + length xs"
      "bs_hits st1 \<le> bs_hits st' \<and> bs_hits st' \<le> bs_hits st1 + length xs"
      "bs_hits st' + card (bs_in_cache st') \<le> bs_hits st1 + card (bs_in_cache st1) + length xs" by auto
  have fin: "finite (bs_in_cache st)" by (rule sync_finite[OF Cons.prems(1)])
  have "bs_hits st1 + card (bs_in_cache st1) \<le> Suc (bs_hits st + card (bs_in_cache st))"
  proof (cases "pid \<in> bs_in_cache st")
    case False
    have "card (bs_in_cache st1) \<le> card (insert pid (bs_in_cache st))" using st1(3) fin by (intro card_mono) auto
    with False st1(5) fin show ?thesis by simp
  qed (use st1(4) in simp)
  moreover have "bs_hits st \<le> bs_hits st1" "bs_hits st1 \<le> bs_hits st + 1" using st1(4,5) by (cases "pid \<in> bs_in_cache st"; simp)+
  ultimately show ?case using st1 st' by (intro exI[of _ st']) (auto simp: x)
qed simp

text \<open>The harness keeps its books right.\<close>

lemma loop_books:
  assumes "sync n (bs_cache st) (bs_in_cache st)" and "\<forall>(p, c) \<in> set xs. storable (VFloat c)"
    and "sts = bench_states rnd lm xs st" and "flags = served_flags keys sts xs"
  shows "\<exists>st'. bench_loop rnd lm xs st = Some (Inr st') \<and> last sts = st' \<and> length flags = length xs \<and>
    bs_hits st' = bs_hits st + count_list flags True \<and>
    bs_saved st' = cost_sum rnd (bs_saved st) (served_costs flags xs) \<and>
    bs_total st' = cost_sum rnd (bs_total st) (map snd xs) \<and>
    bs_latencies st' = bs_latencies st @ map2 (request_latency rnd lm) flags xs \<and>
    bs_hits st' + card (bs_in_cache st') + departures keys sts = bs_hits st + card (bs_in_cache st) + length xs"
  using assms
proof (induction xs arbitrary: st sts flags)
  case Nil
  then show ?case by (simp add: served_flags_def served_costs_def cost_sum_def)
next
  case (Cons x xs)
  obtain pid cost where x: "x = (pid, cost)" by (rule prod.exhaust)
  with Cons.prems(2) have v: "storable (VFloat cost)" by simp
  from step_sync[OF Cons.prems(1) v, of rnd lm pid] obtain st1 where
    step: "bench_step rnd lm x st = Some (Inr st1)" and s1: "sync n (bs_cache st1) (bs_in_cache st1)"
    and total: "bs_total st1 = rnd (bs_total st + cost)"
    and set1: "pid \<in> bs_in_cache st1" "bs_in_cache st1 \<subseteq> insert pid (bs_in_cache st)"
    and hit: "pid \<in> bs_in_cache st \<longrightarrow> bs_in_cache st1 = bs_in_cache st \<and> bs_hits st1 = bs_hits st + 1 \<and>
       bs_saved st1 = rnd (bs_saved st + cost) \<and> bs_latencies st1 = bs_latencies st @ [lm_hit_ms lm]"
    and miss: "pid \<notin> bs_in_cache st \<longrightarrow> bs_hits st1 = bs_hits st \<and> bs_saved st1 = bs_saved st \<and>
       bs_latencies st1 = bs_latencies st @ [rnd (lm_base_ms lm + rnd (lm_ms_per_token lm * cost))]"
    unfolding x by blast
  let ?sts = "bench_states rnd lm xs st1"
  have cons: "\<forall>(p, c) \<in> set xs. storable (VFloat c)" using Cons.prems(2) by simp
  from Cons.IH[OF s1 cons refl refl] obtain st' where
    st': "bench_loop rnd lm xs st1 = Some (Inr st')" "last ?sts = st'" "length (served_flags keys ?sts xs) = length xs"
      "bs_hits st' = bs_hits st1 + count_list (served_flags keys ?sts xs) True"
      "bs_saved st' = cost_sum rnd (bs_saved st1) (served_costs (served_flags keys ?sts xs) xs)"
      "bs_total st' = cost_sum rnd (bs_total st1) (map snd xs)"
      "bs_latencies st' = bs_latencies st1 @ map2 (request_latency rnd lm) (served_flags keys ?sts xs) xs"
      "bs_hits st' + card (bs_in_cache st') + departures keys ?sts = bs_hits st1 + card (bs_in_cache st1) + length xs" by blast
  have keys: "keys (me_cache (bs_cache st)) = bs_in_cache st" "keys (me_cache (bs_cache st1)) = bs_in_cache st1"
    using Cons.prems(1) s1 by (simp_all add: bench_sync_def)
  have sts: "sts = st # ?sts" using Cons.prems(3) step by simp
  have flags: "flags = (pid \<in> bs_in_cache st) # served_flags keys ?sts xs"
    using Cons.prems(4) by (simp add: sts served_flags_def x keys)
  have dep: "departures keys sts = card (bs_in_cache st - bs_in_cache st1) + departures keys ?sts"
    using bench_states_Cons[of rnd lm xs st1] by (auto simp: sts keys)
  have last: "last sts = st'" using bench_states_Cons[of rnd lm xs st1] st'(2) by (auto simp: sts)
  have fin: "finite (bs_in_cache st)" "finite (bs_in_cache st1)" using sync_finite Cons.prems(1) s1 by blast+
  have size: "bs_hits st1 + card (bs_in_cache st1) + card (bs_in_cache st - bs_in_cache st1) =
      Suc (bs_hits st + card (bs_in_cache st))"
  proof (cases "pid \<in> bs_in_cache st")
    case False
    have "bs_in_cache st1 = insert pid (bs_in_cache st \<inter> bs_in_cache st1)" using set1 by blast
    then have "card (bs_in_cache st1) = Suc (card (bs_in_cache st \<inter> bs_in_cache st1))"
      using False fin by (metis IntD1 card_insert_disjoint finite_Int)
    moreover have "card (bs_in_cache st) = card (bs_in_cache st \<inter> bs_in_cache st1) + card (bs_in_cache st - bs_in_cache st1)"
      using fin card_Int_Diff by blast
    ultimately show ?thesis using False miss by simp
  qed (use hit in simp)
  show ?case
    using step st' last total hit miss size dep unfolding flags x
    by (cases "pid \<in> bs_in_cache st") (auto simp: served_costs_def cost_sum_def request_latency_def)
qed

text \<open>New prompts only: no hit.\<close>

lemma loop_novel:
  assumes "sync n (bs_cache st) (bs_in_cache st)" and "\<forall>(p, c) \<in> set xs. storable (VFloat c)"
    and "distinct (map fst xs)" and "fst ` set xs \<inter> bs_in_cache st = {}"
  shows "\<exists>st'. bench_loop rnd lm xs st = Some (Inr st') \<and> bs_hits st' = bs_hits st \<and> bs_saved st' = bs_saved st \<and>
    bs_latencies st' = bs_latencies st @ map (\<lambda>(p, c). rnd (lm_base_ms lm + rnd (lm_ms_per_token lm * c))) xs"
  using assms
proof (induction xs arbitrary: st)
  case (Cons x xs)
  obtain pid cost where x: "x = (pid, cost)" by (rule prod.exhaust)
  with Cons.prems have v: "storable (VFloat cost)" "pid \<notin> bs_in_cache st" by auto
  from step_sync[OF Cons.prems(1) v(1), of rnd lm pid] v(2) obtain st1 where
    st1: "bench_step rnd lm (pid, cost) st = Some (Inr st1)" "sync n (bs_cache st1) (bs_in_cache st1)"
      "bs_in_cache st1 \<subseteq> insert pid (bs_in_cache st)" "bs_hits st1 = bs_hits st" "bs_saved st1 = bs_saved st"
      "bs_latencies st1 = bs_latencies st @ [rnd (lm_base_ms lm + rnd (lm_ms_per_token lm * cost))]" by blast
  have "fst ` set xs \<inter> bs_in_cache st1 = {}" using Cons.prems(3,4) st1(3) by (auto simp: x)
  with Cons.IH[OF st1(2)] Cons.prems st1 show ?case by (auto simp: x)
qed simp

text \<open>All prompts fit: every request but the first of its prompt is a hit.\<close>

lemma loop_fits:
  assumes "sync n (bs_cache st) (bs_in_cache st)" and "\<forall>(p, c) \<in> set xs. storable (VFloat c)"
    and "card (bs_in_cache st \<union> fst ` set xs) \<le> n"
  shows "\<exists>st'. bench_loop rnd lm xs st = Some (Inr st') \<and> bs_in_cache st' = bs_in_cache st \<union> fst ` set xs \<and>
    bs_hits st' + card (bs_in_cache st') = bs_hits st + card (bs_in_cache st) + length xs"
  using assms
proof (induction xs arbitrary: st)
  case (Cons x xs)
  obtain pid cost where x: "x = (pid, cost)" by (rule prod.exhaust)
  with Cons.prems have v: "storable (VFloat cost)" by auto
  have fin: "finite (bs_in_cache st)" by (rule sync_finite[OF Cons.prems(1)])
  have "card (bs_in_cache st) < n" if "pid \<notin> bs_in_cache st"
  proof -
    have "card (bs_in_cache st) < card (bs_in_cache st \<union> fst ` set (x # xs))"
      using that fin by (intro psubset_card_mono) (auto simp: x)
    with Cons.prems(3) show ?thesis by simp
  qed
  with step_sync[OF Cons.prems(1) v, of rnd lm pid] obtain st1 where
    st1: "bench_step rnd lm (pid, cost) st = Some (Inr st1)" "sync n (bs_cache st1) (bs_in_cache st1)"
      "bs_in_cache st1 = insert pid (bs_in_cache st)"
      "bs_hits st1 + card (bs_in_cache st1) = Suc (bs_hits st + card (bs_in_cache st))"
    by (cases "pid \<in> bs_in_cache st") (auto simp: insert_absorb fin)
  have "card (bs_in_cache st1 \<union> fst ` set xs) \<le> n" using Cons.prems(3) by (simp add: st1(3) x)
  from Cons.IH[OF st1(2) _ this] Cons.prems(2) obtain st' where
    "bench_loop rnd lm xs st1 = Some (Inr st')" "bs_in_cache st' = bs_in_cache st1 \<union> fst ` set xs"
    "bs_hits st' + card (bs_in_cache st') = bs_hits st1 + card (bs_in_cache st1) + length xs" by auto
  with st1 show ?case by (auto simp: x)
qed simp

end

interpretation gbench: bench_policy gdsf_popitem "gdsf_getitem rnd" "gdsf_store rnd" gdsf_keys
    "gdsf_maxsize msz" "gdsf_policy_inv rnd msz" "\<lambda>v. 0 \<le> cost_of rnd v" gdsf_room gdsf_too_large
  for rnd msz
  by unfold_locales

section \<open>Properties\<close>

text \<open>\<open>new_cache\<close> builds an empty GDSF cache with room for \<open>n\<close> entries.\<close>

definition builds_gdsf where
  "builds_gdsf rnd msz new_cache n \<longleftrightarrow> (\<exists>g base_set. new_cache GDSF (int n) = (g, gdsf_methods rnd base_set) \<and>
     base_set_contract base_set \<and> gdsf_policy_inv rnd msz g \<and> gdsf_keys g = {} \<and> gdsf_maxsize msz g = n)"

lemma bench_clean_size_bounds:
  assumes rnd: "float_rounding rnd" and n: "1 \<le> n" "n \<le> 2 ^ 53" and ratio: "0 \<le> ratio" "ratio \<le> 1"
  shows "1 \<le> bench_clean_size rnd n ratio" "bench_clean_size rnd n ratio \<le> n"
proof -
  have rn: "rnd (of_int n) = of_int n" using n by (intro rnd_int[OF rnd]) simp
  have "0 \<le> rnd (rnd (of_int n) * ratio)" unfolding rn using n ratio by (intro rnd_nonneg[OF rnd]) simp
  moreover have "rnd (rnd (of_int n) * ratio) \<le> of_int n"
    using rnd_mono[OF rnd, of "of_int n * ratio" "of_int n"] n ratio by (simp add: rn mult_left_le)
  ultimately have "py_int (rnd (rnd (of_int n) * ratio)) \<le> n" by (simp add: py_int_def floor_le_iff)
  then show "1 \<le> bench_clean_size rnd n ratio" "bench_clean_size rnd n ratio \<le> n"
    using n by (simp_all add: bench_clean_size_def)
qed

lemma run_one_gdsf:
  assumes rnd: "float_rounding rnd" and new: "builds_gdsf rnd msz new_cache n"
    and n: "1 \<le> n" "n \<le> 2 ^ 53" and ratio: "0 \<le> ratio" "ratio \<le> 1"
  obtains e where "gbench.sync rnd msz n e {}"
    "mem_init new_cache ''GDSF'' (int n) (bench_clean_size rnd (int n) ratio) (Some bench_on_evict) = Inr e"
    "\<And>wl st. bench_loop rnd lm (wl_requests wl) (bench_start e) = Some (Inr st) \<Longrightarrow>
       run_one rnd mean pct wall new_cache ''GDSF'' (int n) wl ratio lm None =
         Some (bench_report rnd mean pct wall ''GDSF'' (int n) wl st)"
proof -
  from new obtain g base_set where g: "new_cache GDSF (int n) = (g, gdsf_methods rnd base_set)"
    "base_set_contract base_set" "gdsf_policy_inv rnd msz g" "gdsf_keys g = {}" "gdsf_maxsize msz g = n"
    unfolding builds_gdsf_def by blast
  let ?clean = "bench_clean_size rnd (int n) ratio"
  let ?e = "\<lparr>me_policy = ''GDSF'', me_cache = g, me_methods = gdsf_methods rnd base_set, me_clean = ?clean,
    me_on_evict = Some bench_on_evict\<rparr>"
  have "int n \<le> int (2 ^ 53)" using n(2) by (simp only: zle_int)
  then have n': "1 \<le> int n" "int n \<le> 2 ^ 53" using n(1) by simp_all
  have upper: "py_upper ''GDSF'' = ''GDSF''" by code_simp
  have init: "mem_init new_cache ''GDSF'' (int n) ?clean (Some bench_on_evict) = Inr ?e"
    by (simp add: mem_init_def select_policy_def upper g)
  have "gbench.sync rnd msz n ?e {}"
    using g bench_clean_size_bounds[OF rnd n' ratio] n
    by (simp add: bench_sync_def gdsf_policy_methods)
  then show thesis by (rule that[OF _ init]) (simp add: run_one_def Let_def init)
qed

text \<open>A GDSF cache over the list class, and a generator without randomness.\<close>

definition list_gdsf ::
  "policy_kind \<Rightarrow> int \<Rightarrow> (nat, nat \<times> (nat \<times> pyval) list) gdsf
     \<times> (nat, (nat, nat \<times> (nat \<times> pyval) list) gdsf, nat set) cache_methods" where
  "list_gdsf kind maxsize = (gdsf_init list_cls (nat maxsize, []), gdsf_methods (\<lambda>x. x) run_base_set)"

lemma list_gdsf_builds: "builds_gdsf (\<lambda>x. x) fst list_gdsf n"
proof -
  let ?g = "gdsf_init list_cls (n, []) :: (nat, nat \<times> (nat \<times> pyval) list) gdsf"
  have get: "c_get list_cls (n, []) = Map.empty" by (simp add: list_cls_def)
  have "gdsf_policy_inv (\<lambda>x. x) fst ?g"
    using gdsf_inv_init[where base = "(n, [])", OF float_rounding_id list_cls_contract get] list_cls_unit
    by (simp add: gdsf_policy_inv_def gdsf_init_def)
  moreover have "gdsf_keys ?g = {}" "gdsf_maxsize fst ?g = n"
    by (simp_all add: gdsf_keys_def gdsf_init_def get gdsf_maxsize_def)
  ultimately show ?thesis
    unfolding builds_gdsf_def by (intro exI[of _ ?g] exI[of _ run_base_set]) (simp add: list_gdsf_def run_base_set_contract)
qed

definition dull_rng :: rng where
  "dull_rng = \<lparr>rg_choice = (\<lambda>m n p. replicate n 0), rg_integers = (\<lambda>m n. replicate n 0),
     rg_lognormal = (\<lambda>n. replicate n 20), rg_uniform = (\<lambda>a b n. replicate n a), rg_permutation = (\<lambda>n. [0..<n])\<rparr>"

text \<open>
  C25. The benchmark's bookkeeping is right. Replaying any workload against GDSF terminates without an error, and what the
  harness has counted is what has happened: a request counts as a hit exactly when its prompt was cached at that moment,
  the saved cost is the sum of the costs of these requests and the total that of all of them (added in order, as
  floats), every request has its latency (that of a hit, or base plus cost times rate), and the reported number of
  evictions is the number of entries that have left the cache. At the end the harness's set is what the
  cache holds, no more than \<open>maxsize\<close> entries.
\<close>

theorem bench_accounting:
  fixes new_cache :: "policy_kind \<Rightarrow> int \<Rightarrow> (nat, 'b) gdsf \<times> (nat, (nat, 'b) gdsf, nat set) cache_methods"
  assumes rnd: "float_rounding rnd" and new: "builds_gdsf rnd msz new_cache n"
    and n: "1 \<le> n" "n \<le> 2 ^ 53" and ratio: "0 \<le> ratio" "ratio \<le> 1"
    and costs: "\<forall>(p, c) \<in> set (wl_requests wl). 0 \<le> c"
  shows "\<exists>e sts flags st.
    mem_init new_cache ''GDSF'' (int n) (bench_clean_size rnd (int n) ratio) (Some bench_on_evict) = Inr e \<and>
    sts = bench_states rnd lm (wl_requests wl) (bench_start e) \<and> st = last sts \<and>
    flags = served_flags gdsf_keys sts (wl_requests wl) \<and> length flags = length (wl_requests wl) \<and>
    run_one rnd mean pct wall new_cache ''GDSF'' (int n) wl ratio lm None =
      Some (bench_report rnd mean pct wall ''GDSF'' (int n) wl st) \<and>
    bs_in_cache st = gdsf_keys (me_cache (bs_cache st)) \<and> card (bs_in_cache st) \<le> n \<and>
    bs_hits st = count_list flags True \<and>
    bs_saved st = cost_sum rnd 0 (served_costs flags (wl_requests wl)) \<and>
    bs_total st = cost_sum rnd 0 (map snd (wl_requests wl)) \<and>
    bs_latencies st = map2 (request_latency rnd lm) flags (wl_requests wl) \<and>
    (\<forall>row. bench_report rnd mean pct wall ''GDSF'' (int n) wl st = Inr row \<longrightarrow>
       br_evictions row = int (departures gdsf_keys sts) \<and> br_saved_tokens row = bs_saved st \<and>
       br_total_tokens row = bs_total st \<and> br_hit_rate row = rnd (real (bs_hits st) / real (length flags)) \<and>
       br_cost_weighted_hit_rate row = rnd (bs_saved st / bs_total st))"
proof -
  obtain e where e: "gbench.sync rnd msz n e {}"
    and init: "mem_init new_cache ''GDSF'' (int n) (bench_clean_size rnd (int n) ratio) (Some bench_on_evict) = Inr e"
    and run: "\<And>st. bench_loop rnd lm (wl_requests wl) (bench_start e) = Some (Inr st) \<Longrightarrow>
       run_one rnd mean pct wall new_cache ''GDSF'' (int n) wl ratio lm None =
         Some (bench_report rnd mean pct wall ''GDSF'' (int n) wl st)"
    by (rule run_one_gdsf[OF rnd new n ratio, of lm mean pct wall]) blast
  have s: "gbench.sync rnd msz n (bs_cache (bench_start e)) (bs_in_cache (bench_start e))"
    using e by (simp add: bench_start_def)
  have c: "\<forall>(p, c) \<in> set (wl_requests wl). 0 \<le> cost_of rnd (VFloat c)" using costs by simp
  from gbench.loop_sync[OF s c, of rnd lm] obtain st where
    st: "bench_loop rnd lm (wl_requests wl) (bench_start e) = Some (Inr st)"
      "gbench.sync rnd msz n (bs_cache st) (bs_in_cache st)" by blast
  have sync: "bs_in_cache st = gdsf_keys (me_cache (bs_cache st)) \<and> card (bs_in_cache st) \<le> n"
    using st(2) by (auto simp: bench_sync_def)
  define sts where "sts = bench_states rnd lm (wl_requests wl) (bench_start e)"
  define flags where "flags = served_flags gdsf_keys sts (wl_requests wl)"
  from gbench.loop_books[OF s c sts_def flags_def] st(1) have
    books: "last sts = st" "length flags = length (wl_requests wl)" "bs_hits st = count_list flags True"
      "bs_saved st = cost_sum rnd 0 (served_costs flags (wl_requests wl))"
      "bs_total st = cost_sum rnd 0 (map snd (wl_requests wl))"
      "bs_latencies st = map2 (request_latency rnd lm) flags (wl_requests wl)"
      "bs_hits st + card (bs_in_cache st) + departures gdsf_keys sts = length (wl_requests wl)"
    by (simp_all add: bench_start_def)
  have "br_evictions row = int (departures gdsf_keys sts) \<and> br_saved_tokens row = bs_saved st \<and>
      br_total_tokens row = bs_total st \<and> br_hit_rate row = rnd (real (bs_hits st) / real (length flags)) \<and>
      br_cost_weighted_hit_rate row = rnd (bs_saved st / bs_total st)"
    if "bench_report rnd mean pct wall ''GDSF'' (int n) wl st = Inr row" for row
    using that books(2,7) by (auto simp: bench_report_def Let_def split: if_splits)
  with run[OF st(1)] init sync books(1-6) sts_def flags_def show ?thesis by blast
qed

theorem bench_accounting_witness:
  "\<exists>st. run_one (\<lambda>x. x) sum_list (\<lambda>xs q. q) 1 list_gdsf ''GDSF'' (int 2) \<lparr>wl_name = [], wl_requests = [(0, 5), (1, 7), (2, 9), (0, 5)], wl_n_unique = 3\<rparr>
       (1 / 5) \<lparr>lm_base_ms = 300, lm_ms_per_token = 20, lm_hit_ms = 5\<rparr> None = Some st"
  using bench_accounting[OF float_rounding_id list_gdsf_builds[of 2], where ratio = "1 / 5" and wall = 1 and mean = sum_list
      and pct = "\<lambda>xs q. q" and wl = "\<lparr>wl_name = [], wl_requests = [(0, 5), (1, 7), (2, 9), (0, 5)], wl_n_unique = 3\<rparr>"
      and lm = "\<lparr>lm_base_ms = 300, lm_ms_per_token = 20, lm_hit_ms = 5\<rparr>"] by auto

text \<open>
  \<open>novel_long\<close> has no hits by construction: on this workload every request is a miss, whatever the size of
  the cache, so no token is saved and every latency is that of a generation.
\<close>

theorem novel_long_never_hits:
  fixes new_cache :: "policy_kind \<Rightarrow> int \<Rightarrow> (nat, 'b) gdsf \<times> (nat, (nat, 'b) gdsf, nat set) cache_methods"
  assumes rnd: "float_rounding rnd" and new: "builds_gdsf rnd msz new_cache n"
    and n: "1 \<le> n" "n \<le> 2 ^ 53" and ratio: "0 \<le> ratio" "ratio \<le> 1"
    and draws: "length (rg_uniform rng 1000 3000 n_requests) = n_requests" "\<forall>c \<in> set (rg_uniform rng 1000 3000 n_requests). 0 \<le> c"
    and wl: "novel_long_workload rng n_requests = Inr wl"
  shows "\<exists>st :: (nat, 'b) gdsf bench_state. run_one rnd mean pct wall new_cache ''GDSF'' (int n) wl ratio lm None =
       Some (bench_report rnd mean pct wall ''GDSF'' (int n) wl st) \<and>
    bs_hits st = 0 \<and> bs_saved st = 0 \<and>
    bs_latencies st = map (\<lambda>(p, c). rnd (lm_base_ms lm + rnd (lm_ms_per_token lm * c))) (wl_requests wl)"
proof -
  let ?costs = "rg_uniform rng 1000 3000 n_requests"
  have reqs: "wl_requests wl = with_costs ?costs [0..<n_requests]"
    using wl by (auto simp: novel_long_workload_def make_costs_def)
  obtain e where e: "gbench.sync rnd msz n e {}"
    and run: "\<And>st. bench_loop rnd lm (wl_requests wl) (bench_start e) = Some (Inr st) \<Longrightarrow>
       run_one rnd mean pct wall new_cache ''GDSF'' (int n) wl ratio lm None =
         Some (bench_report rnd mean pct wall ''GDSF'' (int n) wl st)"
    by (rule run_one_gdsf[OF rnd new n ratio, of lm mean pct wall]) blast
  have s: "gbench.sync rnd msz n (bs_cache (bench_start e)) (bs_in_cache (bench_start e))"
    using e by (simp add: bench_start_def)
  have c: "\<forall>(p, c) \<in> set (wl_requests wl). 0 \<le> cost_of rnd (VFloat c)"
    using draws by (auto simp: reqs with_costs_def)
  have d: "distinct (map fst (wl_requests wl))" by (simp add: reqs with_costs_def comp_def)
  have "fst ` set (wl_requests wl) \<inter> bs_in_cache (bench_start e) = {}" by (simp add: bench_start_def)
  from gbench.loop_novel[OF s c d this, of rnd lm] obtain st where
    st: "bench_loop rnd lm (wl_requests wl) (bench_start e) = Some (Inr st)" "bs_hits st = 0" "bs_saved st = 0"
      "bs_latencies st = map (\<lambda>(p, c). rnd (lm_base_ms lm + rnd (lm_ms_per_token lm * c))) (wl_requests wl)"
    by (auto simp: bench_start_def)
  with run[OF st(1)] show ?thesis by blast
qed

theorem novel_long_never_hits_witness:
  "\<exists>wl r. novel_long_workload dull_rng 3 = Inr wl \<and> run_one (\<lambda>x. x) sum_list (\<lambda>xs q. q) 1 list_gdsf ''GDSF'' (int 2) wl
       (1 / 5) \<lparr>lm_base_ms = 300, lm_ms_per_token = 20, lm_hit_ms = 5\<rparr> None = Some r"
proof -
  obtain wl where "novel_long_workload dull_rng 3 = Inr wl" by (simp add: novel_long_workload_def make_costs_def)
  from novel_long_never_hits[OF float_rounding_id list_gdsf_builds[of 2] _ _ _ _ _ _ this, where ratio = "1 / 5" and wall = 1
      and mean = sum_list and pct = "\<lambda>xs q. q" and lm = "\<lparr>lm_base_ms = 300, lm_ms_per_token = 20, lm_hit_ms = 5\<rparr>"] this
  show ?thesis by (auto simp: dull_rng_def)
qed

text \<open>
  The sanity workload: when all prompts fit into the cache, exactly the first request of every prompt is
  a miss, so at most \<open>n_unique\<close> requests miss, and nothing is evicted.
\<close>

theorem repetitive_short_hits:
  fixes new_cache :: "policy_kind \<Rightarrow> int \<Rightarrow> (nat, 'b) gdsf \<times> (nat, (nat, 'b) gdsf, nat set) cache_methods"
  assumes rnd: "float_rounding rnd" and new: "builds_gdsf rnd msz new_cache n"
    and n: "1 \<le> n" "n \<le> 2 ^ 53" and ratio: "0 \<le> ratio" "ratio \<le> 1"
    and draws: "length (rg_uniform rng 10 50 n_unique) = n_unique" "\<forall>c \<in> set (rg_uniform rng 10 50 n_unique). 0 \<le> c"
      "length (rg_integers rng n_unique n_requests) = n_requests" "\<forall>i \<in> set (rg_integers rng n_unique n_requests). i < n_unique"
    and wl: "repetitive_short_workload rng n_requests n_unique = Inr wl" and fits: "n_unique \<le> n"
  shows "\<exists>st :: (nat, 'b) gdsf bench_state. run_one rnd mean pct wall new_cache ''GDSF'' (int n) wl ratio lm None =
       Some (bench_report rnd mean pct wall ''GDSF'' (int n) wl st) \<and>
    bs_hits st + card (set (rg_integers rng n_unique n_requests)) = n_requests \<and> n_requests \<le> bs_hits st + n_unique \<and>
    int (length (wl_requests wl)) - int (bs_hits st) - int (card (bs_in_cache st)) = 0"
proof -
  let ?costs = "rg_uniform rng 10 50 n_unique" and ?ids = "rg_integers rng n_unique n_requests"
  have reqs: "wl_requests wl = with_costs ?costs ?ids"
    using wl by (auto simp: repetitive_short_workload_def make_costs_def)
  obtain e where e: "gbench.sync rnd msz n e {}"
    and run: "\<And>st. bench_loop rnd lm (wl_requests wl) (bench_start e) = Some (Inr st) \<Longrightarrow>
       run_one rnd mean pct wall new_cache ''GDSF'' (int n) wl ratio lm None =
         Some (bench_report rnd mean pct wall ''GDSF'' (int n) wl st)"
    by (rule run_one_gdsf[OF rnd new n ratio, of lm mean pct wall]) blast
  have s: "gbench.sync rnd msz n (bs_cache (bench_start e)) (bs_in_cache (bench_start e))"
    using e by (simp add: bench_start_def)
  have c: "\<forall>(p, c) \<in> set (wl_requests wl). 0 \<le> cost_of rnd (VFloat c)"
    using draws by (auto simp: reqs with_costs_def)
  have ids: "fst ` set (wl_requests wl) = set ?ids" by (auto simp: reqs with_costs_def image_image)
  have "set ?ids \<subseteq> {..<n_unique}" using draws(4) by auto
  then have card: "card (set ?ids) \<le> n_unique" using card_mono[OF finite_lessThan] by fastforce
  then have "card (bs_in_cache (bench_start e) \<union> fst ` set (wl_requests wl)) \<le> n"
    using fits by (simp add: ids bench_start_def)
  from gbench.loop_fits[OF s c this, of rnd lm] obtain st where
    st: "bench_loop rnd lm (wl_requests wl) (bench_start e) = Some (Inr st)" "bs_in_cache st = set ?ids"
      "bs_hits st + card (bs_in_cache st) = length (wl_requests wl)" by (auto simp: ids bench_start_def)
  have "length (wl_requests wl) = n_requests" using draws(3) by (simp add: reqs with_costs_def)
  with run[OF st(1)] st card show ?thesis by (intro exI[of _ st]) simp
qed

theorem repetitive_short_hits_witness:
  "\<exists>wl r. repetitive_short_workload dull_rng 9 1 = Inr wl \<and> run_one (\<lambda>x. x) sum_list (\<lambda>xs q. q) 1 list_gdsf ''GDSF'' (int 2) wl
       (1 / 5) \<lparr>lm_base_ms = 300, lm_ms_per_token = 20, lm_hit_ms = 5\<rparr> None = Some r"
proof -
  obtain wl where "repetitive_short_workload dull_rng 9 1 = Inr wl"
    by (simp add: repetitive_short_workload_def make_costs_def)
  from repetitive_short_hits[OF float_rounding_id list_gdsf_builds[of 2] _ _ _ _ _ _ _ _ this, where ratio = "1 / 5" and wall = 1
      and mean = sum_list and pct = "\<lambda>xs q. q" and lm = "\<lparr>lm_base_ms = 300, lm_ms_per_token = 20, lm_hit_ms = 5\<rparr>"] this
  show ?thesis by (auto simp: dull_rng_def)
qed

end
