(* ===== verification/Ablation.thy ===== *)
theory Ablation
  imports Bench
begin

text \<open>
  The policy variants of \<open>benchmarks/ablation.py\<close>: subclasses of \<open>GDSFCache\<close> that override \<open>_push\<close> (and
  \<open>popitem\<close>), and \<open>VariantEviction\<close>, which wraps them like \<open>MemoryCacheEviction\<close>. The inherited methods call the
  overridden \<open>_push\<close>, which is a parameter of \<open>variant_stored\<close>, \<open>variant_setitem\<close> and \<open>variant_getitem\<close>.
\<close>

section \<open>Pushing\<close>

type_synonym ('k, 'b) push = "'k \<Rightarrow> pyval \<Rightarrow> ('k, 'b) gdsf \<Rightarrow> (unit, ('k, 'b) gdsf) outcome"

definition size_or_one :: "('k, 'b) gdsf \<Rightarrow> pyval \<Rightarrow> nat" where
  "size_or_one g value = (let sz = c_sizeof (g_cls g) (g_base g) value in if sz = 0 then 1 else sz)"

definition push_prio :: "real \<Rightarrow> 'k \<Rightarrow> ('k, 'b) gdsf \<Rightarrow> ('k, 'b) gdsf" where
  "push_prio prio key g = g\<lparr>g_prio := (g_prio g)(key \<mapsto> prio),
     g_heap := heappush (prio, g_counter g, key) (g_heap g), g_counter := Suc (g_counter g)\<rparr>"

definition cost_only_push :: "(real \<Rightarrow> real) \<Rightarrow> ('k, 'b) push" where
  "cost_only_push rnd key value g =
     (Inr (), push_prio (rnd (g_inflation g + rnd (cost_of rnd value / rnd (real (size_or_one g value))))) key g)"

definition no_age_push :: "(real \<Rightarrow> real) \<Rightarrow> ('k, 'b) push" where
  "no_age_push rnd key value g =
     (case g_freq g key of
        None \<Rightarrow> (Inl KeyError, g)
      | Some f \<Rightarrow>
          (Inr (), push_prio (rnd (rnd (rnd (real f) * cost_of rnd value) / rnd (real (size_or_one g value)))) key g))"

definition no_age_popitem :: "('k, 'b) gdsf \<Rightarrow> ('k \<times> pyval, ('k, 'b) gdsf) outcome" where
  "no_age_popitem g = bind_out (gdsf_popitem g) (\<lambda>kv g. (Inr kv, g\<lparr>g_inflation := 0\<rparr>))"

section \<open>The inherited methods\<close>

definition variant_stored :: "('k, 'b) push \<Rightarrow> ('k, 'b) push" where
  "variant_stored push key value g =
     push key value (if g_freq g key = None then g\<lparr>g_freq := (g_freq g)(key \<mapsto> 1)\<rparr> else g)"

definition variant_setitem ::
  "('k, 'b) push
   \<Rightarrow> ((('k, 'b) gdsf \<times> 'w \<Rightarrow> (unit, ('k, 'b) gdsf \<times> 'w) outcome) \<Rightarrow> 'k \<Rightarrow> pyval
        \<Rightarrow> ('k, 'b) gdsf \<times> 'w \<Rightarrow> (unit, ('k, 'b) gdsf \<times> 'w) outcome option)
   \<Rightarrow> (('k, 'b) gdsf \<times> 'w \<Rightarrow> (unit, ('k, 'b) gdsf \<times> 'w) outcome) \<Rightarrow> 'k \<Rightarrow> pyval
   \<Rightarrow> ('k, 'b) gdsf \<times> 'w \<Rightarrow> (unit, ('k, 'b) gdsf \<times> 'w) outcome option" where
  "variant_setitem push base_set hook key value s =
     (case base_set hook key value s of
        None \<Rightarrow> None
      | Some r \<Rightarrow>
          Some (bind_out r (\<lambda>_ (g, w). case variant_stored push key value g of (res, g') \<Rightarrow> (res, (g', w)))))"

definition variant_getitem :: "('k, 'b) push \<Rightarrow> 'k \<Rightarrow> ('k, 'b) gdsf \<Rightarrow> (pyval, ('k, 'b) gdsf) outcome" where
  "variant_getitem push key g =
     (case c_get (g_cls g) (g_base g) key of
        None \<Rightarrow> (Inl KeyError, g)
      | Some value \<Rightarrow>
          (case g_freq g key of
             None \<Rightarrow> (Inr value, g)
           | Some f \<Rightarrow>
               bind_out (push key value (g\<lparr>g_freq := (g_freq g)(key \<mapsto> f + 1)\<rparr>)) (\<lambda>_ g'. (Inr value, g'))))"

definition variant_methods where
  "variant_methods push popitem base_set =
     \<lparr>m_popitem = popitem, m_setitem = variant_setitem push base_set, m_getitem = variant_getitem push\<rparr>"

text \<open>\<open>VariantEviction.__init__\<close> for a cache class, given by its empty object and its methods.\<close>

definition variant_init ::
  "(int \<Rightarrow> ('k, 'b) gdsf \<times> ('k, ('k, 'b) gdsf, 'w) cache_methods) \<Rightarrow> string \<Rightarrow> int \<Rightarrow> int \<Rightarrow> ('k, 'w) on_evict
   \<Rightarrow> ('k, ('k, 'b) gdsf, 'w) mem_eviction" where
  "variant_init cache_cls policy_name maxsize clean_size on_evict =
     \<lparr>me_policy = policy_name, me_cache = fst (cache_cls maxsize), me_methods = snd (cache_cls maxsize),
      me_clean = clean_size, me_on_evict = on_evict\<rparr>"

definition make_factory where
  "make_factory cache_cls policy_name = (\<lambda>maxsize clean_size on_evict.
     variant_init cache_cls policy_name maxsize clean_size on_evict)"

section \<open>The variants among themselves\<close>

lemma gdsf_push_prio:
  "g_freq g key = Some f \<Longrightarrow>
     gdsf_push rnd key value g =
       (Inr (), push_prio (gdsf_priority rnd (g_inflation g) f (cost_of rnd value) (size_or_one g value)) key g)"
  by (simp add: gdsf_push_def push_prio_def size_or_one_def Let_def)

lemma gdsf_variant_stored: "variant_stored (gdsf_push rnd) = gdsf_stored rnd"
  by (simp add: fun_eq_iff variant_stored_def gdsf_stored_def)

lemma gdsf_variant: "variant_setitem (gdsf_push rnd) = gdsf_setitem rnd" "variant_getitem (gdsf_push rnd) = gdsf_getitem rnd"
  by (intro ext, unfold variant_setitem_def gdsf_setitem_def gdsf_variant_stored, rule refl)
    (intro ext, simp add: variant_getitem_def gdsf_getitem_def)

lemma push_prio_simps [simp]:
  "g_inflation (push_prio p k g) = g_inflation g" "g_freq (push_prio p k g) = g_freq g"
  "g_prio (push_prio p k g) = (g_prio g)(k \<mapsto> p)" "g_base (push_prio p k g) = g_base g" "g_cls (push_prio p k g) = g_cls g"
  by (simp_all add: push_prio_def)

text \<open>Without inflation the full policy and the one without aging push the same.\<close>

lemma no_age_push_gdsf:
  assumes rnd: "float_rounding rnd" and "g_inflation g = 0"
  shows "no_age_push rnd key value g = gdsf_push rnd key value g"
proof (cases "g_freq g key")
  case None
  then show ?thesis by (simp add: no_age_push_def gdsf_push_def Let_def)
next
  case (Some f)
  then show ?thesis using assms
    by (simp add: gdsf_push_prio no_age_push_def gdsf_priority_def rnd_idem)
qed

lemma no_age_keeps_inflation:
  assumes "g_inflation g = 0"
  shows "g_inflation (snd (variant_getitem (no_age_push rnd) key g)) = 0"
    and "g_inflation (snd (variant_stored (no_age_push rnd) key value g)) = 0"
    and "\<And>kv g'. no_age_popitem g = (Inr kv, g') \<Longrightarrow> g_inflation g' = 0"
  using assms
  by (auto simp: variant_getitem_def variant_stored_def no_age_push_def no_age_popitem_def bind_out_Inr_iff
      split: option.splits)

section \<open>Properties\<close>

text \<open>
  C24. \<open>GDSF_NO_AGE\<close> really is GDSF without aging: its inflation value stays 0 through stores, hits and evictions, and while
  that is so every store and every hit does to the cache exactly what GDSF's does, so the two policies
  differ in nothing but the inflation after an eviction.
\<close>

theorem no_age_is_gdsf_without_aging:
  assumes rnd: "float_rounding rnd" and zero: "g_inflation g = 0"
  shows "variant_getitem (no_age_push rnd) key g = gdsf_getitem rnd key g \<and>
    variant_stored (no_age_push rnd) key value g = gdsf_stored rnd key value g \<and>
    g_inflation (snd (variant_getitem (no_age_push rnd) key g)) = 0 \<and>
    g_inflation (snd (variant_stored (no_age_push rnd) key value g)) = 0 \<and>
    (\<forall>kv g'. no_age_popitem g = (Inr kv, g') \<longrightarrow> g_inflation g' = 0 \<and>
       (\<exists>l. gdsf_popitem g = (Inr kv, g'\<lparr>g_inflation := l\<rparr>)))"
proof -
  have "variant_getitem (no_age_push rnd) key g = gdsf_getitem rnd key g"
    "variant_stored (no_age_push rnd) key value g = gdsf_stored rnd key value g"
    using zero
    by (simp_all add: variant_getitem_def gdsf_getitem_def variant_stored_def gdsf_stored_def no_age_push_gdsf[OF rnd] split: option.split)
  moreover have "\<exists>l. gdsf_popitem g = (Inr kv, g'\<lparr>g_inflation := l\<rparr>)" if "no_age_popitem g = (Inr kv, g')" for kv g'
  proof -
    from that obtain g1 where "gdsf_popitem g = (Inr kv, g1)" "g' = g1\<lparr>g_inflation := 0\<rparr>"
      by (auto simp: no_age_popitem_def bind_out_Inr_iff)
    then show ?thesis by (intro exI[of _ "g_inflation g1"]) simp
  qed
  ultimately show ?thesis using no_age_keeps_inflation[OF zero] by blast
qed

theorem no_age_is_gdsf_without_aging_witness:
  "g_inflation (snd (variant_stored (no_age_push (\<lambda>x. x)) (1::nat) (VFloat 8) (gdsf_init list_cls (2, [])))) = 0"
proof -
  have "g_inflation (gdsf_init list_cls (2, []) :: (nat, nat \<times> (nat \<times> pyval) list) gdsf) = 0" by (simp add: gdsf_init_def)
  from no_age_is_gdsf_without_aging[OF float_rounding_id this] show ?thesis by blast
qed

text \<open>
  \<open>COST_ONLY\<close> ignores how often a key is asked for: while the inflation value stays, a hit leaves the priority of the
  key at inflation plus cost per size, and a priority never drops below the inflation value.
\<close>

theorem cost_only_ignores_frequency:
  assumes rnd: "float_rounding rnd" and l: "rnd (g_inflation g) = g_inflation g" and cost: "0 \<le> cost_of rnd value"
    and cached: "c_get (g_cls g) (g_base g) key = Some value" "g_freq g key = Some f"
  shows "\<exists>g' p. variant_getitem (cost_only_push rnd) key g = (Inr value, g') \<and> g_inflation g' = g_inflation g \<and>
    g_freq g' key = Some (f + 1) \<and> g_prio g' = (g_prio g)(key \<mapsto> p) \<and> g_inflation g \<le> p \<and>
    variant_getitem (cost_only_push rnd) key g' = (Inr value, snd (variant_getitem (cost_only_push rnd) key g')) \<and>
    g_prio (snd (variant_getitem (cost_only_push rnd) key g')) key = Some p"
proof -
  let ?p = "rnd (g_inflation g + rnd (cost_of rnd value / rnd (real (size_or_one g value))))"
  let ?g = "push_prio ?p key (g\<lparr>g_freq := (g_freq g)(key \<mapsto> Suc f)\<rparr>)"
  have run: "variant_getitem (cost_only_push rnd) key g = (Inr value, ?g)"
    using cached by (simp add: variant_getitem_def cost_only_push_def size_or_one_def)
  have "0 \<le> rnd (cost_of rnd value / rnd (real (size_or_one g value)))"
    using cost by (intro rnd_nonneg[OF rnd] divide_nonneg_nonneg) auto
  then have "g_inflation g \<le> ?p" by (rule rnd_add_ge[OF rnd l])
  moreover have "variant_getitem (cost_only_push rnd) key ?g =
      (Inr value, push_prio ?p key (?g\<lparr>g_freq := (g_freq ?g)(key \<mapsto> Suc (Suc f))\<rparr>))"
    using cached by (simp add: variant_getitem_def cost_only_push_def size_or_one_def)
  ultimately show ?thesis using run by (intro exI[of _ ?g] exI[of _ ?p]) simp
qed

theorem cost_only_ignores_frequency_witness:
  "\<exists>g'. variant_getitem (cost_only_push (\<lambda>x. x)) (1::nat) (gdsf_store (\<lambda>x. x) 1 (VFloat 8) (gdsf_init list_cls (2, []))) = (Inr (VFloat 8), g')"
proof -
  let ?g = "gdsf_store (\<lambda>x. x) (1::nat) (VFloat 8) (gdsf_init list_cls (2, []))"
  have "c_get (g_cls ?g) (g_base ?g) 1 = Some (VFloat 8)" "g_freq ?g 1 = Some 1"
    by (simp_all add: gdsf_store_def gdsf_stored_def gdsf_push_def gdsf_init_def list_cls_def Let_def)
  from cost_only_ignores_frequency[OF float_rounding_id _ _ this] show ?thesis by auto
qed

end
