(* ===== verification/Py_Object.thy ===== *)
theory Py_Object
  imports Prelude
begin

text \<open>
  Python values as the request data and the LLM responses hold them: \<open>None\<close>, booleans, numbers, strings, bytes,
  lists, dictionaries with string keys (in insertion order) and objects with attributes. Indexing, attribute
  access, concatenation, \<open>find\<close>, \<open>join\<close>, \<open>repr\<close> and \<open>str\<close> are those of the language; the \<open>repr\<close> of floats and of
  objects is a parameter. Characters are those of Latin-1.
\<close>

section \<open>Values\<close>

datatype pyobj =
    PNone
  | PBool bool
  | PInt int
  | PFloat real
  | PStr string
  | PBytes string
  | PList "pyobj list"
  | PDict "(string \<times> pyobj) list"
  | PObj "(string \<times> pyobj) list"

fun py_truthy :: "pyobj \<Rightarrow> bool" where
  "py_truthy PNone = False"
| "py_truthy (PBool b) = b"
| "py_truthy (PInt n) = (n \<noteq> 0)"
| "py_truthy (PFloat x) = (x \<noteq> 0)"
| "py_truthy (PStr s) = (s \<noteq> [])"
| "py_truthy (PBytes s) = (s \<noteq> [])"
| "py_truthy (PList xs) = (xs \<noteq> [])"
| "py_truthy (PDict d) = (d \<noteq> [])"
| "py_truthy (PObj a) = True"

text \<open>\<open>x[k]\<close> for a string \<open>k\<close>, \<open>x[-1]\<close>, \<open>x[i]\<close> for a natural number, and \<open>d.get(k)\<close>.\<close>

fun py_item :: "pyobj \<Rightarrow> string \<Rightarrow> pyobj result" where
  "py_item (PDict d) k = (case map_of d k of None \<Rightarrow> Inl KeyError | Some v \<Rightarrow> Inr v)"
| "py_item x k = Inl TypeError"

fun py_last_item :: "pyobj \<Rightarrow> pyobj result" where
  "py_last_item (PList xs) = py_last xs"
| "py_last_item (PStr s) = bind_res (py_last s) (\<lambda>c. Inr (PStr [c]))"
| "py_last_item (PDict d) = Inl KeyError"
| "py_last_item x = Inl TypeError"

fun py_index :: "pyobj \<Rightarrow> nat \<Rightarrow> pyobj result" where
  "py_index (PList xs) i = py_nth xs i"
| "py_index (PStr s) i = bind_res (py_nth s i) (\<lambda>c. Inr (PStr [c]))"
| "py_index (PDict d) i = Inl KeyError"
| "py_index x i = Inl TypeError"

definition dict_get :: "(string \<times> pyobj) list \<Rightarrow> string \<Rightarrow> pyobj" where
  "dict_get d k = (case map_of d k of None \<Rightarrow> PNone | Some v \<Rightarrow> v)"

fun py_get :: "pyobj \<Rightarrow> string \<Rightarrow> pyobj result" where
  "py_get (PDict d) k = Inr (dict_get d k)"
| "py_get x k = Inl AttributeError"

text \<open>\<open>d[k] = v\<close> keeps the place of a key that is there.\<close>

fun dict_set :: "(string \<times> 'v) list \<Rightarrow> string \<Rightarrow> 'v \<Rightarrow> (string \<times> 'v) list" where
  "dict_set [] k v = [(k, v)]"
| "dict_set ((k', v') # d) k v = (if k' = k then (k, v) # d else (k', v') # dict_set d k v)"

fun py_attr :: "pyobj \<Rightarrow> string \<Rightarrow> pyobj result" where
  "py_attr (PObj a) k = (case map_of a k of None \<Rightarrow> Inl AttributeError | Some v \<Rightarrow> Inr v)"
| "py_attr x k = Inl AttributeError"

text \<open>Iterating; a string gives its characters, a dictionary its keys.\<close>

fun py_iter :: "pyobj \<Rightarrow> pyobj list result" where
  "py_iter (PList xs) = Inr xs"
| "py_iter (PStr s) = Inr (map (\<lambda>c. PStr [c]) s)"
| "py_iter (PDict d) = Inr (map (\<lambda>(k, v). PStr k) d)"
| "py_iter x = Inl TypeError"

text \<open>\<open>s + x\<close> for a string \<open>s\<close>.\<close>

fun str_add :: "string \<Rightarrow> pyobj \<Rightarrow> string result" where
  "str_add s (PStr t) = Inr (s @ t)"
| "str_add s x = Inl TypeError"

lemma dict_set_lookup [simp]: "map_of (dict_set d k v) = (map_of d)(k \<mapsto> v)"
  by (induction d k v rule: dict_set.induct) (auto simp: fun_eq_iff)

lemma dict_set_keys: "map fst (dict_set d k v) = (if k \<in> fst ` set d then map fst d else map fst d @ [k])"
  by (induction d k v rule: dict_set.induct) auto

lemma dict_set_new: "k \<notin> fst ` set d \<Longrightarrow> dict_set d k v = d @ [(k, v)]"
  by (induction d k v rule: dict_set.induct) auto

section \<open>Searching and joining strings\<close>

fun find_at :: "string \<Rightarrow> string \<Rightarrow> nat option" where
  "find_at sub [] = (if sub = [] then Some 0 else None)"
| "find_at sub (c # s) = (if is_prefix sub (c # s) then Some 0 else map_option Suc (find_at sub s))"

text \<open>\<open>s.find(sub, start)\<close>; \<open>None\<close> is \<open>-1\<close>.\<close>

definition py_find :: "string \<Rightarrow> string \<Rightarrow> nat \<Rightarrow> nat option" where
  "py_find s sub start =
     (if start > length s then None else map_option (\<lambda>i. start + i) (find_at sub (drop start s)))"

fun py_join :: "string \<Rightarrow> string list \<Rightarrow> string" where
  "py_join sep [] = []"
| "py_join sep [x] = x"
| "py_join sep (x # y # xs) = x @ sep @ py_join sep (y # xs)"

lemma is_prefix_append [simp]: "is_prefix s (s @ t)"
  by (simp add: is_prefix_iff)

lemma find_at_prefix: "is_prefix sub s \<Longrightarrow> find_at sub s = Some 0"
  by (cases s) (auto simp: is_prefix_iff)

lemma find_at_Some: "find_at sub s = Some i \<Longrightarrow> i \<le> length s \<and> is_prefix sub (drop i s)"
  by (induction sub s arbitrary: i rule: find_at.induct) (auto split: if_splits)

lemma find_at_occurs: "is_prefix sub (drop i s) \<Longrightarrow> i \<le> length s \<Longrightarrow> find_at sub s \<noteq> None"
proof (induction s arbitrary: i)
  case Nil
  then show ?case by (cases sub) auto
next
  case (Cons c s)
  then show ?case by (cases i) auto
qed

lemma py_find_here: "is_prefix sub (drop i s) \<Longrightarrow> i \<le> length s \<Longrightarrow> py_find s sub i = Some i"
  by (simp add: py_find_def find_at_prefix)

lemma py_find_occurs:
  assumes "is_prefix sub (drop i s)" "i \<le> length s" "start \<le> i"
  shows "\<exists>j. py_find s sub start = Some j \<and> start \<le> j \<and> j \<le> length s \<and> is_prefix sub (drop j s)"
proof -
  have "is_prefix sub (drop (i - start) (drop start s))" using assms by simp
  from find_at_occurs[OF this] assms obtain j where j: "find_at sub (drop start s) = Some j" by fastforce
  with find_at_Some[OF j] assms show ?thesis by (auto simp: py_find_def add.commute)
qed

lemma py_join_snoc: "xs \<noteq> [] \<Longrightarrow> py_join sep (xs @ [x]) = py_join sep xs @ sep @ x"
  by (induction sep xs rule: py_join.induct) auto

section \<open>repr and str\<close>

fun digits :: "nat \<Rightarrow> string" where
  "digits n = (if n < 10 then [char_of (48 + n)] else digits (n div 10) @ [char_of (48 + n mod 10)])"

declare digits.simps [simp del]

definition py_str_int :: "int \<Rightarrow> string" where
  "py_str_int n = (if n < 0 then CHR ''-'' # digits (nat (- n)) else digits (nat n))"

definition hex_digit :: "nat \<Rightarrow> char" where
  "hex_digit n = (if n < 10 then char_of (48 + n) else char_of (87 + n))"

definition backslash :: char where
  "backslash = char_of (92 :: nat)"

definition escape_hex :: "nat \<Rightarrow> string" where
  "escape_hex n = [backslash, CHR ''x'', hex_digit (n div 16), hex_digit (n mod 16)]"

text \<open>Single quotes, unless the string has single and no double quotes. \<open>unprintable\<close> differs for bytes.\<close>

definition escape_char :: "(nat \<Rightarrow> bool) \<Rightarrow> char \<Rightarrow> char \<Rightarrow> string" where
  "escape_char unprintable quote c =
     (let n = of_char c :: nat
      in if c = backslash then [backslash, backslash]
         else if c = quote then [backslash, quote]
         else if n = 10 then [backslash, CHR ''n'']
         else if n = 13 then [backslash, CHR ''r'']
         else if n = 9 then [backslash, CHR ''t'']
         else if unprintable n then escape_hex n
         else [c])"

definition quoted :: "(nat \<Rightarrow> bool) \<Rightarrow> string \<Rightarrow> string" where
  "quoted unprintable s =
     (let single = char_of (39 :: nat); double = char_of (34 :: nat);
          quote = (if single \<in> set s \<and> double \<notin> set s then double else single)
      in quote # concat (map (escape_char unprintable quote) s) @ [quote])"

definition repr_str :: "string \<Rightarrow> string" where
  "repr_str s = quoted (\<lambda>n. n < 32 \<or> (127 \<le> n \<and> n \<le> 160) \<or> n = 173) s"

definition repr_bytes :: "string \<Rightarrow> string" where
  "repr_bytes s = CHR ''b'' # quoted (\<lambda>n. n < 32 \<or> 127 \<le> n) s"

record repr_env =
  re_float :: "real \<Rightarrow> string"
  re_obj :: "(string \<times> pyobj) list \<Rightarrow> string"

lemma size_item: "x \<in> set xs \<Longrightarrow> size x \<le> size_list size xs" for x :: pyobj
  by (induction xs) auto

lemma size_entry: "(k, v) \<in> set d \<Longrightarrow> size v \<le> size_list (size_prod (\<lambda>x. 0) size) d" for v :: pyobj
  by (induction d) auto

function py_repr :: "repr_env \<Rightarrow> pyobj \<Rightarrow> string" where
  "py_repr re PNone = ''None''"
| "py_repr re (PBool b) = (if b then ''True'' else ''False'')"
| "py_repr re (PInt n) = py_str_int n"
| "py_repr re (PFloat x) = re_float re x"
| "py_repr re (PStr s) = repr_str s"
| "py_repr re (PBytes s) = repr_bytes s"
| "py_repr re (PList xs) = ''['' @ py_join '', '' (map (py_repr re) xs) @ '']''"
| "py_repr re (PDict d) = ''{'' @ py_join '', '' (map (\<lambda>kv. repr_str (fst kv) @ '': '' @ py_repr re (snd kv)) d) @ ''}''"
| "py_repr re (PObj a) = re_obj re a"
  by pat_completeness auto
termination
  by (relation "measure (\<lambda>(re, x). size x)")
    (auto simp: less_Suc_eq_le dest: size_item size_entry)

fun py_str :: "repr_env \<Rightarrow> pyobj \<Rightarrow> string" where
  "py_str re (PStr s) = s"
| "py_str re x = py_repr re x"

lemma repr_str_quotes: "2 \<le> length (repr_str s)"
  by (simp add: repr_str_def quoted_def Let_def)

section \<open>split, replace and loops that may raise\<close>

text \<open>\<open>s.split(sep)\<close> for a separator that is not empty, with the part read so far; \<open>s.replace(sep, "")\<close>.\<close>

function split_on :: "string \<Rightarrow> string \<Rightarrow> string \<Rightarrow> string list" where
  "split_on sep acc s =
     (if sep \<noteq> [] \<and> is_prefix sep s then acc # split_on sep [] (drop (length sep) s)
      else case s of [] \<Rightarrow> [acc] | c # t \<Rightarrow> split_on sep (acc @ [c]) t)"
  by pat_completeness auto
termination
  by (relation "measure (\<lambda>(sep, acc, s). length s)") (auto simp: is_prefix_iff)

declare split_on.simps [simp del]

definition remove_all :: "string \<Rightarrow> string \<Rightarrow> string" where
  "remove_all sub s = concat (split_on sub [] s)"

fun map_res :: "('a \<Rightarrow> 'b result) \<Rightarrow> 'a list \<Rightarrow> 'b list result" where
  "map_res f [] = Inr []"
| "map_res f (x # xs) = bind_res (f x) (\<lambda>y. bind_res (map_res f xs) (\<lambda>ys. Inr (y # ys)))"

text \<open>The weighted sum over the last contents of both sides.\<close>

lemma map_res_total:
  "\<forall>x. \<exists>y. f x = Inr y \<and> P y \<Longrightarrow> \<exists>ys. map_res f xs = Inr ys \<and> length ys = length xs \<and> (\<forall>y \<in> set ys. P y)"
proof (induction xs)
  case (Cons x xs)
  from Cons.prems obtain y where "f x = Inr y" "P y" by blast
  with Cons show ?case by auto
qed simp

section \<open>Numbers as texts\<close>

text \<open>\<open>int(s)\<close> for a decimal number.\<close>

fun digits_value :: "nat \<Rightarrow> string \<Rightarrow> nat option" where
  "digits_value n [] = Some n"
| "digits_value n (c # cs) =
     (if 48 \<le> (of_char c :: nat) \<and> (of_char c :: nat) \<le> 57 then digits_value (10 * n + (of_char c - 48)) cs else None)"

definition int_of_text :: "string \<Rightarrow> int result" where
  "int_of_text s =
     (case s of
        [] \<Rightarrow> Inl ValueError
      | c # cs \<Rightarrow>
          if c = CHR ''-'' \<and> cs \<noteq> []
          then (case digits_value 0 cs of None \<Rightarrow> Inl ValueError | Some n \<Rightarrow> Inr (- int n))
          else (case digits_value 0 s of None \<Rightarrow> Inl ValueError | Some n \<Rightarrow> Inr (int n)))"

lemma digits_value_append: "digits_value a (xs @ ys) = Option.bind (digits_value a xs) (\<lambda>b. digits_value b ys)"
  by (induction a xs rule: digits_value.induct) auto

lemma digit_code: "n < 10 \<Longrightarrow> (of_char (char_of (48 + n) :: char) :: nat) = 48 + n"
  by simp

lemma digits_value_digits: "digits_value 0 (digits n) = Some n"
proof (induction n rule: digits.induct)
  case (1 n)
  have one: "digits_value a [char_of (48 + m)] = Some (10 * a + m)" if "m < 10" for a m
    using digit_code[OF that] that by simp
  show ?case
  proof (cases "n < 10")
    case True
    then show ?thesis using one[of n 0] by (simp only: digits.simps[of n] if_True) simp
  next
    case False
    then have "digits_value 0 (digits n) = Option.bind (digits_value 0 (digits (n div 10))) (\<lambda>b. digits_value b [char_of (48 + n mod 10)])"
      by (simp only: digits.simps[of n] if_False digits_value_append)
    also have "\<dots> = Some (10 * (n div 10) + n mod 10)" using 1[OF False] one[of "n mod 10"] by simp
    finally show ?thesis by simp
  qed
qed

lemma digits_chars: "c \<in> set (digits n) \<Longrightarrow> 48 \<le> (of_char c :: nat) \<and> (of_char c :: nat) \<le> 57"
proof (induction n rule: digits.induct)
  case (1 n)
  have one: "(of_char (char_of (48 + m) :: char) :: nat) = 48 + m" if "m < 10" for m by (rule digit_code[OF that])
  show ?case
  proof (cases "n < 10")
    case True
    then show ?thesis using "1.prems" one[of n] by (simp add: digits.simps[of n])
  next
    case False
    then show ?thesis using 1 one[of "n mod 10"] by (auto simp: digits.simps[of n])
  qed
qed

lemma digits_nonempty [simp]: "digits n \<noteq> []"
  by (simp add: digits.simps[of n])

lemma int_of_text_str: "0 \<le> n \<Longrightarrow> int_of_text (py_str_int n) = Inr n"
proof -
  assume n: "0 \<le> n"
  obtain c cs where cs: "digits (nat n) = c # cs" using digits_nonempty[of "nat n"] by (cases "digits (nat n)") auto
  then have "48 \<le> (of_char c :: nat)" using digits_chars[of c "nat n"] by simp
  moreover have "(of_char (CHR ''-'') :: nat) = 45" by simp
  ultimately have "c \<noteq> CHR ''-''" by auto
  with n cs digits_value_digits[of "nat n"] show ?thesis by (simp add: int_of_text_def py_str_int_def del: digits_value.simps)
qed

lemma py_str_int_inj: "0 \<le> m \<Longrightarrow> 0 \<le> n \<Longrightarrow> py_str_int m = py_str_int n \<Longrightarrow> m = n"
  by (metis int_of_text_str sum.inject(2))

lemma split_on_plain: "sep = c # cs \<Longrightarrow> c \<notin> set s \<Longrightarrow> split_on sep acc s = [acc @ s]"
proof (induction s arbitrary: acc)
  case Nil
  then show ?case by (subst split_on.simps) simp
next
  case (Cons x s)
  then have "\<not> is_prefix sep (x # s)" by auto
  with Cons show ?case by (subst split_on.simps) simp
qed

lemma int_of_text_py_str [simp]: "int_of_text (py_str_int n) = Inr n"
proof (cases "0 \<le> n")
  case False
  then show ?thesis using digits_value_digits[of "nat (- n)"] by (simp add: int_of_text_def py_str_int_def del: digits_value.simps)
qed (rule int_of_text_str)

lemma py_str_int_injective: "inj py_str_int"
  by (rule injI) (metis int_of_text_py_str sum.inject(2))

lemma map_res_mem: "map_res f xs = Inr ys \<Longrightarrow> y \<in> set ys \<Longrightarrow> \<exists>x \<in> set xs. f x = Inr y"
  by (induction xs arbitrary: ys) (auto simp: bind_res_Inr_iff)

end
