(* ===== verification/Pre.thy ===== *)
theory Pre
  imports Py_Object Report
begin

text \<open>
  The preprocessing functions of \<open>gptcache/processor/pre.py\<close>: they take the request's keyword arguments, a
  dictionary, and give the text that is embedded. \<open>string.Formatter().parse\<close> is modelled as the language
  defines it (\<open>format_parse\<close>); \<open>re.sub\<close> is a parameter.
\<close>

section \<open>string.Formatter().parse\<close>

text \<open>The text up to the next brace, that brace, and the rest.\<close>

fun scan_literal :: "string \<Rightarrow> string \<times> char option \<times> string" where
  "scan_literal [] = ([], None, [])"
| "scan_literal (c # s) =
     (if c = CHR ''{'' \<or> c = CHR ''}'' then ([], Some c, s)
      else case scan_literal s of (l, m, r) \<Rightarrow> (c # l, m, r))"

text \<open>
  A field name ends at a closing brace, an exclamation mark or a colon; brackets inside it hide these. \<open>in_brackets\<close>
  says whether an opening bracket has been read. The result has the character that ended the name.
\<close>

fun scan_field :: "bool \<Rightarrow> string \<Rightarrow> (string \<times> char \<times> string) result" where
  "scan_field in_brackets [] = Inl ValueError"
| "scan_field in_brackets (c # s) =
     (if in_brackets then
        bind_res (scan_field (c \<noteq> CHR '']'') s) (\<lambda>(n, t, r). Inr (c # n, t, r))
      else if c = CHR ''{'' then Inl ValueError
      else if c = CHR ''}'' \<or> c = CHR '':'' \<or> c = CHR ''!'' then Inr ([], c, s)
      else bind_res (scan_field (c = CHR ''['') s) (\<lambda>(n, t, r). Inr (c # n, t, r)))"

fun scan_spec :: "nat \<Rightarrow> string \<Rightarrow> string result" where
  "scan_spec n [] = Inl ValueError"
| "scan_spec n (c # s) =
     (if c = CHR ''{'' then scan_spec (n + 1) s
      else if c = CHR ''}'' then (if n \<le> 1 then Inr s else scan_spec (n - 1) s)
      else scan_spec n s)"

text \<open>The name of a replacement field whose opening brace has been read, and what follows the field.\<close>

definition parse_field :: "string \<Rightarrow> (string \<times> string) result" where
  "parse_field s =
     bind_res (scan_field False s) (\<lambda>(name, t, r).
       if t = CHR ''}'' then Inr (name, r)
       else if t = CHR '':'' then bind_res (scan_spec 1 r) (\<lambda>r. Inr (name, r))
       else case r of
              [] \<Rightarrow> Inl ValueError
            | conv # [] \<Rightarrow> Inl ValueError
            | conv # c # r' \<Rightarrow>
                if c = CHR ''}'' then Inr (name, r')
                else if c = CHR '':'' then bind_res (scan_spec 1 r') (\<lambda>r. Inr (name, r))
                else Inl ValueError)"

text \<open>The pairs of literal text and field name; a doubled brace ends a literal without a field.\<close>

definition parse_next :: "string \<Rightarrow> ((string \<times> string option) \<times> string) result" where
  "parse_next s =
     (case scan_literal s of
        (l, None, r) \<Rightarrow> Inr ((l, None), r)
      | (l, Some c, r) \<Rightarrow>
          if r \<noteq> [] \<and> hd r = c then Inr ((l @ [c], None), tl r)
          else if c = CHR ''}'' \<or> r = [] then Inl ValueError
          else bind_res (parse_field r) (\<lambda>(name, r). Inr ((l, Some name), r)))"

lemma scan_literal_length: "scan_literal s = (l, m, r) \<Longrightarrow> length r \<le> length s \<and> (s \<noteq> [] \<longrightarrow> length r < length s)"
  by (induction s arbitrary: l) (auto split: if_splits prod.splits)

lemma scan_field_length: "scan_field b s = Inr (n, t, r) \<Longrightarrow> length r < length s"
  by (induction b s arbitrary: n rule: scan_field.induct) (auto simp: bind_res_Inr_iff less_SucI split: if_splits)

lemma scan_spec_length: "scan_spec n s = Inr r \<Longrightarrow> length r < length s"
  by (induction n s rule: scan_spec.induct) (auto simp: less_SucI split: if_splits)

lemma parse_field_length: "parse_field s = Inr (n, r) \<Longrightarrow> length r < length s"
  by (force simp: parse_field_def bind_res_Inr_iff split: if_splits list.splits
      dest!: scan_field_length scan_spec_length)

lemma parse_next_length: "parse_next s = Inr (x, r) \<Longrightarrow> s \<noteq> [] \<Longrightarrow> length r < length s"
  by (fastforce simp: parse_next_def bind_res_Inr_iff split: if_splits prod.splits option.splits
      dest: parse_field_length scan_literal_length)

function format_parse :: "string \<Rightarrow> (string \<times> string option) list result" where
  "format_parse s =
     (if s = [] then Inr []
      else case parse_next s of
             Inl e \<Rightarrow> Inl e
           | Inr (x, r) \<Rightarrow> bind_res (format_parse r) (\<lambda>xs. Inr (x # xs)))"
  by pat_completeness auto
termination
  by (relation "measure length") (auto dest: parse_next_length)

declare format_parse.simps [simp del]

section \<open>The template values of a message\<close>

text \<open>The names of the fields; an empty one gets the number of the names before it.\<close>

fun field_names :: "(string \<times> string option) list \<Rightarrow> string list \<Rightarrow> string list" where
  "field_names [] acc = acc"
| "field_names ((l, None) # xs) acc = field_names xs acc"
| "field_names ((l, Some n) # xs) acc = field_names xs (acc @ [if n \<noteq> [] then n else digits (length acc)])"

text \<open>The loop of \<open>_get_pattern_value\<close>, from literal \<open>i\<close> on.\<close>

fun pattern_loop ::
  "string \<Rightarrow> string list \<Rightarrow> nat \<Rightarrow> string list \<Rightarrow> nat \<Rightarrow> (string \<times> string) list \<Rightarrow> (string \<times> string) list result" where
  "pattern_loop value_str names i [] last_end acc = Inr acc"
| "pattern_loop value_str names i (l # ls) last_end acc =
     (let start = py_find value_str l last_end;
          stop = (case ls of
                    [] \<Rightarrow> Some (length value_str)
                  | l2 # _ \<Rightarrow> py_find value_str l2 (case start of None \<Rightarrow> 0 | Some s \<Rightarrow> s + 1))
      in case (start, stop) of
           (Some s, Some e) \<Rightarrow>
             bind_res (py_nth names i) (\<lambda>n.
               pattern_loop value_str names (Suc i) ls e
                 (dict_set acc n (drop (s + length l) (take e value_str))))
         | _ \<Rightarrow> Inr acc)"

definition get_pattern_value :: "string \<Rightarrow> string \<Rightarrow> (string \<times> string) list result" where
  "get_pattern_value pattern_str value_str =
     bind_res (format_parse pattern_str) (\<lambda>xs.
       pattern_loop value_str (field_names xs []) 0 (map fst xs) 0 [])"

section \<open>The preprocessing functions\<close>

type_synonym request = "(string \<times> pyobj) list"

definition last_content :: "request \<Rightarrow> pyobj result" where
  "last_content data = bind_res (py_last_item (dict_get data ''messages'')) (\<lambda>m. py_item m ''content'')"

text \<open>\<open>re_sub pattern s\<close> is \<open>re.sub(pattern, "", s)\<close>. \<open>prompts\<close> is \<open>None\<close> when the parameter is \<open>None\<close>.\<close>

definition last_content_without_prompt ::
  "(string \<Rightarrow> string \<Rightarrow> string result) \<Rightarrow> request \<Rightarrow> string list option \<Rightarrow> pyobj result" where
  "last_content_without_prompt re_sub data prompts =
     bind_res (last_content data) (\<lambda>s.
       case prompts of
         None \<Rightarrow> Inr s
       | Some ps \<Rightarrow>
           (case s of
              PStr s \<Rightarrow> bind_res (re_sub (py_join ''|'' ps) s) (\<lambda>r. Inr (PStr r))
            | _ \<Rightarrow> Inl TypeError))"

definition last_content_without_template :: "request \<Rightarrow> config option \<Rightarrow> pyobj result" where
  "last_content_without_template data cache_config =
     bind_res (last_content data) (\<lambda>s.
       case cache_config of
         None \<Rightarrow> Inr s
       | Some c \<Rightarrow>
           (case cf_template c of
              None \<Rightarrow> Inr s
            | Some template \<Rightarrow>
                if template = [] then Inr s
                else case s of
                       PStr s \<Rightarrow> bind_res (get_pattern_value template s) (\<lambda>vs.
                         Inr (PStr (''['' @ py_join '', '' (map (\<lambda>kv. repr_str (snd kv)) vs) @ '']'')))
                     | _ \<Rightarrow> Inl AttributeError))"

text \<open>The content of a message added to the text so far, with a newline unless the message is the last.\<close>

fun add_contents :: "string \<Rightarrow> pyobj list \<Rightarrow> string result" where
  "add_contents s [] = Inr s"
| "add_contents s (m # ms) =
     bind_res (py_item m ''content'') (\<lambda>c.
       case c of
         PStr t \<Rightarrow> add_contents (s @ t @ (if ms = [] then [] else [CHR 0x0A])) ms
       | _ \<Rightarrow> Inl TypeError)"

definition all_content :: "request \<Rightarrow> string result" where
  "all_content data =
     (case dict_get data ''messages'' of
        PList ms \<Rightarrow> add_contents [] ms
      | PDict d \<Rightarrow> if d = [] then Inr [] else Inl TypeError
      | PStr s \<Rightarrow> if s = [] then Inr [] else Inl TypeError
      | _ \<Rightarrow> Inl TypeError)"

definition pre_nop :: "request \<Rightarrow> request" where
  "pre_nop data = data"

definition get_prompt :: "request \<Rightarrow> pyobj" where
  "get_prompt data = dict_get data ''prompt''"

text \<open>Files are objects with the attribute \<open>name\<close>; \<open>peek\<close> is the bytes that \<open>peek()\<close> returns.\<close>

definition get_file_name :: "request \<Rightarrow> pyobj result" where
  "get_file_name data = py_attr (dict_get data ''file'') ''name''"

definition get_file_bytes :: "request \<Rightarrow> pyobj result" where
  "get_file_bytes data = py_attr (dict_get data ''file'') ''peek''"

definition get_input_str :: "repr_env \<Rightarrow> request \<Rightarrow> string result" where
  "get_input_str re data =
     (let input_data = dict_get data ''input''
      in bind_res (py_item input_data ''image'') (\<lambda>img.
         bind_res (py_attr img ''peek'') (\<lambda>b.
         bind_res (py_item input_data ''question'') (\<lambda>q. str_add (py_str re b) q))))"

definition get_input_image_file_name :: "request \<Rightarrow> pyobj result" where
  "get_input_image_file_name data =
     bind_res (py_item (dict_get data ''input'') ''image'') (\<lambda>img. py_attr img ''name'')"

text \<open>\<open>peek_file\<close> opens the file of that name and gives its first bytes.\<close>

definition get_image_question :: "repr_env \<Rightarrow> (string \<Rightarrow> string result) \<Rightarrow> request \<Rightarrow> string result" where
  "get_image_question re peek_file data =
     bind_res (case dict_get data ''image'' of
                 PStr name \<Rightarrow> bind_res (peek_file name) (\<lambda>b. Inr (repr_bytes b))
               | img \<Rightarrow> Inr (py_str re img)) (\<lambda>img.
       str_add img (dict_get data ''question''))"

definition get_image :: "request \<Rightarrow> pyobj" where
  "get_image data = dict_get data ''image''"

definition get_inputs :: "request \<Rightarrow> pyobj" where
  "get_inputs data = dict_get data ''inputs''"

definition get_messages_last_content :: "request \<Rightarrow> pyobj result" where
  "get_messages_last_content data =
     bind_res (py_last_item (dict_get data ''messages'')) (\<lambda>m. py_attr m ''content'')"

definition get_openai_moderation_input :: "repr_env \<Rightarrow> request \<Rightarrow> string" where
  "get_openai_moderation_input re data = py_str re (dict_get data ''input'')"

text \<open>
  The loop of \<open>concat_all_queries\<close>. A role that is not a string has no \<open>upper\<close>; the content is formatted with
  \<open>str\<close>.
\<close>

fun concat_loop :: "repr_env \<Rightarrow> string list \<Rightarrow> string \<Rightarrow> pyobj list \<Rightarrow> string result" where
  "concat_loop re skip_list s [] = Inr s"
| "concat_loop re skip_list s (m # ms) =
     bind_res (py_item m ''role'') (\<lambda>role.
       case role of
         PStr r \<Rightarrow>
           if r \<in> set skip_list then concat_loop re skip_list s ms
           else bind_res (py_item m ''content'') (\<lambda>c.
                  concat_loop re skip_list
                    (s @ py_upper r @ '': '' @ py_str re c @ (if ms = [] then [] else [CHR 0x0A])) ms)
       | _ \<Rightarrow> Inl AttributeError)"

definition concat_all_queries :: "repr_env \<Rightarrow> request \<Rightarrow> config \<Rightarrow> string result" where
  "concat_all_queries re data cache_config =
     (case cf_context_len cache_config of
        None \<Rightarrow> Inl TypeError
      | Some n \<Rightarrow>
          (case dict_get data ''messages'' of
             PList ms \<Rightarrow>
               let size = min (n * 2) (int (length ms));
                   start = int (length ms) - size
               in concat_loop re (cf_skip_list cache_config) [] (drop (nat start) ms)
           | PStr s \<Rightarrow> if s = [] \<or> n \<le> 0 then Inr [] else Inl TypeError
           | _ \<Rightarrow> Inl TypeError))"

section \<open>Templates and their values\<close>

text \<open>A template as literals and field names, its text, and a message made from it with values.\<close>

definition no_braces :: "string \<Rightarrow> bool" where
  "no_braces s \<longleftrightarrow> CHR ''{'' \<notin> set s \<and> CHR ''}'' \<notin> set s"

definition plain_name :: "string \<Rightarrow> bool" where
  "plain_name n \<longleftrightarrow> n \<noteq> [] \<and> set n \<inter> {CHR ''{'', CHR ''}'', CHR ''['', CHR '':'', CHR ''!''} = {}"

fun template_text :: "(string \<times> string) list \<Rightarrow> string" where
  "template_text [] = []"
| "template_text ((l, n) # xs) = l @ CHR ''{'' # n @ CHR ''}'' # template_text xs"

fun render :: "(string \<times> string) list \<Rightarrow> string" where
  "render [] = []"
| "render ((l, v) # xs) = l @ v @ render xs"

text \<open>
  Every literal is found where it was put: searching for it from one character after the literal before
  gives the end of the value between them.
\<close>

fun separated :: "(string \<times> string) list \<Rightarrow> bool" where
  "separated ((l, v) # (l2, v2) # xs) =
     (py_find (render ((l, v) # (l2, v2) # xs)) l2 1 = Some (length l + length v) \<and> separated ((l2, v2) # xs))"
| "separated xs = True"

lemma scan_literal_plain: "no_braces l \<Longrightarrow> scan_literal (l @ CHR ''{'' # r) = (l, Some (CHR ''{''), r)"
  by (induction l) (auto simp: no_braces_def)

lemma scan_literal_end: "no_braces l \<Longrightarrow> scan_literal l = (l, None, [])"
  by (induction l) (auto simp: no_braces_def)

lemma scan_field_plain:
  "set n \<inter> {CHR ''{'', CHR ''}'', CHR ''['', CHR '':'', CHR ''!''} = {} \<Longrightarrow>
     scan_field False (n @ CHR ''}'' # r) = Inr (n, CHR ''}'', r)"
  by (induction n) auto

lemma parse_next_plain:
  assumes "no_braces l" "plain_name n"
  shows "parse_next (l @ CHR ''{'' # n @ CHR ''}'' # r) = Inr ((l, Some n), r)"
proof -
  have n: "n \<noteq> []" "hd (n @ CHR ''}'' # r) \<noteq> CHR ''{''" using assms(2) by (cases n; auto simp: plain_name_def)+
  have "parse_field (n @ CHR ''}'' # r) = Inr (n, r)"
    using assms(2) by (simp add: parse_field_def plain_name_def scan_field_plain)
  with n show ?thesis by (simp add: parse_next_def scan_literal_plain[OF assms(1)])
qed

lemma format_parse_plain:
  assumes "\<forall>(l, n) \<in> set xs. no_braces l \<and> plain_name n" and "no_braces tail"
  shows "format_parse (template_text xs @ tail) =
    Inr (map (\<lambda>(l, n). (l, Some n)) xs @ (if tail = [] then [] else [(tail, None)]))"
  using assms(1)
proof (induction xs)
  case Nil
  have "parse_next tail = Inr ((tail, None), [])" by (simp add: parse_next_def scan_literal_end[OF assms(2)])
  then show ?case by (simp add: format_parse.simps[of tail] format_parse.simps[of "[]"])
next
  case (Cons x xs)
  obtain l n where x: "x = (l, n)" by (rule prod.exhaust)
  from Cons.prems have "no_braces l" "plain_name n" by (auto simp: x)
  from parse_next_plain[OF this] Cons show ?case
    by (simp add: x format_parse.simps[of "l @ _"])
qed

lemma field_names_plain:
  "\<forall>(l, n) \<in> set xs. plain_name n \<Longrightarrow>
     field_names (map (\<lambda>(l, n). (l, Some n)) xs @ (if tail = [] then [] else [(tail, None)])) acc = acc @ map snd xs"
  by (induction xs arbitrary: acc) (auto simp: plain_name_def)

lemma py_find_shift:
  "py_find (pre @ s) sub (length pre + k) = map_option (\<lambda>i. length pre + i) (py_find s sub k)"
  by (cases "find_at sub (drop k s)") (simp_all add: py_find_def)

lemma pattern_loop_run:
  assumes "separated xs" and "length names \<le> i + length xs" and "i \<le> length names"
  shows "pattern_loop (pre @ render xs) names i (map fst xs) (length pre) acc =
    (if length names < i + length xs then Inl IndexError
     else Inr (foldl (\<lambda>acc (n, v). dict_set acc n v) acc (zip (drop i names) (map snd xs))))"
  using assms
proof (induction xs arbitrary: pre i acc)
  case Nil
  then show ?case by simp
next
  case (Cons x xs)
  obtain l v where x: "x = (l, v)" by (rule prod.exhaust)
  let ?s = "pre @ render (x # xs)"
  have start: "py_find ?s l (length pre) = Some (length pre)"
    by (rule py_find_here) (simp_all add: x)
  let ?e = "length pre + length l + length v"
  have stop: "(case map fst xs of [] \<Rightarrow> Some (length ?s) | l2 # _ \<Rightarrow> py_find ?s l2 (length pre + 1)) = Some ?e"
  proof (cases xs)
    case Nil
    then show ?thesis by (simp add: x)
  next
    case (Cons y ys)
    obtain l2 v2 where y: "y = (l2, v2)" by (rule prod.exhaust)
    with Cons Cons.prems(1) have "py_find (render (x # xs)) l2 1 = Some (length l + length v)" by (simp add: x)
    then show ?thesis using py_find_shift[of pre "render (x # xs)" l2 1] by (simp add: Cons y add.assoc)
  qed
  have piece: "drop (length pre + length l) (take ?e ?s) = v" by (simp add: x)
  have sep: "separated xs" using Cons.prems(1) by (cases xs) (auto simp: x)
  have step: "pattern_loop ?s names i (map fst (x # xs)) (length pre) acc =
      bind_res (py_nth names i) (\<lambda>n. pattern_loop ?s names (Suc i) (map fst xs) ?e (dict_set acc n v))"
    unfolding x list.map fst_conv pattern_loop.simps Let_def start[unfolded x] option.case stop[unfolded x] prod.case
      piece[unfolded x] by (rule refl)
  show ?case
  proof (cases "i < length names")
    case False
    then show ?thesis using Cons.prems(3) unfolding step by (simp add: py_nth_def)
  next
    case True
    have "pattern_loop ?s names i (map fst (x # xs)) (length pre) acc =
        pattern_loop ?s names (Suc i) (map fst xs) ?e (dict_set acc (names ! i) v)"
      using True unfolding step by (simp add: py_nth_def)
    also have "\<dots> = pattern_loop ((pre @ l @ v) @ render xs) names (Suc i) (map fst xs) (length (pre @ l @ v))
        (dict_set acc (names ! i) v)" by (simp add: x add.assoc)
    also have "\<dots> = (if length names < Suc i + length xs then Inl IndexError
        else Inr (foldl (\<lambda>acc (n, v). dict_set acc n v) (dict_set acc (names ! i) v) (zip (drop (Suc i) names) (map snd xs))))"
      by (rule Cons.IH[OF sep]) (use Cons.prems True in simp_all)
    finally show ?thesis using True by (simp add: Cons_nth_drop_Suc[symmetric] x)
  qed
qed

lemma dict_set_fold:
  "distinct (map fst acc @ ns) \<Longrightarrow> length ns = length vs \<Longrightarrow>
     foldl (\<lambda>acc (n, v). dict_set acc n v) acc (zip ns vs) = acc @ zip ns vs"
proof (induction ns vs arbitrary: acc rule: list_induct2')
  case (4 n ns v vs)
  then have "n \<notin> fst ` set acc" by auto
  then show ?case using 4 by (simp add: dict_set_new)
qed auto

section \<open>Joining the messages\<close>

text \<open>A message of the request with a role and a content, both strings.\<close>

definition message :: "string \<times> string \<Rightarrow> pyobj" where
  "message m = PDict [(''role'', PStr (fst m)), (''content'', PStr (snd m))]"

lemma join_Cons: "py_join sep (x # xs) = x @ (if xs = [] then [] else sep @ py_join sep xs)"
  by (cases xs) simp_all

lemma add_contents_join:
  "add_contents s (map message ms) = Inr (s @ py_join [CHR 0x0A] (map snd ms))"
proof (induction ms arbitrary: s)
  case (Cons m ms)
  then show ?case by (simp add: message_def[of m] join_Cons)
qed simp

definition query_line :: "string \<times> string \<Rightarrow> string" where
  "query_line m = py_upper (fst m) @ '': '' @ snd m"

definition kept_lines :: "string list \<Rightarrow> (string \<times> string) list \<Rightarrow> string list" where
  "kept_lines skip_list ms = map query_line (filter (\<lambda>m. fst m \<notin> set skip_list) ms)"

lemma lines_join:
  "xs \<noteq> [] \<Longrightarrow> concat (map (\<lambda>l. l @ sep) xs) = py_join sep xs @ sep"
  by (induction sep xs rule: py_join.induct) auto

lemma concat_loop_lines:
  "concat_loop re skip_list s (map message ms) =
     Inr (s @ (if ms \<noteq> [] \<and> fst (last ms) \<notin> set skip_list then py_join [CHR 0x0A] (kept_lines skip_list ms)
               else concat (map (\<lambda>l. l @ [CHR 0x0A]) (kept_lines skip_list ms))))"
proof (induction ms arbitrary: s)
  case Nil
  then show ?case by (simp add: kept_lines_def)
next
  case (Cons m ms)
  have last: "kept_lines skip_list ms \<noteq> []" if "ms \<noteq> []" "fst (last ms) \<notin> set skip_list"
    using that last_in_set[of ms] by (auto simp: kept_lines_def filter_empty_conv)
  show ?case
  proof (cases "fst m \<in> set skip_list")
    case True
    then show ?thesis using Cons.IH by (simp add: message_def[of m] kept_lines_def)
  next
    case False
    have "concat_loop re skip_list s (map message (m # ms)) =
        concat_loop re skip_list (s @ query_line m @ (if ms = [] then [] else [CHR 0x0A])) (map message ms)"
      using False by (simp add: message_def[of m] query_line_def)
    moreover have "kept_lines skip_list (m # ms) = query_line m # kept_lines skip_list ms"
      using False by (simp add: kept_lines_def)
    ultimately show ?thesis
      using Cons.IH False last by (simp add: join_Cons) (simp add: kept_lines_def)
  qed
qed

section \<open>Properties\<close>

text \<open>
  C23. Template values are recovered: from a message that was made by filling the template's fields, the values
  come back under their names, in order, provided the template ends with a field and every literal is
  first found where it was put.
\<close>

theorem template_values_recovered:
  assumes "\<forall>(l, n, v) \<in> set xs. no_braces l \<and> plain_name n" and "distinct (map (fst \<circ> snd) xs)"
    and "separated (map (\<lambda>(l, n, v). (l, v)) xs)"
  shows "get_pattern_value (template_text (map (\<lambda>(l, n, v). (l, n)) xs)) (render (map (\<lambda>(l, n, v). (l, v)) xs)) =
    Inr (map (\<lambda>(l, n, v). (n, v)) xs)"
proof -
  let ?t = "map (\<lambda>(l, n, v). (l, n)) xs" and ?r = "map (\<lambda>(l, n, v). (l, v)) xs"
  have plain: "\<forall>(l, n) \<in> set ?t. no_braces l \<and> plain_name n" using assms(1) by auto
  then have pn: "\<forall>(l, n) \<in> set ?t. plain_name n" by fast
  have parse: "format_parse (template_text ?t) = Inr (map (\<lambda>(l, n). (l, Some n)) ?t)"
    using format_parse_plain[OF plain, of "[]"] by (simp add: no_braces_def)
  have names: "field_names (map (\<lambda>(l, n). (l, Some n)) ?t) [] = map snd ?t"
    using field_names_plain[OF pn, of "[]" "[]"] by simp
  have fsts: "map fst (map (\<lambda>(l, n). (l, Some n)) ?t) = map fst ?r"
    by (simp add: comp_def split_def)
  have "get_pattern_value (template_text ?t) (render ?r) = pattern_loop ([] @ render ?r) (map snd ?t) 0 (map fst ?r) (length ([] :: string)) []"
    by (simp add: get_pattern_value_def parse names fsts del: map_map)
  also have "\<dots> = Inr (foldl (\<lambda>acc (n, v). dict_set acc n v) [] (zip (map snd ?t) (map snd ?r)))"
    by (subst pattern_loop_run[OF assms(3)]) simp_all
  also have "\<dots> = Inr (zip (map snd ?t) (map snd ?r))"
    using assms(2) by (subst dict_set_fold) (simp_all add: comp_def split_def)
  also have "zip (map snd ?t) (map snd ?r) = map (\<lambda>(l, n, v). (n, v)) xs"
    by (simp add: zip_map_map zip_same_conv_map comp_def split_def)
  finally show ?thesis .
qed

theorem template_values_recovered_witness:
  "get_pattern_value ''tell me about {what} in {n} words: {hint}'' ''tell me about cats in 5 words: be nice'' =
     Inr [(''what'', ''cats''), (''n'', ''5''), (''hint'', ''be nice'')]"
proof -
  let ?xs = "[(''tell me about '', ''what'', ''cats''), ('' in '', ''n'', ''5''), ('' words: '', ''hint'', ''be nice'')]"
  have "separated (map (\<lambda>(l, n, v). (l, v)) ?xs)" by code_simp
  with template_values_recovered[of ?xs] show ?thesis by (simp add: no_braces_def plain_name_def)
qed

text \<open>
  A template must not go on after its last field: if any literal text follows it, a message made from the
  template makes the preprocessing raise \<open>IndexError\<close>, because there is no field name for the last literal.
\<close>

theorem template_tail_raises:
  assumes "\<forall>(l, n, v) \<in> set xs. no_braces l \<and> plain_name n" and "no_braces tail" "tail \<noteq> []"
    and "separated (map (\<lambda>(l, n, v). (l, v)) xs @ [(tail, [])])"
  shows "get_pattern_value (template_text (map (\<lambda>(l, n, v). (l, n)) xs) @ tail)
      (render (map (\<lambda>(l, n, v). (l, v)) xs) @ tail) = Inl IndexError"
proof -
  let ?t = "map (\<lambda>(l, n, v). (l, n)) xs" and ?r = "map (\<lambda>(l, n, v). (l, v)) xs @ [(tail, [])]"
  have plain: "\<forall>(l, n) \<in> set ?t. no_braces l \<and> plain_name n" using assms(1) by auto
  then have pn: "\<forall>(l, n) \<in> set ?t. plain_name n" by fast
  have parse: "format_parse (template_text ?t @ tail) = Inr (map (\<lambda>(l, n). (l, Some n)) ?t @ [(tail, None)])"
    using format_parse_plain[OF plain assms(2)] assms(3) by simp
  have names: "field_names (map (\<lambda>(l, n). (l, Some n)) ?t @ [(tail, None)]) [] = map snd ?t"
    using field_names_plain[OF pn, of tail "[]"] assms(3) by simp
  have fsts: "map fst (map (\<lambda>(l, n). (l, Some n)) ?t @ [(tail, None)]) = map fst ?r"
    by (simp add: comp_def split_def)
  have rtext: "render ?r = render (map (\<lambda>(l, n, v). (l, v)) xs) @ tail"
    by (induction xs) auto
  have "get_pattern_value (template_text ?t @ tail) (render ?r) = pattern_loop ([] @ render ?r) (map snd ?t) 0 (map fst ?r) (length ([] :: string)) []"
    by (simp add: get_pattern_value_def parse names fsts del: map_map map_append)
  also have "\<dots> = Inl IndexError" by (subst pattern_loop_run[OF assms(4)]) simp_all
  finally show ?thesis unfolding rtext .
qed

theorem template_tail_raises_witness:
  "get_pattern_value ''say {what} twice'' ''say hello twice'' = Inl IndexError"
proof -
  have "separated (map (\<lambda>(l, n, v). (l, v)) [(''say '', ''what'', ''hello'')] @ [('' twice'', [])])" by code_simp
  with template_tail_raises[of "[(''say '', ''what'', ''hello'')]" "'' twice''"] show ?thesis
    by (simp add: no_braces_def plain_name_def)
qed

text \<open>
  C21. \<open>concat_all_queries\<close> gives the last \<open>2 * context_len\<close> messages whose role is not skipped, one line each with the role
  in capitals, joined by newlines; but when the very last message is skipped, a newline is left at the end, so
  that the same conversation gets another cache key.
\<close>

theorem concat_all_queries_lines:
  assumes "dict_get data ''messages'' = PList (map message ms)" and "cf_context_len cfg = Some (int n)"
  shows "concat_all_queries re data cfg =
    (let last_ms = drop (length ms - 2 * n) ms; ls = kept_lines (cf_skip_list cfg) last_ms
     in Inr (py_join [CHR 0x0A] ls @
          (if ls \<noteq> [] \<and> fst (last ms) \<in> set (cf_skip_list cfg) then [CHR 0x0A] else [])))"
proof -
  let ?d = "drop (length ms - 2 * n) ms" and ?skip = "cf_skip_list cfg"
  have "nat (int (length ms) - min (int n * 2) (int (length ms))) = length ms - 2 * n" by simp
  then have "concat_all_queries re data cfg = concat_loop re ?skip [] (map message ?d)"
    by (simp add: concat_all_queries_def assms Let_def drop_map)
  moreover have "last ?d = last ms" if "kept_lines ?skip ?d \<noteq> []"
    using that by (intro last_drop) (auto simp: kept_lines_def not_less intro: ccontr)
  moreover have "kept_lines ?skip ?d \<noteq> []" if "?d \<noteq> []" "fst (last ?d) \<notin> set ?skip"
    using that last_in_set[of ?d] by (auto simp: kept_lines_def filter_empty_conv)
  ultimately show ?thesis
    using lines_join[of "kept_lines ?skip ?d" "[CHR 0x0A]"]
    by (cases "kept_lines ?skip ?d = []") (auto simp: concat_loop_lines Let_def kept_lines_def)
qed

theorem concat_all_queries_lines_witness:
  "\<forall>re. concat_all_queries re [(''messages'', PList (map message [(''user'', ''a''), (''assistant'', ''b'')]))]
     \<lparr>cf_similarity_threshold = 1 / 2, cf_prompts = None, cf_template = None, cf_auto_flush = 20,
      cf_enable_token_counter = True, cf_input_summary_len = None, cf_context_len = Some (int 1),
      cf_skip_list = [''system'', ''assistant''], cf_data_check = False, cf_disable_report = False\<rparr> =
     Inr (''USER: a'' @ [CHR 0x0A])"
proof -
  have "py_upper ''user'' = ''USER''" by code_simp
  then show ?thesis
    by (intro allI, subst concat_all_queries_lines[where ms = "[(''user'', ''a''), (''assistant'', ''b'')]" and n = 1])
      (simp_all add: dict_get_def kept_lines_def query_line_def Let_def)
qed

text \<open>
  \<open>all_content\<close> joins the contents of all messages with newlines.\<close>

theorem all_content_joins:
  "all_content [(''messages'', PList (map message ms))] = Inr (py_join [CHR 0x0A] (map snd ms))"
  by (simp add: all_content_def dict_get_def add_contents_join)

end
