(* ===== verification/Evaluation.thy ===== *)
theory Evaluation
  imports Adapter Py_Object
begin

text \<open>
  The similarity evaluations of \<open>gptcache/similarity_evaluation/\<close>: exact match, search distance, vector norm,
  time, sequence match, k-reciprocal neighbours, and those that ask a model (ONNX, cross encoder, Cohere), whose
  answer is a parameter. Embeddings are lists of real numbers with exact arithmetic; numpy's division by
  a zero norm, which gives NaN, is outside the model (the properties ask for norms that are not 0).
\<close>

section \<open>What is compared\<close>

text \<open>
  The dictionaries with the keys that evaluations look at; \<open>None\<close> is an absent key, and an embedding may be
  there and be \<open>None\<close>. \<open>ed_search\<close> is the distance of the search result, \<open>ed_created\<close> the cache entry's creation
  time.
\<close>

type_synonym vec = "real list"

record eval_dict =
  ed_question :: "question_arg option"
  ed_answer :: "string option"
  ed_embedding :: "vec option option"
  ed_search :: "real option"
  ed_created :: "int option option"

definition need :: "'a option \<Rightarrow> 'a result" where
  "need x = (case x of None \<Rightarrow> Inl KeyError | Some v \<Rightarrow> Inr v)"

text \<open>\<open>q.lower()\<close>; only strings have it.\<close>

fun lower_question :: "question_arg \<Rightarrow> string result" where
  "lower_question (QStr s) = Inr (py_lower s)"
| "lower_question (QObj q) = Inl AttributeError"

section \<open>Vectors\<close>

definition sq_sum :: "vec \<Rightarrow> real" where
  "sq_sum v = sum_list (map (\<lambda>x. x * x) v)"

definition vec_norm :: "vec \<Rightarrow> real" where
  "vec_norm v = sqrt (sq_sum v)"

definition vec_normalize :: "vec \<Rightarrow> vec" where
  "vec_normalize v = (let magnitude = vec_norm v in map (\<lambda>x. x / magnitude) v)"

text \<open>Subtraction broadcasts an array of one element and rejects other differences of length.\<close>

definition vec_sub :: "vec \<Rightarrow> vec \<Rightarrow> vec result" where
  "vec_sub a b =
     (if length a = length b then Inr (map2 (-) a b)
      else if length a = 1 then Inr (map (\<lambda>y. hd a - y) b)
      else if length b = 1 then Inr (map (\<lambda>x. x - hd b) a)
      else Inl ValueError)"

definition euclidean_distance_calculate :: "vec \<Rightarrow> vec \<Rightarrow> real result" where
  "euclidean_distance_calculate vec_l vec_r = bind_res (vec_sub vec_l vec_r) (\<lambda>d. Inr (sq_sum d))"

section \<open>ExactMatchEvaluation, SearchDistanceEvaluation\<close>

definition exact_match :: "eval_dict \<Rightarrow> eval_dict \<Rightarrow> real result" where
  "exact_match src cache =
     bind_res (need (ed_question cache)) (\<lambda>c. bind_res (need (ed_question src)) (\<lambda>s. Inr (if c = s then 1 else 0)))"

definition exact_range :: "real \<times> real" where
  "exact_range = (0, 1)"

definition clamp_distance :: "real \<Rightarrow> bool \<Rightarrow> real \<Rightarrow> real" where
  "clamp_distance max_distance positive distance =
     (let distance = (if distance < 0 then 0 else if distance > max_distance then max_distance else distance)
      in if positive then distance else max_distance - distance)"

definition search_distance :: "real \<Rightarrow> bool \<Rightarrow> eval_dict \<Rightarrow> eval_dict \<Rightarrow> real result" where
  "search_distance max_distance positive src cache =
     bind_res (need (ed_search cache)) (\<lambda>d. Inr (clamp_distance max_distance positive d))"

definition distance_range :: "real \<Rightarrow> real \<times> real" where
  "distance_range max_distance = (0, max_distance)"

section \<open>NumpyNormEvaluation\<close>

text \<open>
  The evaluation writes missing embeddings into the dictionaries; the state is the pair of them. \<open>encoder\<close> is the
  optional question embedding function.
\<close>

definition has_embedding :: "eval_dict \<Rightarrow> bool" where
  "has_embedding d = (case ed_embedding d of Some (Some v) \<Rightarrow> True | _ \<Rightarrow> False)"

definition need_vec :: "eval_dict \<Rightarrow> vec result" where
  "need_vec d = (case ed_embedding d of None \<Rightarrow> Inl KeyError | Some None \<Rightarrow> Inl TypeError | Some (Some v) \<Rightarrow> Inr v)"

definition norm_range :: "real \<times> real" where
  "norm_range = (0, 2)"

definition norm_score :: "bool \<Rightarrow> eval_dict \<times> eval_dict \<Rightarrow> real result" where
  "norm_score enable_normal = (\<lambda>(src, cache).
     bind_res (need_vec src) (\<lambda>s. bind_res (need_vec cache) (\<lambda>c.
       let s = (if enable_normal then vec_normalize s else s); c = (if enable_normal then vec_normalize c else c)
       in bind_res (vec_sub s c) (\<lambda>d. Inr (snd norm_range - vec_norm d)))))"

definition numpy_norm ::
  "bool \<Rightarrow> (question_arg \<Rightarrow> vec result) option \<Rightarrow> eval_dict \<times> eval_dict \<Rightarrow> (real, eval_dict \<times> eval_dict) outcome" where
  "numpy_norm enable_normal encoder = (\<lambda>(src, cache).
     case (ed_question src, ed_question cache) of
       (Some sq, Some cq) \<Rightarrow>
         (case bind_res (lower_question sq) (\<lambda>a. bind_res (lower_question cq) (\<lambda>b. Inr (a = b))) of
            Inl e \<Rightarrow> (Inl e, (src, cache))
          | Inr True \<Rightarrow> (Inr (snd norm_range), (src, cache))
          | Inr False \<Rightarrow>
              if has_embedding src \<and> has_embedding cache then (norm_score enable_normal (src, cache), (src, cache))
              else case encoder of
                     None \<Rightarrow> (Inl AssertionError, (src, cache))
                   | Some f \<Rightarrow>
                       (case f sq of
                          Inl e \<Rightarrow> (Inl e, (src, cache))
                        | Inr v \<Rightarrow>
                            let src = src\<lparr>ed_embedding := Some (Some v)\<rparr>
                            in case f cq of
                                 Inl e \<Rightarrow> (Inl e, (src, cache))
                               | Inr w \<Rightarrow>
                                   let cache = cache\<lparr>ed_embedding := Some (Some w)\<rparr>
                                   in (norm_score enable_normal (src, cache), (src, cache))))
     | _ \<Rightarrow> (norm_score enable_normal (src, cache), (src, cache)))"

section \<open>TimeEvaluation\<close>

text \<open>\<open>inner\<close> and \<open>inner_range\<close> are the evaluation that is restricted; \<open>now\<close> is the current time.\<close>

definition time_evaluation ::
  "(eval_dict \<Rightarrow> eval_dict \<Rightarrow> real result) \<Rightarrow> real \<times> real \<Rightarrow> int \<Rightarrow> real \<Rightarrow> eval_dict \<Rightarrow> eval_dict \<Rightarrow> real result" where
  "time_evaluation inner inner_range now time_range src cache =
     (case ed_created cache of
        Some (Some created) \<Rightarrow>
          if of_int (now - created) > time_range then Inr (fst inner_range) else inner src cache
      | _ \<Rightarrow> Inr (fst inner_range))"

section \<open>SequenceMatchEvaluation\<close>

definition reweight :: "real list \<Rightarrow> nat \<Rightarrow> real list result" where
  "reweight weights n =
     (if n \<ge> length weights then Inr weights
      else let sum_ws = sum_list (take n weights)
           in if n > 0 \<and> sum_ws = 0 then Inl ZeroDivisionError
              else Inr (map (\<lambda>w. w * (1 / sum_ws)) (take n weights)))"

text \<open>\<open>s.split(sep)\<close>; \<open>acc\<close> is the piece read so far.\<close>

definition sequence_contents :: "question_arg \<Rightarrow> string list result" where
  "sequence_contents q =
     (case q of
        QStr s \<Rightarrow> Inr (filter (\<lambda>c. 0 < length c) (split_on ''USER: '' [] s))
      | QObj x \<Rightarrow> Inl AttributeError)"

fun weighted_distance :: "vec list \<Rightarrow> vec list \<Rightarrow> real list \<Rightarrow> nat \<Rightarrow> real result" where
  "weighted_distance (s # ss) (c # cs) (w # ws) (Suc n) =
     bind_res (euclidean_distance_calculate s c) (\<lambda>d.
       bind_res (weighted_distance ss cs ws n) (\<lambda>rest. Inr ((4 - d) * w + rest)))"
| "weighted_distance ss cs ws n = Inr 0"

definition sequence_match ::
  "(string \<Rightarrow> vec result) \<Rightarrow> real list \<Rightarrow> eval_dict \<Rightarrow> eval_dict \<Rightarrow> real result" where
  "sequence_match to_emb weights src cache =
     bind_res (need (ed_question src)) (\<lambda>sq. bind_res (need (ed_question cache)) (\<lambda>cq.
     bind_res (sequence_contents sq) (\<lambda>src_contents. bind_res (sequence_contents cq) (\<lambda>cache_contents.
     bind_res (map_res to_emb src_contents) (\<lambda>src_embs. bind_res (map_res to_emb cache_contents) (\<lambda>cache_embs.
       let n = min (min (length src_contents) (length cache_contents)) (length weights)
       in if n = 0 then Inl AssertionError
          else bind_res (reweight (rev weights) n) (\<lambda>ws.
            weighted_distance (rev (map vec_normalize src_embs)) (rev (map vec_normalize cache_embs)) ws n)))))))"

section \<open>KReciprocalEvaluation\<close>

text \<open>The vector store is searched with the cache's embedding; the last candidate's distance is the limit.\<close>

definition k_reciprocal ::
  "(vec, 'v) vector_ops \<Rightarrow> int \<Rightarrow> real \<Rightarrow> bool \<Rightarrow> eval_dict \<Rightarrow> eval_dict \<Rightarrow> 'v \<Rightarrow> (real, 'v) outcome" where
  "k_reciprocal V top_k max_distance positive src cache v =
     (case bind_res (need (ed_question src)) (\<lambda>s. bind_res (need (ed_question cache)) (\<lambda>c. Inr (s = c))) of
        Inl e \<Rightarrow> (Inl e, v)
      | Inr same \<Rightarrow>
          if same then (Inr 1, v)
          else case bind_res (need_vec src) (\<lambda>s. bind_res (need_vec cache) (\<lambda>c. Inr (s, c))) of
                 Inl e \<Rightarrow> (Inl e, v)
               | Inr (s, c) \<Rightarrow>
                   bind_out (vo_search V c (top_k + 1) v) (\<lambda>candidates v.
                     (bind_res (euclidean_distance_calculate (vec_normalize s) c) (\<lambda>euc_dist.
                      bind_res (case candidates of None \<Rightarrow> Inl TypeError | Some cs \<Rightarrow> py_last cs) (\<lambda>worst.
                        let euc_dist = (if euc_dist > fst worst then snd (distance_range max_distance) else euc_dist)
                        in Inr (clamp_distance max_distance positive euc_dist))), v)))"

section \<open>Evaluations that ask a model\<close>

text \<open>
  \<open>OnnxModelEvaluation\<close> and \<open>SbertCrossencoderEvaluation\<close>: \<open>infer\<close> is the model's score of the two questions; every
  exception counts as 0.
\<close>

definition model_evaluation ::
  "(string \<Rightarrow> question_arg \<Rightarrow> real result) \<Rightarrow> eval_dict \<Rightarrow> eval_dict \<Rightarrow> real result" where
  "model_evaluation infer src cache =
     (case bind_res (need (ed_question src)) (\<lambda>s. bind_res (need (ed_question cache)) (\<lambda>c.
             bind_res (lower_question s) (\<lambda>a. bind_res (lower_question c) (\<lambda>b.
               if a = b then Inr 1 else infer (question_text s) c)))) of
        Inl e \<Rightarrow> Inr 0
      | Inr r \<Rightarrow> Inr r)"

definition crossencoder_evaluation ::
  "(string \<Rightarrow> question_arg \<Rightarrow> real result) \<Rightarrow> eval_dict \<Rightarrow> eval_dict \<Rightarrow> real result" where
  "crossencoder_evaluation predict src cache = model_evaluation predict src cache"

text \<open>\<open>pad_sequence\<close>: every sequence filled up to the longest; an empty batch has no maximum.\<close>

definition pad_sequence :: "'a list list \<Rightarrow> 'a \<Rightarrow> 'a list list result" where
  "pad_sequence input_ids_list padding_value =
     (if input_ids_list = [] then Inl ValueError
      else let max_len = Max (length ` set input_ids_list)
           in Inr (map (\<lambda>s. s @ replicate (max_len - length s) padding_value) input_ids_list))"

definition cohere_rerank ::
  "(question_arg \<Rightarrow> string \<Rightarrow> real list result) \<Rightarrow> eval_dict \<Rightarrow> eval_dict \<Rightarrow> real result" where
  "cohere_rerank rerank src cache =
     bind_res (need (ed_question src)) (\<lambda>s. bind_res (need (ed_answer cache)) (\<lambda>a.
     bind_res (rerank s a) (\<lambda>results. Inr (case results of [] \<Rightarrow> 0 | r # _ \<Rightarrow> r))))"

section \<open>Unit vectors\<close>

lemma sq_sum_nonneg: "0 \<le> sq_sum v"
  by (induction v) (simp_all add: sq_sum_def)

lemma sq_sum_scale: "sq_sum (map (\<lambda>x. x / m) v) = sq_sum v / (m * m)"
  by (induction v) (simp_all add: sq_sum_def add_divide_distrib)

lemma vec_normalize_unit: "vec_norm v \<noteq> 0 \<Longrightarrow> sq_sum (vec_normalize v) = 1"
  using sq_sum_nonneg[of v] by (simp add: vec_normalize_def Let_def sq_sum_scale vec_norm_def)

lemma vec_normalize_length [simp]: "length (vec_normalize v) = length v"
  by (simp add: vec_normalize_def Let_def)

text \<open>The parallelogram law bounds the distance of two unit vectors.\<close>

lemma parallelogram:
  "length u = length v \<Longrightarrow> sq_sum (map2 (-) u v) + sq_sum (map2 (+) u v) = 2 * sq_sum u + 2 * sq_sum v"
  by (induction u v rule: list_induct2) (simp_all add: sq_sum_def algebra_simps)

lemma unit_distance:
  assumes "length u = length v" "sq_sum u = 1" "sq_sum v = 1"
  shows "\<exists>d. euclidean_distance_calculate u v = Inr d \<and> 0 \<le> d \<and> d \<le> 4"
  using parallelogram[OF assms(1)] sq_sum_nonneg[of "map2 (-) u v"] sq_sum_nonneg[of "map2 (+) u v"] assms
  by (simp add: euclidean_distance_calculate_def vec_sub_def)

lemma sq_sum_0: "sq_sum v = 0 \<Longrightarrow> \<forall>x \<in> set v. x = 0"
proof (induction v)
  case (Cons x v)
  then have "x * x + sq_sum v = 0" by (simp add: sq_sum_def)
  moreover have "0 \<le> sq_sum v" "0 \<le> x * x" by (simp_all add: sq_sum_nonneg)
  ultimately have "x * x = 0" "sq_sum v = 0" by linarith+
  with Cons.IH show ?case by simp
qed simp

lemma same_vec: "length u = length v \<Longrightarrow> \<forall>x \<in> set (map2 (-) u v). x = (0::real) \<Longrightarrow> u = v"
  by (induction u v rule: list_induct2) auto

section \<open>Properties\<close>

text \<open>
  \<open>SearchDistanceEvaluation\<close> stays in the range it announces, whatever distance the vector store reports,
  and ranks closer results higher (or, with \<open>positive\<close>, larger values).
\<close>

theorem search_distance_in_range:
  assumes "0 \<le> max_distance" and "ed_search c1 = Some d1" and "ed_search c2 = Some d2" and "d1 \<le> d2"
  shows "\<exists>r1 r2. search_distance max_distance positive src c1 = Inr r1 \<and> search_distance max_distance positive src c2 = Inr r2 \<and>
    fst (distance_range max_distance) \<le> r1 \<and> r1 \<le> snd (distance_range max_distance) \<and>
    (if positive then r1 \<le> r2 else r2 \<le> r1)"
  using assms by (simp add: search_distance_def need_def clamp_distance_def distance_range_def)

definition sample_eval :: "string \<Rightarrow> vec \<Rightarrow> real \<Rightarrow> eval_dict" where
  "sample_eval q v d = \<lparr>ed_question = Some (QStr q), ed_answer = None, ed_embedding = Some (Some v),
     ed_search = Some d, ed_created = Some (Some 0)\<rparr>"

theorem search_distance_in_range_witness:
  "\<exists>r1 r2. search_distance 4 False (sample_eval ''a'' [1] 0) (sample_eval ''b'' [1] 1) = Inr r1 \<and>
     search_distance 4 False (sample_eval ''a'' [1] 0) (sample_eval ''c'' [1] 9) = Inr r2 \<and> r2 \<le> r1"
  using search_distance_in_range[of 4 "sample_eval ''b'' [1] 1" 1 "sample_eval ''c'' [1] 9" 9 False "sample_eval ''a'' [1] 0"]
  by (auto simp: sample_eval_def)

text \<open>
  \<open>NumpyNormEvaluation\<close> with normalisation stays in its range for vectors of one dimension that are not zero,
  and gives the greatest rank exactly to questions that agree up to case or have the same normalised embedding.
\<close>

theorem numpy_norm_in_range:
  assumes src: "ed_question src = Some (QStr q)" "ed_embedding src = Some (Some u)"
    and cache: "ed_question cache = Some (QStr q')" "ed_embedding cache = Some (Some v)"
    and dim: "length u = length v" and norm: "vec_norm u \<noteq> 0" "vec_norm v \<noteq> 0"
  shows "\<exists>r. numpy_norm True encoder (src, cache) = (Inr r, (src, cache)) \<and>
    fst norm_range \<le> r \<and> r \<le> snd norm_range \<and>
    (r = snd norm_range \<longleftrightarrow> py_lower q = py_lower q' \<or> vec_normalize u = vec_normalize v)"
proof (cases "py_lower q = py_lower q'")
  case True
  then show ?thesis using src cache by (simp add: numpy_norm_def norm_range_def)
next
  case False
  let ?u = "vec_normalize u" and ?v = "vec_normalize v"
  have dim': "length ?u = length ?v" using dim by simp
  obtain d where d: "euclidean_distance_calculate ?u ?v = Inr d" "0 \<le> d" "d \<le> 4"
    using unit_distance[OF dim' vec_normalize_unit[OF norm(1)] vec_normalize_unit[OF norm(2)]] by blast
  then have sub: "vec_sub ?u ?v = Inr (map2 (-) ?u ?v)" and sq: "sq_sum (map2 (-) ?u ?v) = d"
    using dim by (simp_all add: euclidean_distance_calculate_def vec_sub_def)
  have run: "numpy_norm True encoder (src, cache) = (Inr (2 - sqrt d), (src, cache))"
    using src cache False sub sq
    by (simp add: numpy_norm_def has_embedding_def norm_score_def need_vec_def norm_range_def vec_norm_def[of "map2 _ _ _"])
  have "sqrt d \<le> sqrt 4" using d by (simp only: real_sqrt_le_iff)
  then have "sqrt d \<le> 2" by simp
  moreover have "sqrt d = 0 \<longleftrightarrow> ?u = ?v"
  proof
    assume "sqrt d = 0"
    then have "sq_sum (map2 (-) ?u ?v) = 0" by (simp add: sq)
    from same_vec[OF dim' sq_sum_0[OF this]] show "?u = ?v" .
  next
    assume "?u = ?v"
    then have "map2 (-) ?u ?v = map (\<lambda>x. 0) ?u" by (simp add: zip_same_conv_map)
    moreover have "sq_sum (map (\<lambda>x. 0) xs) = 0" for xs :: vec by (induction xs) (simp_all add: sq_sum_def)
    ultimately show "sqrt d = 0" using sq by simp
  qed
  ultimately show ?thesis using run d(2) False by (intro exI[of _ "2 - sqrt d"]) (auto simp: norm_range_def)
qed

theorem numpy_norm_in_range_witness:
  "\<exists>r. fst (numpy_norm True None (sample_eval ''a'' [3, 4] 0, sample_eval ''b'' [6, 8] 0)) = Inr r \<and> 0 \<le> r \<and> r \<le> 2"
  using numpy_norm_in_range[of "sample_eval ''a'' [3, 4] 0" "''a''" "[3, 4]" "sample_eval ''b'' [6, 8] 0" "''b''" "[6, 8]" None]
  by (auto simp: sample_eval_def vec_norm_def sq_sum_def norm_range_def)

lemma weighted_distance_bounds:
  assumes "n \<le> length ss" "n \<le> length cs" "n \<le> length ws" "\<forall>w \<in> set ws. 0 \<le> w"
    and "\<forall>u \<in> set ss \<union> set cs. length u = k \<and> sq_sum u = 1"
  shows "\<exists>r. weighted_distance ss cs ws n = Inr r \<and> 0 \<le> r \<and> r \<le> 4 * sum_list (take n ws)"
  using assms
proof (induction ss cs ws n rule: weighted_distance.induct)
  case (1 s ss c cs w ws n)
  then obtain rest where rest: "weighted_distance ss cs ws n = Inr rest" "0 \<le> rest" "rest \<le> 4 * sum_list (take n ws)" by auto
  obtain d where d: "euclidean_distance_calculate s c = Inr d" "0 \<le> d" "d \<le> 4"
    using unit_distance[of s c] 1(6) by auto
  have "0 \<le> (4 - d) * w" "(4 - d) * w \<le> 4 * w" using d 1(5) by (auto intro!: mult_right_mono)
  then show ?case using d rest by (intro exI[of _ "(4 - d) * w + rest"]) (simp add: distrib_left)
qed auto

lemma sum_list_positive: "xs \<noteq> [] \<Longrightarrow> \<forall>x \<in> set xs. 0 < x \<Longrightarrow> 0 < sum_list xs" for xs :: "real list"
proof (induction xs)
  case (Cons x xs)
  then show ?case by (cases xs) (auto intro: add_pos_pos)
qed simp

lemma reweight_sum:
  assumes "0 < n" "\<forall>w \<in> set ws. 0 < w" "ws \<noteq> []" "n < length ws \<or> sum_list ws = 1" "n \<le> length ws"
  shows "\<exists>vs. reweight ws n = Inr vs \<and> n \<le> length vs \<and> (\<forall>w \<in> set vs. 0 \<le> w) \<and> sum_list (take n vs) = 1"
proof (cases "n \<ge> length ws")
  case True
  then show ?thesis using assms by (auto simp: reweight_def less_imp_le)
next
  case False
  let ?s = "sum_list (take n ws)"
  have "take n ws \<noteq> []" "\<forall>w \<in> set (take n ws). 0 < w" using assms by (auto dest: in_set_takeD)
  then have pos: "0 < ?s" by (rule sum_list_positive)
  have "sum_list (map (\<lambda>w. w * (1 / ?s)) xs) = sum_list xs / ?s" for xs
    by (induction xs) (simp_all add: add_divide_distrib)
  then show ?thesis using False pos assms(2) by (auto simp: reweight_def Let_def dest!: in_set_takeD intro!: less_imp_le)
qed

text \<open>
  \<open>SequenceMatchEvaluation\<close> stays in its range \<open>(0, 4)\<close> when the weights are positive with sum 1 and the
  embeddings are vectors of one dimension that are not zero, for conversations of any lengths (fewer contents
  than weights are reweighted to sum 1).
\<close>

theorem sequence_match_in_range:
  assumes weights: "\<forall>w \<in> set weights. 0 < w" "sum_list weights = 1"
    and src: "ed_question src = Some (QStr q)" and cache: "ed_question cache = Some (QStr q')"
    and contents: "sequence_contents (QStr q) \<noteq> Inr []" "sequence_contents (QStr q') \<noteq> Inr []"
    and emb: "\<forall>s. \<exists>v. to_emb s = Inr v \<and> length v = k \<and> vec_norm v \<noteq> 0"
  shows "\<exists>r. sequence_match to_emb weights src cache = Inr r \<and> 0 \<le> r \<and> r \<le> 4"
proof -
  obtain xs ys where xs: "sequence_contents (QStr q) = Inr xs" "xs \<noteq> []" and ys: "sequence_contents (QStr q') = Inr ys" "ys \<noteq> []"
    using contents by (simp add: sequence_contents_def)
  obtain us where us: "map_res to_emb xs = Inr us" "length us = length xs" "\<forall>v \<in> set us. length v = k \<and> vec_norm v \<noteq> 0"
    using map_res_total[OF emb] by blast
  obtain vs where vs: "map_res to_emb ys = Inr vs" "length vs = length ys" "\<forall>v \<in> set vs. length v = k \<and> vec_norm v \<noteq> 0"
    using map_res_total[OF emb] by blast
  have "weights \<noteq> []" using weights(2) by auto
  define n where "n = min (min (length xs) (length ys)) (length weights)"
  have n: "0 < n" "n \<le> length xs" "n \<le> length ys" "n \<le> length (rev weights)"
    using xs ys \<open>weights \<noteq> []\<close> by (auto simp: n_def)
  have "n < length (rev weights) \<or> sum_list (rev weights) = 1" using weights(2) by simp
  with reweight_sum[OF n(1), of "rev weights"] weights \<open>weights \<noteq> []\<close> n(4) obtain ws where
    ws: "reweight (rev weights) n = Inr ws" "n \<le> length ws" "\<forall>w \<in> set ws. 0 \<le> w" "sum_list (take n ws) = 1" by auto
  have "\<exists>r. weighted_distance (rev (map vec_normalize us)) (rev (map vec_normalize vs)) ws n = Inr r \<and> 0 \<le> r \<and>
      r \<le> 4 * sum_list (take n ws)"
    by (rule weighted_distance_bounds[where k = k]) (use us vs ws n vec_normalize_unit in auto)
  with ws us vs xs ys n(1) src cache show ?thesis
    by (auto simp: sequence_match_def need_def Let_def n_def[symmetric])
qed

theorem sequence_match_in_range_witness:
  "\<exists>r. sequence_match (\<lambda>s. Inr [1]) [1 / 2, 1 / 2] (sample_eval ''USER: a USER: b'' [1] 0) (sample_eval ''USER: c'' [1] 0) = Inr r \<and>
     0 \<le> r \<and> r \<le> 4"
proof -
  have "sequence_contents (QStr ''USER: a USER: b'') = Inr [''a '', ''b'']" "sequence_contents (QStr ''USER: c'') = Inr [''c'']"
    by code_simp+
  with sequence_match_in_range[of "[1 / 2, 1 / 2]" "sample_eval ''USER: a USER: b'' [1] 0" "''USER: a USER: b''"
      "sample_eval ''USER: c'' [1] 0" "''USER: c''" "\<lambda>s. Inr [1]" 1]
  show ?thesis by (simp add: sample_eval_def vec_norm_def sq_sum_def)
qed

text \<open>
  \<open>KReciprocalEvaluation\<close> rejects identical questions: it gives them the rank 1, but announces the range
  \<open>(0, max_distance)\<close>, by default \<open>(0, 4)\<close>, so that for every configured threshold from \<open>1 / 2\<close> on (the default is 0.8) the
  adapter's threshold is above that rank and the identical question is no hit.
\<close>

theorem k_reciprocal_rejects_identical:
  assumes rnd: "float_rounding rnd" and a: "1 / 2 \<le> a"
    and same: "ed_question src = Some q" "ed_question cache = Some q"
  shows "\<exists>r. k_reciprocal V top_k 4 positive src cache v = (Inr r, v) \<and> r < rank_threshold rnd (distance_range 4) a 1"
proof -
  have four: "rnd 4 = 4" and two: "rnd 2 = 2" using rnd_int[OF rnd, of 4] rnd_int[OF rnd, of 2] by simp_all
  have "rnd (4 * (1 / 2)) \<le> rnd (4 * a)" by (rule rnd_mono[OF rnd]) (use a in simp)
  then have "2 \<le> rnd (4 * a)" by (simp add: two)
  then have "rnd 2 \<le> rnd (rnd (4 * a) * 1)" by (intro rnd_mono[OF rnd]) simp
  then have "1 < rank_threshold rnd (distance_range 4) a 1"
    by (simp add: rank_threshold_def distance_range_def Let_def four two)
  then show ?thesis using same by (simp add: k_reciprocal_def need_def)
qed

theorem k_reciprocal_rejects_identical_witness:
  "\<exists>r. k_reciprocal \<lparr>vo_mul_add = \<lambda>ds v. (Inr (), v), vo_search = \<lambda>e k v. (Inr None, v), vo_rebuild = \<lambda>ks v. (Inr (), v),
       vo_delete = \<lambda>ks v. (Inr (), v)\<rparr> 3 4 False (sample_eval ''a'' [1] 0) (sample_eval ''a'' [1] 0) () = (Inr r, ()) \<and>
     r < rank_threshold (\<lambda>x. x) (distance_range 4) (4 / 5) 1"
  by (rule k_reciprocal_rejects_identical[OF float_rounding_id, of _ _ "QStr ''a''"]) (simp_all add: sample_eval_def)

text \<open>
  \<open>TimeEvaluation\<close> gives an entry without a creation time, or older than the time range, the least rank, and
  leaves younger entries to the evaluation it restricts; so with a positive threshold an outdated entry
  is never a hit.
\<close>

theorem time_evaluation_outdated:
  assumes old: "ed_created cache = None \<or> ed_created cache = Some None \<or>
      (\<exists>c. ed_created cache = Some (Some c) \<and> time_range < of_int (now - c))"
    and range: "inner_range = (0, hi)" "0 < hi" and thr: "0 < rnd (rnd (rnd hi * a) * factor)"
  shows "\<exists>r. time_evaluation inner inner_range now time_range src cache = Inr r \<and>
    r < rank_threshold rnd inner_range a factor"
  using old range thr
  by (auto simp: time_evaluation_def rank_threshold_def Let_def)

theorem time_evaluation_outdated_witness:
  "\<exists>r. time_evaluation (search_distance 4 False) (0, 4) 100000 86400 (sample_eval ''a'' [1] 0) (sample_eval ''b'' [1] 0) = Inr r \<and>
     r < rank_threshold (\<lambda>x. x) (0, 4) (4 / 5) 1"
  by (rule time_evaluation_outdated[where hi = 4]) (simp_all add: sample_eval_def)

end
