(* ===== verification/Mongo_Storage.thy ===== *)
theory Mongo_Storage
  imports Sql_Storage
begin

text \<open>
  The document storage \<open>gptcache/manager/scalar_data/mongo.py\<close>. A collection is a parameter, the record
  \<open>mongo_coll\<close> of what the code asks of it: the queries of a table, \<open>objects.get\<close> and \<open>objects.insert\<close> of a
  list. \<open>mongo_contract\<close> states what MongoEngine documents of them: \<open>get\<close> raises unless exactly one document
  matches, and a list to insert must not be empty.

  \<open>mongo_sql\<close> reads a Mongo storage as a relational one; the lemmas show that the methods act on it as those
  of \<open>SQLStorage\<close> do, and where they do not.
\<close>

section \<open>Collections\<close>

record ('r, 'd) mongo_coll =
  mc_table :: "('r, 'd) table_api"
  mc_get :: "('r \<Rightarrow> bool) \<Rightarrow> 'd \<Rightarrow> 'r result"
  mc_insert_many :: "(int \<Rightarrow> 'r) list \<Rightarrow> 'd \<Rightarrow> (unit, 'd) outcome"

text \<open>
  The storage object: its collections, the conversions of numpy arrays, the clock, and the database. The
  defaults of the time fields are values, computed once when the document classes are made. \<open>mg_query_int\<close>
  is what a query on an integer field makes of a string, \<open>mg_session_value\<close> what a string field stores
  for a value that is not a string.
\<close>

record ('y, 'e, 'd) mongo =
  mg_ques :: "('y ques_row, 'd) mongo_coll"
  mg_answer :: "(ans_row, 'd) mongo_coll"
  mg_ques_dep :: "(dep_row, 'd) mongo_coll"
  mg_session :: "(session_row, 'd) mongo_coll"
  mg_report :: "(report_row, 'd) mongo_coll"
  mg_tobytes :: "'e \<Rightarrow> 'y"
  mg_frombuffer :: "'y \<Rightarrow> 'e"
  mg_create_on :: int
  mg_last_access :: int
  mg_cache_time :: int
  mg_query_int :: "string \<Rightarrow> int result"
  mg_session_value :: "session_field \<Rightarrow> string"
  mg_now :: "nat \<Rightarrow> int"
  mg_ticks :: nat
  mg_db :: 'd

definition mongo_coll_contract :: "('r \<Rightarrow> int) \<Rightarrow> ('d \<Rightarrow> 'o) \<Rightarrow> ('r, 'd) mongo_coll \<Rightarrow> bool" where
  "mongo_coll_contract key other c \<longleftrightarrow> table_contract key other (mc_table c) \<and>
     (\<forall>P d. mc_get c P d = (case filter P (t_rows (mc_table c) d) of [r] \<Rightarrow> Inr r | _ \<Rightarrow> Inl LibraryError)) \<and>
     (\<forall>d. mc_insert_many c [] d = (Inl TypeError, d)) \<and>
     (\<forall>mks d. mks \<noteq> [] \<longrightarrow> (\<exists>ids d'. mc_insert_many c mks d = (Inr (), d') \<and> length ids = length mks \<and>
        t_rows (mc_table c) d' = t_rows (mc_table c) d @ map2 (\<lambda>mk i. mk i) mks ids \<and> other d' = other d))"

section \<open>The methods\<close>

fun session_text :: "('y, 'e, 'd) mongo \<Rightarrow> session_field \<Rightarrow> string" where
  "session_text s (SessionName n) = n"
| "session_text s f = mg_session_value s f"

definition on_mongo :: "('d \<Rightarrow> ('a, 'd) outcome) \<Rightarrow> ('y, 'e, 'd) mongo \<Rightarrow> ('a, ('y, 'e, 'd) mongo) outcome" where
  "on_mongo f s = (case f (mg_db s) of (r, d) \<Rightarrow> (r, s\<lparr>mg_db := d\<rparr>))"

definition mongo_insert_deps :: "int \<Rightarrow> question_arg \<Rightarrow> ('y, 'e, 'd) mongo \<Rightarrow> (unit, ('y, 'e, 'd) mongo) outcome" where
  "mongo_insert_deps oid question s =
     (case question of
        QStr _ \<Rightarrow> (Inr (), s)
      | QObj q \<Rightarrow>
          (case q_deps q of
             None \<Rightarrow> (Inr (), s)
           | Some deps \<Rightarrow> on_mongo (mc_insert_many (mg_ques_dep s) (map (dep_row_of oid) deps)) s))"

definition mongo_insert :: "'e cache_data \<Rightarrow> ('y, 'e, 'd) mongo \<Rightarrow> (int, ('y, 'e, 'd) mongo) outcome" where
  "mongo_insert data s =
     bind_out (on_mongo (\<lambda>d. case t_insert (mc_table (mg_ques s)) (\<lambda>i. \<lparr>qr_id = i,
          qr_question = question_text (cd_question data), qr_create_on = mg_create_on s,
          qr_last_access = mg_last_access s, qr_embedding = map_option (mg_tobytes s) (cd_embedding data),
          qr_deleted = 0\<rparr>) d of (i, d) \<Rightarrow> (Inr i, d)) s) (\<lambda>oid s.
     bind_out (mongo_insert_deps oid (cd_question data) s) (\<lambda>_ s.
     bind_out (on_mongo (mc_insert_many (mg_answer s) (map (ans_row_of oid) (cd_answers data))) s) (\<lambda>_ s.
     bind_out
       (if session_given (cd_session data)
        then on_mongo (\<lambda>d. (Inr (), snd (t_insert (mc_table (mg_session s)) (\<lambda>i. \<lparr>sr_id = i, sr_question_id = oid,
               sr_session_id = session_text s (cd_session data),
               sr_session_question = question_text (cd_question data)\<rparr>) d))) s
        else (Inr (), s)) (\<lambda>_ s. (Inr oid, s)))))"

definition mongo_batch_insert ::
  "'e cache_data list \<Rightarrow> ('y, 'e, 'd) mongo \<Rightarrow> (int list, ('y, 'e, 'd) mongo) outcome" where
  "mongo_batch_insert = map_out mongo_insert"

text \<open>
  \<open>objects.get\<close> never returns \<open>None\<close>, so the test for it is never true: for an id that is missing or marked
  as deleted the call raises.
\<close>

definition mongo_get_data_by_id ::
  "int \<Rightarrow> ('y, 'e, 'd) mongo \<Rightarrow> ('e cache_data option, ('y, 'e, 'd) mongo) outcome" where
  "mongo_get_data_by_id key s =
     (case mc_get (mg_ques s) (\<lambda>r. qr_id r = key \<and> qr_deleted r = 0) (mg_db s) of
        Inl e \<Rightarrow> (Inl e, s)
      | Inr qs \<Rightarrow>
          let last_access = qr_last_access qs;
              now = mg_now s (mg_ticks s);
              d = t_update (mc_table (mg_ques s)) (\<lambda>r. qr_id r = qr_id qs) (\<lambda>r. r\<lparr>qr_last_access := now\<rparr>) (mg_db s);
              answers = t_select (mc_table (mg_answer s)) (\<lambda>r. ar_question_id r = qr_id qs) d;
              deps = t_select (mc_table (mg_ques_dep s)) (\<lambda>r. dr_question_id r = qr_id qs) d;
              session_ids = t_select (mc_table (mg_session s)) (\<lambda>r. sr_question_id r = qr_id qs) d;
              res_ans = map (\<lambda>r. ItemTuple (ar_answer r) (ar_type r)) answers;
              res_deps = map (\<lambda>r. \<lparr>dep_name = dr_name r, dep_data = dr_data r, dep_type = Plain (dr_type r)\<rparr>) deps;
              s = s\<lparr>mg_ticks := Suc (mg_ticks s), mg_db := d\<rparr>
          in case qr_embedding qs of
               None \<Rightarrow> (Inl TypeError, s)
             | Some bytes \<Rightarrow>
                 (Inr (Some (cache_data_init
                    (if deps = [] then QStr (qr_question qs)
                     else QObj \<lparr>q_content = qr_question qs, q_deps = Some res_deps\<rparr>)
                    (AnsList res_ans) (Some (mg_frombuffer s bytes)) (SessionDocs session_ids)
                    (Some (qr_create_on qs)) (Some last_access))), s))"

definition mongo_mark_deleted :: "int list \<Rightarrow> ('y, 'e, 'd) mongo \<Rightarrow> (unit, ('y, 'e, 'd) mongo) outcome" where
  "mongo_mark_deleted keys s =
     (Inr (), s\<lparr>mg_db := t_update (mc_table (mg_ques s)) (\<lambda>r. qr_id r \<in> set keys) (\<lambda>r. r\<lparr>qr_deleted := - 1\<rparr>) (mg_db s)\<rparr>)"

definition mongo_clear_deleted_data :: "('y, 'e, 'd) mongo \<Rightarrow> (unit, ('y, 'e, 'd) mongo) outcome" where
  "mongo_clear_deleted_data s =
     (let d = mg_db s;
          q_ids = map qr_id (t_select (mc_table (mg_ques s)) (\<lambda>r. qr_deleted r = - 1) d);
          d = t_delete (mc_table (mg_answer s)) (\<lambda>r. ar_question_id r \<in> set q_ids) d;
          d = t_delete (mc_table (mg_ques_dep s)) (\<lambda>r. dr_question_id r \<in> set q_ids) d;
          d = t_delete (mc_table (mg_session s)) (\<lambda>r. sr_question_id r \<in> set q_ids) d;
          d = t_delete (mc_table (mg_ques s)) (\<lambda>r. qr_deleted r = - 1) d
      in (Inr (), s\<lparr>mg_db := d\<rparr>))"

definition mongo_get_ids :: "bool \<Rightarrow> ('y, 'e, 'd) mongo \<Rightarrow> int list" where
  "mongo_get_ids deleted s =
     (let state = (if deleted then - 1 else 0)
      in map qr_id (t_select (mc_table (mg_ques s)) (\<lambda>r. qr_deleted r = state) (mg_db s)))"

definition mongo_count :: "int \<Rightarrow> bool \<Rightarrow> ('y, 'e, 'd) mongo \<Rightarrow> int" where
  "mongo_count state is_all s =
     (if is_all then int (length (t_select (mc_table (mg_ques s)) (\<lambda>_. True) (mg_db s)))
      else int (length (t_select (mc_table (mg_ques s)) (\<lambda>r. qr_deleted r = state) (mg_db s))))"

definition mongo_count_answers :: "('y, 'e, 'd) mongo \<Rightarrow> int" where
  "mongo_count_answers s = int (length (t_select (mc_table (mg_answer s)) (\<lambda>_. True) (mg_db s)))"

definition mongo_add_session ::
  "int \<Rightarrow> string \<Rightarrow> string \<Rightarrow> ('y, 'e, 'd) mongo \<Rightarrow> (unit, ('y, 'e, 'd) mongo) outcome" where
  "mongo_add_session question_id session_id session_question s =
     (Inr (), s\<lparr>mg_db := snd (t_insert (mc_table (mg_session s)) (\<lambda>i. \<lparr>sr_id = i, sr_question_id = question_id,
        sr_session_id = session_id, sr_session_question = session_question\<rparr>) (mg_db s))\<rparr>)"

definition mongo_list_sessions ::
  "string option \<Rightarrow> int option \<Rightarrow> ('y, 'e, 'd) mongo \<Rightarrow> session_row list" where
  "mongo_list_sessions session_id key s =
     t_select (mc_table (mg_session s))
       (\<lambda>r. (session_id \<noteq> None \<and> session_id \<noteq> Some [] \<longrightarrow> session_id = Some (sr_session_id r)) \<and>
            (key \<noteq> None \<and> key \<noteq> Some 0 \<longrightarrow> key = Some (sr_question_id r))) (mg_db s)"

text \<open>The keys are compared with the field \<open>question_id\<close>.\<close>

fun mongo_key :: "('y, 'e, 'd) mongo \<Rightarrow> session_key \<Rightarrow> int result" where
  "mongo_key s (IdKey i) = Inr i"
| "mongo_key s (NameKey n) = mg_query_int s n"

definition mongo_delete_session :: "session_key list \<Rightarrow> ('y, 'e, 'd) mongo \<Rightarrow> (unit, ('y, 'e, 'd) mongo) outcome" where
  "mongo_delete_session keys s =
     (case map_out (\<lambda>k s. (mongo_key s k, s)) keys s of
        (Inl e, s) \<Rightarrow> (Inl e, s)
      | (Inr ks, s) \<Rightarrow>
          (Inr (), s\<lparr>mg_db := t_delete (mc_table (mg_session s)) (\<lambda>r. sr_question_id r \<in> set ks) (mg_db s)\<rparr>))"

definition mongo_report_cache :: "report_entry \<Rightarrow> ('y, 'e, 'd) mongo \<Rightarrow> (unit, ('y, 'e, 'd) mongo) outcome" where
  "mongo_report_cache entry s =
     (Inr (), s\<lparr>mg_db := snd (t_insert (mc_table (mg_report s))
        (\<lambda>i. \<lparr>rr_id = i, rr_entry = entry, rr_time = mg_cache_time s\<rparr>) (mg_db s))\<rparr>)"

section \<open>A Mongo storage read as a relational one\<close>

definition mongo_sql :: "('y, 'e, 'd) mongo \<Rightarrow> ('y, 'e, 'd) sql" where
  "mongo_sql s = \<lparr>sql_api = \<lparr>db_ques = mc_table (mg_ques s), db_ans = mc_table (mg_answer s),
      db_dep = mc_table (mg_ques_dep s), db_session = mc_table (mg_session s), db_report = mc_table (mg_report s)\<rparr>,
     sql_tobytes = mg_tobytes s, sql_frombuffer = mg_frombuffer s, sql_now = mg_now s,
     sql_id_of_string = (\<lambda>_. None), sql_ticks = mg_ticks s, sql_db = mg_db s\<rparr>"

lemma mongo_sql_sel [simp]:
  "db_ques (sql_api (mongo_sql s)) = mc_table (mg_ques s)" "db_ans (sql_api (mongo_sql s)) = mc_table (mg_answer s)"
  "db_dep (sql_api (mongo_sql s)) = mc_table (mg_ques_dep s)"
  "db_session (sql_api (mongo_sql s)) = mc_table (mg_session s)"
  "db_report (sql_api (mongo_sql s)) = mc_table (mg_report s)"
  "sql_tobytes (mongo_sql s) = mg_tobytes s" "sql_frombuffer (mongo_sql s) = mg_frombuffer s"
  "sql_now (mongo_sql s) = mg_now s" "sql_ticks (mongo_sql s) = mg_ticks s" "sql_db (mongo_sql s) = mg_db s"
  by (simp_all add: mongo_sql_def)

text \<open>Writing to the database is the same on both readings.\<close>

lemma mongo_sql_db: "mongo_sql (s\<lparr>mg_db := d\<rparr>) = (mongo_sql s)\<lparr>sql_db := d\<rparr>"
  by (simp add: mongo_sql_def)

lemma mongo_sql_ticks: "mongo_sql (s\<lparr>mg_ticks := t\<rparr>) = (mongo_sql s)\<lparr>sql_ticks := t\<rparr>"
  by (simp add: mongo_sql_def)

lemmas mongo_sql_write = mongo_sql_db mongo_sql_ticks

definition mongo_contract :: "('y, 'e, 'd) mongo \<Rightarrow> bool" where
  "mongo_contract s \<longleftrightarrow>
     (let q = t_rows (mc_table (mg_ques s)); a = t_rows (mc_table (mg_answer s)); e = t_rows (mc_table (mg_ques_dep s));
          x = t_rows (mc_table (mg_session s)); r = t_rows (mc_table (mg_report s))
      in mongo_coll_contract qr_id (\<lambda>d. (a d, e d, x d, r d)) (mg_ques s) \<and>
         mongo_coll_contract ar_id (\<lambda>d. (q d, e d, x d, r d)) (mg_answer s) \<and>
         mongo_coll_contract dr_id (\<lambda>d. (q d, a d, x d, r d)) (mg_ques_dep s) \<and>
         mongo_coll_contract sr_id (\<lambda>d. (q d, a d, e d, r d)) (mg_session s) \<and>
         mongo_coll_contract rr_id (\<lambda>d. (q d, a d, e d, x d)) (mg_report s))"

definition mongo_inv :: "('y, 'e, 'd) mongo \<Rightarrow> bool" where
  "mongo_inv s \<longleftrightarrow> mongo_contract s \<and> sql_inv (mongo_sql s)"

lemma mongo_contract_cong [simp]: "mongo_contract (s\<lparr>mg_db := d\<rparr>) = mongo_contract s"
  "mongo_contract (s\<lparr>mg_ticks := t\<rparr>) = mongo_contract s"
  by (simp_all add: mongo_contract_def)

lemma mongo_get_unique:
  assumes "mongo_contract s"
  shows "mc_get (mg_ques s) P d = (case filter P (t_rows (mc_table (mg_ques s)) d) of [r] \<Rightarrow> Inr r | _ \<Rightarrow> Inl LibraryError)"
  using assms by (simp add: mongo_contract_def mongo_coll_contract_def Let_def)

lemma map2_applied: "map2 (\<lambda>mk i. mk i) (map f xs) ids = map2 f xs ids"
  by (induction xs ids rule: list_induct2') auto

lemma coll_insert_many:
  assumes c: "mongo_coll_contract key other c" and "xs \<noteq> []"
  obtains ids d' where "mc_insert_many c (map f xs) d = (Inr (), d')" "length ids = length xs"
    "t_rows (mc_table c) d' = t_rows (mc_table c) d @ map2 f xs ids" "other d' = other d"
proof -
  have "map f xs \<noteq> []" using assms(2) by simp
  with c obtain ids d' where "mc_insert_many c (map f xs) d = (Inr (), d')" "length ids = length (map f xs)"
    "t_rows (mc_table c) d' = t_rows (mc_table c) d @ map2 (\<lambda>mk i. mk i) (map f xs) ids" "other d' = other d"
    unfolding mongo_coll_contract_def by blast
  with that show thesis unfolding map2_applied length_map by blast
qed

lemma coll_insert_none: "mongo_coll_contract key other c \<Longrightarrow> mc_insert_many c [] d = (Inl TypeError, d)"
  unfolding mongo_coll_contract_def by blast

lemma mongo_contractD:
  assumes "mongo_contract s"
  shows "mongo_coll_contract ar_id (\<lambda>d. (t_rows (mc_table (mg_ques s)) d, t_rows (mc_table (mg_ques_dep s)) d,
      t_rows (mc_table (mg_session s)) d, t_rows (mc_table (mg_report s)) d)) (mg_answer s)"
    and "mongo_coll_contract dr_id (\<lambda>d. (t_rows (mc_table (mg_ques s)) d, t_rows (mc_table (mg_answer s)) d,
      t_rows (mc_table (mg_session s)) d, t_rows (mc_table (mg_report s)) d)) (mg_ques_dep s)"
  using assms by (simp_all add: mongo_contract_def Let_def)

text \<open>What \<open>insert\<close> of a list accepts: at least one answer, and no empty list of dependencies.\<close>

definition mongo_storable :: "'e cache_data \<Rightarrow> bool" where
  "mongo_storable data \<longleftrightarrow> sql_insertable data \<and> cd_answers data \<noteq> [] \<and>
     (case cd_question data of QStr _ \<Rightarrow> True | QObj q \<Rightarrow> q_deps q \<noteq> Some [])"

lemma session_given_bindable: "session_bindable f \<Longrightarrow> session_given f \<longleftrightarrow> (\<exists>n. f = SessionName n \<and> n \<noteq> [])"
  by (cases f) auto

lemma mongo_insert_spec:
  assumes c: "mongo_contract s" and db: "db_contract (sql_api (mongo_sql s))" and ok: "mongo_storable data"
  shows "\<exists>qid s'. mongo_insert data s = (Inr qid, s') \<and> mongo_contract s' \<and>
    inserted data qid (mg_create_on s) (mg_last_access s) (mongo_sql s) (mongo_sql s')"
proof -
  define mk where "mk = (\<lambda>i. \<lparr>qr_id = i, qr_question = question_text (cd_question data),
    qr_create_on = mg_create_on s, qr_last_access = mg_last_access s,
    qr_embedding = map_option (mg_tobytes s) (cd_embedding data), qr_deleted = 0\<rparr>)"
  obtain qid d1 where q: "t_insert (mc_table (mg_ques s)) mk (mg_db s) = (qid, d1)" by fastforce
  note Q = ques_insert[OF db, of mk "mg_db s", unfolded mongo_sql_sel q fst_conv snd_conv]
  let ?ds = "question_deps (cd_question data)"
  obtain dids d2 where d2: "length dids = length ?ds"
    "(case cd_question data of QStr _ \<Rightarrow> (Inr (), d1)
      | QObj q' \<Rightarrow> (case q_deps q' of None \<Rightarrow> (Inr (), d1)
          | Some deps \<Rightarrow> mc_insert_many (mg_ques_dep s) (map (dep_row_of qid) deps) d1)) = (Inr (), d2)"
    "t_rows (mc_table (mg_ques_dep s)) d2 = t_rows (mc_table (mg_ques_dep s)) d1 @ map2 (dep_row_of qid) ?ds dids"
    "t_rows (mc_table (mg_ques s)) d2 = t_rows (mc_table (mg_ques s)) d1"
    "t_rows (mc_table (mg_answer s)) d2 = t_rows (mc_table (mg_answer s)) d1"
    "t_rows (mc_table (mg_session s)) d2 = t_rows (mc_table (mg_session s)) d1"
    "t_rows (mc_table (mg_report s)) d2 = t_rows (mc_table (mg_report s)) d1"
  proof (cases "?ds = []")
    case True
    then show thesis using ok that[of "[]" d1]
      by (cases "cd_question data") (auto simp: mongo_storable_def split: option.splits)
  next
    case False
    then obtain q' ds where q': "cd_question data = QObj q'" "q_deps q' = Some ds"
      by (cases "cd_question data") (auto split: option.splits)
    then have ds: "?ds = ds" by simp
    obtain dids d2 where
      "mc_insert_many (mg_ques_dep s) (map (dep_row_of qid) ?ds) d1 = (Inr (), d2)" "length dids = length ?ds"
      "t_rows (mc_table (mg_ques_dep s)) d2 = t_rows (mc_table (mg_ques_dep s)) d1 @ map2 (dep_row_of qid) ?ds dids"
      "(t_rows (mc_table (mg_ques s)) d2, t_rows (mc_table (mg_answer s)) d2, t_rows (mc_table (mg_session s)) d2,
        t_rows (mc_table (mg_report s)) d2) = (t_rows (mc_table (mg_ques s)) d1, t_rows (mc_table (mg_answer s)) d1,
        t_rows (mc_table (mg_session s)) d1, t_rows (mc_table (mg_report s)) d1)"
      by (rule coll_insert_many[OF mongo_contractD(2)[OF c] False])
    then show thesis using that[of dids d2] unfolding ds by (simp add: q')
  qed
  have "cd_answers data \<noteq> []" using ok by (simp add: mongo_storable_def)
  then obtain aids d3 where
    d3: "mc_insert_many (mg_answer s) (map (ans_row_of qid) (cd_answers data)) d2 = (Inr (), d3)"
      "length aids = length (cd_answers data)"
      "t_rows (mc_table (mg_answer s)) d3 = t_rows (mc_table (mg_answer s)) d2 @ map2 (ans_row_of qid) (cd_answers data) aids"
    and d3_other: "(t_rows (mc_table (mg_ques s)) d3, t_rows (mc_table (mg_ques_dep s)) d3, t_rows (mc_table (mg_session s)) d3,
        t_rows (mc_table (mg_report s)) d3) = (t_rows (mc_table (mg_ques s)) d2, t_rows (mc_table (mg_ques_dep s)) d2,
        t_rows (mc_table (mg_session s)) d2, t_rows (mc_table (mg_report s)) d2)"
    by (rule coll_insert_many[OF mongo_contractD(1)[OF c]])
  define ms where "ms = (\<lambda>i. \<lparr>sr_id = i, sr_question_id = qid, sr_session_id = session_text s (cd_session data),
    sr_session_question = question_text (cd_question data)\<rparr>)"
  obtain i d4 where x: "t_insert (mc_table (mg_session s)) ms d3 = (i, d4)" by fastforce
  note X = session_insert[OF db, of ms d3, unfolded mongo_sql_sel x fst_conv snd_conv]
  let ?d = "if session_given (cd_session data) then d4 else d3"
  have bind: "session_bindable (cd_session data)" using ok by (simp add: mongo_storable_def sql_insertable_def)
  have deps: "mongo_insert_deps qid (cd_question data) (s\<lparr>mg_db := d1\<rparr>) = (Inr (), s\<lparr>mg_db := d2\<rparr>)"
    using d2(2) by (auto simp: mongo_insert_deps_def on_mongo_def split: question_arg.splits option.splits)
  have stext: "session_text (s\<lparr>mg_db := d\<rparr>) f = session_text s f" for d f by (cases f) simp_all
  have "mongo_insert data s = (Inr qid, s\<lparr>mg_db := ?d\<rparr>)"
    unfolding mongo_insert_def mk_def[symmetric] on_mongo_def[of "\<lambda>d. case _ d of (i, d) \<Rightarrow> (Inr i, d)"] q
    using deps d3(1) x by (simp add: on_mongo_def ms_def stext)
  moreover have "inserted data qid (mg_create_on s) (mg_last_access s) (mongo_sql s) (mongo_sql (s\<lparr>mg_db := ?d\<rparr>))"
  proof -
    have eng: "same_engine (mongo_sql s) ((mongo_sql s)\<lparr>sql_db := ?d\<rparr>)" by (simp add: same_engine_def)
    have rows: "t_rows (mc_table (mg_ques s)) ?d = t_rows (mc_table (mg_ques s)) (mg_db s) @ [mk qid]"
      "t_rows (mc_table (mg_answer s)) ?d = t_rows (mc_table (mg_answer s)) (mg_db s) @ map2 (ans_row_of qid) (cd_answers data) aids"
      "t_rows (mc_table (mg_ques_dep s)) ?d = t_rows (mc_table (mg_ques_dep s)) (mg_db s) @ map2 (dep_row_of qid) ?ds dids"
      "t_rows (mc_table (mg_report s)) ?d = t_rows (mc_table (mg_report s)) (mg_db s)"
      "t_rows (mc_table (mg_session s)) ?d = t_rows (mc_table (mg_session s)) (mg_db s) @
         (if session_given (cd_session data) then [ms i] else [])"
      using Q X d2(3-) d3(3) d3_other by simp_all
    have i: "i \<notin> sr_id ` set (t_rows (mc_table (mg_session s)) (mg_db s))" using X Q d2(3-) d3_other by simp
    have new: "(if session_given (cd_session data) then [ms i] else []) = (case cd_session data of
        SessionName n \<Rightarrow> if n = [] then [] else [\<lparr>sr_id = i, sr_question_id = qid, sr_session_id = n,
           sr_session_question = question_text (cd_question data)\<rparr>]
      | _ \<Rightarrow> [])"
      using bind by (cases "cd_session data") (simp_all add: ms_def)
    show ?thesis
      unfolding inserted_def mongo_sql_db
      using eng rows i d2(1) d3(2) Q(2,3)
      by (auto simp: sql_rows_defs new mk_def)
  qed
  ultimately show ?thesis using c by (intro exI[of _ qid] exI[of _ "s\<lparr>mg_db := ?d\<rparr>"]) simp
qed

lemma mongo_batch_entries:
  assumes "mongo_inv s" and "\<And>d. d \<in> set ds \<Longrightarrow> mongo_storable d"
  shows "\<exists>ids s'. mongo_batch_insert ds s = (Inr ids, s') \<and> length ids = length ds \<and> distinct ids \<and>
    set ids \<inter> (sql_with 0 (mongo_sql s) \<union> sql_with (- 1) (mongo_sql s)) = {} \<and>
    sql_entry (mongo_sql s') = sql_entry (mongo_sql s) ++ map_of (rev (zip ids (map (data_entry (mongo_sql s)) ds))) \<and>
    session_links (mongo_sql s') = session_links (mongo_sql s) @ concat (map2 data_links ids ds) \<and>
    same_engine (mongo_sql s) (mongo_sql s') \<and> mongo_inv s'"
  using assms
proof (induction ds arbitrary: s)
  case Nil
  then show ?case by (simp add: mongo_batch_insert_def same_engine_def)
next
  case (Cons d ds)
  have ok: "mongo_storable d" "sql_insertable d" using Cons.prems(2)[of d] by (simp_all add: mongo_storable_def)
  have c: "mongo_contract s" and inv: "sql_inv (mongo_sql s)" using Cons.prems(1) by (simp_all add: mongo_inv_def)
  from mongo_insert_spec[OF c sql_invD(1)[OF inv] ok(1)] obtain qid s1 where ins: "mongo_insert d s = (Inr qid, s1)"
    "mongo_contract s1" "inserted d qid (mg_create_on s) (mg_last_access s) (mongo_sql s) (mongo_sql s1)" by blast
  note I = inserted_inv[OF ins(3) inv ok(2)]
  have eng: "same_engine (mongo_sql s) (mongo_sql s1)" using ins(3) by (simp add: inserted_def)
  have "mongo_inv s1" using ins(2) I(1) by (simp add: mongo_inv_def)
  from Cons.IH[OF this] Cons.prems(2) obtain ids s' where rest: "mongo_batch_insert ds s1 = (Inr ids, s')"
    "length ids = length ds" "distinct ids"
    "set ids \<inter> (sql_with 0 (mongo_sql s1) \<union> sql_with (- 1) (mongo_sql s1)) = {}"
    "sql_entry (mongo_sql s') = sql_entry (mongo_sql s1) ++ map_of (rev (zip ids (map (data_entry (mongo_sql s1)) ds)))"
    "session_links (mongo_sql s') = session_links (mongo_sql s1) @ concat (map2 data_links ids ds)"
    "same_engine (mongo_sql s1) (mongo_sql s')" "mongo_inv s'" by auto
  have "mongo_batch_insert (d # ds) s = (Inr (qid # ids), s')"
    using rest(1) by (simp add: mongo_batch_insert_def ins(1))
  moreover have "distinct (qid # ids)" using rest(3,4) I(2) by auto
  moreover have "set (qid # ids) \<inter> (sql_with 0 (mongo_sql s) \<union> sql_with (- 1) (mongo_sql s)) = {}"
    using rest(4) I(2-4) by auto
  moreover have "sql_entry (mongo_sql s') = sql_entry (mongo_sql s) ++
      map_of (rev (zip (qid # ids) (map (data_entry (mongo_sql s)) (d # ds))))"
    by (simp only: rest(5) inserted_entry[OF ins(3) inv] data_entry_engine[OF eng] list.map zip_Cons_Cons map_upd_add)
  moreover have "session_links (mongo_sql s') = session_links (mongo_sql s) @ concat (map2 data_links (qid # ids) (d # ds))"
    using rest(6) inserted_links[OF ins(3)] by simp
  moreover have "same_engine (mongo_sql s) (mongo_sql s')" using eng rest(7) by (simp add: same_engine_def)
  ultimately show ?case using rest(2,8) by (intro exI[of _ "qid # ids"] exI[of _ s']) simp
qed

text \<open>The other methods write and read as the relational storage does.\<close>

lemma mongo_as_sql:
  "sql_mark_deleted ks (mongo_sql s) = (fst (mongo_mark_deleted ks s), mongo_sql (snd (mongo_mark_deleted ks s)))"
  "sql_clear_deleted_data (mongo_sql s) =
     (fst (mongo_clear_deleted_data s), mongo_sql (snd (mongo_clear_deleted_data s)))"
  "sql_add_session q i x (mongo_sql s) = (fst (mongo_add_session q i x s), mongo_sql (snd (mongo_add_session q i x s)))"
  "sql_get_ids b (mongo_sql s) = mongo_get_ids b s" "sql_count n all (mongo_sql s) = mongo_count n all s"
  "n' = None \<or> k = None \<Longrightarrow> sql_list_sessions n' k (mongo_sql s) = mongo_list_sessions n' k s"
proof -
  show "sql_mark_deleted ks (mongo_sql s) = (fst (mongo_mark_deleted ks s), mongo_sql (snd (mongo_mark_deleted ks s)))"
    by (simp add: sql_mark_deleted_def mongo_mark_deleted_def mongo_sql_db)
  show "sql_clear_deleted_data (mongo_sql s) =
     (fst (mongo_clear_deleted_data s), mongo_sql (snd (mongo_clear_deleted_data s)))"
    by (simp add: sql_clear_deleted_data_def mongo_clear_deleted_data_def mongo_sql_db Let_def)
  show "sql_add_session q i x (mongo_sql s) = (fst (mongo_add_session q i x s), mongo_sql (snd (mongo_add_session q i x s)))"
    by (simp add: sql_add_session_def mongo_add_session_def mongo_sql_db)
  show "sql_get_ids b (mongo_sql s) = mongo_get_ids b s"
    by (simp add: sql_get_ids_def mongo_get_ids_def)
  show "sql_count n all (mongo_sql s) = mongo_count n all s"
    by (simp add: sql_count_def mongo_count_def)
  show "n' = None \<or> k = None \<Longrightarrow> sql_list_sessions n' k (mongo_sql s) = mongo_list_sessions n' k s"
    by (auto simp: sql_list_sessions_def mongo_list_sessions_def)
qed

lemma mongo_get_gone:
  assumes "mongo_inv s" and i: "i \<notin> sql_with 0 (mongo_sql s)"
  shows "mongo_get_data_by_id i s = (Inl LibraryError, s)"
proof -
  have c: "mongo_contract s" and inv: "sql_inv (mongo_sql s)" using assms(1) by (simp_all add: mongo_inv_def)
  have "filter (\<lambda>r. qr_id r = i \<and> qr_deleted r = 0) (qrows (mongo_sql s)) = []"
    using i by (auto simp: sql_with_def filter_empty_conv)
  then show ?thesis
    by (simp add: mongo_get_data_by_id_def mongo_get_unique[OF c] sql_rows_defs)
qed

text \<open>A read of a served id, in both storages.\<close>

lemma distinct_singleton: "distinct xs \<Longrightarrow> set xs = {r} \<Longrightarrow> xs = [r]"
  by (cases xs; cases "tl xs") auto

lemma mongo_get_live:
  assumes "mongo_inv s" and i: "i \<in> sql_with 0 (mongo_sql s)"
  shows "\<exists>data s' docs. mongo_get_data_by_id i s = (Inr (Some data), s') \<and> cd_session data = SessionDocs docs \<and>
    sql_get_data_by_id i (mongo_sql s) =
      (Inr (Some (data\<lparr>cd_session := SessionNames (map sr_session_id docs)\<rparr>)), mongo_sql s') \<and> mongo_contract s'"
proof -
  have c: "mongo_contract s" and inv: "sql_inv (mongo_sql s)" using assms(1) by (simp_all add: mongo_inv_def)
  let ?P = "\<lambda>r. qr_id r = i \<and> qr_deleted r = 0"
  from i obtain r where r: "r \<in> set (qrows (mongo_sql s))" "qr_deleted r = 0" "i = qr_id r" by (auto simp: sql_with_def)
  have uniq: "q = r" if "q \<in> set (filter ?P (qrows (mongo_sql s)))" for q
    using that sql_row_unique[OF inv _ r(1)] r(3) by simp
  have "distinct (filter ?P (qrows (mongo_sql s)))" using sql_invD(2)[OF inv] by (simp add: distinct_map)
  moreover have "set (filter ?P (qrows (mongo_sql s))) = {r}" using uniq r by auto
  ultimately have f: "filter ?P (qrows (mongo_sql s)) = [r]" by (rule distinct_singleton)
  have "mset (t_select (mc_table (mg_ques s)) ?P (mg_db s)) = {#r#}"
    using ques_select(1)[OF sql_invD(1)[OF inv], of ?P "mg_db s"] f
    by (simp only: sql_rows_defs mongo_sql_sel) simp
  then have sel: "t_select (mc_table (mg_ques s)) ?P (mg_db s) = [r]" by simp
  obtain y where y: "qr_embedding r = Some y" using sql_invD(3)[OF inv r(1)] by auto
  have get: "mc_get (mg_ques s) ?P (mg_db s) = Inr r"
    using f by (simp add: mongo_get_unique[OF c] sql_rows_defs)
  show ?thesis
    using y c unfolding mongo_get_data_by_id_def sql_get_data_by_id_def Let_def mongo_sql_sel sel get
    by (simp add: sql_clock_def cache_data_init_def mongo_sql_write)
qed

section \<open>A storage that meets the contract\<close>

definition list_coll :: "('r, 'd) table_api \<Rightarrow> ('r, 'd) mongo_coll" where
  "list_coll T = \<lparr>mc_table = T,
     mc_get = (\<lambda>P d. case filter P (t_rows T d) of [r] \<Rightarrow> Inr r | _ \<Rightarrow> Inl LibraryError),
     mc_insert_many = (\<lambda>mks d. if mks = [] then (Inl TypeError, d)
        else (Inr (), fold (\<lambda>mk d. snd (t_insert T mk d)) mks d))\<rparr>"

lemma list_coll_table [simp]: "mc_table (list_coll T) = T"
  by (simp add: list_coll_def)

lemma list_coll_contract:
  assumes "table_contract key other T"
  shows "mongo_coll_contract key other (list_coll T)"
proof -
  have "\<exists>ids d'. mc_insert_many (list_coll T) mks d = (Inr (), d') \<and> length ids = length mks \<and>
      t_rows T d' = t_rows T d @ map2 (\<lambda>mk i. mk i) mks ids \<and> other d' = other d" if "mks \<noteq> []" for mks d
    using fold_insert[OF assms, of mks "\<lambda>mk. mk" d] that by (simp add: list_coll_def)
  with assms show ?thesis by (simp add: mongo_coll_contract_def) (simp add: list_coll_def)
qed

definition mongo_new :: "(nat, nat, nat list_db) mongo" where
  "mongo_new = \<lparr>mg_ques = list_coll (db_ques list_db_api), mg_answer = list_coll (db_ans list_db_api),
     mg_ques_dep = list_coll (db_dep list_db_api), mg_session = list_coll (db_session list_db_api),
     mg_report = list_coll (db_report list_db_api), mg_tobytes = (\<lambda>e. e), mg_frombuffer = (\<lambda>y. y),
     mg_create_on = 0, mg_last_access = 0, mg_cache_time = 0, mg_query_int = (\<lambda>_. Inl ValueError),
     mg_session_value = (\<lambda>_. []), mg_now = int, mg_ticks = 0,
     mg_db = \<lparr>ld_ques = [], ld_ans = [], ld_dep = [], ld_session = [], ld_report = []\<rparr>\<rparr>"

lemma mongo_sql_new: "mongo_sql mongo_new = sql_new"
  by (simp add: mongo_new_def mongo_sql_def sql_new_def list_coll_def)

lemma mongo_new_inv: "mongo_inv mongo_new"
proof -
  note D = db_contractD[OF list_db_contract]
  have "mongo_contract mongo_new"
    using D[THEN list_coll_contract] by (simp add: mongo_contract_def mongo_new_def Let_def)
  then show ?thesis by (simp add: mongo_inv_def mongo_sql_new sql_new_inv)
qed

section \<open>Properties\<close>

text \<open>
  C26. \<open>batch_insert\<close> of the document storage is the same map update as that of the relational one: fresh ids, in
  order, under which the storage then holds the entries, every other entry as before; and exactly the entries that carry a
  session add a document to the session collection, which links the new id to the session and to the question's text. It
  holds for entries with at least one answer and no empty list of dependencies.
\<close>

theorem mongo_batch_insert_refines:
  assumes "mongo_inv s" and "\<forall>d \<in> set ds. mongo_storable d"
  shows "\<exists>ids s'. mongo_batch_insert ds s = (Inr ids, s') \<and> length ids = length ds \<and> distinct ids \<and>
    set ids \<inter> qr_id ` set (qrows (mongo_sql s)) = {} \<and>
    sql_entry (mongo_sql s') = sql_entry (mongo_sql s) ++ map_of (zip ids (map (data_entry (mongo_sql s)) ds)) \<and>
    session_links (mongo_sql s') = session_links (mongo_sql s) @ concat (map2 data_links ids ds) \<and> mongo_inv s'"
proof -
  have inv: "sql_inv (mongo_sql s)" using assms(1) by (simp add: mongo_inv_def)
  from mongo_batch_entries[OF assms(1)] assms(2) obtain ids s' where ins: "mongo_batch_insert ds s = (Inr ids, s')"
    "length ids = length ds" "distinct ids"
    "set ids \<inter> (sql_with 0 (mongo_sql s) \<union> sql_with (- 1) (mongo_sql s)) = {}"
    "sql_entry (mongo_sql s') = sql_entry (mongo_sql s) ++ map_of (rev (zip ids (map (data_entry (mongo_sql s)) ds)))"
    "session_links (mongo_sql s') = session_links (mongo_sql s) @ concat (map2 data_links ids ds)" "mongo_inv s'" by blast
  have "map_of (rev (zip ids (map (data_entry (mongo_sql s)) ds))) = map_of (zip ids (map (data_entry (mongo_sql s)) ds))"
    using ins(2,3) by (subst map_of_inject_set) (simp_all add: rev_map [symmetric])
  with ins show ?thesis unfolding sql_with_all[OF inv] by metis
qed

theorem mongo_batch_insert_refines_witness:
  "\<exists>ids s'. mongo_batch_insert [sample_data ''q'', sample_data ''r''] mongo_new = (Inr ids, s') \<and> length ids = 2"
proof -
  have "mongo_storable (sample_data q)" for q
    by (simp add: mongo_storable_def sample_insertable) (simp add: sample_data_def cache_data_init_def)
  with mongo_batch_insert_refines[OF mongo_new_inv, of "[sample_data ''q'', sample_data ''r'']"] show ?thesis by auto
qed

text \<open>
  C27. Apart from insertion, the document storage behaves as the relational one on the same rows: deletion in
  two steps, the ids, the counts and new sessions are the same, and a served entry is read with the same
  data. But where the relational storage says \<open>None\<close>, for an id that is missing or evicted, it raises.
\<close>

theorem mongo_matches_sql:
  assumes "mongo_inv s"
  shows "sql_mark_deleted ks (mongo_sql s) = (Inr (), mongo_sql (snd (mongo_mark_deleted ks s))) \<and>
    sql_clear_deleted_data (mongo_sql s) = (Inr (), mongo_sql (snd (mongo_clear_deleted_data s))) \<and>
    sql_add_session q name x (mongo_sql s) = (Inr (), mongo_sql (snd (mongo_add_session q name x s))) \<and>
    mongo_get_ids b s = sql_get_ids b (mongo_sql s) \<and> mongo_count n is_all s = sql_count n is_all (mongo_sql s) \<and>
    (case sql_get_data_by_id i (mongo_sql s) of
       (Inr (Some data), t) \<Rightarrow> \<exists>data' s' docs. mongo_get_data_by_id i s = (Inr (Some data'), s') \<and> mongo_sql s' = t \<and>
          data' = data\<lparr>cd_session := SessionDocs docs\<rparr> \<and> cd_session data = SessionNames (map sr_session_id docs)
     | (Inr None, t) \<Rightarrow> mongo_get_data_by_id i s = (Inl LibraryError, s)
     | (Inl e, t) \<Rightarrow> False)"
proof -
  have inv: "sql_inv (mongo_sql s)" using assms by (simp add: mongo_inv_def)
  have "case sql_get_data_by_id i (mongo_sql s) of
       (Inr (Some data), t) \<Rightarrow> \<exists>data' s' docs. mongo_get_data_by_id i s = (Inr (Some data'), s') \<and> mongo_sql s' = t \<and>
          data' = data\<lparr>cd_session := SessionDocs docs\<rparr> \<and> cd_session data = SessionNames (map sr_session_id docs)
     | (Inr None, t) \<Rightarrow> mongo_get_data_by_id i s = (Inl LibraryError, s)
     | (Inl e, t) \<Rightarrow> False"
  proof (cases "i \<in> sql_with 0 (mongo_sql s)")
    case True
    from mongo_get_live[OF assms this] obtain data s' docs where
      "mongo_get_data_by_id i s = (Inr (Some data), s')" "cd_session data = SessionDocs docs"
      and sql: "sql_get_data_by_id i (mongo_sql s) =
        (Inr (Some (data\<lparr>cd_session := SessionNames (map sr_session_id docs)\<rparr>)), mongo_sql s')" by blast
    moreover from calculation(2) have "data = data\<lparr>cd_session := SessionDocs docs\<rparr>" by (cases data) simp
    ultimately show ?thesis unfolding sql
      by (intro exI[of _ data] exI[of _ s'] exI[of _ docs] | simp)+
  next
    case False
    with sql_get_gone[OF inv] mongo_get_gone[OF assms] show ?thesis by simp
  qed
  then show ?thesis
    by (simp add: mongo_as_sql) (simp add: mongo_mark_deleted_def mongo_clear_deleted_data_def mongo_add_session_def Let_def)
qed

theorem mongo_matches_sql_witness:
  "mongo_get_data_by_id 3 mongo_new = (Inl LibraryError, mongo_new) \<and>
   sql_get_data_by_id 3 sql_new = (Inr None, sql_new)"
  using mongo_matches_sql[OF mongo_new_inv, where i = 3] sql_get_refines[OF sql_new_inv, of 3]
  by (simp add: mongo_sql_new sql_new_entry)

end
