(* ===== verification/Redis_Storage.thy ===== *)
theory Redis_Storage
  imports Scalar_Data
begin

text \<open>
  The Redis storage \<open>gptcache/manager/scalar_data/redis_storage.py\<close>. A model class of redis-om is a
  parameter, the record \<open>om_api\<close> of its \<open>get\<close>, \<open>find\<close>, \<open>save\<close>, \<open>delete\<close> and \<open>expire\<close>; \<open>om_contract\<close> says that it is a
  map from primary keys to documents. The keys are numbers written in decimal, kept as numbers here;
  \<open>om_find_in\<close> is the query \<open>field << keys\<close>, of which nothing is assumed for an empty list of keys.

  The contract covers a stretch of time in which no document runs out: setting a time to live removes nothing by itself.

  Writes that are given a pipeline are collected and run, in order, by its \<open>execute\<close>.
\<close>

section \<open>Documents\<close>

record redis_ques =
  rq_pk :: int
  rq_question :: string
  rq_create_on :: int
  rq_last_access :: int
  rq_deleted :: int
  rq_answers :: "answer list"
  rq_deps :: "question_dep list"
  rq_embedding :: string

record redis_report =
  rt_pk :: int
  rt_entry :: report_entry
  rt_time :: int

record ('r, 'd) om_api =
  om_get :: "int \<Rightarrow> 'd \<Rightarrow> 'r option"
  om_find :: "('r \<Rightarrow> bool) \<Rightarrow> 'd \<Rightarrow> 'r list"
  om_find_in :: "('r \<Rightarrow> int) \<Rightarrow> int list \<Rightarrow> 'd \<Rightarrow> 'r list result"
  om_save :: "'r \<Rightarrow> 'd \<Rightarrow> 'd"
  om_delete :: "int \<Rightarrow> 'd \<Rightarrow> 'd"
  om_expire :: "int \<Rightarrow> int \<Rightarrow> 'd \<Rightarrow> 'd"

text \<open>
  The storage object. \<open>rd_answer\<close> is what the validation of the model \<open>Answers\<close> makes of an answer,
  \<open>rd_none_embedding\<close> what it makes of a missing embedding; \<open>rd_tobytes\<close> and \<open>rd_frombuffer\<close> convert float32
  arrays to bytes, which are kept as Latin-1 text, and back; \<open>rd_ulid\<close> are the keys redis-om generates.
\<close>

record ('e, 'd) redis =
  rd_ques :: "(redis_ques, 'd) om_api"
  rd_session :: "(session_row, 'd) om_api"
  rd_report :: "(redis_report, 'd) om_api"
  rd_incr :: "'d \<Rightarrow> 'd"
  rd_counter :: "'d \<Rightarrow> int"
  rd_answer :: "answer \<Rightarrow> answer result"
  rd_none_embedding :: "string result"
  rd_tobytes :: "'e \<Rightarrow> string"
  rd_frombuffer :: "string \<Rightarrow> 'e"
  rd_now :: "nat \<Rightarrow> int"
  rd_ulid :: "nat \<Rightarrow> int"
  rd_ttl :: "int option"
  rd_ticks :: nat
  rd_db :: 'd

section \<open>The pipeline\<close>

datatype redis_cmd =
    SaveQues redis_ques | SaveSession session_row | ExpireQues int int | DeleteQues int | DeleteSession int

fun run_cmd :: "('e, 'd) redis \<Rightarrow> redis_cmd \<Rightarrow> 'd \<Rightarrow> 'd" where
  "run_cmd s (SaveQues q) d = om_save (rd_ques s) q d"
| "run_cmd s (SaveSession x) d = om_save (rd_session s) x d"
| "run_cmd s (ExpireQues pk ttl) d = om_expire (rd_ques s) pk ttl d"
| "run_cmd s (DeleteQues pk) d = om_delete (rd_ques s) pk d"
| "run_cmd s (DeleteSession pk) d = om_delete (rd_session s) pk d"

definition pipeline_execute :: "redis_cmd list \<Rightarrow> ('e, 'd) redis \<Rightarrow> ('e, 'd) redis" where
  "pipeline_execute cmds s = s\<lparr>rd_db := fold (run_cmd s) cmds (rd_db s)\<rparr>"

definition ttl_given :: "('e, 'd) redis \<Rightarrow> int option" where
  "ttl_given s = (if rd_ttl s = Some 0 then None else rd_ttl s)"

definition redis_clock :: "('e, 'd) redis \<Rightarrow> int \<times> ('e, 'd) redis" where
  "redis_clock s = (rd_now s (rd_ticks s), s\<lparr>rd_ticks := Suc (rd_ticks s)\<rparr>)"

section \<open>The methods\<close>

definition plain_deps :: "question_dep list \<Rightarrow> question_dep list" where
  "plain_deps = map (\<lambda>e. e\<lparr>dep_type := Plain (dep_kind_int (dep_type e))\<rparr>)"

definition given_deps :: "question_arg \<Rightarrow> question_dep list" where
  "given_deps q = (case q of QStr _ \<Rightarrow> [] | QObj o1 \<Rightarrow> (case q_deps o1 of None \<Rightarrow> [] | Some ds \<Rightarrow> ds))"

text \<open>The session record of \<open>_insert\<close>: none for a falsy id; the model accepts no list.\<close>

fun session_cmd :: "int \<Rightarrow> int \<Rightarrow> session_field \<Rightarrow> string \<Rightarrow> redis_cmd list result" where
  "session_cmd pk qid NoSession x = Inr []"
| "session_cmd pk qid (SessionName n) x =
     Inr (if n = [] then [] else [SaveSession \<lparr>sr_id = pk, sr_question_id = qid, sr_session_id = n, sr_session_question = x\<rparr>])"
| "session_cmd pk qid (SessionNames ns) x = (if ns = [] then Inr [] else Inl LibraryError)"
| "session_cmd pk qid (SessionDocs ss) x = (if ss = [] then Inr [] else Inl LibraryError)"

text \<open>\<open>_insert\<close>: the key comes from the counter at once, the writes go to the pipeline.\<close>

definition redis_insert ::
  "'e cache_data \<Rightarrow> redis_cmd list \<times> ('e, 'd) redis \<Rightarrow> (int, redis_cmd list \<times> ('e, 'd) redis) outcome" where
  "redis_insert data = (\<lambda>(pipeline, s).
     let s = s\<lparr>rd_db := rd_incr s (rd_db s)\<rparr>;
         pk = rd_counter s (rd_db s);
         txt = question_text (cd_question data)
     in case map_out (\<lambda>a s. (rd_answer s a, s)) (cd_answers data) s of
          (Inl e, s) \<Rightarrow> (Inl e, (pipeline, s))
        | (Inr answers, s) \<Rightarrow>
            let (created, s) = redis_clock s; (accessed, s) = redis_clock s
            in case (case cd_embedding data of None \<Rightarrow> rd_none_embedding s | Some e \<Rightarrow> Inr (rd_tobytes s e)) of
                 Inl e \<Rightarrow> (Inl e, (pipeline, s))
               | Inr bytes \<Rightarrow>
                   let pipeline = pipeline @ [SaveQues \<lparr>rq_pk = pk, rq_question = txt, rq_create_on = created,
                         rq_last_access = accessed, rq_deleted = 0, rq_answers = answers,
                         rq_deps = plain_deps (given_deps (cd_question data)), rq_embedding = bytes\<rparr>];
                       ulid = rd_ulid s (rd_ticks s); s = s\<lparr>rd_ticks := Suc (rd_ticks s)\<rparr>
                   in case session_cmd ulid pk (cd_session data) txt of
                        Inl e \<Rightarrow> (Inl e, (pipeline, s))
                      | Inr cmds \<Rightarrow>
                          (Inr pk, (pipeline @ cmds @
                             (case ttl_given s of None \<Rightarrow> [] | Some ttl \<Rightarrow> [ExpireQues pk ttl]), s)))"

text \<open>An exception leaves the \<open>with\<close> block before \<open>execute\<close>: the commands collected so far are dropped.\<close>

definition redis_batch_insert ::
  "'e cache_data list \<Rightarrow> ('e, 'd) redis \<Rightarrow> (int list, ('e, 'd) redis) outcome" where
  "redis_batch_insert all_data s =
     (case map_out redis_insert all_data ([], s) of
        (Inl e, (pipeline, s)) \<Rightarrow> (Inl e, s)
      | (Inr ids, (pipeline, s)) \<Rightarrow> (Inr ids, pipeline_execute pipeline s))"

text \<open>\<open>update\<close> sets the attribute of the object too, so the access time returned is the new one.\<close>

definition redis_get_data_by_id ::
  "int \<Rightarrow> ('e, 'd) redis \<Rightarrow> ('e cache_data option, ('e, 'd) redis) outcome" where
  "redis_get_data_by_id key s0 =
     (case om_get (rd_ques s0) key (rd_db s0) of
        None \<Rightarrow> (Inr None, s0)
      | Some qs \<Rightarrow>
          let (now, s) = redis_clock s0;
              qs = qs\<lparr>rq_last_access := now\<rparr>;
              s = s\<lparr>rd_db := om_save (rd_ques s) qs (rd_db s)\<rparr>;
              res_ans = map (\<lambda>a. ItemTuple (ans_content a) (ans_type a)) (rq_answers qs);
              res_deps = rq_deps qs;
              session_ids = map sr_session_id (om_find (rd_session s) (\<lambda>x. sr_question_id x = key) (rd_db s));
              s = (case ttl_given s of None \<Rightarrow> s
                   | Some ttl \<Rightarrow> s\<lparr>rd_db := om_expire (rd_ques s) (rq_pk qs) ttl (rd_db s)\<rparr>)
          in (Inr (Some (cache_data_init
                (if res_deps = [] then QStr (rq_question qs)
                 else QObj \<lparr>q_content = rq_question qs, q_deps = Some res_deps\<rparr>)
                (AnsList res_ans) (Some (rd_frombuffer s (rq_embedding qs))) (SessionNames session_ids)
                (Some (rq_create_on qs)) (Some (rq_last_access qs)))), s))"

definition redis_mark_deleted :: "int list \<Rightarrow> ('e, 'd) redis \<Rightarrow> (unit, ('e, 'd) redis) outcome" where
  "redis_mark_deleted keys s =
     (case om_find_in (rd_ques s) rq_pk keys (rd_db s) of
        Inl e \<Rightarrow> (Inl e, s)
      | Inr result \<Rightarrow>
          (Inr (), s\<lparr>rd_db := fold (\<lambda>qs d. om_save (rd_ques s) (qs\<lparr>rq_deleted := - 1\<rparr>) d) result (rd_db s)\<rparr>))"

definition redis_clear_deleted_data :: "('e, 'd) redis \<Rightarrow> (unit, ('e, 'd) redis) outcome" where
  "redis_clear_deleted_data s =
     (let qs_to_delete = om_find (rd_ques s) (\<lambda>q. rq_deleted q = - 1) (rd_db s);
          q_ids = map rq_pk qs_to_delete
      in case om_find_in (rd_session s) sr_question_id q_ids (rd_db s) of
           Inl e \<Rightarrow> (Inl e, s)
         | Inr sessions_to_delete \<Rightarrow>
             (Inr (), pipeline_execute (map DeleteQues q_ids @ map (\<lambda>x. DeleteSession (sr_id x)) sessions_to_delete) s))"

definition redis_get_ids :: "bool \<Rightarrow> ('e, 'd) redis \<Rightarrow> int list" where
  "redis_get_ids deleted s =
     (let state = (if deleted then - 1 else 0)
      in map rq_pk (om_find (rd_ques s) (\<lambda>q. rq_deleted q = state) (rd_db s)))"

definition redis_count :: "int \<Rightarrow> bool \<Rightarrow> ('e, 'd) redis \<Rightarrow> int" where
  "redis_count state is_all s =
     (if is_all then int (length (om_find (rd_ques s) (\<lambda>_. True) (rd_db s)))
      else int (length (om_find (rd_ques s) (\<lambda>q. rq_deleted q = state) (rd_db s))))"

definition redis_add_session ::
  "int \<Rightarrow> string \<Rightarrow> string \<Rightarrow> ('e, 'd) redis \<Rightarrow> (unit, ('e, 'd) redis) outcome" where
  "redis_add_session question_id session_id session_question s =
     (Inr (), s\<lparr>rd_db := om_save (rd_session s) \<lparr>sr_id = rd_ulid s (rd_ticks s), sr_question_id = question_id,
        sr_session_id = session_id, sr_session_question = session_question\<rparr> (rd_db s), rd_ticks := Suc (rd_ticks s)\<rparr>)"

text \<open>With both arguments the first query's result is dropped, and only the key counts.\<close>

definition redis_list_sessions :: "string option \<Rightarrow> int option \<Rightarrow> ('e, 'd) redis \<Rightarrow> session_row list" where
  "redis_list_sessions session_id key s =
     (if key \<noteq> None \<and> key \<noteq> Some 0 then om_find (rd_session s) (\<lambda>x. key = Some (sr_question_id x)) (rd_db s)
      else if session_id \<noteq> None \<and> session_id \<noteq> Some []
      then om_find (rd_session s) (\<lambda>x. session_id = Some (sr_session_id x)) (rd_db s)
      else om_find (rd_session s) (\<lambda>_. True) (rd_db s))"

definition redis_delete_session :: "int list \<Rightarrow> ('e, 'd) redis \<Rightarrow> (unit, ('e, 'd) redis) outcome" where
  "redis_delete_session keys s =
     (case om_find_in (rd_session s) sr_question_id keys (rd_db s) of
        Inl e \<Rightarrow> (Inl e, s)
      | Inr sessions_to_delete \<Rightarrow>
          (Inr (), pipeline_execute (map (\<lambda>x. DeleteSession (sr_id x)) sessions_to_delete) s))"

definition redis_report_cache :: "report_entry \<Rightarrow> ('e, 'd) redis \<Rightarrow> (unit, ('e, 'd) redis) outcome" where
  "redis_report_cache entry s0 =
     (let (now, s) = redis_clock s0
      in (Inr (), s\<lparr>rd_db := om_save (rd_report s) \<lparr>rt_pk = rd_ulid s (rd_ticks s), rt_entry = entry, rt_time = now\<rparr> (rd_db s),
                    rd_ticks := Suc (rd_ticks s)\<rparr>))"

section \<open>Eviction settings and RedisCacheEviction\<close>

text \<open>The settings that the constructors send to the server, in their order; falsy ones are left out.\<close>

definition config_given :: "string \<Rightarrow> string option \<Rightarrow> (string \<times> string) list" where
  "config_given name v = (case v of None \<Rightarrow> [] | Some x \<Rightarrow> if x = [] then [] else [(name, x)])"

definition redis_init_eviction_params ::
  "string option \<Rightarrow> string option \<Rightarrow> string option \<Rightarrow> (string \<times> string) list" where
  "redis_init_eviction_params policy maxmemory maxmemory_samples =
     config_given ''maxmemory'' maxmemory @ config_given ''maxmemory-policy'' policy @
     config_given ''maxmemory-samples'' maxmemory_samples"

text \<open>
  \<open>RedisCacheEviction\<close> (\<open>gptcache/manager/eviction/redis_eviction.py\<close>): the server evicts, the object only writes
  a marker for every key and reads it. The connection is a parameter, whose calls may raise.
\<close>

record 'd redis_con =
  rc_set :: "string \<Rightarrow> string \<Rightarrow> int option \<Rightarrow> 'd \<Rightarrow> (unit, 'd) outcome"
  rc_get :: "string \<Rightarrow> 'd \<Rightarrow> (string option, 'd) outcome"
  rc_expire :: "string \<Rightarrow> int \<Rightarrow> 'd \<Rightarrow> (unit, 'd) outcome"

record redis_eviction =
  rv_policy :: "string option"
  rv_prefix :: string
  rv_ttl :: "int option"

definition redis_eviction_init ::
  "(string \<Rightarrow> string) \<Rightarrow> string option \<Rightarrow> string option \<Rightarrow> string \<Rightarrow> int option \<Rightarrow> string option
   \<Rightarrow> redis_eviction \<times> (string \<times> string) list" where
  "redis_eviction_init lower maxmemory policy global_key_prefix ttl maxmemory_samples =
     (\<lparr>rv_policy = (case policy of None \<Rightarrow> None | Some p \<Rightarrow> if p = [] then None else Some (lower p)),
       rv_prefix = global_key_prefix, rv_ttl = ttl\<rparr>,
      config_given ''maxmemory'' maxmemory @ config_given ''maxmemory-samples'' maxmemory_samples @
      config_given ''maxmemory-policy'' policy)"

definition create_key :: "redis_eviction \<Rightarrow> string \<Rightarrow> string" where
  "create_key ev key = rv_prefix ev @ '':evict:'' @ key"

definition redis_put ::
  "'d redis_con \<Rightarrow> redis_eviction \<Rightarrow> string list \<Rightarrow> bool \<Rightarrow> 'd \<Rightarrow> (unit, 'd) outcome" where
  "redis_put con ev objs expire =
     (let ttl = (if expire then rv_ttl ev else None)
      in for_each (\<lambda>key. rc_set con (create_key ev key) ''True'' ttl) objs)"

definition redis_evict_get ::
  "'d redis_con \<Rightarrow> redis_eviction \<Rightarrow> string \<Rightarrow> 'd \<Rightarrow> (string option, 'd) outcome" where
  "redis_evict_get con ev obj d =
     try_except (\<lambda>e. e = LibraryError)
       (bind_out (rc_get con (create_key ev obj) d) (\<lambda>found d.
          bind_out (case rv_ttl ev of
                      None \<Rightarrow> (Inr (), d)
                    | Some ttl \<Rightarrow> if ttl = 0 then (Inr (), d) else rc_expire con (create_key ev obj) ttl d) (\<lambda>_ d.
            (Inr found, d))))
       (\<lambda>d. (Inr None, d))"

text \<open>The property \<open>policy\<close> reads an attribute that is only set for a non-empty policy.\<close>

definition redis_policy :: "redis_eviction \<Rightarrow> string result" where
  "redis_policy ev = (case rv_policy ev of None \<Rightarrow> Inl AttributeError | Some p \<Rightarrow> Inr p)"

section \<open>What redis-om documents\<close>

definition om_contract :: "('r \<Rightarrow> int) \<Rightarrow> ('d \<Rightarrow> 'o) \<Rightarrow> ('r, 'd) om_api \<Rightarrow> bool" where
  "om_contract key other m \<longleftrightarrow>
     (\<forall>k d r. om_get m k d = Some r \<longrightarrow> key r = k) \<and>
     (\<forall>P d. distinct (om_find m P d) \<and> set (om_find m P d) = {r. om_get m (key r) d = Some r \<and> P r}) \<and>
     (\<forall>f ks d. ks \<noteq> [] \<longrightarrow> (\<exists>rs. om_find_in m f ks d = Inr rs \<and> distinct rs \<and>
        set rs = {r. om_get m (key r) d = Some r \<and> f r \<in> set ks})) \<and>
     (\<forall>r d. (\<forall>k. om_get m k (om_save m r d) = (if k = key r then Some r else om_get m k d)) \<and>
        other (om_save m r d) = other d) \<and>
     (\<forall>k' d. (\<forall>k. om_get m k (om_delete m k' d) = (if k = k' then None else om_get m k d)) \<and>
        other (om_delete m k' d) = other d) \<and>
     (\<forall>k' t d. (\<forall>k. om_get m k (om_expire m k' t d) = om_get m k d) \<and> other (om_expire m k' t d) = other d)"

definition redis_contract :: "('e, 'd) redis \<Rightarrow> bool" where
  "redis_contract s \<longleftrightarrow>
     om_contract rq_pk (\<lambda>d. (\<lambda>k. om_get (rd_session s) k d, rd_counter s d)) (rd_ques s) \<and>
     om_contract sr_id (\<lambda>d. (\<lambda>k. om_get (rd_ques s) k d, rd_counter s d)) (rd_session s) \<and>
     (\<forall>d. rd_counter s (rd_incr s d) = rd_counter s d + 1 \<and>
        (\<forall>k. om_get (rd_ques s) k (rd_incr s d) = om_get (rd_ques s) k d) \<and>
        (\<forall>k. om_get (rd_session s) k (rd_incr s d) = om_get (rd_session s) k d))"

lemma om_contractD:
  assumes "om_contract key other m"
  shows "om_get m k d = Some r \<Longrightarrow> key r = k" "distinct (om_find m P d)"
    "set (om_find m P d) = {r. om_get m (key r) d = Some r \<and> P r}"
    "ks \<noteq> [] \<Longrightarrow> \<exists>rs. om_find_in m f ks d = Inr rs \<and> distinct rs \<and> set rs = {r. om_get m (key r) d = Some r \<and> f r \<in> set ks}"
    "om_get m k (om_save m r' d) = (if k = key r' then Some r' else om_get m k d)" "other (om_save m r' d) = other d"
    "om_get m k (om_delete m k' d) = (if k = k' then None else om_get m k d)" "other (om_delete m k' d) = other d"
    "om_get m k (om_expire m k' t d) = om_get m k d" "other (om_expire m k' t d) = other d"
  using assms by (simp_all add: om_contract_def)

text \<open>The document of a key, as the code sees it.\<close>

definition redis_doc :: "('e, 'd) redis \<Rightarrow> int \<Rightarrow> redis_ques option" where
  "redis_doc s k = om_get (rd_ques s) k (rd_db s)"

definition redis_inv :: "('e, 'd) redis \<Rightarrow> bool" where
  "redis_inv s \<longleftrightarrow> redis_contract s \<and> (\<forall>k. redis_doc s k \<noteq> None \<longrightarrow> k \<le> rd_counter s (rd_db s))"

lemma redis_contractD:
  assumes "redis_contract s"
  shows "om_contract rq_pk (\<lambda>d. (\<lambda>k. om_get (rd_session s) k d, rd_counter s d)) (rd_ques s)"
    "om_contract sr_id (\<lambda>d. (\<lambda>k. om_get (rd_ques s) k d, rd_counter s d)) (rd_session s)"
    "rd_counter s (rd_incr s d) = rd_counter s d + 1" "om_get (rd_ques s) k (rd_incr s d) = om_get (rd_ques s) k d"
  using assms by (simp_all add: redis_contract_def)

text \<open>The same object with another database and clock.\<close>

definition redis_same :: "('e, 'd) redis \<Rightarrow> ('e, 'd) redis \<Rightarrow> bool" where
  "redis_same s s' \<longleftrightarrow> (\<exists>t d. s' = s\<lparr>rd_ticks := t, rd_db := d\<rparr>)"

lemma redis_sameD:
  assumes "redis_same s s'"
  shows "rd_ques s' = rd_ques s" "rd_session s' = rd_session s" "rd_incr s' = rd_incr s" "rd_counter s' = rd_counter s"
    "rd_answer s' = rd_answer s" "rd_tobytes s' = rd_tobytes s" "rd_frombuffer s' = rd_frombuffer s"
    "rd_ttl s' = rd_ttl s" "redis_contract s' = redis_contract s" "run_cmd s' = run_cmd s"
proof -
  from assms obtain t d where s': "s' = s\<lparr>rd_ticks := t, rd_db := d\<rparr>" by (auto simp: redis_same_def)
  show "rd_ques s' = rd_ques s" "rd_session s' = rd_session s" "rd_incr s' = rd_incr s" "rd_counter s' = rd_counter s"
    "rd_answer s' = rd_answer s" "rd_tobytes s' = rd_tobytes s" "rd_frombuffer s' = rd_frombuffer s"
    "rd_ttl s' = rd_ttl s" by (simp_all add: s')
  then show "redis_contract s' = redis_contract s" by (simp add: redis_contract_def)
  have "run_cmd s' c d = run_cmd s c d" for c d by (cases c) (simp_all add: s')
  then show "run_cmd s' = run_cmd s" by blast
qed

lemma redis_same_refl [simp]: "redis_same s s"
proof -
  have "s = s\<lparr>rd_ticks := rd_ticks s, rd_db := rd_db s\<rparr>" by simp
  then show ?thesis unfolding redis_same_def by blast
qed

lemma redis_same_trans: "redis_same s s' \<Longrightarrow> redis_same s' s'' \<Longrightarrow> redis_same s s''"
  unfolding redis_same_def by fastforce

section \<open>Running a pipeline\<close>

fun saved_ques :: "redis_cmd list \<Rightarrow> redis_ques list" where
  "saved_ques [] = []"
| "saved_ques (SaveQues q # cs) = q # saved_ques cs"
| "saved_ques (SaveSession x # cs) = saved_ques cs"
| "saved_ques (ExpireQues pk t # cs) = saved_ques cs"
| "saved_ques (DeleteQues pk # cs) = saved_ques cs"
| "saved_ques (DeleteSession pk # cs) = saved_ques cs"

lemma saved_ques_append [simp]: "saved_ques (cs @ cs') = saved_ques cs @ saved_ques cs'"
  by (induction cs rule: saved_ques.induct) simp_all

fun deletes_ques :: "redis_cmd \<Rightarrow> bool" where
  "deletes_ques (DeleteQues pk) = True"
| "deletes_ques _ = False"

text \<open>Without deletions, a run leaves at each key the last document saved there; sessions do not matter.\<close>

lemma run_pipeline_ques:
  assumes "redis_contract s" and "\<forall>c \<in> set cs. \<not> deletes_ques c" and "distinct (map rq_pk (saved_ques cs))"
  shows "om_get (rd_ques s) k (fold (run_cmd s) cs d) =
    (case map_of (map (\<lambda>q. (rq_pk q, q)) (saved_ques cs)) k of None \<Rightarrow> om_get (rd_ques s) k d | Some q \<Rightarrow> Some q) \<and>
    rd_counter s (fold (run_cmd s) cs d) = rd_counter s d"
  using assms(2,3)
proof (induction cs arbitrary: d rule: saved_ques.induct)
  case (2 q cs)
  note Q = om_contractD[OF redis_contractD(1)[OF assms(1)]]
  have "map_of (map (\<lambda>q. (rq_pk q, q)) (saved_ques cs)) (rq_pk q) = None"
    using "2.prems"(2) by (simp add: map_of_eq_None_iff image_image)
  with "2.IH"[of "om_save (rd_ques s) q d"] "2.prems" Q(5,6) show ?case by (auto split: option.split)
next
  case (3 x cs)
  note X = om_contractD[OF redis_contractD(2)[OF assms(1)]]
  have "om_get (rd_ques s) k (om_save (rd_session s) x d) = om_get (rd_ques s) k d"
    using X(6)[of x d] by (metis prod.inject)
  with "3.IH"[of "om_save (rd_session s) x d"] "3.prems" X(6)[of x d] show ?case by (simp split: option.split)
next
  case (4 pk t cs)
  note Q = om_contractD[OF redis_contractD(1)[OF assms(1)]]
  with "4.IH"[of "om_expire (rd_ques s) pk t d"] "4.prems" show ?case by (simp split: option.split)
next
  case (6 pk cs)
  note X = om_contractD[OF redis_contractD(2)[OF assms(1)]]
  have "om_get (rd_ques s) k (om_delete (rd_session s) pk d) = om_get (rd_ques s) k d"
    using X(8)[of pk d] by (metis prod.inject)
  with "6.IH"[of "om_delete (rd_session s) pk d"] "6.prems" X(8)[of pk d] show ?case by (simp split: option.split)
qed simp_all

lemma run_pipeline_delete:
  assumes "redis_contract s"
  shows "om_get (rd_ques s) k (fold (run_cmd s) (map DeleteQues ks @ map (\<lambda>x. DeleteSession (sr_id x)) xs) d) =
    (if k \<in> set ks then None else om_get (rd_ques s) k d)"
proof -
  note Q = om_contractD[OF redis_contractD(1)[OF assms]] and X = om_contractD[OF redis_contractD(2)[OF assms]]
  have "om_get (rd_ques s) k (fold (run_cmd s) (map (\<lambda>x. DeleteSession (sr_id x)) xs) d) = om_get (rd_ques s) k d" for d
  proof (induction xs arbitrary: d)
    case (Cons x xs)
    have "om_get (rd_ques s) k (om_delete (rd_session s) (sr_id x) d) = om_get (rd_ques s) k d"
      using X(8)[of "sr_id x" d] by (metis prod.inject)
    with Cons show ?case by simp
  qed simp
  moreover have "om_get (rd_ques s) k (fold (run_cmd s) (map DeleteQues ks) d) =
      (if k \<in> set ks then None else om_get (rd_ques s) k d)"
    by (induction ks arbitrary: d) (auto simp: Q(7))
  ultimately show ?thesis by simp
qed

section \<open>Insertion\<close>

text \<open>What \<open>_insert\<close> accepts: an embedding, at most one session name, and answers that the model keeps as they are.\<close>

fun single_session :: "session_field \<Rightarrow> bool" where
  "single_session (SessionNames ns) = (ns = [])"
| "single_session (SessionDocs ss) = (ss = [])"
| "single_session _ = True"

definition redis_storable :: "('e, 'd) redis \<Rightarrow> 'e cache_data \<Rightarrow> bool" where
  "redis_storable s data \<longleftrightarrow> cd_embedding data \<noteq> None \<and> (\<forall>a \<in> set (cd_answers data). rd_answer s a = Inr a) \<and>
     single_session (cd_session data)"

text \<open>The document stored for an entry.\<close>

definition doc_of :: "('e, 'd) redis \<Rightarrow> 'e cache_data \<Rightarrow> redis_ques \<Rightarrow> bool" where
  "doc_of s data q \<longleftrightarrow> rq_question q = question_text (cd_question data) \<and> rq_answers q = cd_answers data \<and>
     rq_deps q = plain_deps (given_deps (cd_question data)) \<and>
     rq_embedding q = rd_tobytes s (the (cd_embedding data)) \<and> rq_deleted q = 0"

lemma map_out_answers:
  "\<forall>a \<in> set as. rd_answer s a = Inr a \<Longrightarrow> map_out (\<lambda>a s. (rd_answer s a, s)) as s = (Inr as, s)"
  by (induction as) simp_all

lemma session_cmd_ok:
  assumes "single_session f"
  obtains cmds where "session_cmd pk qid f x = Inr cmds" "saved_ques cmds = []" "\<forall>c \<in> set cmds. \<not> deletes_ques c"
  using assms by (cases f) auto

lemma redis_insert_spec:
  assumes c: "redis_contract s" and ok: "redis_storable s data"
  shows "\<exists>q cmds s'. redis_insert data (p, s) = (Inr (rq_pk q), (p @ cmds, s')) \<and> redis_same s s' \<and>
    rq_pk q = rd_counter s (rd_db s) + 1 \<and> saved_ques cmds = [q] \<and> (\<forall>c \<in> set cmds. \<not> deletes_ques c) \<and>
    doc_of s data q \<and> redis_doc s' = redis_doc s \<and> rd_counter s (rd_db s') = rd_counter s (rd_db s) + 1"
proof -
  let ?d = "rd_incr s (rd_db s)"
  obtain e where e: "cd_embedding data = Some e" using ok by (auto simp: redis_storable_def)
  let ?txt = "question_text (cd_question data)"
  define q where "q = \<lparr>rq_pk = rd_counter s ?d, rq_question = ?txt, rq_create_on = rd_now s (rd_ticks s),
    rq_last_access = rd_now s (Suc (rd_ticks s)), rq_deleted = 0, rq_answers = cd_answers data,
    rq_deps = plain_deps (given_deps (cd_question data)), rq_embedding = rd_tobytes s e\<rparr>"
  have single: "single_session (cd_session data)" using ok by (simp add: redis_storable_def)
  obtain cmds where x: "session_cmd (rd_ulid s (Suc (Suc (rd_ticks s)))) (rd_counter s ?d) (cd_session data) ?txt = Inr cmds"
    and cmds: "saved_ques cmds = []" "\<forall>c \<in> set cmds. \<not> deletes_ques c"
    by (rule session_cmd_ok[OF single])
  define ttl where "ttl = (case ttl_given s of None \<Rightarrow> [] | Some t \<Rightarrow> [ExpireQues (rd_counter s ?d) t])"
  let ?s = "s\<lparr>rd_ticks := Suc (Suc (Suc (rd_ticks s))), rd_db := ?d\<rparr>"
  have answers: "map_out (\<lambda>a s. (rd_answer s a, s)) (cd_answers data) (s\<lparr>rd_db := ?d\<rparr>) = (Inr (cd_answers data), s\<lparr>rd_db := ?d\<rparr>)"
    by (rule map_out_answers) (use ok in \<open>simp add: redis_storable_def\<close>)
  have "redis_insert data (p, s) = (Inr (rq_pk q), (p @ (SaveQues q # cmds @ ttl), ?s))"
    using x by (simp add: redis_insert_def Let_def answers redis_clock_def e q_def ttl_def ttl_given_def split: option.split)
  moreover have "redis_same s ?s" unfolding redis_same_def by blast
  moreover have "saved_ques (SaveQues q # cmds @ ttl) = [q]" "\<forall>c \<in> set (SaveQues q # cmds @ ttl). \<not> deletes_ques c"
    using cmds by (auto simp: ttl_def split: option.splits)
  moreover have "redis_doc ?s = redis_doc s" by (rule ext) (simp add: redis_doc_def redis_contractD(4)[OF c])
  ultimately show ?thesis
    using redis_contractD(3)[OF c, of "rd_db s"]
    by (intro exI[of _ q] exI[of _ "SaveQues q # cmds @ ttl"] exI[of _ ?s]) (simp add: q_def doc_of_def e)
qed

lemma redis_insert_all:
  assumes "redis_contract s" and "\<forall>d \<in> set ds. redis_storable s d"
  shows "\<exists>qs cmds s'. map_out redis_insert ds (p, s) = (Inr (map rq_pk qs), (p @ cmds, s')) \<and> redis_same s s' \<and>
    saved_ques cmds = qs \<and> (\<forall>c \<in> set cmds. \<not> deletes_ques c) \<and> list_all2 (doc_of s) ds qs \<and>
    distinct (map rq_pk qs) \<and> (\<forall>q \<in> set qs. rd_counter s (rd_db s) < rq_pk q \<and> rq_pk q \<le> rd_counter s (rd_db s')) \<and>
    rd_counter s (rd_db s) \<le> rd_counter s (rd_db s') \<and> redis_doc s' = redis_doc s"
  using assms
proof (induction ds arbitrary: p s)
  case (Cons d ds)
  from redis_insert_spec[OF Cons.prems(1), of d p] Cons.prems(2) obtain q c1 s1 where
    one: "redis_insert d (p, s) = (Inr (rq_pk q), (p @ c1, s1))" "redis_same s s1"
      "rq_pk q = rd_counter s (rd_db s) + 1" "saved_ques c1 = [q]" "\<forall>c \<in> set c1. \<not> deletes_ques c"
      "doc_of s d q" "redis_doc s1 = redis_doc s" "rd_counter s (rd_db s1) = rd_counter s (rd_db s) + 1" by auto
  note S = redis_sameD[OF one(2)]
  have same: "redis_storable s1 = redis_storable s" "doc_of s1 = doc_of s"
    by (rule ext; simp add: redis_storable_def S)+ (intro ext, simp add: doc_of_def S)
  from Cons.IH[of s1 "p @ c1"] Cons.prems obtain qs c2 s' where
    rest: "map_out redis_insert ds (p @ c1, s1) = (Inr (map rq_pk qs), ((p @ c1) @ c2, s'))" "redis_same s1 s'"
      "saved_ques c2 = qs" "\<forall>c \<in> set c2. \<not> deletes_ques c" "list_all2 (doc_of s) ds qs" "distinct (map rq_pk qs)"
      "\<forall>q \<in> set qs. rd_counter s (rd_db s1) < rq_pk q \<and> rq_pk q \<le> rd_counter s (rd_db s')"
      "rd_counter s (rd_db s1) \<le> rd_counter s (rd_db s')" "redis_doc s' = redis_doc s"
    unfolding S same one(7) by auto
  have "rq_pk q \<notin> rq_pk ` set qs" using rest(7) one(3,8) by force
  then show ?case
    using one rest redis_same_trans[OF one(2) rest(2)]
    by (intro exI[of _ "q # qs"] exI[of _ "c1 @ c2"] exI[of _ s']) auto
qed simp

section \<open>Reading and deleting\<close>

lemma answer_eta [simp]: "\<lparr>ans_content = ans_content a, ans_type = ans_type a\<rparr> = a"
  by simp

lemma redis_get_found:
  assumes "redis_doc s k = Some q"
  shows "\<exists>data s'. redis_get_data_by_id k s = (Inr (Some data), s') \<and>
    question_text (cd_question data) = rq_question q \<and> given_deps (cd_question data) = rq_deps q \<and>
    cd_answers data = rq_answers q \<and> cd_embedding data = Some (rd_frombuffer s (rq_embedding q))"
  using assms
  by (simp add: redis_doc_def redis_get_data_by_id_def Let_def redis_clock_def cache_data_init_def given_deps_def o_def
      split: option.split)

lemma redis_get_missing: "redis_doc s k = None \<Longrightarrow> redis_get_data_by_id k s = (Inr None, s)"
  by (simp add: redis_doc_def redis_get_data_by_id_def)

lemma keyed_docs:
  assumes "distinct qs" and "\<And>q. q \<in> set qs \<Longrightarrow> om_get m (rq_pk q) d = Some q"
  shows "distinct (map rq_pk qs)"
  using assms by (metis (no_types, lifting) distinct_map inj_onI option.inject)

lemma redis_mark_spec:
  assumes c: "redis_contract s" and ks: "ks \<noteq> []"
  obtains s' where "redis_mark_deleted ks s = (Inr (), s')" "redis_same s s'"
    "\<And>k. redis_doc s' k = (if k \<in> set ks then map_option (\<lambda>q. q\<lparr>rq_deleted := - 1\<rparr>) (redis_doc s k) else redis_doc s k)"
proof -
  note Q = om_contractD[OF redis_contractD(1)[OF c]]
  let ?del = "\<lambda>q. q\<lparr>rq_deleted := - 1\<rparr> :: redis_ques"
  from Q(4)[OF ks, of rq_pk "rd_db s"] obtain qs where find: "om_find_in (rd_ques s) rq_pk ks (rd_db s) = Inr qs"
    "distinct qs" "set qs = {q. om_get (rd_ques s) (rq_pk q) (rd_db s) = Some q \<and> rq_pk q \<in> set ks}" by blast
  have dist: "distinct (map rq_pk qs)" by (rule keyed_docs[OF find(2), of "rd_ques s" "rd_db s"]) (simp add: find(3))
  have run: "fold (\<lambda>q d. om_save (rd_ques s) (?del q) d) qs d = fold (run_cmd s) (map (\<lambda>q. SaveQues (?del q)) qs) d" for d
    by (induction qs arbitrary: d) simp_all
  have saved: "saved_ques (map (\<lambda>q. SaveQues (?del q)) qs) = map ?del qs" by (induction qs) simp_all
  define s' where "s' = s\<lparr>rd_db := fold (run_cmd s) (map (\<lambda>q. SaveQues (?del q)) qs) (rd_db s)\<rparr>"
  have "redis_mark_deleted ks s = (Inr (), s')" by (simp only: redis_mark_deleted_def find(1) sum.case run s'_def)
  moreover have "s\<lparr>rd_db := d\<rparr> = s\<lparr>rd_ticks := rd_ticks s, rd_db := d\<rparr>" for d by simp
  then have "redis_same s s'" unfolding redis_same_def s'_def by blast
  moreover have "redis_doc s' k = (if k \<in> set ks then map_option ?del (redis_doc s k) else redis_doc s k)" for k
  proof -
    have "distinct (map rq_pk (saved_ques (map (\<lambda>q. SaveQues (?del q)) qs)))" using dist by (simp add: saved o_def)
    from run_pipeline_ques[OF c _ this, of k "rd_db s"]
    have get: "redis_doc s' k = (case map_of (map (\<lambda>q. (rq_pk q, ?del q)) qs) k of None \<Rightarrow> redis_doc s k | Some q \<Rightarrow> Some q)"
      by (simp add: redis_doc_def s'_def saved o_def split: option.split)
    show ?thesis
    proof (cases "\<exists>q. redis_doc s k = Some q \<and> k \<in> set ks")
      case True
      then obtain q where q: "redis_doc s k = Some q" "k \<in> set ks" by blast
      then have "rq_pk q = k" using Q(1) by (auto simp: redis_doc_def)
      then have "q \<in> set qs" using q by (simp add: find(3) redis_doc_def)
      moreover have "distinct (map fst (map (\<lambda>q. (rq_pk q, ?del q)) qs))" using dist by (simp add: o_def)
      ultimately have "map_of (map (\<lambda>q. (rq_pk q, ?del q)) qs) k = Some (?del q)"
        using \<open>rq_pk q = k\<close> by (intro map_of_is_SomeI) auto
      with get q show ?thesis by simp
    next
      case False
      then have "k \<notin> rq_pk ` set qs" by (auto simp: find(3) redis_doc_def)
      then have "map_of (map (\<lambda>q. (rq_pk q, ?del q)) qs) k = None" by (auto simp: map_of_eq_None_iff)
      with get False show ?thesis by (cases "redis_doc s k") auto
    qed
  qed
  ultimately show thesis using that by blast
qed

lemma redis_clear_spec:
  assumes c: "redis_contract s" and some: "\<exists>k q. redis_doc s k = Some q \<and> rq_deleted q = - 1"
  obtains s' where "redis_clear_deleted_data s = (Inr (), s')" "redis_same s s'"
    "\<And>k. redis_doc s' k = (case redis_doc s k of None \<Rightarrow> None | Some q \<Rightarrow> if rq_deleted q = - 1 then None else Some q)"
proof -
  note Q = om_contractD[OF redis_contractD(1)[OF c]] and X = om_contractD[OF redis_contractD(2)[OF c]]
  let ?ks = "map rq_pk (om_find (rd_ques s) (\<lambda>q. rq_deleted q = - 1) (rd_db s))"
  have ks: "set ?ks = {k. \<exists>q. redis_doc s k = Some q \<and> rq_deleted q = - 1}"
    using Q(1) by (auto simp: Q(3) redis_doc_def image_iff)
  then have "?ks \<noteq> []" using some by auto
  from X(4)[OF this] obtain xs where xs: "om_find_in (rd_session s) sr_question_id ?ks (rd_db s) = Inr xs" by blast
  define s' where "s' = pipeline_execute (map DeleteQues ?ks @ map (\<lambda>x. DeleteSession (sr_id x)) xs) s"
  have "redis_clear_deleted_data s = (Inr (), s')" by (simp add: redis_clear_deleted_data_def Let_def xs s'_def)
  moreover have "s\<lparr>rd_db := d\<rparr> = s\<lparr>rd_ticks := rd_ticks s, rd_db := d\<rparr>" for d by simp
  then have "redis_same s s'" unfolding redis_same_def s'_def pipeline_execute_def by blast
  moreover have "redis_doc s' k = (case redis_doc s k of None \<Rightarrow> None | Some q \<Rightarrow> if rq_deleted q = - 1 then None else Some q)" for k
  proof -
    have "redis_doc s' k = (if k \<in> set ?ks then None else redis_doc s k)"
    proof -
      have "rd_ques s' = rd_ques s" "rd_db s' = fold (run_cmd s) (map DeleteQues ?ks @ map (\<lambda>x. DeleteSession (sr_id x)) xs) (rd_db s)"
        by (simp_all add: s'_def pipeline_execute_def del: map_append)
      then show ?thesis by (simp only: redis_doc_def run_pipeline_delete[OF c])
    qed
    then show ?thesis unfolding ks by (auto split: option.split)
  qed
  ultimately show thesis using that by blast
qed

lemma redis_ids_iff:
  assumes "redis_contract s"
  shows "k \<in> set (redis_get_ids b s) \<longleftrightarrow> (\<exists>q. redis_doc s k = Some q \<and> rq_deleted q = (if b then - 1 else 0))"
  using om_contractD(1,3)[OF redis_contractD(1)[OF assms]]
  by (auto simp: redis_get_ids_def redis_doc_def image_iff)

section \<open>A database that meets the contract\<close>

record list_redis =
  lr_ques :: "redis_ques list"
  lr_session :: "session_row list"
  lr_report :: "redis_report list"
  lr_counter :: int

definition list_om :: "('r \<Rightarrow> int) \<Rightarrow> ('d \<Rightarrow> 'r list) \<Rightarrow> ('r list \<Rightarrow> 'd \<Rightarrow> 'd) \<Rightarrow> ('r, 'd) om_api" where
  "list_om key docs put =
     \<lparr>om_get = (\<lambda>k d. find (\<lambda>r. key r = k) (docs d)),
      om_find = (\<lambda>P d. remdups (filter (\<lambda>r. find (\<lambda>r'. key r' = key r) (docs d) = Some r \<and> P r) (docs d))),
      om_find_in = (\<lambda>f ks d. Inr (remdups (filter (\<lambda>r. find (\<lambda>r'. key r' = key r) (docs d) = Some r \<and> f r \<in> set ks) (docs d)))),
      om_save = (\<lambda>r d. put (r # docs d) d),
      om_delete = (\<lambda>k d. put (filter (\<lambda>r. key r \<noteq> k) (docs d)) d),
      om_expire = (\<lambda>k t d. d)\<rparr>"

lemma find_filter_key:
  "find (\<lambda>r. key r = k) (filter (\<lambda>r. key r \<noteq> k') xs) = (if k = k' then None else find (\<lambda>r. key r = k) xs)"
  by (induction xs) auto

lemma list_om_contract:
  assumes "\<And>d rs. docs (put rs d) = rs" "\<And>d rs. other (put rs d) = other d"
  shows "om_contract key other (list_om key docs put)"
proof -
  have key: "find (\<lambda>r. key r = k) xs = Some r \<Longrightarrow> key r = k \<and> r \<in> set xs" for k r xs
    by (auto simp: find_Some_iff)
  have sets: "{r. r \<in> set xs \<and> find (\<lambda>r'. key r' = key r) xs = Some r \<and> P r} =
      {r. find (\<lambda>r'. key r' = key r) xs = Some r \<and> P r}" for xs P
    by (rule Collect_cong) (use key in blast)
  let ?m = "list_om key docs put"
  have "\<forall>k d r. om_get ?m k d = Some r \<longrightarrow> key r = k" by (auto simp: list_om_def dest: key)
  moreover have "\<forall>P d. distinct (om_find ?m P d) \<and> set (om_find ?m P d) = {r. om_get ?m (key r) d = Some r \<and> P r}"
    by (simp add: list_om_def sets)
  moreover have "\<forall>f ks d. ks \<noteq> [] \<longrightarrow> (\<exists>rs. om_find_in ?m f ks d = Inr rs \<and> distinct rs \<and>
      set rs = {r. om_get ?m (key r) d = Some r \<and> f r \<in> set ks})"
    by (simp add: list_om_def sets)
  moreover have "\<forall>r d. (\<forall>k. om_get ?m k (om_save ?m r d) = (if k = key r then Some r else om_get ?m k d)) \<and>
      other (om_save ?m r d) = other d"
    by (auto simp: list_om_def assms)
  moreover have "\<forall>k' d. (\<forall>k. om_get ?m k (om_delete ?m k' d) = (if k = k' then None else om_get ?m k d)) \<and>
      other (om_delete ?m k' d) = other d"
    by (simp add: list_om_def assms find_filter_key)
  moreover have "\<forall>k' t d. (\<forall>k. om_get ?m k (om_expire ?m k' t d) = om_get ?m k d) \<and> other (om_expire ?m k' t d) = other d"
    by (simp add: list_om_def)
  ultimately show ?thesis unfolding om_contract_def by (intro conjI)
qed

definition redis_new :: "(string, list_redis) redis" where
  "redis_new = \<lparr>rd_ques = list_om rq_pk lr_ques (\<lambda>rs d. d\<lparr>lr_ques := rs\<rparr>),
     rd_session = list_om sr_id lr_session (\<lambda>rs d. d\<lparr>lr_session := rs\<rparr>),
     rd_report = list_om rt_pk lr_report (\<lambda>rs d. d\<lparr>lr_report := rs\<rparr>),
     rd_incr = (\<lambda>d. d\<lparr>lr_counter := lr_counter d + 1\<rparr>), rd_counter = lr_counter,
     rd_answer = Inr, rd_none_embedding = Inl LibraryError, rd_tobytes = (\<lambda>e. e), rd_frombuffer = (\<lambda>b. b),
     rd_now = int, rd_ulid = int, rd_ttl = Some 60, rd_ticks = 0,
     rd_db = \<lparr>lr_ques = [], lr_session = [], lr_report = [], lr_counter = 0\<rparr>\<rparr>"

lemma redis_new_contract: "redis_contract redis_new"
proof -
  have "om_contract rq_pk (\<lambda>d. (\<lambda>k. om_get (rd_session redis_new) k d, rd_counter redis_new d)) (rd_ques redis_new)"
    unfolding redis_new_def redis.simps by (rule list_om_contract) (simp_all add: list_om_def)
  moreover have "om_contract sr_id (\<lambda>d. (\<lambda>k. om_get (rd_ques redis_new) k d, rd_counter redis_new d)) (rd_session redis_new)"
    unfolding redis_new_def redis.simps by (rule list_om_contract) (simp_all add: list_om_def)
  ultimately show ?thesis by (simp add: redis_contract_def) (simp add: redis_new_def list_om_def)
qed

lemma redis_new_inv: "redis_inv redis_new"
  by (simp add: redis_inv_def redis_new_contract) (simp add: redis_doc_def redis_new_def list_om_def)

definition redis_sample :: "string \<Rightarrow> string cache_data" where
  "redis_sample q = cache_data_init (QStr q) (AnsStr ''a'') (Some ''e'') (SessionName ''u'') None None"

lemma redis_sample_storable: "redis_storable redis_new (redis_sample q)"
  by (simp add: redis_storable_def redis_sample_def cache_data_init_def redis_new_def)

definition sample_doc :: redis_ques where
  "sample_doc = \<lparr>rq_pk = 7, rq_question = ''q'', rq_create_on = 0, rq_last_access = 0, rq_deleted = 0,
     rq_answers = [\<lparr>ans_content = Text ''a'', ans_type = 0\<rparr>], rq_deps = [], rq_embedding = ''e''\<rparr>"

definition redis_one :: "(string, list_redis) redis" where
  "redis_one = redis_new\<lparr>rd_ticks := 0, rd_db := \<lparr>lr_ques = [sample_doc], lr_session = [], lr_report = [], lr_counter = 7\<rparr>\<rparr>"

section \<open>Properties\<close>

text \<open>
  C28. A batch comes back from the Redis storage: after \<open>batch_insert\<close>, which gives fresh and distinct keys in
  order, reading at the \<open>i\<close>-th key returns the \<open>i\<close>-th entry (its question, its dependencies with their
  types as numbers, its answers, and its embedding through bytes), and every other document is as before.
\<close>

theorem redis_insert_then_get:
  assumes inv: "redis_inv s" and ds: "\<forall>d \<in> set ds. redis_storable s d"
  shows "\<exists>ids s'. redis_batch_insert ds s = (Inr ids, s') \<and> length ids = length ds \<and> distinct ids \<and> redis_inv s' \<and>
    (\<forall>k. k \<notin> set ids \<longrightarrow> redis_doc s' k = redis_doc s k) \<and>
    (\<forall>i < length ds. redis_doc s (ids ! i) = None \<and>
       (\<exists>data s2. redis_get_data_by_id (ids ! i) s' = (Inr (Some data), s2) \<and>
          question_text (cd_question data) = question_text (cd_question (ds ! i)) \<and>
          given_deps (cd_question data) = plain_deps (given_deps (cd_question (ds ! i))) \<and>
          cd_answers data = cd_answers (ds ! i) \<and>
          cd_embedding data = map_option (\<lambda>e. rd_frombuffer s (rd_tobytes s e)) (cd_embedding (ds ! i))))"
proof -
  have c: "redis_contract s" using inv by (simp add: redis_inv_def)
  from redis_insert_all[OF c ds, of "[]"] obtain qs cmds s1 where
    run: "map_out redis_insert ds ([], s) = (Inr (map rq_pk qs), (cmds, s1))" and same: "redis_same s s1"
    and qs: "saved_ques cmds = qs" "\<forall>c \<in> set cmds. \<not> deletes_ques c" "list_all2 (doc_of s) ds qs" "distinct (map rq_pk qs)"
      "\<forall>q \<in> set qs. rd_counter s (rd_db s) < rq_pk q \<and> rq_pk q \<le> rd_counter s (rd_db s1)"
      "rd_counter s (rd_db s) \<le> rd_counter s (rd_db s1)"
    and docs: "redis_doc s1 = redis_doc s" by auto
  define s' where "s' = pipeline_execute cmds s1"
  have same': "redis_same s s'" using same unfolding s'_def pipeline_execute_def redis_same_def by force
  have get: "redis_doc s' k = (case map_of (map (\<lambda>q. (rq_pk q, q)) qs) k of None \<Rightarrow> redis_doc s k | Some q \<Rightarrow> Some q)"
    and counter: "rd_counter s (rd_db s') = rd_counter s (rd_db s1)" for k
    using run_pipeline_ques[OF c qs(2), of k "rd_db s1"] qs(1,4) fun_cong[OF docs, of k]
    by (simp_all add: redis_doc_def s'_def pipeline_execute_def redis_sameD[OF same] split: option.split)
  have other: "redis_doc s' k = redis_doc s k" if "k \<notin> rq_pk ` set qs" for k
    using get[of k] that by (simp add: map_of_eq_None_iff[THEN iffD2] image_image)
  have new: "redis_doc s (rq_pk q) = None \<and> redis_doc s' (rq_pk q) = Some q" if "q \<in> set qs" for q
  proof -
    have "map_of (map (\<lambda>q. (rq_pk q, q)) qs) (rq_pk q) = Some q"
      using that qs(4) by (intro map_of_is_SomeI) (auto simp: o_def)
    then show ?thesis using get[of "rq_pk q"] inv qs(5) that by (fastforce simp: redis_inv_def)
  qed
  have "k \<le> rd_counter s (rd_db s1)" if "redis_doc s' k \<noteq> None" for k
  proof (cases "k \<in> rq_pk ` set qs")
    case False
    then have "k \<le> rd_counter s (rd_db s)" using that other[OF False] inv by (simp add: redis_inv_def)
    with qs(6) show ?thesis by simp
  qed (use qs(5) in auto)
  then have "redis_inv s'"
    unfolding redis_inv_def redis_sameD[OF same'] counter using c by blast
  moreover have "redis_batch_insert ds s = (Inr (map rq_pk qs), s')" by (simp add: redis_batch_insert_def run s'_def)
  moreover have "redis_doc s (rq_pk (qs ! i)) = None \<and>
       (\<exists>data s2. redis_get_data_by_id (rq_pk (qs ! i)) s' = (Inr (Some data), s2) \<and>
          question_text (cd_question data) = question_text (cd_question (ds ! i)) \<and>
          given_deps (cd_question data) = plain_deps (given_deps (cd_question (ds ! i))) \<and>
          cd_answers data = cd_answers (ds ! i) \<and>
          cd_embedding data = map_option (\<lambda>e. rd_frombuffer s (rd_tobytes s e)) (cd_embedding (ds ! i)))"
    if i: "i < length ds" for i
  proof -
    have q: "qs ! i \<in> set qs" "doc_of s (ds ! i) (qs ! i)"
      using qs(3) i by (auto simp: list_all2_conv_all_nth)
    have "redis_storable s (ds ! i)" using ds i by simp
    then obtain e where "cd_embedding (ds ! i) = Some e" by (auto simp: redis_storable_def)
    with redis_get_found[of s' "rq_pk (qs ! i)" "qs ! i"] new[OF q(1)] q(2) show ?thesis
      by (auto simp: doc_of_def redis_sameD[OF same'])
  qed
  ultimately show ?thesis
    using qs(3,4) other by (intro exI[of _ "map rq_pk qs"] exI[of _ s']) (auto simp: list_all2_lengthD)
qed

theorem redis_insert_then_get_witness:
  "\<exists>ids s'. redis_batch_insert [redis_sample ''q'', redis_sample ''r''] redis_new = (Inr ids, s') \<and> length ids = 2 \<and>
     redis_inv s'"
  using redis_insert_then_get[OF redis_new_inv, of "[redis_sample ''q'', redis_sample ''r'']"]
  by (auto simp: redis_sample_storable)

text \<open>
  An evicted entry is still served by the Redis storage: \<open>mark_deleted\<close> takes its key out of the live ids, but
  \<open>get_data_by_id\<close> does not look at the mark and goes on returning the entry until \<open>clear_deleted_data\<close>
  removes the document.
\<close>

theorem redis_marked_still_served:
  assumes c: "redis_contract s" and k: "k \<in> set ks" and q: "redis_doc s k = Some q"
  shows "\<exists>s1 s2 data s3. redis_mark_deleted ks s = (Inr (), s1) \<and>
    k \<notin> set (redis_get_ids False s1) \<and> k \<in> set (redis_get_ids True s1) \<and>
    redis_get_data_by_id k s1 = (Inr (Some data), s2) \<and> question_text (cd_question data) = rq_question q \<and>
    cd_answers data = rq_answers q \<and>
    redis_clear_deleted_data s1 = (Inr (), s3) \<and> redis_get_data_by_id k s3 = (Inr None, s3)"
proof -
  have "ks \<noteq> []" using k by auto
  from c this obtain s1 where mark: "redis_mark_deleted ks s = (Inr (), s1)" "redis_same s s1"
    and docs: "\<And>k. redis_doc s1 k = (if k \<in> set ks then map_option (\<lambda>q. q\<lparr>rq_deleted := - 1\<rparr>) (redis_doc s k) else redis_doc s k)"
    by (rule redis_mark_spec) blast
  have c1: "redis_contract s1" using c by (simp add: redis_sameD[OF mark(2)])
  have doc: "redis_doc s1 k = Some (q\<lparr>rq_deleted := - 1\<rparr>)" using docs[of k] k q by simp
  then have "\<exists>k q. redis_doc s1 k = Some q \<and> rq_deleted q = - 1" by fastforce
  from c1 this obtain s3 where clear: "redis_clear_deleted_data s1 = (Inr (), s3)"
    and docs3: "\<And>k. redis_doc s3 k = (case redis_doc s1 k of None \<Rightarrow> None | Some q \<Rightarrow> if rq_deleted q = - 1 then None else Some q)"
    by (rule redis_clear_spec) blast
  from redis_get_found[OF doc] obtain data s2 where "redis_get_data_by_id k s1 = (Inr (Some data), s2)"
    "question_text (cd_question data) = rq_question q" "cd_answers data = rq_answers q" by auto
  moreover have "redis_get_data_by_id k s3 = (Inr None, s3)" by (rule redis_get_missing) (simp add: docs3 doc)
  ultimately show ?thesis using mark(1) clear doc redis_ids_iff[OF c1, of k] by (simp add: doc)
qed

theorem redis_marked_still_served_witness:
  "\<exists>s1 s2 data. redis_mark_deleted [7] redis_one = (Inr (), s1) \<and> 7 \<notin> set (redis_get_ids False s1) \<and>
     redis_get_data_by_id 7 s1 = (Inr (Some data), s2) \<and> question_text (cd_question data) = ''q''"
proof -
  have "redis_same redis_new redis_one" unfolding redis_same_def redis_one_def by blast
  then have "redis_contract redis_one" using redis_new_contract by (simp add: redis_sameD)
  moreover have "redis_doc redis_one 7 = Some sample_doc"
    by (simp add: redis_doc_def redis_one_def redis_new_def list_om_def sample_doc_def)
  ultimately show ?thesis
    using redis_marked_still_served[of redis_one 7 "[7]" sample_doc] by (auto simp: sample_doc_def)
qed

end
