(* ===== verification/Dynamo_Storage.thy ===== *)
theory Dynamo_Storage
  imports Scalar_Data Py_Object "HOL-Library.List_Lexorder" "HOL-Library.Char_ord"
begin

text \<open>
  The DynamoDB storage \<open>gptcache/manager/scalar_data/dynamo_storage.py\<close>. Questions and sessions are items of
  one table, told apart by the prefixes of their keys \<open>pk\<close> and \<open>id\<close>; an item is a record of optional
  attributes. The table is a parameter, \<open>dyn_table\<close>: \<open>get_item\<close>, \<open>put_item\<close> (which replaces an item as a
  whole), the batch writer, the queries on its keys and indexes, and the scan, which gives one page at a time.

  A loop over pages that does not end has the value \<open>None\<close>.
\<close>

section \<open>Items\<close>

record 'y dyn_item =
  di_pk :: string
  di_id :: string
  di_question :: "string option"
  di_answers :: "(content \<times> int) list option"
  di_deps :: "(string \<times> string \<times> int) list option"
  di_create_on :: "int option"
  di_last_access :: "int option"
  di_embedding :: "'y option"
  di_deleted :: "string option"

definition bare_item :: "string \<Rightarrow> string \<Rightarrow> 'y dyn_item" where
  "bare_item pk i = \<lparr>di_pk = pk, di_id = i, di_question = None, di_answers = None, di_deps = None, di_create_on = None,
     di_last_access = None, di_embedding = None, di_deleted = None\<rparr>"

lemma bare_item_keys [simp]: "di_pk (bare_item pk i) = pk" "di_id (bare_item pk i) = i"
  by (simp_all add: bare_item_def)

datatype 'y dyn_write = PutItem "'y dyn_item" | DeleteItem string string

text \<open>
  The key conditions in use: by primary key and a prefix of \<open>id\<close>, by \<open>id\<close> (the index
  \<open>gsi_items_by_type\<close>), by \<open>id\<close> with a filter on \<open>pk\<close>, and by \<open>deleted\<close> (\<open>gsi_questions_by_deletion_status\<close>).
\<close>

datatype dyn_query = ByKey string string | ByItemId string | ByItemIdOf string string | ByDeleted string

fun matches :: "dyn_query \<Rightarrow> 'y dyn_item \<Rightarrow> bool" where
  "matches (ByKey pk pre) it = (di_pk it = pk \<and> is_prefix pre (di_id it))"
| "matches (ByItemId i) it = (di_id it = i)"
| "matches (ByItemIdOf i pk) it = (di_id it = i \<and> di_pk it = pk)"
| "matches (ByDeleted v) it = (di_deleted it = Some v)"

type_synonym dyn_key = "string \<times> string"

record ('y, 'd) dyn_table =
  dt_get :: "string \<Rightarrow> string \<Rightarrow> 'd \<Rightarrow> 'y dyn_item option"
  dt_put :: "'y dyn_item \<Rightarrow> 'd \<Rightarrow> 'd"
  dt_set_access :: "string \<Rightarrow> string \<Rightarrow> int \<Rightarrow> 'd \<Rightarrow> 'd"
  dt_batch :: "'y dyn_write list \<Rightarrow> 'd \<Rightarrow> (unit, 'd) outcome"
  dt_query :: "dyn_query \<Rightarrow> 'd \<Rightarrow> 'y dyn_item list"
  dt_scan :: "('y dyn_item \<Rightarrow> bool) \<Rightarrow> dyn_key option \<Rightarrow> 'd \<Rightarrow> 'y dyn_item list \<times> dyn_key option"
  dt_report :: "string \<Rightarrow> report_entry \<Rightarrow> 'd \<Rightarrow> 'd"

text \<open>
  The storage object. \<open>dy_rand\<close> are the random ids, \<open>dy_suffix\<close> the random suffix, drawn once when the class is
  made; \<open>dy_answer_value\<close> is the attribute \<open>value\<close> of an answer's type, which a plain integer does not have;
  \<open>dy_format\<close> is how an f-string shows a session id that is a list; times are numbers, not ISO texts;
  \<open>dy_wait n\<close> are the positions of the concurrent queries that finished in time, in the order in which
  the set of them is listed; \<open>dy_dedupe\<close> lists a set of strings.
\<close>

record ('y, 'e, 'd) dynamo =
  dy_table :: "('y, 'd) dyn_table"
  dy_rand :: "nat \<Rightarrow> int"
  dy_suffix :: int
  dy_now :: "nat \<Rightarrow> int"
  dy_tobytes :: "'e \<Rightarrow> 'y"
  dy_frombuffer :: "'y \<Rightarrow> 'e"
  dy_answer_value :: "answer \<Rightarrow> int result"
  dy_format :: "session_field \<Rightarrow> string"
  dy_wait :: "nat \<Rightarrow> nat list"
  dy_dedupe :: "string set \<Rightarrow> string list"
  dy_ticks :: nat
  dy_db :: 'd

section \<open>Helpers\<close>

definition max_cardinality_suffix :: int where
  "max_cardinality_suffix = 10"

definition question_key :: "string \<Rightarrow> string" where
  "question_key k = ''questions#'' @ k"

definition session_item_id :: "string \<Rightarrow> string" where
  "session_item_id k = ''sessions#'' @ k"

definition py_str_bool :: "bool \<Rightarrow> string" where
  "py_str_bool b = (if b then ''True'' else ''False'')"

definition serialize_deleted_value :: "('y, 'e, 'd) dynamo \<Rightarrow> bool \<Rightarrow> string" where
  "serialize_deleted_value s b = py_str_bool b @ ''_'' @ py_str_int (dy_suffix s)"

definition deserialize_deleted_value :: "string \<Rightarrow> bool" where
  "deserialize_deleted_value v = is_prefix ''True_'' v"

definition generate_id :: "('y, 'e, 'd) dynamo \<Rightarrow> int \<times> ('y, 'e, 'd) dynamo" where
  "generate_id s = (dy_rand s (dy_ticks s), s\<lparr>dy_ticks := Suc (dy_ticks s)\<rparr>)"

definition dynamo_now :: "('y, 'e, 'd) dynamo \<Rightarrow> int \<times> ('y, 'e, 'd) dynamo" where
  "dynamo_now s = (dy_now s (dy_ticks s), s\<lparr>dy_ticks := Suc (dy_ticks s)\<rparr>)"

definition serialize_answer :: "('y, 'e, 'd) dynamo \<Rightarrow> answer \<Rightarrow> (content \<times> int) result" where
  "serialize_answer s a = bind_res (dy_answer_value s a) (\<lambda>t. Inr (ans_content a, t))"

definition serialize_question_deps :: "question_dep \<Rightarrow> (string \<times> string \<times> int) result" where
  "serialize_question_deps e =
     (case dep_type e of Plain _ \<Rightarrow> Inl AttributeError | Member t \<Rightarrow> Inr (dep_name e, dep_data e, data_type_int t))"

definition deserialize_question_dep :: "string \<times> string \<times> int \<Rightarrow> question_dep" where
  "deserialize_question_dep = (\<lambda>(name, txt, t). \<lparr>dep_name = name, dep_data = txt, dep_type = Plain t\<rparr>)"

definition deserialize_answer :: "content \<times> int \<Rightarrow> answer" where
  "deserialize_answer = (\<lambda>(c, t). \<lparr>ans_content = c, ans_type = t\<rparr>)"

definition key_of :: "'a option \<Rightarrow> 'a result" where
  "key_of x = (case x of None \<Rightarrow> Inl KeyError | Some v \<Rightarrow> Inr v)"

text \<open>Missing attributes raise \<open>KeyError\<close>; \<open>deps\<close> and \<open>last_access\<close> may be missing.\<close>

definition response_item_to_cache_data :: "('y, 'e, 'd) dynamo \<Rightarrow> 'y dyn_item \<Rightarrow> 'e cache_data result" where
  "response_item_to_cache_data s it =
     (let deps = (case di_deps it of None \<Rightarrow> [] | Some ds \<Rightarrow> ds)
      in bind_res (key_of (di_question it)) (\<lambda>txt.
         bind_res (key_of (di_answers it)) (\<lambda>answers.
         bind_res (key_of (di_embedding it)) (\<lambda>bytes.
         bind_res (key_of (di_create_on it)) (\<lambda>created.
           Inr (cache_data_init (QObj \<lparr>q_content = txt, q_deps = Some (map deserialize_question_dep deps)\<rparr>)
                  (AnsList (map (\<lambda>a. ItemAnswer (deserialize_answer a)) answers)) (Some (dy_frombuffer s bytes))
                  NoSession (Some created) (di_last_access it)))))))"

text \<open>\<open>_fetch_all_pages\<close>.\<close>

partial_function (option) fetch_all_pages ::
  "(dyn_key option \<Rightarrow> 'i list \<times> dyn_key option) \<Rightarrow> dyn_key option \<Rightarrow> 'i list list option" where
  "fetch_all_pages scan_fn last_key =
     (case scan_fn last_key of
        (items, None) \<Rightarrow> Some [items]
      | (items, Some k) \<Rightarrow> Option.bind (fetch_all_pages scan_fn (Some k)) (\<lambda>pages. Some (items # pages)))"

text \<open>\<open>reduce(lambda x, y: x + y, ...)\<close>: there is no result for an empty list.\<close>

definition reduce_lists :: "'a list list \<Rightarrow> 'a list result" where
  "reduce_lists xs = (if xs = [] then Inl TypeError else Inr (concat xs))"

section \<open>The methods\<close>

text \<open>
  \<open>batch_insert\<close>: the items are given to the batch writer, which writes what it was given even when an
  exception ends the block.
\<close>

fun session_str :: "('y, 'e, 'd) dynamo \<Rightarrow> session_field \<Rightarrow> string" where
  "session_str s (SessionName n) = n"
| "session_str s f = dy_format s f"

definition dynamo_row ::
  "'e cache_data \<Rightarrow> ('y, 'e, 'd) dynamo \<Rightarrow> (int \<times> 'y dyn_write list) result \<times> ('y, 'e, 'd) dynamo" where
  "dynamo_row item s0 =
     (let deps = (case cd_question item of
                    QStr _ \<Rightarrow> [] | QObj q \<Rightarrow> (case q_deps q of None \<Rightarrow> [] | Some ds \<Rightarrow> ds));
          (new_id, s) = generate_id s0;
          key = question_key (py_str_int new_id);
          (now, s) = (case cd_create_on item of Some t \<Rightarrow> (t, s) | None \<Rightarrow> dynamo_now s);
          txt = question_text (cd_question item)
      in (bind_res (map_res (serialize_answer s) (cd_answers item)) (\<lambda>answers.
          bind_res (map_res serialize_question_deps deps) (\<lambda>ds.
            Inr (new_id,
              PutItem \<lparr>di_pk = key, di_id = key, di_question = Some txt, di_answers = Some answers, di_deps = Some ds,
                di_create_on = Some now, di_last_access = cd_last_access item,
                di_embedding = map_option (dy_tobytes s) (cd_embedding item),
                di_deleted = Some (serialize_deleted_value s False)\<rparr> #
              (if session_given (cd_session item)
               then [PutItem ((bare_item key (session_item_id (session_str s (cd_session item))))\<lparr>di_question := Some txt\<rparr>)]
               else [])))), s))"

fun dynamo_rows ::
  "'e cache_data list \<Rightarrow> ('y, 'e, 'd) dynamo \<Rightarrow> (int list result \<times> 'y dyn_write list) \<times> ('y, 'e, 'd) dynamo" where
  "dynamo_rows [] s = ((Inr [], []), s)"
| "dynamo_rows (x # xs) s =
     (case dynamo_row x s of
        (Inl e, s) \<Rightarrow> ((Inl e, []), s)
      | (Inr (i, ws), s) \<Rightarrow>
          (case dynamo_rows xs s of
             ((Inl e, ws'), s) \<Rightarrow> ((Inl e, ws @ ws'), s)
           | ((Inr ids, ws'), s) \<Rightarrow> ((Inr (i # ids), ws @ ws'), s)))"

definition dynamo_write :: "'y dyn_write list \<Rightarrow> ('y, 'e, 'd) dynamo \<Rightarrow> (unit, ('y, 'e, 'd) dynamo) outcome" where
  "dynamo_write ws s = (case dt_batch (dy_table s) ws (dy_db s) of (r, d) \<Rightarrow> (r, s\<lparr>dy_db := d\<rparr>))"

definition dynamo_batch_insert ::
  "'e cache_data list \<Rightarrow> ('y, 'e, 'd) dynamo \<Rightarrow> (int list, ('y, 'e, 'd) dynamo) outcome" where
  "dynamo_batch_insert all_data s =
     (case dynamo_rows all_data s of
        ((res, ws), s) \<Rightarrow> bind_out (dynamo_write ws s) (\<lambda>_ s. (res, s)))"

definition dynamo_get_data_by_id ::
  "string \<Rightarrow> ('y, 'e, 'd) dynamo \<Rightarrow> ('e cache_data option, ('y, 'e, 'd) dynamo) outcome" where
  "dynamo_get_data_by_id key s0 =
     (let T = dy_table s0; k = question_key key;
          sessions_containing_question = dt_query T (ByKey k ''sessions#'') (dy_db s0)
      in case dt_get T k k (dy_db s0) of
           None \<Rightarrow> (Inr None, s0)
         | Some item \<Rightarrow>
             (case key_of (di_deleted item) of
                Inl e \<Rightarrow> (Inl e, s0)
              | Inr v \<Rightarrow>
                  if deserialize_deleted_value v then (Inr None, s0)
                  else
                    let (now, s) = dynamo_now s0;
                        s = s\<lparr>dy_db := dt_set_access T k k now (dy_db s)\<rparr>
                    in (bind_res (response_item_to_cache_data s item) (\<lambda>data.
                        bind_res (map_res (\<lambda>it. py_nth (split_on ''#'' [] (di_id it)) 1) sessions_containing_question) (\<lambda>names.
                          Inr (Some (data\<lparr>cd_session := SessionNames names\<rparr>)))), s)))"

text \<open>The item of every key is replaced by one with three attributes.\<close>

definition dynamo_mark_deleted :: "string list \<Rightarrow> ('y, 'e, 'd) dynamo \<Rightarrow> (unit, ('y, 'e, 'd) dynamo) outcome" where
  "dynamo_mark_deleted keys s =
     dynamo_write (map (\<lambda>key. PutItem ((bare_item (question_key key) (question_key key))
       \<lparr>di_deleted := Some (serialize_deleted_value s True)\<rparr>)) keys) s"

text \<open>One query for every suffix, run concurrently; the results of those that finish in time are joined.\<close>

definition run_queries :: "dyn_query list \<Rightarrow> ('y, 'e, 'd) dynamo \<Rightarrow> 'y dyn_item list result" where
  "run_queries qs s = reduce_lists (map (\<lambda>i. dt_query (dy_table s) (qs ! i) (dy_db s)) (dy_wait s (length qs)))"

definition deleted_queries :: "dyn_query list" where
  "deleted_queries = map (\<lambda>i. ByDeleted (''True_'' @ py_str_int i)) [1..max_cardinality_suffix]"

definition dynamo_clear_deleted_data :: "('y, 'e, 'd) dynamo \<Rightarrow> (unit, ('y, 'e, 'd) dynamo) outcome" where
  "dynamo_clear_deleted_data s =
     bind_out (run_queries deleted_queries s, s) (\<lambda>soft_deleted_entries s.
       dynamo_write (map (\<lambda>it. DeleteItem (di_id it) (di_id it)) soft_deleted_entries) s)"

definition dynamo_get_ids :: "bool \<Rightarrow> ('y, 'e, 'd) dynamo \<Rightarrow> int list result option" where
  "dynamo_get_ids deleted s =
     (let P = (\<lambda>it. is_prefix ''questions#'' (di_id it) \<and>
                 (case di_deleted it of None \<Rightarrow> False | Some v \<Rightarrow> is_prefix (py_str_bool deleted @ ''_'') v))
      in map_option (\<lambda>pages. bind_res (reduce_lists pages) (map_res (\<lambda>it. int_of_text (remove_all ''questions#'' (di_pk it)))))
           (fetch_all_pages (\<lambda>k. dt_scan (dy_table s) P k (dy_db s)) None))"

text \<open>The scan runs over the index on \<open>deleted\<close>, which holds only the items with that attribute.\<close>

definition dynamo_count :: "int \<Rightarrow> bool \<Rightarrow> ('y, 'e, 'd) dynamo \<Rightarrow> int option" where
  "dynamo_count state is_all s =
     (let P = (\<lambda>it. is_prefix ''questions#'' (di_id it) \<and>
                 (case di_deleted it of
                    None \<Rightarrow> False
                  | Some v \<Rightarrow> is_all \<or> is_prefix (if state = 0 then ''False_'' else ''True_'') v))
      in map_option (\<lambda>pages. sum_list (map (\<lambda>p. int (length p)) pages))
           (fetch_all_pages (\<lambda>k. dt_scan (dy_table s) P k (dy_db s)) None))"

definition dynamo_add_session ::
  "string \<Rightarrow> string \<Rightarrow> string \<Rightarrow> ('y, 'e, 'd) dynamo \<Rightarrow> (unit, ('y, 'e, 'd) dynamo) outcome" where
  "dynamo_add_session question_id session_id session_question s =
     (Inr (), s\<lparr>dy_db := dt_put (dy_table s) ((bare_item (question_key question_id) (session_item_id session_id))
        \<lparr>di_question := Some session_question\<rparr>) (dy_db s)\<rparr>)"

text \<open>The result are the keys of session items, with the prefix \<open>sessions#\<close>: only \<open>questions#\<close> is removed.\<close>

definition dynamo_list_sessions ::
  "string option \<Rightarrow> string option \<Rightarrow> ('y, 'e, 'd) dynamo \<Rightarrow> string list result option" where
  "dynamo_list_sessions session_id key s =
     (let T = dy_table s;
          given = (\<lambda>x. x \<noteq> None \<and> x \<noteq> Some []);
          items =
            (if given session_id \<and> given key
             then Some (Inr (dt_query T (ByItemIdOf (session_item_id (the session_id)) (question_key (the key))) (dy_db s)))
             else if given session_id then Some (Inr (dt_query T (ByItemId (session_item_id (the session_id))) (dy_db s)))
             else if given key then Some (Inr (dt_query T (ByKey (question_key (the key)) ''sessions#'') (dy_db s)))
             else map_option reduce_lists
                    (fetch_all_pages (\<lambda>k. dt_scan T (\<lambda>it. is_prefix ''sessions#'' (di_id it)) k (dy_db s)) None))
      in map_option (\<lambda>r. bind_res r (\<lambda>its. Inr (dy_dedupe s ((\<lambda>it. remove_all ''questions#'' (di_id it)) ` set its)))) items)"

definition dynamo_delete_session :: "string list \<Rightarrow> ('y, 'e, 'd) dynamo \<Rightarrow> (unit, ('y, 'e, 'd) dynamo) outcome" where
  "dynamo_delete_session keys s =
     bind_out (run_queries (map (\<lambda>k. ByItemId (session_item_id k)) keys) s, s) (\<lambda>all_relevant_items s.
       dynamo_write (map (\<lambda>it. DeleteItem (di_pk it) (di_id it)) all_relevant_items) s)"

definition dynamo_report_cache :: "report_entry \<Rightarrow> ('y, 'e, 'd) dynamo \<Rightarrow> (unit, ('y, 'e, 'd) dynamo) outcome" where
  "dynamo_report_cache entry s0 =
     (let (i, s) = generate_id s0
      in (Inr (), s\<lparr>dy_db := dt_report (dy_table s) (py_str_int i) entry (dy_db s)\<rparr>))"

section \<open>Numbers in keys\<close>

lemma remove_question_prefix: "0 \<le> n \<Longrightarrow> remove_all ''questions#'' (question_key (py_str_int n)) = py_str_int n"
proof -
  assume n: "0 \<le> n"
  have "(of_char (CHR ''q'') :: nat) = 113" by simp
  then have "CHR ''q'' \<notin> set (py_str_int n)" using n digits_chars[of "CHR ''q''" "nat n"] by (auto simp: py_str_int_def)
  from split_on_plain[OF refl this, of "''uestions#''" "[]"]
  show ?thesis by (simp add: remove_all_def question_key_def) (subst split_on.simps, simp)
qed

section \<open>What DynamoDB documents\<close>

text \<open>\<open>pages_from f k ps\<close>: starting at the key \<open>k\<close> the scan \<open>f\<close> gives the pages \<open>ps\<close>, one after the other.\<close>

fun pages_from :: "(dyn_key option \<Rightarrow> 'i list \<times> dyn_key option) \<Rightarrow> dyn_key option \<Rightarrow> 'i list list \<Rightarrow> bool" where
  "pages_from f k [] = False"
| "pages_from f k [p] = (f k = (p, None))"
| "pages_from f k (p # q # ps) = (\<exists>k'. f k = (p, Some k') \<and> pages_from f (Some k') (q # ps))"

lemma fetch_all_pages_run: "pages_from f k ps \<Longrightarrow> fetch_all_pages f k = Some ps"
proof (induction f k ps rule: pages_from.induct)
  case (2 f k p)
  then show ?case by (subst fetch_all_pages.simps) simp
next
  case (3 f k p q ps)
  then show ?case by (subst fetch_all_pages.simps) auto
qed simp

fun write_key :: "'y dyn_write \<Rightarrow> dyn_key" where
  "write_key (PutItem it) = (di_pk it, di_id it)"
| "write_key (DeleteItem pk i) = (pk, i)"

fun write_item :: "'y dyn_write \<Rightarrow> 'y dyn_item option" where
  "write_item (PutItem it) = Some it"
| "write_item (DeleteItem pk i) = None"

text \<open>
  The table is a map from pairs of keys to items; a batch must name each item once; the answer to a query
  fits on one page; a scan ends. The code reads the first page of a query only, and DynamoDB ends a page at 1 MB, so
  the clause on queries limits what is said to entries and sessions of that size; scans have any number of pages.
\<close>

definition dyn_contract :: "('y, 'd) dyn_table \<Rightarrow> bool" where
  "dyn_contract T \<longleftrightarrow>
     (\<forall>pk i d it. dt_get T pk i d = Some it \<longrightarrow> di_pk it = pk \<and> di_id it = i) \<and>
     (\<forall>it d pk i. dt_get T pk i (dt_put T it d) = (if (pk, i) = (di_pk it, di_id it) then Some it else dt_get T pk i d)) \<and>
     (\<forall>pk' i' t d pk i. dt_get T pk' i' d \<noteq> None \<longrightarrow> dt_get T pk i (dt_set_access T pk' i' t d) =
        (if (pk, i) = (pk', i') then map_option (\<lambda>it. it\<lparr>di_last_access := Some t\<rparr>) (dt_get T pk i d) else dt_get T pk i d)) \<and>
     (\<forall>ws d. distinct (map write_key ws) \<longrightarrow> (\<exists>d'. dt_batch T ws d = (Inr (), d') \<and>
        (\<forall>pk i. dt_get T pk i d' = (case map_of (map (\<lambda>w. (write_key w, write_item w)) ws) (pk, i) of
           None \<Rightarrow> dt_get T pk i d | Some x \<Rightarrow> x)))) \<and>
     (\<forall>q d. distinct (dt_query T q d) \<and> set (dt_query T q d) = {it. dt_get T (di_pk it) (di_id it) d = Some it \<and> matches q it}) \<and>
     (\<forall>P d. \<exists>ps. pages_from (\<lambda>k. dt_scan T P k d) None ps \<and> distinct (concat ps) \<and>
        set (concat ps) = {it. dt_get T (di_pk it) (di_id it) d = Some it \<and> P it})"

lemma dyn_contractD:
  assumes "dyn_contract T"
  shows "dt_get T pk i d = Some it \<Longrightarrow> di_pk it = pk \<and> di_id it = i"
    and "dt_get T pk i (dt_put T it' d) = (if (pk, i) = (di_pk it', di_id it') then Some it' else dt_get T pk i d)"
    and "distinct (map write_key ws) \<Longrightarrow> \<exists>d'. dt_batch T ws d = (Inr (), d') \<and>
        (\<forall>pk i. dt_get T pk i d' = (case map_of (map (\<lambda>w. (write_key w, write_item w)) ws) (pk, i) of
           None \<Rightarrow> dt_get T pk i d | Some x \<Rightarrow> x))"
    and "distinct (dt_query T q d)" "set (dt_query T q d) = {it. dt_get T (di_pk it) (di_id it) d = Some it \<and> matches q it}"
    and "\<exists>ps. pages_from (\<lambda>k. dt_scan T P k d) None ps \<and> distinct (concat ps) \<and>
        set (concat ps) = {it. dt_get T (di_pk it) (di_id it) d = Some it \<and> P it}"
  using assms by (simp_all add: dyn_contract_def)

definition dyn_stored :: "('y, 'e, 'd) dynamo \<Rightarrow> 'y dyn_item set" where
  "dyn_stored s = {it. dt_get (dy_table s) (di_pk it) (di_id it) (dy_db s) = Some it}"

text \<open>The invariant: question items have the same decimal key twice, and only they have a mark.\<close>

definition dyn_inv :: "('y, 'e, 'd) dynamo \<Rightarrow> bool" where
  "dyn_inv s \<longleftrightarrow> dyn_contract (dy_table s) \<and>
     (\<forall>it \<in> dyn_stored s. is_prefix ''questions#'' (di_id it) \<longrightarrow>
        (\<exists>n \<ge> 0. di_pk it = question_key (py_str_int n) \<and> di_id it = di_pk it)) \<and>
     (\<forall>it \<in> dyn_stored s. di_deleted it \<noteq> None \<longrightarrow> is_prefix ''questions#'' (di_id it))"

lemma dyn_inv_question:
  assumes "dyn_inv s" "it \<in> dyn_stored s" "is_prefix ''questions#'' (di_id it)"
  obtains n where "0 \<le> n" "di_pk it = question_key (py_str_int n)" "di_id it = di_pk it"
  using assms by (auto simp: dyn_inv_def)

section \<open>Listing the ids\<close>

lemma map_res_all: "(\<And>x. x \<in> set xs \<Longrightarrow> f x = Inr (g x)) \<Longrightarrow> map_res f xs = Inr (map g xs)"
  by (induction xs) simp_all

lemma item_eqI: "it \<in> dyn_stored s \<Longrightarrow> it' \<in> dyn_stored s \<Longrightarrow> di_pk it = di_pk it' \<Longrightarrow> di_id it = di_id it' \<Longrightarrow> it = it'"
  by (auto simp: dyn_stored_def)

section \<open>Deleting\<close>

lemma distinct_concat_map:
  assumes "distinct is" "\<And>i. i \<in> set is \<Longrightarrow> distinct (f i)"
    "\<And>i j. i \<in> set is \<Longrightarrow> j \<in> set is \<Longrightarrow> i \<noteq> j \<Longrightarrow> set (f i) \<inter> set (f j) = {}"
  shows "distinct (concat (map f is))"
  using assms
proof (induction "is")
  case (Cons i "is")
  have "set (f i) \<inter> set (f j) = {}" if "j \<in> set is" for j using Cons.prems(1,3) that by (metis distinct.simps(2) list.set_intros)
  then show ?case using Cons by auto
qed simp

lemma deleted_queries_nth: "i < 10 \<Longrightarrow> deleted_queries ! i = ByDeleted (''True_'' @ py_str_int (int i + 1))"
  by (simp add: deleted_queries_def max_cardinality_suffix_def nth_upto add.commute)

lemma deleted_queries_length: "length deleted_queries = 10"
  by (simp add: deleted_queries_def max_cardinality_suffix_def)

lemma question_not_session: "question_key a \<noteq> session_item_id b"
  by (simp add: question_key_def session_item_id_def)

lemma dynamo_mark_one:
  assumes T: "dyn_contract (dy_table s)"
  obtains d where "dynamo_mark_deleted [k] s = (Inr (), s\<lparr>dy_db := d\<rparr>)"
    "\<And>pk i. dt_get (dy_table s) pk i d =
       (if (pk, i) = (question_key k, question_key k)
        then Some ((bare_item (question_key k) (question_key k))\<lparr>di_deleted := Some (serialize_deleted_value s True)\<rparr>)
        else dt_get (dy_table s) pk i (dy_db s))"
proof -
  let ?w = "PutItem ((bare_item (question_key k) (question_key k))\<lparr>di_deleted := Some (serialize_deleted_value s True)\<rparr>)"
  from dyn_contractD(3)[OF T, of "[?w]" "dy_db s"] obtain d where d: "dt_batch (dy_table s) [?w] (dy_db s) = (Inr (), d)"
    "\<And>pk i. dt_get (dy_table s) pk i d = (case map_of (map (\<lambda>w. (write_key w, write_item w)) [?w]) (pk, i) of
       None \<Rightarrow> dt_get (dy_table s) pk i (dy_db s) | Some x \<Rightarrow> x)" by auto
  show thesis by (rule that[of d]) (simp_all add: dynamo_mark_deleted_def dynamo_write_def d)
qed

text \<open>Removing what the queries for the ten suffixes find; the items found have the same key twice.\<close>

lemma dynamo_clear_run:
  assumes T: "dyn_contract (dy_table s)" and wait: "distinct (dy_wait s 10)" "set (dy_wait s 10) = {..<10}"
    and keys: "\<And>it. it \<in> dyn_stored s \<Longrightarrow> di_deleted it \<noteq> None \<Longrightarrow> di_pk it = di_id it"
  obtains d where "dynamo_clear_deleted_data s = (Inr (), s\<lparr>dy_db := d\<rparr>)"
    "\<And>pk i. dt_get (dy_table s) pk i d =
       (if pk = i \<and> (\<exists>it j. it \<in> dyn_stored s \<and> di_id it = i \<and> 1 \<le> j \<and> j \<le> 10 \<and> di_deleted it = Some (''True_'' @ py_str_int j))
        then None else dt_get (dy_table s) pk i (dy_db s))"
proof -
  define E where "E = concat (map (\<lambda>i. dt_query (dy_table s) (deleted_queries ! i) (dy_db s)) (dy_wait s 10))"
  have ask: "set (dt_query (dy_table s) (deleted_queries ! i) (dy_db s)) =
      {it \<in> dyn_stored s. di_deleted it = Some (''True_'' @ py_str_int (int i + 1))}" if "i < 10" for i
    using that by (simp add: dyn_contractD(5)[OF T] deleted_queries_nth dyn_stored_def)
  have E: "set E = {it \<in> dyn_stored s. \<exists>j. 1 \<le> j \<and> j \<le> 10 \<and> di_deleted it = Some (''True_'' @ py_str_int j)}"
  proof (rule set_eqI)
    fix it
    have "it \<in> set E \<longleftrightarrow> (\<exists>i < 10. it \<in> set (dt_query (dy_table s) (deleted_queries ! i) (dy_db s)))"
      by (auto simp: E_def wait(2))
    also have "\<dots> \<longleftrightarrow> it \<in> dyn_stored s \<and> (\<exists>i < (10::nat). di_deleted it = Some (''True_'' @ py_str_int (int i + 1)))"
      using ask by auto
    also have "(\<exists>i < (10::nat). di_deleted it = Some (''True_'' @ py_str_int (int i + 1))) \<longleftrightarrow>
        (\<exists>j. 1 \<le> j \<and> j \<le> 10 \<and> di_deleted it = Some (''True_'' @ py_str_int j))"
    proof
      assume "\<exists>j. 1 \<le> j \<and> j \<le> 10 \<and> di_deleted it = Some (''True_'' @ py_str_int j)"
      then obtain j where "1 \<le> j" "j \<le> 10" "di_deleted it = Some (''True_'' @ py_str_int j)" by blast
      then show "\<exists>i < (10::nat). di_deleted it = Some (''True_'' @ py_str_int (int i + 1))"
        by (intro exI[of _ "nat (j - 1)"]) simp
    next
      assume "\<exists>i < (10::nat). di_deleted it = Some (''True_'' @ py_str_int (int i + 1))"
      then obtain i :: nat where "i < 10" "di_deleted it = Some (''True_'' @ py_str_int (int i + 1))" by blast
      then show "\<exists>j. 1 \<le> j \<and> j \<le> 10 \<and> di_deleted it = Some (''True_'' @ py_str_int j)"
        by (intro exI[of _ "int i + 1"]) simp
    qed
    finally show "it \<in> set E \<longleftrightarrow> it \<in> {it \<in> dyn_stored s. \<exists>j. 1 \<le> j \<and> j \<le> 10 \<and> di_deleted it = Some (''True_'' @ py_str_int j)}"
      by simp
  qed
  have dist: "distinct E"
    unfolding E_def
  proof (rule distinct_concat_map[OF wait(1)])
    fix i j assume "i \<in> set (dy_wait s 10)" "j \<in> set (dy_wait s 10)" "i \<noteq> j"
    then show "set (dt_query (dy_table s) (deleted_queries ! i) (dy_db s)) \<inter>
        set (dt_query (dy_table s) (deleted_queries ! j) (dy_db s)) = {}"
      using py_str_int_inj[of "int i + 1" "int j + 1"] by (auto simp: wait(2) ask)
  qed (rule dyn_contractD(4)[OF T])
  have "inj_on di_id (set E)"
  proof (rule inj_onI)
    fix a b assume "a \<in> set E" "b \<in> set E" "di_id a = di_id b"
    then have st: "a \<in> dyn_stored s" "b \<in> dyn_stored s" "di_deleted a \<noteq> None" "di_deleted b \<noteq> None"
      unfolding E by auto
    then have "di_pk a = di_pk b" using keys[of a] keys[of b] \<open>di_id a = di_id b\<close> by simp
    with st \<open>di_id a = di_id b\<close> show "a = b" by (metis item_eqI)
  qed
  let ?ws = "map (\<lambda>it. DeleteItem (di_id it) (di_id it)) E :: 'a dyn_write list"
  have "distinct (map di_id E)" using dist \<open>inj_on di_id (set E)\<close> by (simp add: distinct_map)
  then have "distinct (map write_key ?ws)" by (simp add: distinct_map inj_on_def)
  from dyn_contractD(3)[OF T this, of "dy_db s"] obtain d where d: "dt_batch (dy_table s) ?ws (dy_db s) = (Inr (), d)"
    "\<And>pk i. dt_get (dy_table s) pk i d = (case map_of (map (\<lambda>w. (write_key w, write_item w)) ?ws) (pk, i) of
       None \<Rightarrow> dt_get (dy_table s) pk i (dy_db s) | Some x \<Rightarrow> x)" by blast
  have mo: "map_of (map (\<lambda>w. (write_key w, write_item w)) ?ws) (pk, i) =
      (if pk = i \<and> i \<in> di_id ` set E then Some None else None)" for pk i
  proof -
    have "map_of (map (\<lambda>w. (write_key w, write_item w)) (map (\<lambda>it. DeleteItem (di_id it) (di_id it)) xs)) (pk, i) =
        (if pk = i \<and> i \<in> di_id ` set xs then Some None else None)" for xs :: "'a dyn_item list"
      by (induction xs) auto
    then show ?thesis .
  qed
  have "0 \<in> set (dy_wait s 10)" by (simp only: wait(2)) simp
  then have "dy_wait s 10 \<noteq> []" by (metis empty_iff empty_set)
  then have "run_queries deleted_queries s = Inr E"
    by (simp add: run_queries_def reduce_lists_def E_def deleted_queries_length)
  then have "dynamo_clear_deleted_data s = (Inr (), s\<lparr>dy_db := d\<rparr>)"
    by (simp add: dynamo_clear_deleted_data_def dynamo_write_def d(1))
  moreover have "dt_get (dy_table s) pk i d =
       (if pk = i \<and> (\<exists>it j. it \<in> dyn_stored s \<and> di_id it = i \<and> 1 \<le> j \<and> j \<le> 10 \<and> di_deleted it = Some (''True_'' @ py_str_int j))
        then None else dt_get (dy_table s) pk i (dy_db s))" for pk i
    unfolding d(2) mo E by auto
  ultimately show thesis by (rule that)
qed

section \<open>A table that meets the contract\<close>

definition list_find :: "string \<Rightarrow> string \<Rightarrow> 'y dyn_item list \<Rightarrow> 'y dyn_item option" where
  "list_find pk i d = find (\<lambda>it. di_pk it = pk \<and> di_id it = i) d"

definition list_held :: "'y dyn_item list \<Rightarrow> ('y dyn_item \<Rightarrow> bool) \<Rightarrow> 'y dyn_item list" where
  "list_held d P = remdups (filter (\<lambda>it. list_find (di_pk it) (di_id it) d = Some it \<and> P it) d)"

fun list_write :: "'y dyn_write \<Rightarrow> 'y dyn_item list \<Rightarrow> 'y dyn_item list" where
  "list_write (PutItem it) d = it # d"
| "list_write (DeleteItem pk i) d = filter (\<lambda>it. \<not> (di_pk it = pk \<and> di_id it = i)) d"

definition list_dyn :: "('y, 'y dyn_item list) dyn_table" where
  "list_dyn = \<lparr>dt_get = list_find, dt_put = (#),
     dt_set_access = (\<lambda>pk i t d. case list_find pk i d of None \<Rightarrow> d | Some it \<Rightarrow> it\<lparr>di_last_access := Some t\<rparr> # d),
     dt_batch = (\<lambda>ws d. if distinct (map write_key ws) then (Inr (), fold list_write ws d) else (Inl LibraryError, d)),
     dt_query = (\<lambda>q d. list_held d (matches q)), dt_scan = (\<lambda>P k d. (list_held d P, None)),
     dt_report = (\<lambda>i e d. d)\<rparr>"

lemma list_dyn_get [simp]: "dt_get list_dyn = list_find"
  by (simp add: list_dyn_def)

lemma list_find_keys: "list_find pk i d = Some it \<Longrightarrow> di_pk it = pk \<and> di_id it = i \<and> it \<in> set d"
  by (auto simp: list_find_def find_Some_iff)

lemma list_find_write:
  "list_find pk i (list_write w d) = (if write_key w = (pk, i) then write_item w else list_find pk i d)"
proof (cases w)
  case (DeleteItem pk' i')
  have "find (\<lambda>it. di_pk it = pk \<and> di_id it = i) (filter (\<lambda>it. \<not> (di_pk it = pk' \<and> di_id it = i')) d) =
      (if (pk', i') = (pk, i) then None else find (\<lambda>it. di_pk it = pk \<and> di_id it = i) d)"
    by (induction d) auto
  with DeleteItem show ?thesis by (simp add: list_find_def)
qed (auto simp: list_find_def)

lemma list_find_writes:
  assumes "distinct (map write_key ws)"
  shows "list_find pk i (fold list_write ws d) = (case map_of (map (\<lambda>w. (write_key w, write_item w)) ws) (pk, i) of
     None \<Rightarrow> list_find pk i d | Some x \<Rightarrow> x)"
  using assms
proof (induction ws arbitrary: d)
  case (Cons w ws)
  have "write_key w = (pk, i) \<Longrightarrow> map_of (map (\<lambda>w. (write_key w, write_item w)) ws) (pk, i) = None"
    using Cons.prems by (force simp: map_of_eq_None_iff)
  with Cons show ?case by (auto simp: list_find_write split: option.split)
qed simp

lemma list_held_set: "distinct (list_held d P)" "set (list_held d P) = {it. list_find (di_pk it) (di_id it) d = Some it \<and> P it}"
  using list_find_keys by (auto simp: list_held_def)

lemma list_dyn_contract: "dyn_contract list_dyn"
proof -
  have "\<forall>pk i d it. dt_get list_dyn pk i d = Some it \<longrightarrow> di_pk it = pk \<and> di_id it = i"
    by (auto simp: list_dyn_def dest: list_find_keys)
  moreover have "\<forall>it d pk i. dt_get list_dyn pk i (dt_put list_dyn it d) =
      (if (pk, i) = (di_pk it, di_id it) then Some it else dt_get list_dyn pk i d)"
    by (auto simp: list_dyn_def list_find_def)
  moreover have "\<forall>pk' i' t d pk i. dt_get list_dyn pk' i' d \<noteq> None \<longrightarrow> dt_get list_dyn pk i (dt_set_access list_dyn pk' i' t d) =
        (if (pk, i) = (pk', i') then map_option (\<lambda>it. it\<lparr>di_last_access := Some t\<rparr>) (dt_get list_dyn pk i d) else dt_get list_dyn pk i d)"
  proof (intro allI impI)
    fix pk' i' t d pk i assume "dt_get (list_dyn :: ('b, 'b dyn_item list) dyn_table) pk' i' d \<noteq> None"
    then obtain it where it: "list_find pk' i' d = Some it" by (auto simp: list_dyn_def)
    with list_find_keys[OF it] show "dt_get list_dyn pk i (dt_set_access list_dyn pk' i' t d) =
        (if (pk, i) = (pk', i') then map_option (\<lambda>it. it\<lparr>di_last_access := Some t\<rparr>) (dt_get list_dyn pk i d) else dt_get list_dyn pk i d)"
      by (auto simp: list_dyn_def list_find_def)
  qed
  moreover have "\<forall>ws d. distinct (map write_key ws) \<longrightarrow> (\<exists>d'. dt_batch list_dyn ws d = (Inr (), d') \<and>
        (\<forall>pk i. dt_get list_dyn pk i d' = (case map_of (map (\<lambda>w. (write_key w, write_item w)) ws) (pk, i) of
           None \<Rightarrow> dt_get list_dyn pk i d | Some x \<Rightarrow> x)))"
  proof (intro allI impI exI conjI)
    fix ws :: "'b dyn_write list" and d :: "'b dyn_item list" and pk i assume "distinct (map write_key ws)"
    then show "dt_batch list_dyn ws d = (Inr (), fold list_write ws d)"
      "dt_get list_dyn pk i (fold list_write ws d) = (case map_of (map (\<lambda>w. (write_key w, write_item w)) ws) (pk, i) of
         None \<Rightarrow> dt_get list_dyn pk i d | Some x \<Rightarrow> x)"
      by (simp add: list_dyn_def, simp only: list_dyn_get list_find_writes)
  qed
  moreover have "\<forall>q d. distinct (dt_query list_dyn q d) \<and>
      set (dt_query list_dyn q d) = {it. dt_get list_dyn (di_pk it) (di_id it) d = Some it \<and> matches q it}"
    by (simp add: list_dyn_def list_held_set)
  moreover have "\<forall>P d. \<exists>ps. pages_from (\<lambda>k. dt_scan list_dyn P k d) None ps \<and> distinct (concat ps) \<and>
        set (concat ps) = {it. dt_get list_dyn (di_pk it) (di_id it) d = Some it \<and> P it}"
  proof (intro allI)
    fix P and d :: "'b dyn_item list"
    show "\<exists>ps. pages_from (\<lambda>k. dt_scan list_dyn P k d) None ps \<and> distinct (concat ps) \<and>
        set (concat ps) = {it. dt_get list_dyn (di_pk it) (di_id it) d = Some it \<and> P it}"
      by (rule exI[of _ "[list_held d P]"]) (simp add: list_dyn_def list_held_set)
  qed
  ultimately show ?thesis unfolding dyn_contract_def by (intro conjI)
qed

definition sample_item :: "nat dyn_item" where
  "sample_item = (bare_item (question_key ''7'') (question_key ''7''))\<lparr>di_question := Some ''q'',
     di_answers := Some [(Text ''a'', 0)], di_create_on := Some 0, di_embedding := Some 1, di_deleted := Some ''False_3''\<rparr>"

definition sample_session :: "nat dyn_item" where
  "sample_session = (bare_item (question_key ''7'') (session_item_id ''u''))\<lparr>di_question := Some ''q''\<rparr>"

definition dynamo_one :: "(nat, nat, nat dyn_item list) dynamo" where
  "dynamo_one = \<lparr>dy_table = list_dyn, dy_rand = (\<lambda>t. int t + 1), dy_suffix = 3, dy_now = int, dy_tobytes = (\<lambda>e. e),
     dy_frombuffer = (\<lambda>y. y), dy_answer_value = (\<lambda>a. Inr (ans_type a)), dy_format = (\<lambda>_. []), dy_wait = (\<lambda>n. [0..<n]),
     dy_dedupe = (\<lambda>X. sorted_list_of_set X), dy_ticks = 0, dy_db = [sample_item, sample_session]\<rparr>"

lemma digits_7: "py_str_int 7 = ''7''"
  by code_simp

lemma sample_items [simp]:
  "di_pk sample_item = question_key ''7''" "di_id sample_item = question_key ''7''"
  "di_pk sample_session = question_key ''7''" "di_id sample_session = session_item_id ''u''"
  "di_deleted sample_item = Some ''False_3''" "di_deleted sample_session = None"
  by (simp_all add: sample_item_def sample_session_def bare_item_def)

lemma sample_find:
  "list_find pk i [sample_item, sample_session] =
     (if (pk, i) = (question_key ''7'', question_key ''7'') then Some sample_item
      else if (pk, i) = (question_key ''7'', session_item_id ''u'') then Some sample_session else None)"
  by (auto simp: list_find_def)

lemma dynamo_one_stored: "dyn_stored dynamo_one = {sample_item, sample_session}"
proof -
  have "dyn_stored dynamo_one = {it. list_find (di_pk it) (di_id it) [sample_item, sample_session] = Some it}"
    by (simp add: dyn_stored_def dynamo_one_def)
  moreover have "list_find pk i [sample_item, sample_session] = Some it \<longleftrightarrow>
      (pk, i) = (question_key ''7'', question_key ''7'') \<and> it = sample_item \<or>
      (pk, i) = (question_key ''7'', session_item_id ''u'') \<and> it = sample_session" for pk i it
    using question_not_session[of "''7''" "''u''"]
    by (simp only: sample_find) (metis option.inject option.distinct(1) prod.inject)
  ultimately show ?thesis by force
qed

lemma dynamo_one_inv: "dyn_inv dynamo_one"
proof -
  have "\<not> is_prefix ''questions#'' (session_item_id ''u'')" by (simp add: session_item_id_def)
  moreover have "\<exists>n \<ge> 0. question_key ''7'' = question_key (py_str_int n)" by (intro exI[of _ 7]) (simp add: digits_7)
  ultimately show ?thesis
    by (simp add: dyn_inv_def dynamo_one_stored) (simp add: dynamo_one_def list_dyn_contract question_key_def)
qed

section \<open>Properties\<close>

text \<open>
  C29. \<open>get_ids\<close> of the DynamoDB storage returns, however many pages the scan takes: it joins the pages and gives
  back, once each, exactly the numbers under which a question with the asked mark is stored.
\<close>

theorem dynamo_ids_listed:
  assumes inv: "dyn_inv s"
  shows "\<exists>ids. dynamo_get_ids deleted s = Some (Inr ids) \<and> distinct ids \<and>
    set ids = {n. 0 \<le> n \<and> (\<exists>it v. dt_get (dy_table s) (question_key (py_str_int n)) (question_key (py_str_int n)) (dy_db s) = Some it \<and>
      di_deleted it = Some v \<and> is_prefix (py_str_bool deleted @ ''_'') v)}"
proof -
  have T: "dyn_contract (dy_table s)" using inv by (simp add: dyn_inv_def)
  define P where "P = (\<lambda>it::'a dyn_item. is_prefix ''questions#'' (di_id it) \<and>
    (case di_deleted it of None \<Rightarrow> False | Some v \<Rightarrow> is_prefix (py_str_bool deleted @ ''_'') v))"
  obtain ps items where ps: "pages_from (\<lambda>k. dt_scan (dy_table s) P k (dy_db s)) None ps" "distinct items"
    "set items = {it \<in> dyn_stored s. P it}" and items: "items = concat ps"
    using dyn_contractD(6)[OF T, of P "dy_db s"] unfolding dyn_stored_def by blast
  define num where "num = (\<lambda>it::'a dyn_item. case int_of_text (remove_all ''questions#'' (di_pk it)) of Inr n \<Rightarrow> n | Inl e \<Rightarrow> 0)"
  have num: "\<exists>n \<ge> 0. di_pk it = question_key (py_str_int n) \<and> di_id it = di_pk it \<and>
      int_of_text (remove_all ''questions#'' (di_pk it)) = Inr n \<and> num it = n" if "it \<in> set items" for it
  proof -
    from that have "it \<in> dyn_stored s" "is_prefix ''questions#'' (di_id it)" by (auto simp: ps(3) P_def)
    then obtain n where n: "0 \<le> n" "di_pk it = question_key (py_str_int n)" "di_id it = di_pk it"
      by (rule dyn_inv_question[OF inv])
    then have "int_of_text (remove_all ''questions#'' (di_pk it)) = Inr n" by (simp add: remove_question_prefix int_of_text_str)
    with n show ?thesis by (auto simp: num_def)
  qed
  have "ps \<noteq> []" using ps(1) by auto
  then have "dynamo_get_ids deleted s =
      Some (map_res (\<lambda>it. int_of_text (remove_all ''questions#'' (di_pk it))) items)"
    using fetch_all_pages_run[OF ps(1)] by (simp add: dynamo_get_ids_def P_def[symmetric] reduce_lists_def items)
  moreover have "map_res (\<lambda>it. int_of_text (remove_all ''questions#'' (di_pk it))) items = Inr (map num items)"
    by (rule map_res_all) (use num in blast)
  moreover have "inj_on num (set items)"
  proof (rule inj_onI)
    fix a b assume ab: "a \<in> set items" "b \<in> set items" "num a = num b"
    with num[OF ab(1)] num[OF ab(2)] have "di_pk a = di_pk b" "di_id a = di_id b" by auto
    moreover have "a \<in> dyn_stored s" "b \<in> dyn_stored s" using ab(1,2) by (simp_all add: ps(3))
    ultimately show "a = b" by (rule item_eqI[rotated 2])
  qed
  then have "distinct (map num items)" using ps(2) by (simp add: distinct_map)
  moreover have "set (map num items) = {n. 0 \<le> n \<and> (\<exists>it v. dt_get (dy_table s) (question_key (py_str_int n)) (question_key (py_str_int n)) (dy_db s) = Some it \<and>
      di_deleted it = Some v \<and> is_prefix (py_str_bool deleted @ ''_'') v)}" (is "_ = ?R")
  proof (rule equalityI)
    show "set (map num items) \<subseteq> ?R"
    proof (rule subsetI)
      fix n assume "n \<in> set (map num items)"
      then obtain it where it: "it \<in> set items" "num it = n" by auto
      then have "it \<in> dyn_stored s" "P it" by (simp_all add: ps(3))
      with num[OF it(1)] it(2) show "n \<in> ?R" by (auto simp: dyn_stored_def P_def split: option.splits)
    qed
    show "?R \<subseteq> set (map num items)"
    proof (rule subsetI)
      fix n assume "n \<in> ?R"
      then obtain it v where n: "0 \<le> n" and it: "dt_get (dy_table s) (question_key (py_str_int n)) (question_key (py_str_int n)) (dy_db s) = Some it"
        and v: "di_deleted it = Some v" "is_prefix (py_str_bool deleted @ ''_'') v" by blast
      have keys: "di_pk it = question_key (py_str_int n)" "di_id it = question_key (py_str_int n)"
        using dyn_contractD(1)[OF T it] by simp_all
      then have "it \<in> set items" using it v by (simp add: ps(3) dyn_stored_def P_def question_key_def)
      moreover from num[OF this] keys(1) have "num it = n"
        using remove_question_prefix[OF n] int_of_text_str[OF n] by auto
      ultimately show "n \<in> set (map num items)" by force
    qed
  qed
  ultimately show ?thesis by (intro exI[of _ "map num items"] conjI) (simp_all only:)
qed

theorem dynamo_ids_listed_witness:
  "\<exists>ids. dynamo_get_ids False dynamo_one = Some (Inr ids) \<and> 7 \<in> set ids"
proof -
  have "dt_get (dy_table dynamo_one) (question_key (py_str_int 7)) (question_key (py_str_int 7)) (dy_db dynamo_one) = Some sample_item"
    unfolding digits_7 by (simp add: dynamo_one_def list_dyn_def list_find_def)
  with dynamo_ids_listed[OF dynamo_one_inv, of False] show ?thesis
    by (fastforce simp: py_str_bool_def)
qed

text \<open>
  Removing an entry from the DynamoDB storage leaves its sessions behind. Marking replaces the item, so the entry
  is not served any more and its data is gone at once; clearing then removes the item, but not the items
  of its sessions, which \<open>list_sessions\<close> goes on listing under its key (with their prefix).
\<close>

theorem dynamo_sessions_survive_removal:
  assumes inv: "dyn_inv s" and n: "0 \<le> n" and key: "key = py_str_int n"
    and sess: "dt_get (dy_table s) (question_key key) (session_item_id name) (dy_db s) = Some x"
    and suffix: "1 \<le> dy_suffix s" "dy_suffix s \<le> max_cardinality_suffix"
    and wait: "distinct (dy_wait s 10)" "set (dy_wait s 10) = {..<10}"
    and dedupe: "\<And>X. finite X \<Longrightarrow> set (dy_dedupe s X) = X"
  shows "\<exists>s1 s2 names. dynamo_mark_deleted [key] s = (Inr (), s1) \<and> dynamo_get_data_by_id key s1 = (Inr None, s1) \<and>
    dynamo_clear_deleted_data s1 = (Inr (), s2) \<and>
    dt_get (dy_table s) (question_key key) (question_key key) (dy_db s2) = None \<and>
    dynamo_list_sessions None (Some key) s2 = Some (Inr names) \<and>
    remove_all ''questions#'' (session_item_id name) \<in> set names"
proof -
  have T: "dyn_contract (dy_table s)" using inv by (simp add: dyn_inv_def)
  obtain d1 where mark: "dynamo_mark_deleted [key] s = (Inr (), s\<lparr>dy_db := d1\<rparr>)"
    and d1: "\<And>pk i. dt_get (dy_table s) pk i d1 =
       (if (pk, i) = (question_key key, question_key key)
        then Some ((bare_item (question_key key) (question_key key))\<lparr>di_deleted := Some (serialize_deleted_value s True)\<rparr>)
        else dt_get (dy_table s) pk i (dy_db s))"
    by (rule dynamo_mark_one[OF T, of key]) blast
  let ?s1 = "s\<lparr>dy_db := d1\<rparr>"
  let ?m = "(bare_item (question_key key) (question_key key))\<lparr>di_deleted := Some (serialize_deleted_value s True)\<rparr>"
  have v: "serialize_deleted_value s True = ''True_'' @ py_str_int (dy_suffix s)"
    by (simp add: serialize_deleted_value_def py_str_bool_def)
  have get: "dynamo_get_data_by_id key ?s1 = (Inr None, ?s1)"
    by (simp add: dynamo_get_data_by_id_def Let_def d1 key_of_def deserialize_deleted_value_def v)
  have keys: "di_pk it = di_id it" if it: "it \<in> dyn_stored ?s1" "di_deleted it \<noteq> None" for it
  proof (cases "(di_pk it, di_id it) = (question_key key, question_key key)")
    case False
    with it have "it \<in> dyn_stored s" by (auto simp: dyn_stored_def d1 split: if_splits)
    moreover with inv it(2) have "is_prefix ''questions#'' (di_id it)" by (simp add: dyn_inv_def)
    ultimately show ?thesis by (metis dyn_inv_question[OF inv])
  qed simp
  have T1: "dyn_contract (dy_table ?s1)" "distinct (dy_wait ?s1 10)" "set (dy_wait ?s1 10) = {..<10}"
    using T wait by simp_all
  obtain d2 where clear: "dynamo_clear_deleted_data ?s1 = (Inr (), ?s1\<lparr>dy_db := d2\<rparr>)"
    and d2': "\<And>pk i. dt_get (dy_table ?s1) pk i d2 =
       (if pk = i \<and> (\<exists>it j. it \<in> dyn_stored ?s1 \<and> di_id it = i \<and> 1 \<le> j \<and> j \<le> 10 \<and> di_deleted it = Some (''True_'' @ py_str_int j))
        then None else dt_get (dy_table ?s1) pk i (dy_db ?s1))"
    by (rule dynamo_clear_run[OF T1 keys]) blast+
  have sel: "dy_table ?s1 = dy_table s" "dy_db ?s1 = d1" by simp_all
  have d2: "dt_get (dy_table s) pk i d2 =
       (if pk = i \<and> (\<exists>it j. it \<in> dyn_stored ?s1 \<and> di_id it = i \<and> 1 \<le> j \<and> j \<le> 10 \<and> di_deleted it = Some (''True_'' @ py_str_int j))
        then None else dt_get (dy_table s) pk i d1)" for pk i
    using d2'[of pk i] by (simp only: sel)
  have "?m \<in> dyn_stored ?s1" by (simp add: dyn_stored_def d1)
  moreover have "di_id ?m = question_key key" by simp
  moreover have "di_deleted ?m = Some (''True_'' @ py_str_int (dy_suffix s))" by (simp only: dyn_item.simps dyn_item.update_convs v) (simp add: bare_item_def)
  moreover have "dy_suffix s \<le> 10" using suffix(2) by (simp add: max_cardinality_suffix_def)
  ultimately have "\<exists>it j. it \<in> dyn_stored ?s1 \<and> di_id it = question_key key \<and> 1 \<le> j \<and> j \<le> 10 \<and>
      di_deleted it = Some (''True_'' @ py_str_int j)"
    using suffix(1) by blast
  then have gone: "dt_get (dy_table s) (question_key key) (question_key key) d2 = None"
    by (subst d2) (rule if_P, blast)
  have left: "dt_get (dy_table s) (question_key key) (session_item_id name) d2 = Some x"
    using d2[of "question_key key" "session_item_id name"] d1 sess question_not_session[of key name] by (simp add: eq_commute)
  have xk: "di_pk x = question_key key" "di_id x = session_item_id name" using dyn_contractD(1)[OF T sess] by auto
  have "key \<noteq> []" using n by (simp add: key py_str_int_def)
  then have list: "dynamo_list_sessions None (Some key) (?s1\<lparr>dy_db := d2\<rparr>) = Some (Inr (dy_dedupe s
      ((\<lambda>it. remove_all ''questions#'' (di_id it)) ` set (dt_query (dy_table s) (ByKey (question_key key) ''sessions#'') d2))))"
    by (simp add: dynamo_list_sessions_def Let_def)
  have "x \<in> set (dt_query (dy_table s) (ByKey (question_key key) ''sessions#'') d2)"
    using left xk by (simp add: dyn_contractD(5)[OF T] session_item_id_def)
  then have "remove_all ''questions#'' (session_item_id name) \<in>
      (\<lambda>it. remove_all ''questions#'' (di_id it)) ` set (dt_query (dy_table s) (ByKey (question_key key) ''sessions#'') d2)"
    using xk(2) by (metis imageI)
  with mark get clear gone list show ?thesis by (auto simp: dedupe)
qed

theorem dynamo_sessions_survive_removal_witness:
  "\<exists>s1 s2 names. dynamo_mark_deleted [''7''] dynamo_one = (Inr (), s1) \<and> dynamo_clear_deleted_data s1 = (Inr (), s2) \<and>
     dynamo_get_data_by_id ''7'' s1 = (Inr None, s1) \<and>
     dynamo_list_sessions None (Some ''7'') s2 = Some (Inr names) \<and> ''sessions#u'' \<in> set names"
proof -
  have "dt_get (dy_table dynamo_one) (question_key ''7'') (session_item_id ''u'') (dy_db dynamo_one) = Some sample_session"
    using question_not_session[of "''7''" "''u''"] by (simp add: dynamo_one_def list_dyn_def list_find_def)
  moreover have "1 \<le> dy_suffix dynamo_one" "dy_suffix dynamo_one \<le> max_cardinality_suffix" "distinct (dy_wait dynamo_one 10)"
    "set (dy_wait dynamo_one 10) = {..<10}" "finite X \<Longrightarrow> set (dy_dedupe dynamo_one X) = X" for X
    by (auto simp: dynamo_one_def max_cardinality_suffix_def)
  moreover have "remove_all ''questions#'' (session_item_id ''u'') = ''sessions#u''"
    by (simp add: remove_all_def session_item_id_def split_on_plain)
  ultimately show ?thesis
    using dynamo_sessions_survive_removal[OF dynamo_one_inv, of 7 "''7''" "''u''" sample_session] digits_7 by auto
qed

end
