(* ===== verification/Vector_Clients.thy ===== *)
theory Vector_Clients
  imports Vector_Data Py_Object
begin

text \<open>
  The vector stores of \<open>gptcache/manager/vector_data/\<close> that keep vectors under keys in a library's collection:
  \<open>chroma.py\<close>, \<open>docarray_index.py\<close>, \<open>milvus.py\<close>, \<open>pgvector.py\<close>, \<open>qdrant.py\<close>, \<open>redis_vectorstore.py\<close> and \<open>usearch.py\<close>.
  The collection is a parameter with the contract of a map from keys to vectors. One lemma shows that a store
  whose methods go through to the collection meets the interface \<open>vector_store\<close>; every store but \<open>USearch\<close> is an
  interpretation of it.
\<close>

section \<open>A collection of a library\<close>

text \<open>
  \<open>cl_put\<close> stores vectors, \<open>cl_query\<close> finds the nearest ones (distances and keys), \<open>cl_drop\<close> removes keys,
  \<open>cl_tidy\<close> is compaction or reindexing, \<open>cl_size\<close> the number of vectors; \<open>cl_get\<close> reads a vector, \<open>cl_set\<close> replaces
  the vector of a key.
\<close>

record ('k, 'v, 'i) client_lib =
  cl_get :: "'i \<Rightarrow> 'k \<Rightarrow> 'v option"
  cl_fits :: "'i \<Rightarrow> 'v \<Rightarrow> bool"
  cl_put :: "('k \<times> 'v) list \<Rightarrow> 'i \<Rightarrow> (unit, 'i) outcome"
  cl_set :: "'k \<Rightarrow> 'v \<Rightarrow> 'i \<Rightarrow> (unit, 'i) outcome"
  cl_query :: "'v \<Rightarrow> int \<Rightarrow> 'i \<Rightarrow> (real \<times> 'k) list result"
  cl_drop :: "'k list \<Rightarrow> 'i \<Rightarrow> (unit, 'i) outcome"
  cl_tidy :: "'i \<Rightarrow> 'i"
  cl_size :: "'i \<Rightarrow> nat"

text \<open>
  The contract: new keys with vectors of the right dimension are stored, keys that are there are removed, a query
  gives keys that are there. What the libraries do with keys that are there already (an error, a duplicate,
  an overwrite) differs and is left open.
\<close>

definition client_contract :: "('k, 'v, 'i) client_lib \<Rightarrow> bool" where
  "client_contract lib \<longleftrightarrow>
     (\<forall>ds i. distinct (map fst ds) \<longrightarrow> (\<forall>d \<in> set ds. cl_fits lib i (snd d) \<and> cl_get lib i (fst d) = None) \<longrightarrow>
        (\<exists>i'. cl_put lib ds i = (Inr (), i') \<and> cl_get lib i' = cl_get lib i ++ map_of ds \<and> cl_fits lib i' = cl_fits lib i)) \<and>
     (\<forall>k v i. cl_fits lib i v \<longrightarrow> cl_get lib i k \<noteq> None \<longrightarrow>
        (\<exists>i'. cl_set lib k v i = (Inr (), i') \<and> cl_get lib i' = (cl_get lib i)(k \<mapsto> v) \<and> cl_fits lib i' = cl_fits lib i)) \<and>
     (\<forall>e k i hits. cl_query lib e k i = Inr hits \<longrightarrow> (\<forall>h \<in> set hits. cl_get lib i (snd h) \<noteq> None)) \<and>
     (\<forall>ks i. distinct ks \<longrightarrow> (\<forall>k \<in> set ks. cl_get lib i k \<noteq> None) \<longrightarrow>
        (\<exists>i'. cl_drop lib ks i = (Inr (), i') \<and> cl_get lib i' = cl_get lib i |` (- set ks) \<and> cl_fits lib i' = cl_fits lib i)) \<and>
     (\<forall>i. cl_get lib (cl_tidy lib i) = cl_get lib i \<and> cl_fits lib (cl_tidy lib i) = cl_fits lib i) \<and>
     (\<forall>i. cl_size lib i = 0 \<longleftrightarrow> cl_get lib i = Map.empty)"

lemma client_put:
  assumes "client_contract lib" "distinct (map fst ds)" "\<forall>d \<in> set ds. cl_fits lib i (snd d) \<and> cl_get lib i (fst d) = None"
  shows "\<exists>i'. cl_put lib ds i = (Inr (), i') \<and> cl_get lib i' = cl_get lib i ++ map_of ds \<and> cl_fits lib i' = cl_fits lib i"
  using assms(1)[unfolded client_contract_def, THEN conjunct1] assms(2,3) by blast

lemma client_set:
  assumes "client_contract lib" "cl_fits lib i v" "cl_get lib i k \<noteq> None"
  shows "\<exists>i'. cl_set lib k v i = (Inr (), i') \<and> cl_get lib i' = (cl_get lib i)(k \<mapsto> v) \<and> cl_fits lib i' = cl_fits lib i"
  using assms(1)[unfolded client_contract_def, THEN conjunct2, THEN conjunct1] assms(2,3) by blast

lemma client_query:
  assumes "client_contract lib" "cl_query lib e k i = Inr hits" "h \<in> set hits"
  shows "cl_get lib i (snd h) \<noteq> None"
  using assms(1)[unfolded client_contract_def, THEN conjunct2, THEN conjunct2, THEN conjunct1] assms(2,3) by blast

lemma client_drop:
  assumes "client_contract lib" "distinct ks" "\<forall>k \<in> set ks. cl_get lib i k \<noteq> None"
  shows "\<exists>i'. cl_drop lib ks i = (Inr (), i') \<and> cl_get lib i' = cl_get lib i |` (- set ks) \<and> cl_fits lib i' = cl_fits lib i"
  using assms(1)[unfolded client_contract_def, THEN conjunct2, THEN conjunct2, THEN conjunct2, THEN conjunct1] assms(2,3)
  by blast

lemma client_rest:
  assumes "client_contract lib"
  shows "cl_get lib (cl_tidy lib i) = cl_get lib i" "cl_fits lib (cl_tidy lib i) = cl_fits lib i"
    "cl_size lib i = 0 \<longleftrightarrow> cl_get lib i = Map.empty"
  using assms unfolding client_contract_def by simp_all

text \<open>
  A store object: the collection, the conversions between arrays and what the library takes (float32, lists,
  bytes), \<open>top_k\<close>, and the prefix of the keys where there is one.
\<close>

record ('e, 'k, 'v, 'i) vec_client =
  vc_lib :: "('k, 'v, 'i) client_lib"
  vc_conv :: "'e \<Rightarrow> 'v"
  vc_back :: "'v \<Rightarrow> 'e"
  vc_index :: 'i
  vc_top_k :: int
  vc_prefix :: string

definition on_index ::
  "('i \<Rightarrow> ('a, 'i) outcome) \<Rightarrow> ('e, 'k, 'v, 'i, 'm) vec_client_scheme \<Rightarrow> ('a, ('e, 'k, 'v, 'i, 'm) vec_client_scheme) outcome" where
  "on_index f s = (case f (vc_index s) of (r, i) \<Rightarrow> (r, s\<lparr>vc_index := i\<rparr>))"

definition default_top_k :: "int \<Rightarrow> ('e, 'k, 'v, 'i) vec_client \<Rightarrow> int" where
  "default_top_k top_k s = (if top_k = - 1 then vc_top_k s else top_k)"

text \<open>\<open>VectorBase\<close>: the stores without these methods inherit them.\<close>

definition base_get_embeddings :: "int \<Rightarrow> 's \<Rightarrow> ('e option, 's) outcome" where
  "base_get_embeddings data_id s = (Inl NotImplementedErr, s)"

definition base_update_embeddings :: "int \<Rightarrow> 'e \<Rightarrow> 's \<Rightarrow> (unit, 's) outcome" where
  "base_update_embeddings data_id emb s = (Inr (), s)"

section \<open>Chromadb\<close>

definition chroma_mul_add :: "(int \<times> 'e) list \<Rightarrow> ('e, string, 'v, 'i) vec_client \<Rightarrow> (unit, ('e, string, 'v, 'i) vec_client) outcome" where
  "chroma_mul_add datas s =
     (if datas = [] then (Inl ValueError, s)
      else on_index (cl_put (vc_lib s) (map (\<lambda>(i, e). (py_str_int i, vc_conv s e)) datas)) s)"

definition chroma_search ::
  "'e \<Rightarrow> int \<Rightarrow> ('e, string, 'v, 'i) vec_client \<Rightarrow> ((real \<times> int) list option, ('e, string, 'v, 'i) vec_client) outcome" where
  "chroma_search data top_k s =
     (if cl_size (vc_lib s) (vc_index s) = 0 then (Inr (Some []), s)
      else (bind_res (cl_query (vc_lib s) (vc_conv s data) (default_top_k top_k s) (vc_index s)) (\<lambda>hits.
              bind_res (map_res (\<lambda>(d, k). bind_res (int_of_text k) (\<lambda>i. Inr (d, i))) hits) (\<lambda>res. Inr (Some res))), s))"

definition chroma_delete :: "int list \<Rightarrow> ('e, string, 'v, 'i) vec_client \<Rightarrow> (unit, ('e, string, 'v, 'i) vec_client) outcome" where
  "chroma_delete ids s = on_index (cl_drop (vc_lib s) (map py_str_int ids)) s"

definition chroma_rebuild :: "int list \<Rightarrow> ('e, string, 'v, 'i) vec_client \<Rightarrow> (unit, ('e, string, 'v, 'i) vec_client) outcome" where
  "chroma_rebuild ids s = (Inr (), s)"

definition chroma_get_embeddings :: "int \<Rightarrow> ('e, string, 'v, 'i) vec_client \<Rightarrow> ('e option, ('e, string, 'v, 'i) vec_client) outcome" where
  "chroma_get_embeddings data_id s = (Inr (map_option (vc_back s) (cl_get (vc_lib s) (vc_index s) (py_str_int data_id))), s)"

definition chroma_update_embeddings :: "int \<Rightarrow> 'e \<Rightarrow> ('e, string, 'v, 'i) vec_client \<Rightarrow> (unit, ('e, string, 'v, 'i) vec_client) outcome" where
  "chroma_update_embeddings data_id emb s = on_index (cl_set (vc_lib s) (py_str_int data_id) (vc_conv s emb)) s"

definition chroma_ops :: "('e, ('e, string, 'v, 'i) vec_client) vector_ops" where
  "chroma_ops = \<lparr>vo_mul_add = chroma_mul_add, vo_search = chroma_search, vo_rebuild = chroma_rebuild, vo_delete = chroma_delete\<rparr>"

section \<open>DocArrayIndex\<close>

definition docarray_mul_add :: "(int \<times> 'e) list \<Rightarrow> ('e, int, 'v, 'i) vec_client \<Rightarrow> (unit, ('e, int, 'v, 'i) vec_client) outcome" where
  "docarray_mul_add datas s = on_index (cl_put (vc_lib s) (map (\<lambda>(i, e). (i, vc_conv s e)) datas)) s"

definition docarray_search ::
  "'e \<Rightarrow> int \<Rightarrow> ('e, int, 'v, 'i) vec_client \<Rightarrow> ((real \<times> int) list option, ('e, int, 'v, 'i) vec_client) outcome" where
  "docarray_search data top_k s =
     (if cl_size (vc_lib s) (vc_index s) = 0 then (Inr None, s)
      else (bind_res (cl_query (vc_lib s) (vc_conv s data) (default_top_k top_k s) (vc_index s)) (\<lambda>hits. Inr (Some hits)), s))"

definition docarray_rebuild :: "int list \<Rightarrow> ('e, int, 'v, 'i) vec_client \<Rightarrow> (unit, ('e, int, 'v, 'i) vec_client) outcome" where
  "docarray_rebuild ids s = (Inr (), s)"

definition docarray_delete :: "int list option \<Rightarrow> ('e, int, 'v, 'i) vec_client \<Rightarrow> (unit, ('e, int, 'v, 'i) vec_client) outcome" where
  "docarray_delete ids s = (case ids of None \<Rightarrow> (Inr (), s) | Some ids \<Rightarrow> on_index (cl_drop (vc_lib s) ids) s)"

definition docarray_ops :: "('e, ('e, int, 'v, 'i) vec_client) vector_ops" where
  "docarray_ops = \<lparr>vo_mul_add = docarray_mul_add, vo_search = docarray_search, vo_rebuild = docarray_rebuild,
     vo_delete = (\<lambda>ids. docarray_delete (Some ids))\<rparr>"

section \<open>Milvus\<close>

text \<open>\<open>SEARCH_PARAM\<close>: the default search parameters of an index type (metric type L2 throughout).\<close>

definition milvus_search_param :: "(string \<times> (string \<times> int) list) list" where
  "milvus_search_param =
     [(''IVF_FLAT'', [(''nprobe'', 10)]), (''IVF_SQ8'', [(''nprobe'', 10)]), (''IVF_PQ'', [(''nprobe'', 10)]),
      (''HNSW'', [(''ef'', 10)]), (''RHNSW_FLAT'', [(''ef'', 10)]), (''RHNSW_SQ'', [(''ef'', 10)]), (''RHNSW_PQ'', [(''ef'', 10)]),
      (''IVF_HNSW'', [(''nprobe'', 10), (''ef'', 10)]), (''ANNOY'', [(''search_k'', 10)]), (''AUTOINDEX'', [])]"

text \<open>
  \<open>_create_collection\<close>: the index type in use afterwards. \<open>existing\<close> are the index types of the collection when it is
  there already; a new index is created with the given type, or with \<open>AUTOINDEX\<close> when the server refuses that one
  (\<open>accepts\<close>).
\<close>

definition milvus_create_collection :: "string list \<Rightarrow> (string \<Rightarrow> bool) \<Rightarrow> string \<Rightarrow> string result" where
  "milvus_create_collection existing accepts index_type =
     (case existing of
        t # _ \<Rightarrow> Inr t
      | [] \<Rightarrow> if accepts index_type then Inr index_type
              else if accepts ''AUTOINDEX'' then Inr ''AUTOINDEX'' else Inl LibraryError)"

text \<open>The constructor: the search parameters of the store. The connection is the server's.\<close>

definition milvus_init ::
  "int \<Rightarrow> string list \<Rightarrow> (string \<Rightarrow> bool) \<Rightarrow> string \<Rightarrow> (string \<times> int) list option \<Rightarrow> (string \<times> int) list result" where
  "milvus_init dimension existing accepts index_type search_params =
     (if dimension \<le> 0 then Inl ValueError
      else bind_res (milvus_create_collection existing accepts index_type) (\<lambda>t.
             case search_params of
               Some p \<Rightarrow> Inr p
             | None \<Rightarrow> (case map_of milvus_search_param t of None \<Rightarrow> Inl KeyError | Some p \<Rightarrow> Inr p)))"

definition milvus_mul_add :: "(int \<times> 'e) list \<Rightarrow> ('e, int, 'v, 'i) vec_client \<Rightarrow> (unit, ('e, int, 'v, 'i) vec_client) outcome" where
  "milvus_mul_add datas s =
     (if datas = [] then (Inl ValueError, s)
      else on_index (cl_put (vc_lib s) (map (\<lambda>(i, e). (i, vc_conv s e)) datas)) s)"

definition milvus_search ::
  "'e \<Rightarrow> int \<Rightarrow> ('e, int, 'v, 'i) vec_client \<Rightarrow> ((real \<times> int) list option, ('e, int, 'v, 'i) vec_client) outcome" where
  "milvus_search data top_k s =
     (bind_res (cl_query (vc_lib s) (vc_conv s data) (default_top_k top_k s) (vc_index s)) (\<lambda>hits. Inr (Some hits)), s)"

definition milvus_delete :: "int list \<Rightarrow> ('e, int, 'v, 'i) vec_client \<Rightarrow> (unit, ('e, int, 'v, 'i) vec_client) outcome" where
  "milvus_delete ids s = on_index (cl_drop (vc_lib s) ids) s"

definition milvus_rebuild :: "int list \<Rightarrow> ('e, int, 'v, 'i) vec_client \<Rightarrow> (unit, ('e, int, 'v, 'i) vec_client) outcome" where
  "milvus_rebuild ids s = (Inr (), s\<lparr>vc_index := cl_tidy (vc_lib s) (vc_index s)\<rparr>)"

definition milvus_get_embeddings :: "int \<Rightarrow> ('e, int, 'v, 'i) vec_client \<Rightarrow> ('e option, ('e, int, 'v, 'i) vec_client) outcome" where
  "milvus_get_embeddings data_id s = (Inr (map_option (vc_back s) (cl_get (vc_lib s) (vc_index s) data_id)), s)"

text \<open>\<open>update_embeddings\<close> deletes and inserts again.\<close>

definition milvus_update_embeddings :: "int \<Rightarrow> 'e \<Rightarrow> ('e, int, 'v, 'i) vec_client \<Rightarrow> (unit, ('e, int, 'v, 'i) vec_client) outcome" where
  "milvus_update_embeddings data_id emb s =
     bind_out (on_index (cl_drop (vc_lib s) [data_id]) s) (\<lambda>_ s.
       on_index (cl_put (vc_lib s) [(data_id, vc_conv s emb)]) s)"

definition milvus_ops :: "('e, ('e, int, 'v, 'i) vec_client) vector_ops" where
  "milvus_ops = \<lparr>vo_mul_add = milvus_mul_add, vo_search = milvus_search, vo_rebuild = milvus_rebuild, vo_delete = milvus_delete\<rparr>"

section \<open>PGVector\<close>

text \<open>\<open>INDEX_PARAM\<close>: operator and index name of an index type.\<close>

definition pg_index_param :: "(string \<times> string \<times> string) list" where
  "pg_index_param =
     [(''L2'', ''<->'', ''vector_l2_ops''), (''cosine'', ''<=>'', ''vector_cosine_ops''), (''inner_product'', ''<->'', ''vector_ip_ops'')]"

definition pg_config :: "string \<Rightarrow> (string \<times> string) result" where
  "pg_config index_type = (case map_of pg_index_param index_type of None \<Rightarrow> Inl KeyError | Some c \<Rightarrow> Inr c)"

text \<open>The constructor: the name for the index that is created.\<close>

definition pgvector_init :: "int \<Rightarrow> string \<Rightarrow> string result" where
  "pgvector_init dimension index_type =
     (if dimension \<le> 0 then Inl ValueError else bind_res (pg_config index_type) (\<lambda>c. Inr (snd c)))"

text \<open>The number of probes that a search sets: 10 when the setting is 0.\<close>

definition pg_probes :: "int \<Rightarrow> int" where
  "pg_probes probes = (if probes = 0 then 10 else probes)"

text \<open>The query: rows in the order of an operator, with it as distance, and a limit.\<close>

record ('e, 'k, 'v, 'i) pg_client = "('e, 'k, 'v, 'i) vec_client" +
  pg_index_type :: string
  pg_setting :: int
  pg_select :: "string \<Rightarrow> int \<Rightarrow> 'v \<Rightarrow> int \<Rightarrow> 'i \<Rightarrow> (real \<times> 'k) list"

definition pgvector_mul_add :: "(int \<times> 'e) list \<Rightarrow> ('e, int, 'v, 'i) pg_client \<Rightarrow> (unit, ('e, int, 'v, 'i) pg_client) outcome" where
  "pgvector_mul_add datas s =
     (if datas = [] then (Inl ValueError, s)
      else on_index (cl_put (vc_lib s) (map (\<lambda>(i, e). (i, vc_conv s e)) datas)) s)"

definition pgvector_search ::
  "'e \<Rightarrow> int \<Rightarrow> ('e, int, 'v, 'i) pg_client \<Rightarrow> ((real \<times> int) list option, ('e, int, 'v, 'i) pg_client) outcome" where
  "pgvector_search data top_k s =
     (let top_k = (if top_k = - 1 then vc_top_k s else top_k)
      in (bind_res (pg_config (pg_index_type s)) (\<lambda>(operator, name).
            Inr (Some (pg_select s operator (pg_probes (pg_setting s)) (vc_conv s data) top_k (vc_index s)))), s))"

definition pgvector_delete :: "int list \<Rightarrow> ('e, int, 'v, 'i) pg_client \<Rightarrow> (unit, ('e, int, 'v, 'i) pg_client) outcome" where
  "pgvector_delete ids s = on_index (cl_drop (vc_lib s) ids) s"

definition pgvector_rebuild :: "int list \<Rightarrow> ('e, int, 'v, 'i) pg_client \<Rightarrow> (unit, ('e, int, 'v, 'i) pg_client) outcome" where
  "pgvector_rebuild ids s = (Inr (), s\<lparr>vc_index := cl_tidy (vc_lib s) (vc_index s)\<rparr>)"

definition pgvector_ops :: "('e, ('e, int, 'v, 'i) pg_client) vector_ops" where
  "pgvector_ops = \<lparr>vo_mul_add = pgvector_mul_add, vo_search = pgvector_search, vo_rebuild = pgvector_rebuild, vo_delete = pgvector_delete\<rparr>"

section \<open>QdrantVectorStore\<close>

text \<open>
  The constructor: any \<open>location\<close> that is not \<open>None\<close> gives a client for it, and only \<open>None\<close> one for the url or the
  host; the collection is created unless one of its name is there.
\<close>

datatype qdrant_client = QLocal string | QRemote "string option" "string option"

definition qdrant_init ::
  "int \<Rightarrow> string option \<Rightarrow> string option \<Rightarrow> string option \<Rightarrow> string \<Rightarrow> string list \<Rightarrow> (qdrant_client \<times> string list) result" where
  "qdrant_init dimension location url host collection_name existing =
     (if dimension \<le> 0 then Inl ValueError
      else Inr (case location of Some l \<Rightarrow> QLocal l | None \<Rightarrow> QRemote url host,
                if collection_name \<in> set existing then existing else collection_name # existing))"

definition qdrant_mul_add :: "(int \<times> 'e) list \<Rightarrow> ('e, int, 'v, 'i) vec_client \<Rightarrow> (unit, ('e, int, 'v, 'i) vec_client) outcome" where
  "qdrant_mul_add datas s = on_index (cl_put (vc_lib s) (map (\<lambda>(i, e). (i, vc_conv s e)) datas)) s"

definition qdrant_search ::
  "'e \<Rightarrow> int \<Rightarrow> ('e, int, 'v, 'i) vec_client \<Rightarrow> ((real \<times> int) list option, ('e, int, 'v, 'i) vec_client) outcome" where
  "qdrant_search data top_k s =
     (bind_res (cl_query (vc_lib s) (vc_conv s data) (default_top_k top_k s) (vc_index s)) (\<lambda>hits. Inr (Some hits)), s)"

definition qdrant_delete :: "int list \<Rightarrow> ('e, int, 'v, 'i) vec_client \<Rightarrow> (unit, ('e, int, 'v, 'i) vec_client) outcome" where
  "qdrant_delete ids s = on_index (cl_drop (vc_lib s) ids) s"

definition qdrant_rebuild :: "int list \<Rightarrow> ('e, int, 'v, 'i) vec_client \<Rightarrow> (unit, ('e, int, 'v, 'i) vec_client) outcome" where
  "qdrant_rebuild ids s = (Inr (), s\<lparr>vc_index := cl_tidy (vc_lib s) (vc_index s)\<rparr>)"

definition qdrant_ops :: "('e, ('e, int, 'v, 'i) vec_client) vector_ops" where
  "qdrant_ops = \<lparr>vo_mul_add = qdrant_mul_add, vo_search = qdrant_search, vo_rebuild = qdrant_rebuild, vo_delete = qdrant_delete\<rparr>"

section \<open>RedisVectorStore\<close>

text \<open>The documents have the keys \<open>{namespace}doc:{id}\<close>; a search cuts off as many characters as the prefix has.\<close>

definition redis_doc_prefix :: "string \<Rightarrow> string" where
  "redis_doc_prefix namespace = namespace @ ''doc:''"

definition redis_vec_key :: "('e, string, 'v, 'i) vec_client \<Rightarrow> int \<Rightarrow> string" where
  "redis_vec_key s i = vc_prefix s @ py_str_int i"

definition redis_mul_add :: "(int \<times> 'e) list \<Rightarrow> ('e, string, 'v, 'i) vec_client \<Rightarrow> (unit, ('e, string, 'v, 'i) vec_client) outcome" where
  "redis_mul_add datas s = on_index (cl_put (vc_lib s) (map (\<lambda>(i, e). (redis_vec_key s i, vc_conv s e)) datas)) s"

definition redis_vec_search ::
  "'e \<Rightarrow> int \<Rightarrow> ('e, string, 'v, 'i) vec_client \<Rightarrow> ((real \<times> int) list option, ('e, string, 'v, 'i) vec_client) outcome" where
  "redis_vec_search data top_k s =
     (let top_k = (if top_k > 0 then top_k else vc_top_k s)
      in (bind_res (cl_query (vc_lib s) (vc_conv s data) top_k (vc_index s)) (\<lambda>hits.
            bind_res (map_res (\<lambda>(d, k). bind_res (int_of_text (drop (length (vc_prefix s)) k)) (\<lambda>i. Inr (d, i))) hits)
              (\<lambda>res. Inr (Some res))), s))"

definition redis_vec_delete :: "int list \<Rightarrow> ('e, string, 'v, 'i) vec_client \<Rightarrow> (unit, ('e, string, 'v, 'i) vec_client) outcome" where
  "redis_vec_delete ids s = on_index (cl_drop (vc_lib s) (map (redis_vec_key s) ids)) s"

definition redis_vec_rebuild :: "int list \<Rightarrow> ('e, string, 'v, 'i) vec_client \<Rightarrow> (unit, ('e, string, 'v, 'i) vec_client) outcome" where
  "redis_vec_rebuild ids s = (Inr (), s)"

definition redis_vec_ops :: "('e, ('e, string, 'v, 'i) vec_client) vector_ops" where
  "redis_vec_ops = \<lparr>vo_mul_add = redis_mul_add, vo_search = redis_vec_search, vo_rebuild = redis_vec_rebuild, vo_delete = redis_vec_delete\<rparr>"

section \<open>USearch\<close>

definition usearch_mul_add :: "(int \<times> 'e) list \<Rightarrow> ('e, int, 'v, 'i) vec_client \<Rightarrow> (unit, ('e, int, 'v, 'i) vec_client) outcome" where
  "usearch_mul_add datas s =
     (if datas = [] then (Inl ValueError, s)
      else on_index (cl_put (vc_lib s) (map (\<lambda>(i, e). (i, vc_conv s e)) datas)) s)"

definition usearch_search ::
  "'e \<Rightarrow> int \<Rightarrow> ('e, int, 'v, 'i) vec_client \<Rightarrow> ((real \<times> int) list option, ('e, int, 'v, 'i) vec_client) outcome" where
  "usearch_search data top_k s =
     (bind_res (cl_query (vc_lib s) (vc_conv s data) (default_top_k top_k s) (vc_index s)) (\<lambda>hits. Inr (Some hits)), s)"

definition usearch_rebuild :: "int list \<Rightarrow> ('e, int, 'v, 'i) vec_client \<Rightarrow> (unit, ('e, int, 'v, 'i) vec_client) outcome" where
  "usearch_rebuild ids s = (Inr (), s)"

definition usearch_delete :: "int list \<Rightarrow> ('e, int, 'v, 'i) vec_client \<Rightarrow> (unit, ('e, int, 'v, 'i) vec_client) outcome" where
  "usearch_delete ids s = (Inl NotImplementedErr, s)"

definition usearch_count :: "('e, int, 'v, 'i) vec_client \<Rightarrow> nat" where
  "usearch_count s = cl_size (vc_lib s) (vc_index s)"

definition usearch_ops :: "('e, ('e, int, 'v, 'i) vec_client) vector_ops" where
  "usearch_ops = \<lparr>vo_mul_add = usearch_mul_add, vo_search = usearch_search, vo_rebuild = usearch_rebuild, vo_delete = usearch_delete\<rparr>"

section \<open>The stores meet the interface\<close>

definition client_ids :: "(('e, 'k, 'v, 'i, 'm) vec_client_scheme \<Rightarrow> int \<Rightarrow> 'k) \<Rightarrow> ('e, 'k, 'v, 'i, 'm) vec_client_scheme \<Rightarrow> int set" where
  "client_ids key s = {n. cl_get (vc_lib s) (vc_index s) (key s n) \<noteq> None}"

definition client_fits :: "('e, 'k, 'v, 'i, 'm) vec_client_scheme \<Rightarrow> 'e \<Rightarrow> bool" where
  "client_fits s e = cl_fits (vc_lib s) (vc_index s) (vc_conv s e)"

text \<open>The collection holds keys of ids only; \<open>extra\<close> is what a store needs besides.\<close>

definition client_inv ::
  "(('e, 'k, 'v, 'i, 'm) vec_client_scheme \<Rightarrow> int \<Rightarrow> 'k) \<Rightarrow> (('e, 'k, 'v, 'i, 'm) vec_client_scheme \<Rightarrow> bool)
   \<Rightarrow> ('e, 'k, 'v, 'i, 'm) vec_client_scheme \<Rightarrow> bool" where
  "client_inv key extra s \<longleftrightarrow> client_contract (vc_lib s) \<and>
     (\<forall>k. cl_get (vc_lib s) (vc_index s) k \<noteq> None \<longrightarrow> (\<exists>n. k = key s n)) \<and> extra s"

lemma client_vector_store:
  fixes vops :: "('e, ('e, 'k, 'v, 'i, 'm) vec_client_scheme) vector_ops"
  assumes key: "\<And>s. inj (key s)" "\<And>s i. key (s\<lparr>vc_index := i\<rparr>) = key s"
    and extra: "\<And>s i. extra (s\<lparr>vc_index := i\<rparr>) = extra s"
    and add: "\<And>ds s. ds \<noteq> [] \<Longrightarrow>
      vo_mul_add vops ds s = on_index (cl_put (vc_lib s) (map (\<lambda>(i, e). (key s i, vc_conv s e)) ds)) s"
    and del: "\<And>ks s. vo_delete vops ks s = on_index (cl_drop (vc_lib s) (map (key s) ks)) s"
    and rebuild: "\<And>ks s. vo_rebuild vops ks s = (Inr (), s) \<or>
      vo_rebuild vops ks s = (Inr (), s\<lparr>vc_index := cl_tidy (vc_lib s) (vc_index s)\<rparr>)"
    and search: "\<And>s e k hits s'. client_inv key extra s \<Longrightarrow> vo_search vops e k s = (Inr (Some hits), s') \<Longrightarrow>
      s' = s \<and> snd ` set hits \<subseteq> client_ids key s"
  shows "vector_store vops (client_ids key) (client_inv key extra) client_fits"
proof
  fix s s' :: "('e, 'k, 'v, 'i, 'm) vec_client_scheme" and ds :: "(int \<times> 'e) list" and ks :: "int list" and e k hits
  assume inv: "client_inv key extra s"
  let ?G = "cl_get (vc_lib s) (vc_index s)"
  have C: "client_contract (vc_lib s)" and K: "\<And>k. ?G k \<noteq> None \<Longrightarrow> \<exists>n. k = key s n" and X: "extra s"
    using inv by (auto simp: client_inv_def)
  have eq: "key s a = key s b \<longleftrightarrow> a = b" for a b using key(1)[of s] by (auto dest: injD)
  show "vo_search vops e k s = (Inr (Some hits), s') \<Longrightarrow> s' = s \<and> snd ` set hits \<subseteq> insert (- 1) (client_ids key s)"
    using search[OF inv] by blast
  show "\<exists>s'. vo_rebuild vops ks s = (Inr (), s') \<and> set ks \<subseteq> client_ids key s' \<and> client_ids key s' \<subseteq> client_ids key s \<and>
      client_inv key extra s' \<and> client_fits s' = client_fits s" if ks: "set ks \<subseteq> client_ids key s"
  proof -
    let ?s = "s\<lparr>vc_index := cl_tidy (vc_lib s) (vc_index s)\<rparr>"
    have "client_ids key ?s = client_ids key s" "client_inv key extra ?s" "client_fits ?s = client_fits s"
      using C K X by (simp_all add: client_ids_def client_inv_def client_fits_def[abs_def] key(2) extra client_rest[OF C])
    with rebuild[of ks s] inv ks show ?thesis by auto
  qed
  show "\<exists>s'. vo_delete vops ks s = (Inr (), s') \<and> client_ids key s' = client_ids key s - set ks \<and>
      client_inv key extra s' \<and> client_fits s' = client_fits s" if ks: "distinct ks" "set ks \<subseteq> client_ids key s"
  proof -
    have "distinct (map (key s) ks)" using ks(1) key(1)[of s] by (simp add: distinct_map inj_on_def inj_def)
    moreover have "\<forall>k \<in> set (map (key s) ks). ?G k \<noteq> None" using ks(2) by (auto simp: client_ids_def)
    ultimately obtain i' where i': "cl_drop (vc_lib s) (map (key s) ks) (vc_index s) = (Inr (), i')"
      "cl_get (vc_lib s) i' = ?G |` (- set (map (key s) ks))" "cl_fits (vc_lib s) i' = cl_fits (vc_lib s) (vc_index s)"
      using client_drop[OF C] by blast
    then show ?thesis using C K X
      by (auto simp: del on_index_def client_ids_def client_inv_def client_fits_def[abs_def] key(2) extra restrict_map_def eq split: if_splits)
  qed
  show "\<exists>s'. vo_mul_add vops ds s = (Inr (), s') \<and> client_ids key s' = client_ids key s \<union> fst ` set ds \<and>
      client_inv key extra s' \<and> client_fits s' = client_fits s"
    if ds: "ds \<noteq> []" "distinct (map fst ds)" "fst ` set ds \<inter> client_ids key s = {}" "\<forall>d \<in> set ds. client_fits s (snd d)"
  proof -
    let ?ds = "map (\<lambda>(i, e). (key s i, vc_conv s e)) ds"
    have fst: "map fst ?ds = map (key s) (map fst ds)" by (simp add: case_prod_unfold)
    have "distinct (map fst ?ds)" unfolding fst using ds(2) key(1)[of s] by (auto simp: distinct_map inj_on_def inj_def)
    moreover have "\<forall>d \<in> set ?ds. cl_fits (vc_lib s) (vc_index s) (snd d) \<and> ?G (fst d) = None"
      using ds(3,4) by (force simp: client_ids_def client_fits_def)
    ultimately obtain i' where i': "cl_put (vc_lib s) ?ds (vc_index s) = (Inr (), i')"
      "cl_get (vc_lib s) i' = ?G ++ map_of ?ds" "cl_fits (vc_lib s) i' = cl_fits (vc_lib s) (vc_index s)"
      using client_put[OF C] by blast
    have dom: "map_of ?ds k = None \<longleftrightarrow> k \<notin> key s ` fst ` set ds" for k by (force simp: map_of_eq_None_iff image_image)
    have get: "cl_get (vc_lib s) i' k \<noteq> None \<longleftrightarrow> ?G k \<noteq> None \<or> k \<in> key s ` fst ` set ds" for k
      using dom[of k] by (cases "map_of ?ds k") (simp_all add: i'(2) map_add_def)
    let ?s = "s\<lparr>vc_index := i'\<rparr>"
    have "client_ids key ?s = {n. cl_get (vc_lib s) i' (key s n) \<noteq> None}" by (simp add: client_ids_def key(2))
    also have "\<dots> = {n. ?G (key s n) \<noteq> None \<or> key s n \<in> key s ` fst ` set ds}" by (simp only: get)
    also have "\<dots> = client_ids key s \<union> fst ` set ds" unfolding inj_image_mem_iff[OF key(1)] by (auto simp only: client_ids_def)
    finally have "client_ids key ?s = client_ids key s \<union> fst ` set ds" .
    moreover have "client_inv key extra ?s"
      using C K X get by (auto simp: client_inv_def key(2) extra)
    moreover have "client_fits ?s = client_fits s" by (simp add: client_fits_def[abs_def] i'(3))
    ultimately show ?thesis using add[OF ds(1), of s] i'(1) by (simp add: on_index_def)
  qed
qed

text \<open>The stores whose keys are the ids.\<close>

lemmas client_ops_defs = chroma_ops_def docarray_ops_def milvus_ops_def pgvector_ops_def qdrant_ops_def redis_vec_ops_def

lemma query_ids:
  assumes "client_inv (\<lambda>s n. n) extra s" "cl_query (vc_lib s) e k (vc_index s) = Inr hits"
  shows "snd ` set hits \<subseteq> client_ids (\<lambda>s n. n) s"
  using client_query[of "vc_lib s" e k "vc_index s" hits] assms by (fastforce simp: client_inv_def client_ids_def)

interpretation docarray: vector_store "docarray_ops :: ('e, ('e, int, 'v, 'i) vec_client) vector_ops"
  "client_ids (\<lambda>s n. n)" "client_inv (\<lambda>s n. n) (\<lambda>s. True)" client_fits
  by (rule client_vector_store) (auto simp: client_ops_defs docarray_mul_add_def docarray_delete_def docarray_rebuild_def
      docarray_search_def bind_res_Inr_iff split: if_splits dest!: query_ids)

interpretation milvus: vector_store "milvus_ops :: ('e, ('e, int, 'v, 'i) vec_client) vector_ops"
  "client_ids (\<lambda>s n. n)" "client_inv (\<lambda>s n. n) (\<lambda>s. True)" client_fits
  by (rule client_vector_store) (auto simp: client_ops_defs milvus_mul_add_def milvus_delete_def milvus_rebuild_def
      milvus_search_def bind_res_Inr_iff dest!: query_ids)

interpretation qdrant: vector_store "qdrant_ops :: ('e, ('e, int, 'v, 'i) vec_client) vector_ops"
  "client_ids (\<lambda>s n. n)" "client_inv (\<lambda>s n. n) (\<lambda>s. True)" client_fits
  by (rule client_vector_store) (auto simp: client_ops_defs qdrant_mul_add_def qdrant_delete_def qdrant_rebuild_def
      qdrant_search_def bind_res_Inr_iff dest!: query_ids)

text \<open>PostgreSQL's query gives rows of the table.\<close>

definition pg_rows_ok :: "('e, int, 'v, 'i) pg_client \<Rightarrow> bool" where
  "pg_rows_ok s \<longleftrightarrow> (\<forall>operator probes v k i. \<forall>h \<in> set (pg_select s operator probes v k i). cl_get (vc_lib s) i (snd h) \<noteq> None)"

interpretation pgvector: vector_store "pgvector_ops :: ('e, ('e, int, 'v, 'i) pg_client) vector_ops"
  "client_ids (\<lambda>s n. n)" "client_inv (\<lambda>s n. n) pg_rows_ok" client_fits
proof (rule client_vector_store)
  fix s s' :: "('e, int, 'v, 'i) pg_client" and e k hits
  assume inv: "client_inv (\<lambda>s n. n) pg_rows_ok s" and found: "vo_search pgvector_ops e k s = (Inr (Some hits), s')"
  from found obtain operator name where hits: "s' = s"
    "hits = pg_select s operator (pg_probes (pg_setting s)) (vc_conv s e) (if k = - 1 then vc_top_k s else k) (vc_index s)"
    by (auto simp: client_ops_defs pgvector_search_def Let_def bind_res_Inr_iff)
  have "pg_rows_ok s" using inv by (simp add: client_inv_def)
  then have "\<forall>h \<in> set hits. snd h \<in> client_ids (\<lambda>s n. n) s"
    unfolding pg_rows_ok_def hits(2) client_ids_def mem_Collect_eq by blast
  with hits(1) show "s' = s \<and> snd ` set hits \<subseteq> client_ids (\<lambda>s n. n) s" by blast
qed (auto simp: client_ops_defs pgvector_mul_add_def pgvector_delete_def pgvector_rebuild_def pg_rows_ok_def)

text \<open>The stores that write the ids into texts read them back.\<close>

lemma read_ids:
  assumes inv: "client_inv key extra s" and query: "cl_query (vc_lib s) e k (vc_index s) = Inr hits"
    and parse: "map_res (\<lambda>(d, k). bind_res (int_of_text (strip k)) (\<lambda>i. Inr (d, i))) hits = Inr res"
    and strip: "\<And>n. strip (key s n) = py_str_int n"
  shows "snd ` set res \<subseteq> client_ids key s"
proof
  have all: "\<forall>h \<in> set hits. \<exists>n. snd h = key s n \<and> n \<in> client_ids key s"
    using client_query[OF _ query] inv by (fastforce simp: client_inv_def client_ids_def)
  fix n assume "n \<in> snd ` set res"
  then obtain d where "(d, n) \<in> set res" by auto
  then obtain h where h: "h \<in> set hits" "bind_res (int_of_text (strip (snd h))) (\<lambda>i. Inr (fst h, i)) = Inr (d, n)"
    using map_res_mem[OF parse, of "(d, n)"] by (auto simp: case_prod_unfold)
  with all obtain m where "snd h = key s m" "m \<in> client_ids key s" by blast
  with h(2) show "n \<in> client_ids key s" by (simp add: strip)
qed

interpretation chroma: vector_store "chroma_ops :: ('e, ('e, string, 'v, 'i) vec_client) vector_ops"
  "client_ids (\<lambda>s. py_str_int)" "client_inv (\<lambda>s. py_str_int) (\<lambda>s. True)" client_fits
proof (rule client_vector_store)
  fix s s' :: "('e, string, 'v, 'i) vec_client" and e k hits
  assume inv: "client_inv (\<lambda>s. py_str_int) (\<lambda>s. True) s" and found: "vo_search chroma_ops e k s = (Inr (Some hits), s')"
  show "s' = s \<and> snd ` set hits \<subseteq> client_ids (\<lambda>s. py_str_int) s"
  proof (cases "cl_size (vc_lib s) (vc_index s) = 0")
    case False
    with found obtain raw where raw: "s' = s" "cl_query (vc_lib s) (vc_conv s e) (default_top_k k s) (vc_index s) = Inr raw"
      "map_res (\<lambda>(d, k). bind_res (int_of_text k) (\<lambda>i. Inr (d, i))) raw = Inr hits"
      by (auto simp: client_ops_defs chroma_search_def bind_res_Inr_iff)
    from read_ids[where strip = "\<lambda>k. k", OF inv raw(2,3)] raw(1) show ?thesis by simp
  qed (use found in \<open>auto simp: client_ops_defs chroma_search_def\<close>)
qed (auto simp: client_ops_defs chroma_mul_add_def chroma_delete_def chroma_rebuild_def py_str_int_injective)

interpretation redis_vec: vector_store "redis_vec_ops :: ('e, ('e, string, 'v, 'i) vec_client) vector_ops"
  "client_ids redis_vec_key" "client_inv redis_vec_key (\<lambda>s. True)" client_fits
proof (rule client_vector_store)
  fix s s' :: "('e, string, 'v, 'i) vec_client" and e k hits i
  show "inj (redis_vec_key s)"
    using py_str_int_injective by (simp add: redis_vec_key_def inj_def)
  show "redis_vec_key (s\<lparr>vc_index := i\<rparr>) = redis_vec_key s" by (simp add: redis_vec_key_def fun_eq_iff)
  assume inv: "client_inv redis_vec_key (\<lambda>s. True) s" and found: "vo_search redis_vec_ops e k s = (Inr (Some hits), s')"
  from found obtain top raw where raw: "s' = s" "cl_query (vc_lib s) (vc_conv s e) top (vc_index s) = Inr raw"
    "map_res (\<lambda>(d, k). bind_res (int_of_text (drop (length (vc_prefix s)) k)) (\<lambda>i. Inr (d, i))) raw = Inr hits"
    by (auto simp: client_ops_defs redis_vec_search_def Let_def bind_res_Inr_iff)
  from read_ids[where strip = "drop (length (vc_prefix s))", OF inv raw(2,3)] raw(1)
  show "s' = s \<and> snd ` set hits \<subseteq> client_ids redis_vec_key s" by (simp add: redis_vec_key_def)
qed (auto simp: client_ops_defs redis_mul_add_def redis_vec_delete_def redis_vec_rebuild_def)

end
