(* ===== verification/Vector_Stores.thy ===== *)
theory Vector_Stores
  imports Vector_Clients Sync
begin

text \<open>
  Two vector stores of \<open>gptcache/manager/vector_data/\<close> that are no plain map from keys to vectors: \<open>hnswlib_store.py\<close>,
  whose index has a capacity and only marks vectors as deleted, and \<open>weaviate.py\<close>, whose objects have uuids of
  their own and the id as a property; then the properties of all the stores, and what they mean for the data
  manager.
\<close>

section \<open>Hnswlib\<close>

text \<open>
  The library's index: \<open>hl_get\<close> are the vectors not marked as deleted, \<open>hl_used\<close> the places taken (marked ones
  too), \<open>hl_fresh\<close> a new index, \<open>hl_items\<close> is \<open>get_items\<close>.
\<close>

record ('v, 'i) hnsw_lib =
  hl_get :: "'i \<Rightarrow> int \<Rightarrow> 'v option"
  hl_used :: "'i \<Rightarrow> nat"
  hl_fits :: "'v \<Rightarrow> bool"
  hl_fresh :: 'i
  hl_add :: "(int \<times> 'v) list \<Rightarrow> 'i \<Rightarrow> (unit, 'i) outcome"
  hl_knn :: "'v \<Rightarrow> int \<Rightarrow> 'i \<Rightarrow> (real \<times> int) list result"
  hl_mark :: "int \<Rightarrow> 'i \<Rightarrow> (unit, 'i) outcome"
  hl_items :: "int list \<Rightarrow> 'i \<Rightarrow> 'v list result"

definition hnsw_contract :: "nat \<Rightarrow> ('v, 'i) hnsw_lib \<Rightarrow> bool" where
  "hnsw_contract max_elements lib \<longleftrightarrow>
     hl_get lib (hl_fresh lib) = Map.empty \<and> hl_used lib (hl_fresh lib) = 0 \<and>
     (\<forall>ds i. distinct (map fst ds) \<longrightarrow> (\<forall>d \<in> set ds. hl_fits lib (snd d)) \<longrightarrow> hl_used lib i + length ds \<le> max_elements \<longrightarrow>
        (\<exists>i'. hl_add lib ds i = (Inr (), i') \<and> hl_get lib i' = hl_get lib i ++ map_of ds \<and>
           hl_used lib i' \<le> hl_used lib i + length ds)) \<and>
     (\<forall>ks i. (\<forall>k \<in> set ks. hl_get lib i k \<noteq> None) \<longrightarrow> hl_items lib ks i = Inr (map (\<lambda>k. the (hl_get lib i k)) ks)) \<and>
     (\<forall>k i. hl_get lib i k \<noteq> None \<longrightarrow>
        (\<exists>i'. hl_mark lib k i = (Inr (), i') \<and> hl_get lib i' = (hl_get lib i)(k := None) \<and> hl_used lib i' = hl_used lib i)) \<and>
     (\<forall>i k v. hl_get lib i k = Some v \<longrightarrow> hl_fits lib v)"

record ('e, 'v, 'i) hnswlib =
  hn_lib :: "('v, 'i) hnsw_lib"
  hn_float32 :: "'e \<Rightarrow> 'v"
  hn_again :: "'v \<Rightarrow> 'v"
  hn_index :: 'i
  hn_top_k :: int

definition hnswlib_add_items :: "(int \<times> 'v) list \<Rightarrow> ('e, 'v, 'i) hnswlib \<Rightarrow> (unit, ('e, 'v, 'i) hnswlib) outcome" where
  "hnswlib_add_items ds s = (case hl_add (hn_lib s) ds (hn_index s) of (r, i) \<Rightarrow> (r, s\<lparr>hn_index := i\<rparr>))"

definition hnswlib_add :: "int \<Rightarrow> 'e \<Rightarrow> ('e, 'v, 'i) hnswlib \<Rightarrow> (unit, ('e, 'v, 'i) hnswlib) outcome" where
  "hnswlib_add key data s = hnswlib_add_items [(key, hn_float32 s data)] s"

text \<open>\<open>mul_add\<close>, with the conversion of what it is given: an array, or a vector that was read from the index.\<close>

definition hnswlib_mul_add_with :: "('d \<Rightarrow> 'v) \<Rightarrow> (int \<times> 'd) list \<Rightarrow> ('e, 'v, 'i) hnswlib \<Rightarrow> (unit, ('e, 'v, 'i) hnswlib) outcome" where
  "hnswlib_mul_add_with conv datas s =
     (if datas = [] then (Inl ValueError, s) else hnswlib_add_items (map (\<lambda>(i, e). (i, conv e)) datas) s)"

definition hnswlib_mul_add :: "(int \<times> 'e) list \<Rightarrow> ('e, 'v, 'i) hnswlib \<Rightarrow> (unit, ('e, 'v, 'i) hnswlib) outcome" where
  "hnswlib_mul_add datas s = hnswlib_mul_add_with (hn_float32 s) datas s"

definition hnswlib_search ::
  "'e \<Rightarrow> int \<Rightarrow> ('e, 'v, 'i) hnswlib \<Rightarrow> ((real \<times> int) list option, ('e, 'v, 'i) hnswlib) outcome" where
  "hnswlib_search data top_k s =
     (let top_k = (if top_k = - 1 then hn_top_k s else top_k)
      in (bind_res (hl_knn (hn_lib s) (hn_float32 s data) top_k (hn_index s)) (\<lambda>hits. Inr (Some hits)), s))"

definition hnswlib_rebuild :: "int list \<Rightarrow> ('e, 'v, 'i) hnswlib \<Rightarrow> (unit, ('e, 'v, 'i) hnswlib) outcome" where
  "hnswlib_rebuild ids s =
     bind_out (hl_items (hn_lib s) ids (hn_index s), s) (\<lambda>all_data s.
       let s = s\<lparr>hn_index := hl_fresh (hn_lib s)\<rparr>
       in hnswlib_mul_add_with (hn_again s) (zip ids all_data) s)"

definition hnswlib_delete :: "int list \<Rightarrow> ('e, 'v, 'i) hnswlib \<Rightarrow> (unit, ('e, 'v, 'i) hnswlib) outcome" where
  "hnswlib_delete ids s = for_each (\<lambda>i s. case hl_mark (hn_lib s) i (hn_index s) of (r, x) \<Rightarrow> (r, s\<lparr>hn_index := x\<rparr>)) ids s"

section \<open>Weaviate\<close>

text \<open>
  The class of the store: its objects (uuid, data id, vector). \<open>wl_where\<close> selects by data id, \<open>wl_near\<close> finds the
  nearest vectors (distances and data ids).
\<close>

record ('u, 'v, 'i) weaviate_lib =
  wl_objects :: "'i \<Rightarrow> ('u \<times> int \<times> 'v) set"
  wl_create :: "int \<Rightarrow> 'v \<Rightarrow> 'i \<Rightarrow> 'i"
  wl_near :: "'v \<Rightarrow> int \<Rightarrow> 'i \<Rightarrow> (real \<times> int) list"
  wl_where :: "int \<Rightarrow> 'i \<Rightarrow> ('u \<times> 'v) list"
  wl_remove :: "'u \<Rightarrow> 'i \<Rightarrow> 'i"

record ('e, 'u, 'v, 'i) weaviate =
  we_lib :: "('u, 'v, 'i) weaviate_lib"
  we_conv :: "'e \<Rightarrow> 'v"
  we_back :: "'v \<Rightarrow> 'e"
  we_client :: 'i
  we_top_k :: int

text \<open>The constructor's class name and whether it creates the class.\<close>

definition weaviate_init :: "(string \<times> 'p) option \<Rightarrow> string \<Rightarrow> string list \<Rightarrow> string \<times> string list" where
  "weaviate_init class_schema class_name existing =
     (let name = (case class_schema of Some (c, props) \<Rightarrow> c | None \<Rightarrow> class_name)
      in (name, if name \<in> set existing then existing else name # existing))"

definition weaviate_mul_add :: "(int \<times> 'e) list \<Rightarrow> ('e, 'u, 'v, 'i) weaviate \<Rightarrow> (unit, ('e, 'u, 'v, 'i) weaviate) outcome" where
  "weaviate_mul_add datas s = (Inr (), fold (\<lambda>(i, e) s. s\<lparr>we_client := wl_create (we_lib s) i (we_conv s e) (we_client s)\<rparr>) datas s)"

definition weaviate_search ::
  "'e \<Rightarrow> int \<Rightarrow> ('e, 'u, 'v, 'i) weaviate \<Rightarrow> ((real \<times> int) list option, ('e, 'u, 'v, 'i) weaviate) outcome" where
  "weaviate_search data top_k s =
     (let top_k = (if top_k = - 1 then we_top_k s else top_k)
      in (Inr (Some (wl_near (we_lib s) (we_conv s data) top_k (we_client s))), s))"

definition get_uuids :: "int list \<Rightarrow> ('e, 'u, 'v, 'i) weaviate \<Rightarrow> 'u list result" where
  "get_uuids data_ids s = map_res (\<lambda>i. bind_res (py_nth (wl_where (we_lib s) i (we_client s)) 0) (\<lambda>x. Inr (fst x))) data_ids"

definition weaviate_delete :: "int list \<Rightarrow> ('e, 'u, 'v, 'i) weaviate \<Rightarrow> (unit, ('e, 'u, 'v, 'i) weaviate) outcome" where
  "weaviate_delete ids s =
     bind_out (get_uuids ids s, s) (\<lambda>uuids s.
       (Inr (), fold (\<lambda>u s. s\<lparr>we_client := wl_remove (we_lib s) u (we_client s)\<rparr>) uuids s))"

definition weaviate_rebuild :: "int list \<Rightarrow> ('e, 'u, 'v, 'i) weaviate \<Rightarrow> (unit, ('e, 'u, 'v, 'i) weaviate) outcome" where
  "weaviate_rebuild ids s = (Inr (), s)"

definition weaviate_get_embeddings :: "int \<Rightarrow> ('e, 'u, 'v, 'i) weaviate \<Rightarrow> ('e option, ('e, 'u, 'v, 'i) weaviate) outcome" where
  "weaviate_get_embeddings data_id s =
     (let results = take 1 (wl_where (we_lib s) data_id (we_client s))
      in (Inr (if length results < 1 then None else Some (we_back s (snd (hd results)))), s))"

definition weaviate_update_embeddings :: "int \<Rightarrow> 'e \<Rightarrow> ('e, 'u, 'v, 'i) weaviate \<Rightarrow> (unit, ('e, 'u, 'v, 'i) weaviate) outcome" where
  "weaviate_update_embeddings data_id emb s =
     bind_out (weaviate_delete [data_id] s) (\<lambda>_ s.
       (Inr (), s\<lparr>we_client := wl_create (we_lib s) data_id (we_conv s emb) (we_client s)\<rparr>))"

definition weaviate_ops :: "('e, ('e, 'u, 'v, 'i) weaviate) vector_ops" where
  "weaviate_ops = \<lparr>vo_mul_add = weaviate_mul_add, vo_search = weaviate_search, vo_rebuild = weaviate_rebuild, vo_delete = weaviate_delete\<rparr>"

text \<open>The contract, and the invariant: at most one object has an id.\<close>

definition weaviate_contract :: "('u, 'v, 'i) weaviate_lib \<Rightarrow> bool" where
  "weaviate_contract lib \<longleftrightarrow>
     (\<forall>n v i. \<exists>u. u \<notin> fst ` wl_objects lib i \<and> wl_objects lib (wl_create lib n v i) = insert (u, n, v) (wl_objects lib i)) \<and>
     (\<forall>v k i. snd ` set (wl_near lib v k i) \<subseteq> (fst \<circ> snd) ` wl_objects lib i) \<and>
     (\<forall>n i. set (wl_where lib n i) = {(u, v). (u, n, v) \<in> wl_objects lib i}) \<and>
     (\<forall>u i. wl_objects lib (wl_remove lib u i) = {x \<in> wl_objects lib i. fst x \<noteq> u})"

definition weaviate_ids :: "('e, 'u, 'v, 'i) weaviate \<Rightarrow> int set" where
  "weaviate_ids s = (fst \<circ> snd) ` wl_objects (we_lib s) (we_client s)"

definition weaviate_inv :: "('e, 'u, 'v, 'i) weaviate \<Rightarrow> bool" where
  "weaviate_inv s \<longleftrightarrow> weaviate_contract (we_lib s) \<and>
     inj_on fst (wl_objects (we_lib s) (we_client s)) \<and> inj_on (fst \<circ> snd) (wl_objects (we_lib s) (we_client s))"

lemma weaviate_contractD:
  assumes "weaviate_contract lib"
  shows "\<exists>u. u \<notin> fst ` wl_objects lib i \<and> wl_objects lib (wl_create lib n v i) = insert (u, n, v) (wl_objects lib i)"
    "snd ` set (wl_near lib v k i) \<subseteq> (fst \<circ> snd) ` wl_objects lib i"
    "set (wl_where lib n i) = {(u, v). (u, n, v) \<in> wl_objects lib i}"
    "wl_objects lib (wl_remove lib u i) = {x \<in> wl_objects lib i. fst x \<noteq> u}"
proof -
  note c = assms[unfolded weaviate_contract_def]
  show "\<exists>u. u \<notin> fst ` wl_objects lib i \<and> wl_objects lib (wl_create lib n v i) = insert (u, n, v) (wl_objects lib i)"
    using c[THEN conjunct1] by blast
  show "snd ` set (wl_near lib v k i) \<subseteq> (fst \<circ> snd) ` wl_objects lib i"
    using c[THEN conjunct2, THEN conjunct1] by blast
  show "set (wl_where lib n i) = {(u, v). (u, n, v) \<in> wl_objects lib i}"
    using c[THEN conjunct2, THEN conjunct2, THEN conjunct1] by blast
  show "wl_objects lib (wl_remove lib u i) = {x \<in> wl_objects lib i. fst x \<noteq> u}"
    using c[THEN conjunct2, THEN conjunct2, THEN conjunct2] by blast
qed

lemma weaviate_create:
  assumes inv: "weaviate_inv s" and new: "n \<notin> weaviate_ids s"
    and s'_def: "s' = s\<lparr>we_client := wl_create (we_lib s) n v (we_client s)\<rparr>"
  shows "weaviate_inv s'" "weaviate_ids s' = insert n (weaviate_ids s)" "wl_where (we_lib s') n (we_client s') = [(u, w)] \<Longrightarrow> w = v"
    "\<exists>u. set (wl_where (we_lib s') n (we_client s')) = {(u, v)}"
proof -
  have C: "weaviate_contract (we_lib s)" using inv by (simp add: weaviate_inv_def)
  obtain u where u: "u \<notin> fst ` wl_objects (we_lib s) (we_client s)"
    "wl_objects (we_lib s) (we_client s') = insert (u, n, v) (wl_objects (we_lib s) (we_client s))"
    using weaviate_contractD(1)[OF C, where n = n and v = v and i = "we_client s"] by (auto simp: s'_def)
  have lib: "we_lib s' = we_lib s" by (simp add: s'_def)
  show "weaviate_inv s'" "weaviate_ids s' = insert n (weaviate_ids s)"
    using inv u new by (auto simp: weaviate_inv_def lib weaviate_ids_def inj_on_def)
  have "set (wl_where (we_lib s') n (we_client s')) = {(u', v'). (u', n, v') \<in> wl_objects (we_lib s) (we_client s')}"
    using weaviate_contractD(3)[OF C] by (simp add: lib)
  also have "\<dots> = {(u, v)}" using new unfolding u(2) by (force simp: weaviate_ids_def)
  finally have w: "set (wl_where (we_lib s') n (we_client s')) = {(u, v)}" .
  then show "\<exists>u. set (wl_where (we_lib s') n (we_client s')) = {(u, v)}" by blast
  from w show "wl_where (we_lib s') n (we_client s') = [(u, w)] \<Longrightarrow> w = v" for u w by auto
qed

lemma weaviate_add_all:
  assumes "weaviate_inv s" "distinct (map fst ds)" "fst ` set ds \<inter> weaviate_ids s = {}"
  shows "\<exists>s'. weaviate_mul_add ds s = (Inr (), s') \<and> weaviate_ids s' = weaviate_ids s \<union> fst ` set ds \<and> weaviate_inv s'"
  using assms
proof (induction ds arbitrary: s)
  case (Cons d ds)
  obtain n e where d: "d = (n, e)" by (rule prod.exhaust)
  let ?s = "s\<lparr>we_client := wl_create (we_lib s) n (we_conv s e) (we_client s)\<rparr>"
  have new: "n \<notin> weaviate_ids s" using Cons.prems(3) by (simp add: d)
  note s = weaviate_create(1,2)[OF Cons.prems(1) new refl, of "we_conv s e"]
  have "fst ` set ds \<inter> weaviate_ids ?s = {}" using Cons.prems(2,3) by (auto simp: s(2) d)
  from Cons.IH[OF s(1) _ this] Cons.prems(2) obtain s' where "weaviate_mul_add ds ?s = (Inr (), s')"
    "weaviate_ids s' = weaviate_ids ?s \<union> fst ` set ds" "weaviate_inv s'" by auto
  then show ?case by (intro exI[of _ s']) (auto simp: weaviate_mul_add_def d s(2))
qed (simp add: weaviate_mul_add_def)

lemma weaviate_uuids:
  assumes inv: "weaviate_inv s" and "set ks \<subseteq> weaviate_ids s"
  shows "\<exists>us. get_uuids ks s = Inr us \<and>
    (\<forall>x \<in> wl_objects (we_lib s) (we_client s). fst x \<in> set us \<longleftrightarrow> fst (snd x) \<in> set ks)"
  using assms(2)
proof (induction ks)
  case (Cons n ks)
  let ?O = "wl_objects (we_lib s) (we_client s)"
  have C: "weaviate_contract (we_lib s)" and I: "inj_on fst ?O" "inj_on (fst \<circ> snd) ?O"
    using inv by (simp_all add: weaviate_inv_def)
  from Cons obtain us where us: "get_uuids ks s = Inr us" "\<forall>x \<in> ?O. fst x \<in> set us \<longleftrightarrow> fst (snd x) \<in> set ks" by auto
  from Cons.prems obtain u v where uv: "(u, n, v) \<in> ?O" by (auto simp: weaviate_ids_def)
  have uniq: "u' = u \<and> v' = v" if "(u', n, v') \<in> ?O" for u' v'
    using inj_onD[OF I(2) _ that uv] by simp
  have "{(u', v'). (u', n, v') \<in> ?O} = {(u, v)}"
  proof (rule set_eqI)
    fix y :: "'b \<times> 'c"
    show "y \<in> {(u', v'). (u', n, v') \<in> ?O} \<longleftrightarrow> y \<in> {(u, v)}"
      by (cases y) (use uv uniq in blast)
  qed
  then have W: "set (wl_where (we_lib s) n (we_client s)) = {(u, v)}"
    unfolding weaviate_contractD(3)[OF C] .
  then obtain x xs where xs: "wl_where (we_lib s) n (we_client s) = x # xs" by (cases "wl_where (we_lib s) n (we_client s)") auto
  with W have "x = (u, v)" by auto
  then have "get_uuids (n # ks) s = Inr (u # us)" using us(1) by (simp add: get_uuids_def xs py_nth_def)
  moreover have "fst y = u \<longleftrightarrow> fst (snd y) = n" if "y \<in> ?O" for y
    using inj_onD[OF I(1) _ that uv] inj_onD[OF I(2) _ that uv]
    by (cases y) auto
  ultimately show ?case using us(2) by auto
qed (simp add: get_uuids_def)

lemma weaviate_remove_all:
  assumes "weaviate_contract (we_lib s)"
  shows "\<exists>i. fold (\<lambda>u s. s\<lparr>we_client := wl_remove (we_lib s) u (we_client s)\<rparr>) us s = s\<lparr>we_client := i\<rparr> \<and>
    wl_objects (we_lib s) i = {x \<in> wl_objects (we_lib s) (we_client s). fst x \<notin> set us}"
  using assms
proof (induction us arbitrary: s)
  case Nil
  then show ?case by (intro exI[of _ "we_client s"]) simp
next
  case (Cons u us)
  let ?s = "s\<lparr>we_client := wl_remove (we_lib s) u (we_client s)\<rparr>"
  from Cons.IH[of ?s] Cons.prems obtain i where
    "fold (\<lambda>u s. s\<lparr>we_client := wl_remove (we_lib s) u (we_client s)\<rparr>) us ?s = s\<lparr>we_client := i\<rparr>"
    "wl_objects (we_lib s) i = {x \<in> wl_objects (we_lib s) (wl_remove (we_lib s) u (we_client s)). fst x \<notin> set us}" by auto
  then show ?case unfolding weaviate_contractD(4)[OF Cons.prems] by (intro exI[of _ i]) auto
qed

lemma weaviate_delete_all:
  assumes inv: "weaviate_inv s" and ks: "set ks \<subseteq> weaviate_ids s"
  shows "\<exists>s'. weaviate_delete ks s = (Inr (), s') \<and> weaviate_ids s' = weaviate_ids s - set ks \<and> weaviate_inv s' \<and>
    we_lib s' = we_lib s \<and> we_conv s' = we_conv s \<and> we_back s' = we_back s"
proof -
  have C: "weaviate_contract (we_lib s)" using inv by (simp add: weaviate_inv_def)
  obtain us where us: "get_uuids ks s = Inr us"
    "\<forall>x \<in> wl_objects (we_lib s) (we_client s). fst x \<in> set us \<longleftrightarrow> fst (snd x) \<in> set ks"
    using weaviate_uuids[OF assms] by blast
  obtain i where i: "fold (\<lambda>u s. s\<lparr>we_client := wl_remove (we_lib s) u (we_client s)\<rparr>) us s = s\<lparr>we_client := i\<rparr>"
    "wl_objects (we_lib s) i = {x \<in> wl_objects (we_lib s) (we_client s). fst x \<notin> set us}"
    using weaviate_remove_all[OF C] by blast
  have "{x \<in> wl_objects (we_lib s) (we_client s). fst x \<notin> set us} = {x \<in> wl_objects (we_lib s) (we_client s). fst (snd x) \<notin> set ks}"
    using us(2) by blast
  then have "weaviate_ids (s\<lparr>we_client := i\<rparr>) = weaviate_ids s - set ks" by (auto simp: weaviate_ids_def i(2))
  moreover have "weaviate_inv (s\<lparr>we_client := i\<rparr>)" using inv by (auto simp: weaviate_inv_def i(2) inj_on_def)
  ultimately show ?thesis by (simp add: weaviate_delete_def us(1) i(1))
qed

interpretation weaviate: vector_store "weaviate_ops :: ('e, ('e, 'u, 'v, 'i) weaviate) vector_ops"
  weaviate_ids weaviate_inv "\<lambda>s e. True"
proof
  fix s s' :: "('e, 'u, 'v, 'i) weaviate" and ds :: "(int \<times> 'e) list" and ks :: "int list" and e k hits
  assume inv: "weaviate_inv s"
  show "\<exists>s'. vo_mul_add weaviate_ops ds s = (Inr (), s') \<and> weaviate_ids s' = weaviate_ids s \<union> fst ` set ds \<and>
      weaviate_inv s' \<and> (\<lambda>e. True) = (\<lambda>e. True)" if "distinct (map fst ds)" "fst ` set ds \<inter> weaviate_ids s = {}"
    using weaviate_add_all[OF inv that] by (simp add: weaviate_ops_def)
  show "\<exists>s'. vo_delete weaviate_ops ks s = (Inr (), s') \<and> weaviate_ids s' = weaviate_ids s - set ks \<and>
      weaviate_inv s' \<and> (\<lambda>e. True) = (\<lambda>e. True)" if "set ks \<subseteq> weaviate_ids s"
    using weaviate_delete_all[OF inv that] by (auto simp: weaviate_ops_def)
  show "\<exists>s'. vo_rebuild weaviate_ops ks s = (Inr (), s') \<and> set ks \<subseteq> weaviate_ids s' \<and> weaviate_ids s' \<subseteq> weaviate_ids s \<and>
      weaviate_inv s' \<and> (\<lambda>e. True) = (\<lambda>e. True)" if "set ks \<subseteq> weaviate_ids s"
    using inv that by (simp add: weaviate_ops_def weaviate_rebuild_def)
  have C: "weaviate_contract (we_lib s)" using inv by (simp add: weaviate_inv_def)
  assume "vo_search weaviate_ops e k s = (Inr (Some hits), s')"
  then show "s' = s \<and> snd ` set hits \<subseteq> insert (- 1) (weaviate_ids s)"
    using weaviate_contractD(2)[OF C, of "we_conv s e" "if k = - 1 then we_top_k s else k" "we_client s"]
    unfolding weaviate_ids_def weaviate_ops_def weaviate_search_def Let_def by auto
qed

text \<open>The data manager over Milvus keeps its eviction cache and the stores in agreement, as over Faiss.\<close>

interpretation gsm: synced_cache gdsf_popitem "gdsf_getitem rnd" "gdsf_store rnd" gdsf_keys
    "gdsf_maxsize msz" "gdsf_policy_inv rnd msz" "\<lambda>v. 0 \<le> cost_of rnd v" gdsf_room gdsf_too_large
    "sql_ops :: ('e, ('y, 'e, 'd) sql) storage_ops" "sql_with 0" "sql_with (- 1)" sql_inv sql_insertable
    "milvus_ops :: ('e, ('e, int, 'v, 'i) vec_client) vector_ops" "client_ids (\<lambda>s n. n)"
    "client_inv (\<lambda>s n. n) (\<lambda>s. True)" client_fits rnd
  for rnd msz
  by unfold_locales simp_all

interpretation gsw: synced_cache gdsf_popitem "gdsf_getitem rnd" "gdsf_store rnd" gdsf_keys
    "gdsf_maxsize msz" "gdsf_policy_inv rnd msz" "\<lambda>v. 0 \<le> cost_of rnd v" gdsf_room gdsf_too_large
    "sql_ops :: ('e, ('y, 'e, 'd) sql) storage_ops" "sql_with 0" "sql_with (- 1)" sql_inv sql_insertable
    "weaviate_ops :: ('e, ('e, 'u, 'v, 'i) weaviate) vector_ops" weaviate_ids weaviate_inv "\<lambda>s e. True" rnd
  for rnd msz
  by unfold_locales simp_all

section \<open>Collections that meet the contracts\<close>

text \<open>Association lists.\<close>

definition list_client :: "(int, nat, (int \<times> nat) list) client_lib" where
  "list_client = \<lparr>cl_get = map_of, cl_fits = (\<lambda>i v. True), cl_put = (\<lambda>ds i. (Inr (), ds @ i)),
     cl_set = (\<lambda>k v i. (Inr (), (k, v) # i)), cl_query = (\<lambda>v k i. Inr (map (\<lambda>(j, x). (0, j)) (take (nat k) i))),
     cl_drop = (\<lambda>ks i. (Inr (), filter (\<lambda>(j, x). j \<notin> set ks) i)), cl_tidy = (\<lambda>i. i), cl_size = length\<rparr>"

lemma map_of_filter_keys: "map_of (filter (\<lambda>(j, x). j \<notin> S) xs) = map_of xs |` (- S)"
  by (induction xs) (auto simp: fun_eq_iff restrict_map_def)

lemma list_client_contract: "client_contract list_client"
proof -
  have "map_of i b \<noteq> None" if "(a, b) \<in> set (map (\<lambda>(j, x). (0, j)) (take n i))" for a :: real and b :: int and n and i :: "(int \<times> nat) list"
  proof -
    from that obtain x where "(b, x) \<in> set (take n i)" by auto
    then show ?thesis using weak_map_of_SomeI[of b x i] by (auto dest: in_set_takeD)
  qed
  then show ?thesis
    unfolding client_contract_def by (simp add: list_client_def map_of_filter_keys map_add_def[symmetric] split_paired_all)
qed

definition milvus_one :: "(nat, int, nat, (int \<times> nat) list) vec_client" where
  "milvus_one = \<lparr>vc_lib = list_client, vc_conv = (\<lambda>e. e), vc_back = (\<lambda>v. v), vc_index = [(7, 1)], vc_top_k = 1, vc_prefix = []\<rparr>"

lemma milvus_one_inv: "client_inv (\<lambda>s n. n) (\<lambda>s. True) milvus_one" "7 \<in> client_ids (\<lambda>s n. n) milvus_one"
  using list_client_contract by (simp_all add: client_inv_def milvus_one_def client_ids_def list_client_def)

definition weaviate_list :: "(nat, nat, (nat \<times> int \<times> nat) list) weaviate_lib" where
  "weaviate_list = \<lparr>wl_objects = set, wl_create = (\<lambda>n v i. (Suc (Max (insert 0 (set (map fst i)))), n, v) # i),
     wl_near = (\<lambda>v k i. map (\<lambda>(u, n, v). (0, n)) (take (nat k) i)),
     wl_where = (\<lambda>n i. map (\<lambda>(u, n, v). (u, v)) (filter (\<lambda>(u, m, v). m = n) i)),
     wl_remove = (\<lambda>u i. filter (\<lambda>x. fst x \<noteq> u) i)\<rparr>"

lemma weaviate_list_contract: "weaviate_contract weaviate_list"
proof -
  have fresh: "Suc (Max (insert 0 (fst ` set i))) \<notin> fst ` set i" for i :: "(nat \<times> int \<times> nat) list"
  proof
    assume "Suc (Max (insert 0 (fst ` set i))) \<in> fst ` set i"
    then have "Suc (Max (insert 0 (fst ` set i))) \<le> Max (insert 0 (fst ` set i))" by (intro Max_ge) auto
    then show False by simp
  qed
  have near: "snd ` set (map (\<lambda>(u, n, v). (0 :: real, n)) (take k i)) \<subseteq> (\<lambda>x. fst (snd x)) ` set i" for k and i :: "(nat \<times> int \<times> nat) list"
    by (force dest: in_set_takeD)
  show ?thesis
    unfolding weaviate_contract_def
  proof (intro conjI allI)
    fix n :: int and v k and i :: "(nat \<times> int \<times> nat) list" and u :: nat
    show "\<exists>u. u \<notin> fst ` wl_objects weaviate_list i \<and>
        wl_objects weaviate_list (wl_create weaviate_list n v i) = insert (u, n, v) (wl_objects weaviate_list i)"
      using fresh[of i] by (intro exI[of _ "Suc (Max (insert 0 (fst ` set i)))"]) (simp add: weaviate_list_def)
    show "snd ` set (wl_near weaviate_list v k i) \<subseteq> (fst \<circ> snd) ` wl_objects weaviate_list i"
      using near[of "nat k" i] by (simp add: weaviate_list_def comp_def)
    show "set (wl_where weaviate_list n i) = {(u, v). (u, n, v) \<in> wl_objects weaviate_list i}"
      by (force simp: weaviate_list_def)
    show "wl_objects weaviate_list (wl_remove weaviate_list u i) = {x \<in> wl_objects weaviate_list i. fst x \<noteq> u}"
      by (simp add: weaviate_list_def)
  qed
qed

definition weaviate_one :: "(nat, nat, nat, (nat \<times> int \<times> nat) list) weaviate" where
  "weaviate_one = \<lparr>we_lib = weaviate_list, we_conv = (\<lambda>e. e), we_back = (\<lambda>v. v), we_client = [(3, 7, 1)], we_top_k = 1\<rparr>"

lemma weaviate_one_inv: "weaviate_inv weaviate_one" "weaviate_ids weaviate_one = {7}"
  using weaviate_list_contract by (simp_all add: weaviate_inv_def weaviate_one_def weaviate_ids_def weaviate_list_def)

definition list_hnsw :: "(nat, (int \<times> nat) list \<times> nat) hnsw_lib" where
  "list_hnsw = \<lparr>hl_get = (\<lambda>i. map_of (fst i)), hl_used = snd, hl_fits = (\<lambda>v. True), hl_fresh = ([], 0),
     hl_add = (\<lambda>ds (xs, n). if n + length ds \<le> 10 then (Inr (), (ds @ xs, n + length ds)) else (Inl RuntimeErr, (xs, n))),
     hl_knn = (\<lambda>v k (xs, n). Inr (map (\<lambda>(j, x). (0, j)) (take (nat k) xs))),
     hl_mark = (\<lambda>k (xs, n). (Inr (), (filter (\<lambda>(j, x). j \<notin> {k}) xs, n))),
     hl_items = (\<lambda>ks i. map_res (\<lambda>k. case map_of (fst i) k of None \<Rightarrow> Inl RuntimeErr | Some v \<Rightarrow> Inr v) ks)\<rparr>"

lemma list_hnsw_contract: "hnsw_contract 10 list_hnsw"
proof -
  have items: "map_res (\<lambda>k. case map_of i k of None \<Rightarrow> Inl RuntimeErr | Some v \<Rightarrow> Inr v) ks = Inr (map (\<lambda>k. the (map_of i k)) ks)"
    if "\<forall>k \<in> set ks. \<exists>v. map_of i k = Some v" for i :: "(int \<times> nat) list" and ks
    using that by (induction ks) auto
  have "map_of (filter (\<lambda>(j, x). j \<notin> {k}) xs) = (map_of xs)(k := None)" for k :: int and xs :: "(int \<times> nat) list"
    unfolding map_of_filter_keys by (auto simp: restrict_map_def)
  then show ?thesis
    unfolding hnsw_contract_def by (simp add: list_hnsw_def items)
qed

section \<open>Properties\<close>

text \<open>
  Replacing an embedding in Weaviate. For an id that is stored, \<open>update_embeddings\<close> leaves the stored ids as
  they are and \<open>get_embeddings\<close> gives the new vector back (as converted for the library and back); for an id that
  is not stored it raises \<open>IndexError\<close> and changes nothing.
\<close>

theorem weaviate_update_then_get:
  assumes inv: "weaviate_inv s"
  shows "(n \<in> weaviate_ids s \<longrightarrow> (\<exists>s'. weaviate_update_embeddings n e s = (Inr (), s') \<and> weaviate_inv s' \<and> weaviate_ids s' = weaviate_ids s \<and>
      weaviate_get_embeddings n s' = (Inr (Some (we_back s (we_conv s e))), s'))) \<and>
    (n \<notin> weaviate_ids s \<longrightarrow> weaviate_update_embeddings n e s = (Inl IndexError, s) \<and> weaviate_get_embeddings n s = (Inr None, s))"
proof (cases "n \<in> weaviate_ids s")
  case True
  with weaviate_delete_all[OF inv, of "[n]"] obtain s1 where s1: "weaviate_delete [n] s = (Inr (), s1)"
    "weaviate_ids s1 = weaviate_ids s - {n}" "weaviate_inv s1" "we_conv s1 = we_conv s" "we_back s1 = we_back s" by auto
  let ?s = "s1\<lparr>we_client := wl_create (we_lib s1) n (we_conv s1 e) (we_client s1)\<rparr>"
  have new: "n \<notin> weaviate_ids s1" by (simp add: s1(2))
  note s = weaviate_create[OF s1(3) new refl, of "we_conv s1 e"]
  obtain u where "set (wl_where (we_lib ?s) n (we_client ?s)) = {(u, we_conv s1 e)}" using s(4) by blast
  then have "weaviate_get_embeddings n ?s = (Inr (Some (we_back s (we_conv s e))), ?s)"
    by (cases "wl_where (we_lib ?s) n (we_client ?s)") (auto simp: weaviate_get_embeddings_def s1)
  moreover have "weaviate_ids ?s = weaviate_ids s" using s(2) True by (auto simp: s1(2))
  moreover have "weaviate_update_embeddings n e s = (Inr (), ?s)" by (simp add: weaviate_update_embeddings_def s1(1))
  ultimately show ?thesis using s(1) True by blast
next
  case False
  have C: "weaviate_contract (we_lib s)" using inv by (simp add: weaviate_inv_def)
  have "set (wl_where (we_lib s) n (we_client s)) = {}"
    unfolding weaviate_contractD(3)[OF C] using False by (force simp: weaviate_ids_def)
  then show ?thesis using False
    by (simp add: weaviate_update_embeddings_def weaviate_delete_def get_uuids_def py_nth_def weaviate_get_embeddings_def)
qed

theorem weaviate_update_then_get_witness:
  "\<exists>s'. weaviate_update_embeddings 7 5 weaviate_one = (Inr (), s') \<and> weaviate_get_embeddings 7 s' = (Inr (Some 5), s')"
proof -
  have again: "we_back weaviate_one (we_conv weaviate_one 5) = 5" by (simp add: weaviate_one_def)
  have "7 \<in> weaviate_ids weaviate_one" by (simp add: weaviate_one_inv(2))
  with weaviate_update_then_get[OF weaviate_one_inv(1), of 7 5] show ?thesis unfolding again by blast
qed

text \<open>
  Rebuilding an \<open>Hnswlib\<close> index. For stored ids the new index holds exactly these ids with their vectors and
  takes no more places than there are ids, so that the places of deleted vectors are free again. For no ids the
  method raises \<open>ValueError\<close>, after the index was replaced by an empty one.
\<close>

theorem hnswlib_rebuild_keeps:
  assumes lib: "hnsw_contract mx (hn_lib s)" and ids: "distinct ids" "\<forall>k \<in> set ids. hl_get (hn_lib s) (hn_index s) k \<noteq> None"
    and room: "length ids \<le> mx" and again: "\<And>v. hn_again s v = v"
  shows "(ids \<noteq> [] \<longrightarrow> (\<exists>i. hnswlib_rebuild ids s = (Inr (), s\<lparr>hn_index := i\<rparr>) \<and>
      hl_get (hn_lib s) i = hl_get (hn_lib s) (hn_index s) |` set ids \<and> hl_used (hn_lib s) i \<le> length ids)) \<and>
    (ids = [] \<longrightarrow> hnswlib_rebuild ids s = (Inl ValueError, s\<lparr>hn_index := hl_fresh (hn_lib s)\<rparr>))"
proof -
  note c = lib[unfolded hnsw_contract_def]
  let ?G = "hl_get (hn_lib s) (hn_index s)"
  have items: "hl_items (hn_lib s) ids (hn_index s) = Inr (map (\<lambda>k. the (?G k)) ids)"
    by (rule c[THEN conjunct2, THEN conjunct2, THEN conjunct2, THEN conjunct1, rule_format]) (use ids(2) in blast)
  let ?ds = "map (\<lambda>k. (k, the (?G k))) ids"
  have ds: "map (\<lambda>(i, e). (i, hn_again s e)) (zip ids (map (\<lambda>k. the (?G k)) ids)) = ?ds"
    by (rule nth_equalityI) (simp_all add: again)
  have keys: "map fst ?ds = ids" by (simp add: comp_def)
  have fit: "\<forall>d \<in> set ?ds. hl_fits (hn_lib s) (snd d)"
  proof
    fix d assume "d \<in> set ?ds"
    then obtain k v where "d = (k, v)" "?G k = Some v" using ids(2) by auto
    then show "hl_fits (hn_lib s) (snd d)" using c by simp
  qed
  have "hl_used (hn_lib s) (hl_fresh (hn_lib s)) + length ?ds \<le> mx" using c room by simp
  moreover have "distinct (map fst ?ds)" unfolding keys by (rule ids(1))
  ultimately obtain i where i: "hl_add (hn_lib s) ?ds (hl_fresh (hn_lib s)) = (Inr (), i)"
    "hl_get (hn_lib s) i = Map.empty ++ map_of ?ds" "hl_used (hn_lib s) i \<le> length ids"
    using c[THEN conjunct2, THEN conjunct2, THEN conjunct1, rule_format, of ?ds "hl_fresh (hn_lib s)"] fit c by auto
  have "map_of ?ds = ?G |` set ids"
    using ids(2) unfolding map_of_map_restrict by (auto simp: fun_eq_iff restrict_map_def)
  with i have added: "hnswlib_add_items ?ds (s\<lparr>hn_index := hl_fresh (hn_lib s)\<rparr>) = (Inr (), s\<lparr>hn_index := i\<rparr>)"
    and kept: "hl_get (hn_lib s) i = ?G |` set ids" by (simp_all add: hnswlib_add_items_def)
  have "hnswlib_rebuild ids s = (if ids = [] then (Inl ValueError, s\<lparr>hn_index := hl_fresh (hn_lib s)\<rparr>)
      else hnswlib_add_items ?ds (s\<lparr>hn_index := hl_fresh (hn_lib s)\<rparr>))"
    unfolding hnswlib_rebuild_def items bind_out.simps Let_def hnswlib_mul_add_with_def by (simp add: ds)
  with added kept i(3) show ?thesis by auto
qed

definition hnswlib_one :: "(nat, nat, (int \<times> nat) list \<times> nat) hnswlib" where
  "hnswlib_one = \<lparr>hn_lib = list_hnsw, hn_float32 = (\<lambda>e. e), hn_again = (\<lambda>v. v), hn_index = ([(1, 5), (2, 6)], 2), hn_top_k = 1\<rparr>"

theorem hnswlib_rebuild_keeps_witness:
  "\<exists>i. hnswlib_rebuild [2] hnswlib_one = (Inr (), hnswlib_one\<lparr>hn_index := i\<rparr>) \<and> hl_used list_hnsw i \<le> 1 \<and> hl_get list_hnsw i 2 = Some 6"
proof -
  have lib: "hn_lib hnswlib_one = list_hnsw" by (simp add: hnswlib_one_def)
  have "\<forall>k \<in> set [2]. hl_get (hn_lib hnswlib_one) (hn_index hnswlib_one) k \<noteq> None" "\<And>v. hn_again hnswlib_one v = v"
    by (simp_all add: hnswlib_one_def list_hnsw_def)
  with hnswlib_rebuild_keeps[of 10 hnswlib_one "[2]"] list_hnsw_contract obtain i where
    "hnswlib_rebuild [2] hnswlib_one = (Inr (), hnswlib_one\<lparr>hn_index := i\<rparr>)"
    "hl_get list_hnsw i = hl_get list_hnsw (hn_index hnswlib_one) |` {2}" "hl_used list_hnsw i \<le> 1"
    by (auto simp: lib)
  then show ?thesis by (auto simp: hnswlib_one_def list_hnsw_def)
qed

text \<open>
  With \<open>USearch\<close> evicted vectors are never deleted: \<open>EvictionManager.delete\<close> clears the storage and then raises
  \<open>NotImplementedError\<close>, before its counter moves, so that the index is never rebuilt either and keeps the vectors of
  entries that are gone; a put that evicts passes the exception on whenever \<open>check_evict\<close> asks for deletion.
\<close>

theorem usearch_never_deletes:
  assumes "soft_evict S ks w = (Inr (), w1)" and "so_clear_deleted_data S (em_scalar_storage w1) = (Inr (), st)"
    and "check_evict rnd S w1 = Inr True"
  shows "ss_clear rnd S usearch_ops ks w = (Inl NotImplementedErr, w1\<lparr>em_scalar_storage := st\<rparr>) \<and>
    em_vector_base w1 = em_vector_base w \<and> em_delete_count w1 = em_delete_count w"
  using assms
  by (auto simp: ss_clear_def em_delete_def on_storage_def on_vector_def usearch_ops_def usearch_delete_def soft_evict_def split: prod.splits)

definition usearch_new :: "(nat, int, nat, (int \<times> nat) list) vec_client" where
  "usearch_new = \<lparr>vc_lib = list_client, vc_conv = (\<lambda>e. e), vc_back = (\<lambda>v. v), vc_index = [(1, 1)], vc_top_k = 1, vc_prefix = []\<rparr>"

theorem usearch_never_deletes_witness:
  "\<exists>(s :: (nat, nat, nat list_db) sql) n w2. ss_clear (\<lambda>x. x) sql_ops usearch_ops [n] \<lparr>em_scalar_storage = s, em_vector_base = usearch_new, em_delete_count = 0\<rparr> =
      (Inl NotImplementedErr, w2) \<and> em_vector_base w2 = usearch_new"
proof -
  obtain ids s where s: "so_batch_insert sql_ops [sample_data ''q''] sql_new = (Inr ids, s)" "length ids = 1"
    "sql_with 0 s = sql_with 0 sql_new \<union> set ids" "sql_with (- 1) s = sql_with (- 1) sql_new" "sql_inv s"
    using sql.insert[OF sql_new_inv, of "[sample_data ''q'']"] sample_insertable by auto
  have "sql_with 0 sql_new = {}" "sql_with (- 1) sql_new = {}"
    by (simp_all add: sql_with_def sql_new_def sql_rows_defs list_db_api_def list_table_def)
  with s obtain n where n: "sql_with 0 s = {n}" "sql_with (- 1) s = {}" by (cases ids) auto
  let ?w = "\<lparr>em_scalar_storage = s, em_vector_base = usearch_new, em_delete_count = 0\<rparr>"
  obtain s1 where s1: "so_mark_deleted sql_ops [n] s = (Inr (), s1)" "sql_with 0 s1 = {}" "sql_with (- 1) s1 = {n}" "sql_inv s1"
    using sql.mark[OF s(5), of "[n]"] by (auto simp: n)
  obtain st where st: "so_clear_deleted_data sql_ops s1 = (Inr (), st)" using sql.clear[OF s1(4)] by blast
  have "check_evict (\<lambda>x. x) sql_ops (?w\<lparr>em_scalar_storage := s1\<rparr>) = Inr True"
    using sql.count_marked[OF s1(4)] sql.count_all[OF s1(4)]
    by (simp add: check_evict_def Let_def s1(2,3) MAX_MARK_COUNT_def MAX_MARK_RATE_def)
  from usearch_never_deletes[OF _ _ this, of "[n]" ?w st] s1(1) st show ?thesis
    by (intro exI[of _ s] exI[of _ n]) (auto simp: soft_evict_def on_storage_def)
qed

end
