(* ===== verification/Compose.thy ===== *)
theory Compose
  imports Requests Map_Manager Evaluation
begin

text \<open>
  The default cache put together, as \<open>Cache.init\<close> of \<open>gptcache/core.py\<close> does without arguments: the request path
  (\<open>gptcache/adapter/adapter.py\<close>) over the map data manager (\<open>gptcache/manager/data_manager.py\<close>), with the embedding
  that keeps the text as it is (\<open>gptcache/embedding/string.py\<close>), the exact match evaluation and
  \<open>temperature_softmax\<close>. The lemmas follow a request through the lookup and through saving; together they show
  that a question that was answered once is answered from the cache afterwards.
\<close>

section \<open>The data manager's methods\<close>

definition to_embeddings :: "string \<Rightarrow> 'k req_context \<Rightarrow> string result" where
  "to_embeddings txt ctx = Inr txt"

fun saved_question_arg :: "string saved_question \<Rightarrow> question_arg" where
  "saved_question_arg (SaveRaw q) = QStr q"
| "saved_question_arg (SaveObj deps q) = QObj \<lparr>q_content = q, q_deps = deps\<rparr>"

text \<open>
  The state is the manager with its data file. There are no stores \<open>o\<close> and \<open>v\<close>, so that what asks for them raises
  \<open>AttributeError\<close>; \<open>hit_cache_callback\<close> and \<open>report_cache\<close> do nothing.
\<close>

definition map_dm ::
  "(map_tuple, 'c) container_ops \<Rightarrow> (string set \<Rightarrow> string list) \<Rightarrow> bool
   \<Rightarrow> (string, map_tuple, string, 'c map_manager \<times> 'c snapshot data_file) dm_ops" where
  "map_dm ops order denied = \<lparr>
     do_has_object = (\<lambda>d. Inl AttributeError),
     do_search = (\<lambda>e k (m, df). case map_search ops e m of (r, m) \<Rightarrow> (map_sum id Some r, (m, df))),
     do_get = (\<lambda>v sess (m, df). (map_get_scalar_data order v sess m, (m, df))),
     do_hit = (\<lambda>v d. (Inr (), d)),
     do_add_session = (\<lambda>v name q (m, df). (Inr (), (map_add_session v name m, df))),
     do_report = (\<lambda>q cq v ans rank dt d. (Inr (), d)),
     do_save = (\<lambda>q ans e sess (m, df).
       case map_save ops (saved_question_arg q) ans e sess m of (r, m) \<Rightarrow> Some (r, (m, df))),
     do_flush = (\<lambda>(m, df). (Inr (), (m, map_flush denied m df))),
     do_get_embeddings = (\<lambda>v d. (Inl AttributeError, d)),
     do_update_embeddings = (\<lambda>v e d. (Inl AttributeError, d))\<rparr>"

text \<open>The dictionaries that the evaluation gets, as far as it looks at them.\<close>

fun text_question :: "string + string \<Rightarrow> question_arg" where
  "text_question (Inl q) = QStr q"
| "text_question (Inr q) = QStr q"

definition exact_evaluation ::
  "(string, string) eval_query \<Rightarrow> (string, 'r) eval_cache \<Rightarrow> 'k req_context \<Rightarrow> real result" where
  "exact_evaluation q c ctx =
     exact_match
       \<lparr>ed_question = Some (text_question (eq_question q)), ed_answer = None, ed_embedding = None, ed_search = None, ed_created = None\<rparr>
       \<lparr>ed_question = Some (ec_question c), ed_answer = None, ed_embedding = None, ed_search = None, ed_created = None\<rparr>"

text \<open>A cache with these parts; the preprocessing function and the settings are free.\<close>

definition default_cache ::
  "(map_tuple, 'c) container_ops \<Rightarrow> (string set \<Rightarrow> string list) \<Rightarrow> bool \<Rightarrow> ('k kwargs \<Rightarrow> bool result)
   \<Rightarrow> ('k kwargs \<Rightarrow> 'k req_context \<Rightarrow> config \<Rightarrow> string pre_result result) \<Rightarrow> config
   \<Rightarrow> (string, map_tuple, string, 'c map_manager \<times> 'c snapshot data_file, 'k) cache_cfg" where
  "default_cache ops order denied enable pre conf = \<lparr>cc_has_init = True, cc_enable = enable, cc_pre_embedding = pre,
     cc_embedding = to_embeddings, cc_dm = map_dm ops order denied, cc_range = exact_range,
     cc_evaluation = exact_evaluation, cc_post = PostSoftmax, cc_config = conf\<rparr>"

text \<open>
  \<open>Cache.init\<close>: a function given as \<open>pre_func\<close> or \<open>post_func\<close> takes the place of the longer-named argument; \<open>init\<close>
  keeps the report and sets everything else.
\<close>

definition cache_init ::
  "('k kwargs \<Rightarrow> bool result) \<Rightarrow> ('k kwargs \<Rightarrow> 'k req_context \<Rightarrow> config \<Rightarrow> 'x pre_result result)
   \<Rightarrow> ('k kwargs \<Rightarrow> 'k req_context \<Rightarrow> config \<Rightarrow> 'x pre_result result) option \<Rightarrow> ('x \<Rightarrow> 'k req_context \<Rightarrow> 'e result)
   \<Rightarrow> ('e, 'r, 'x, 'd) dm_ops \<Rightarrow> real \<times> real
   \<Rightarrow> (('e, 'x) eval_query \<Rightarrow> ('e, 'r) eval_cache \<Rightarrow> 'k req_context \<Rightarrow> real result) \<Rightarrow> post_func \<Rightarrow> post_func option
   \<Rightarrow> config \<Rightarrow> 'd \<Rightarrow> report \<Rightarrow> ('e, 'r, 'x, 'd, 'k) cache_obj list \<Rightarrow> ('e, 'r, 'x, 'd, 'k) cache_obj list" where
  "cache_init enable pre_embedding pre_func embedding dm rng evaluation post post_func conf d r next_cache =
     (\<lparr>cc_has_init = True, cc_enable = enable,
        cc_pre_embedding = (case pre_func of None \<Rightarrow> pre_embedding | Some f \<Rightarrow> f),
        cc_embedding = embedding, cc_dm = dm, cc_range = rng, cc_evaluation = evaluation,
        cc_post = (case post_func of None \<Rightarrow> post | Some f \<Rightarrow> f), cc_config = conf\<rparr>, r, d) # next_cache"

text \<open>\<open>Cache.import_data\<close> over the data manager's \<open>import_data\<close>; an empty list of session ids counts as none.\<close>

definition cache_import_data ::
  "('q \<Rightarrow> 'e result) \<Rightarrow> ('q list \<Rightarrow> 'a list \<Rightarrow> 'e list \<Rightarrow> string option list \<Rightarrow> 'd \<Rightarrow> (unit, 'd) outcome)
   \<Rightarrow> 'q list \<Rightarrow> 'a list \<Rightarrow> string option list option \<Rightarrow> 'd \<Rightarrow> (unit, 'd) outcome" where
  "cache_import_data embedding_func dm_import questions answers session_ids d =
     bind_out (map_res embedding_func questions, d) (\<lambda>embs d.
       dm_import questions answers embs
         (case session_ids of
            None \<Rightarrow> replicate (length questions) None
          | Some ids \<Rightarrow> if ids = [] then replicate (length questions) None else ids) d)"

section \<open>A request on a cached question\<close>

lemma timed_pure:
  assumes "y = Inr x"
  shows "\<exists>r'. timed env rep (\<lambda>s. (y, s)) (r, t, w) = (Inr x, (r', Suc (Suc t), w))"
  by (simp add: timed_def time_cal_def assms)

lemma timed_dm:
  assumes "f d = (Inr x, d')"
  shows "\<exists>r'. timed env rep (on_dm f) (r, t, d, tr) = (Inr x, (r', Suc (Suc t), d', tr))"
  by (simp add: timed_def time_cal_def on_dm_def assms)

text \<open>What the map data manager gives for a cached key.\<close>

lemma map_dm_search:
  assumes "container_contract ops" "map_view ops m q = Some (v, s)"
  shows "\<exists>m'. do_search (map_dm ops order denied) q k (m, df) = (Inr (Some [v]), (m', df)) \<and> map_view ops m' = map_view ops m \<and> (map_inv ops m \<longrightarrow> map_inv ops m')"
proof -
  have "ct_lookup ops (mm_data m) q = Some v" using assms(2) by (auto simp: map_view_def)
  with map_search_spec[OF assms(1), of q m] show ?thesis
    by (auto simp: map_dm_def map_view_def fun_eq_iff)
qed

lemma map_dm_get:
  "do_get (map_dm ops order denied) v None (m, df) =
     (Inr (Some (cache_data_init (QStr (mt_question v)) (mt_answer v) None NoSession None None)), (m, df))"
  by (simp add: map_dm_def map_get_scalar_data_def)

lemma evaluate_cached:
  assumes same: "mt_question v = q"
    and ans: "cd_answers (cache_data_init (QStr q) (mt_answer v) (None :: string option) NoSession None None) = a # as"
    and conf: "\<not> cf_data_check conf" and threshold: "threshold \<le> 1"
  shows "\<exists>r' t'. evaluate_one True env (default_cache ops order denied enable pre conf) ctx None threshold q e v
      (r, t, (m, df), tr) =
    (Inr (Some (1, ans_content a, v, cache_data_init (QStr q) (mt_answer v) None NoSession None None)), (r', t', (m, df), tr))"
proof -
  let ?cfg = "default_cache ops order denied enable pre conf"
  let ?data = "cache_data_init (QStr q) (mt_answer v) (None :: string option) NoSession None None"
  have "do_get (cc_dm ?cfg) v None (m, df) = (Inr (Some ?data), (m, df))"
    by (simp add: default_cache_def map_dm_get same)
  from timed_dm[of "do_get (cc_dm ?cfg) v None" "(m, df)", OF this, of env rep_data r t tr] obtain r1 where get:
    "timed env rep_data (on_dm (do_get (cc_dm ?cfg) v None)) (r, t, (m, df), tr) = (Inr (Some ?data), (r1, Suc (Suc t), (m, df), tr))"
    by blast
  have q: "cd_question ?data = QStr q" by (simp add: cache_data_init_def Let_def)
  let ?qq = "\<lparr>eq_question = Inl q, eq_embedding = Some e\<rparr>"
  let ?cc = "\<lparr>ec_question = QStr q, ec_answer = ans_content a, ec_search_result = v, ec_cache_data = ?data,
    ec_embedding = cd_embedding ?data\<rparr>"
  have "first_answer ?data = Inr (ans_content a)" by (simp add: first_answer_def ans py_nth_def)
  then have args: "eval_args ctx q e v ?data = Inr (?qq, ?cc)"
    by (cases "cx_deps ctx") (simp_all add: eval_args_def q)
  have "cc_evaluation ?cfg ?qq ?cc ctx = Inr 1"
    by (simp add: default_cache_def exact_evaluation_def exact_match_def need_def)
  from timed_pure[OF this, of env rep_evaluation r1 "Suc (Suc t)" "((m, df), tr)"] obtain r2 where ev:
    "timed env rep_evaluation (\<lambda>s. (cc_evaluation ?cfg ?qq ?cc ctx, s)) (r1, Suc (Suc t), (m, df), tr) =
       (Inr 1, (r2, Suc (Suc (Suc (Suc t))), (m, df), tr))"
    by blast
  have hit: "on_dm (do_hit (cc_dm ?cfg) v) s = (Inr (), s)" for s :: "('a map_manager \<times> 'a map_manager data_file, 'b) work"
    by (cases s) (simp add: on_dm_def default_cache_def map_dm_def)
  have conf': "\<not> cf_data_check (cc_config ?cfg)" using conf by (simp add: default_cache_def)
  show ?thesis
    by (simp add: evaluate_one_def get conf' args ev hit threshold)
qed

lemma answer_cached:
  assumes conv: "convert (MsgOne c) = Inr msg"
  shows "\<exists>kw' r' t' tr'. answer_hits True env (default_cache ops order denied enable pre conf) convert kw None 0 start q q
      [(1, c, v, data)] (r, t, (m, df), tr) = (Inr (Some msg, kw'), (r', t', (m, df), tr'))"
proof -
  let ?cfg = "default_cache ops order denied enable pre conf" and ?h = "[(1, c, v, data)]"
  obtain kw1 tr1 where cb: "call_hit_callback True env (cc_range ?cfg) ?h kw (r, t, (m, df), tr) = (kw1, (r, t, (m, df), tr1))"
    by (cases "kw_hit_callback kw") (simp_all add: call_hit_callback_def Let_def)
  have "\<exists>r1 t1. timed env rep_post (post_process env (cc_post ?cfg) 0 ?h) (r, t, (m, df), tr1) =
      (Inr (MsgOne c), (r1, t1, (m, df), tr1))"
    by (simp add: timed_def time_cal_def post_process_def default_cache_def temperature_softmax_def py_nth_def)
  then obtain r1 t1 where post: "timed env rep_post (post_process env (cc_post ?cfg) 0 ?h) (r, t, (m, df), tr1) =
      (Inr (MsgOne c), (r1, t1, (m, df), tr1))" by blast
  have report: "\<exists>r' t'. (case x of Some h \<Rightarrow> if True \<and> b then (Inr (), (rr, t1, (m, df), tr1)) else report_hit env (cc_dm ?cfg) start q h (rr, t1, (m, df), tr1)
        | None \<Rightarrow> (Inr (), (rr, t1, (m, df), tr1))) = (Inr (), (r', t', (m, df), tr1))" for x b and rr :: report
    by (auto simp: report_hit_def on_dm_def default_cache_def map_dm_def split: option.split)
  have "\<exists>r' t'. finish_hit True env ?cfg convert kw1 None start q q x (MsgOne c) (r1, t1, (m, df), tr1) =
      (Inr (Some msg, kw1), (r', t', (m, df), tr1))" for x
    using report[of "hint_cache r1" "cf_disable_report (cc_config ?cfg)" x]
    by (auto simp: finish_hit_def Let_def conv)
  then show ?thesis
    by (simp add: answer_hits_def cb post) blast
qed

lemma lookup_cached:
  assumes C: "container_contract ops" and cached: "map_view ops m q = Some (v, s)" and same: "mt_question v = q"
    and ans: "cd_answers (cache_data_init (QStr q) (mt_answer v) (None :: string option) NoSession None None) = a # as"
    and conf: "\<not> cf_data_check conf" and conv: "convert (MsgOne (ans_content a)) = Inr msg"
  shows "\<exists>kw' r' t' m' tr'. cache_lookup True env (default_cache ops order denied enable pre conf) convert kw False ctx None 0
      factor start q q q (r, t, (m, df), tr) = (Inr (Some msg, kw'), (r', t', (m', df), tr')) \<and> map_view ops m' = map_view ops m \<and> (map_inv ops m \<longrightarrow> map_inv ops m')"
proof -
  let ?cfg = "default_cache ops order denied enable pre conf"
  let ?k = "pop_or (kw_top_k kw) (- 1)"
  let ?th = "rank_threshold (ae_rnd env) (cc_range ?cfg) (cf_similarity_threshold (cc_config ?cfg)) factor"
  obtain m1 where m1: "do_search (cc_dm ?cfg) q ?k (m, df) = (Inr (Some [v]), (m1, df))" "map_view ops m1 = map_view ops m" "map_inv ops m \<longrightarrow> map_inv ops m1"
  proof -
    have "\<exists>m'. do_search (map_dm ops order denied) q ?k (m, df) = (Inr (Some [v]), (m', df)) \<and> map_view ops m' = map_view ops m \<and> (map_inv ops m \<longrightarrow> map_inv ops m')"
      by (rule map_dm_search[OF C cached])
    then show ?thesis using that by (auto simp: default_cache_def)
  qed
  from timed_dm[of "do_search (cc_dm ?cfg) q ?k" "(m, df)", OF m1(1), of env rep_search r t tr] obtain r1 where search:
    "timed env rep_search (on_dm (do_search (cc_dm ?cfg) q ?k)) (r, t, (m, df), tr) = (Inr (Some [v]), (r1, Suc (Suc t), (m1, df), tr))"
    by blast
  have th: "?th \<le> 1" by (simp add: default_cache_def exact_range_def rank_threshold_def Let_def)
  let ?h = "(1, ans_content a, v, cache_data_init (QStr q) (mt_answer v) None NoSession None None)"
  obtain r2 t2 where ev: "evaluate_one True env ?cfg ctx None ?th q q v (r1, Suc (Suc t), (m1, df), tr) =
      (Inr (Some ?h), (r2, t2, (m1, df), tr))"
    using evaluate_cached[OF same ans conf th] by blast
  have "\<exists>kw' r' t' tr'. answer_hits True env ?cfg convert (kw\<lparr>kw_top_k := None\<rparr>) None 0 start q q [?h] (r2, t2, (m1, df), tr) =
      (Inr (Some msg, kw'), (r', t', (m1, df), tr'))"
    by (rule answer_cached) (rule conv)
  then obtain kw' r' t' tr' where "answer_hits True env ?cfg convert (kw\<lparr>kw_top_k := None\<rparr>) None 0 start q q [?h] (r2, t2, (m1, df), tr) =
      (Inr (Some msg, kw'), (r', t', (m1, df), tr'))" by blast
  then show ?thesis using m1(2,3)
    by (intro exI[of _ kw'] exI[of _ r'] exI[of _ t'] exI[of _ m1] exI[of _ tr']) (simp add: cache_lookup_def search ev)
qed

text \<open>
  A request that the cache may answer: nothing is asked of the object store, no temperature, no session, the cache
  is enabled, and the preprocessing gives the question \<open>q\<close>.
\<close>

definition plain_request ::
  "('k kwargs \<Rightarrow> bool result) \<Rightarrow> ('k kwargs \<Rightarrow> 'k req_context \<Rightarrow> config \<Rightarrow> string pre_result result) \<Rightarrow> config
   \<Rightarrow> 'k kwargs \<Rightarrow> string \<Rightarrow> bool" where
  "plain_request enable pre conf kw q \<longleftrightarrow>
     \<not> pop_or (kw_require_object_store kw) False \<and> \<not> pop_or (kw_search_only kw) False \<and> kw_temperature kw = None \<and>
     \<not> pop_or (kw_cache_skip kw) False \<and> kw_session kw = None \<and> \<not> cf_data_check conf \<and> cf_input_summary_len conf = None \<and>
     (\<forall>kw'. kw_rest kw' = kw_rest kw \<longrightarrow> enable kw' = Inr True) \<and>
     (\<forall>kw' ctx. kw_rest kw' = kw_rest kw \<longrightarrow> pre kw' ctx conf = Inr (PreOne q))"

lemma plain_requestD:
  assumes "plain_request enable pre conf kw q"
  shows "\<not> pop_or (kw_require_object_store kw) False" "\<not> pop_or (kw_search_only kw) False" "kw_temperature kw = None"
    "\<not> pop_or (kw_cache_skip kw) False" "kw_session kw = None" "\<not> cf_data_check conf" "cf_input_summary_len conf = None"
    "\<And>kw'. kw_rest kw' = kw_rest kw \<Longrightarrow> enable kw' = Inr True"
    "\<And>kw' ctx. kw_rest kw' = kw_rest kw \<Longrightarrow> pre kw' ctx conf = Inr (PreOne q)"
  using assms by (auto simp: plain_request_def)

lemma plain_front:
  assumes plain: "plain_request enable pre conf kw q"
    and cfg_def: "cfg = default_cache ops order denied enable pre conf"
  shows "\<exists>r1 t1 kw1 ctx factor. kw_rest kw1 = kw_rest kw \<and>
    adapt_front True env convert cfg kw (r, t, d, tr) =
      bind_out (cache_lookup True env cfg convert kw1 False ctx None 0 factor t q q q (r1, t1, d, tr)) (\<lambda>answer s.
        (Inr (case fst answer of
                Some m \<Rightarrow> Inl m
              | None \<Rightarrow> Inr \<lparr>pd_kwargs = snd answer, pd_search_only = False, pd_context = ctx, pd_session = None,
                  pd_cache_skip = False, pd_cache_factor = factor, pd_embedding = Some q, pd_pre_store = q\<rparr>), s))"
proof -
  note P = plain_requestD[OF plain]
  let ?kw = "kw\<lparr>kw_search_only := None, kw_temperature := None, kw_session := None, kw_require_object_store := None\<rparr>"
  let ?kw1 = "?kw\<lparr>kw_cache_context := None, kw_cache_skip := None, kw_cache_factor := None\<rparr>"
  let ?ctx = "pop_or (kw_cache_context kw) \<lparr>cx_deps = None, cx_more = None\<rparr>"
  have "cc_pre_embedding cfg ?kw1 ?ctx (cc_config cfg) = Inr (PreOne q)" by (simp add: cfg_def default_cache_def P(9))
  from timed_pure[OF this, of env rep_pre r "Suc t" "(d, tr)"] obtain r1 where pre:
    "timed env rep_pre (\<lambda>s. (cc_pre_embedding cfg ?kw1 ?ctx (cc_config cfg), s)) (r, Suc t, d, tr) =
      (Inr (PreOne q), (r1, Suc (Suc (Suc t)), d, tr))" by blast
  have "cc_embedding cfg q ?ctx = Inr q" by (simp add: cfg_def default_cache_def to_embeddings_def)
  from timed_pure[OF this, of env rep_embedding r1 "Suc (Suc (Suc t))" "(d, tr)"] obtain r2 where emb:
    "timed env rep_embedding (\<lambda>s. (cc_embedding cfg q ?ctx, s)) (r1, Suc (Suc (Suc t)), d, tr) =
      (Inr q, (r2, Suc (Suc (Suc (Suc (Suc t)))), d, tr))" by blast
  have pre2: "pre_embed env cfg ?kw1 ?ctx (r, Suc t, d, tr) = (Inr (q, q), (r1, Suc (Suc (Suc t)), d, tr))"
    unfolding pre_embed_def pre using P(7) by (simp add: cfg_def default_cache_def)
  have start: "cc_has_init cfg" "cc_enable cfg ?kw = Inr True"
    by (simp_all add: cfg_def default_cache_def P(8))
  have skip: "\<not> pop_or (kw_cache_skip kw) False" by (rule P(4))
  show ?thesis
    by (rule exI[of _ r2], rule exI[of _ "Suc (Suc (Suc (Suc (Suc t))))"], rule exI[of _ ?kw1], rule exI[of _ ?ctx],
        rule exI[of _ "pop_or (kw_cache_factor kw) 1"])
      (simp add: adapt_front_def Let_def start P(1,2,3,5) skip default_skip_def front_lookup_def pre2 emb cong: option.case_cong)
qed

section \<open>A request on a question that is not cached\<close>

lemma lookup_missed:
  assumes C: "container_contract ops" and missing: "map_view ops m q = None"
  shows "\<exists>r' t' m'. cache_lookup True env (default_cache ops order denied enable pre conf) convert kw False ctx None 0
      factor start q q q (r, t, (m, df), tr) = (Inr (None, kw\<lparr>kw_top_k := None\<rparr>), (r', t', (m', df), tr)) \<and>
    ct_lookup ops (mm_data m') = ct_lookup ops (mm_data m) \<and> mm_sets m' = mm_sets m \<and> mm_next m' = mm_next m"
proof -
  let ?cfg = "default_cache ops order denied enable pre conf"
  let ?k = "pop_or (kw_top_k kw) (- 1)"
  obtain c where c: "ct_get ops q (mm_data m) = (Inl KeyError, c)" "ct_lookup ops c = ct_lookup ops (mm_data m)"
    using container_get[OF C, of q "mm_data m"] missing by (auto simp: map_view_def)
  let ?m = "m\<lparr>mm_data := c\<rparr>"
  have "do_search (cc_dm ?cfg) q ?k (m, df) = (Inr (Some []), (?m, df))"
    by (simp add: default_cache_def map_dm_def map_search_def c)
  from timed_dm[of "do_search (cc_dm ?cfg) q ?k" "(m, df)", OF this, of env rep_search r t tr] obtain r1 where search:
    "timed env rep_search (on_dm (do_search (cc_dm ?cfg) q ?k)) (r, t, (m, df), tr) = (Inr (Some []), (r1, Suc (Suc t), (?m, df), tr))"
    by blast
  show ?thesis
    by (intro exI[of _ r1] exI[of _ "Suc (Suc t)"] exI[of _ ?m])
      (simp add: cache_lookup_def search answer_hits_def c)
qed

lemma save_missed:
  assumes C: "container_contract ops" and inv: "map_inv ops m"
    and pd: "pd_embedding pd = Some q" "pd_pre_store pd = q" "pd_session pd = None"
    and upd: "fst (update resp kw) = [(ans, None)]"
  shows "\<exists>resp' r' t' m' df' v s. save_response env update pd resp kw [(default_cache ops order denied enable pre conf, r, (m, df))] (t, tr) =
      Some (Inr (Some resp'), [(default_cache ops order denied enable pre conf, r', (m', df'))], (t', tr)) \<and>
    map_inv ops m' \<and> map_view ops m' q = Some (v, s) \<and> mt_question v = q \<and> mt_answer v = ans"
proof -
  let ?cfg = "default_cache ops order denied enable pre conf"
  from map_store_spec[OF C inv, of "{}" q ans q] obtain m1 where m1: "map_save ops (QStr q) ans q None m = (Inr (), m1)"
    "map_inv ops m1"
    "map_view ops m1 q = Some (\<lparr>mt_question = q, mt_answer = ans, mt_embedding = q, mt_sessions = mm_next m\<rparr>, {})"
    by (auto simp: map_save_def)
  have save: "do_save (cc_dm ?cfg) (SaveRaw q) ans q None (m, df) = Some (Inr (), (m1, df))"
    by (simp add: default_cache_def map_dm_def m1(1))
  let ?r = "rep_save (ae_rnd env) (ae_rnd env (ae_clock env (Suc t) - ae_clock env t)) r"
  have flush: "cache_flush [(?cfg, ?r, (m1, df))] = (Inr (), [(?cfg, ?r, (m1, map_flush denied m1 df))])"
    by (simp add: default_cache_def map_dm_def)
  have "\<exists>res df' t'. update_cache_func env pd q (ans, None) (?cfg, r, (m, df)) [] t =
      Some (res, [(?cfg, ?r, (m1, df'))], t')"
    by (simp add: update_cache_func_def pd save Let_def flush del: cache_flush.simps cong: if_cong)
  then obtain res df' t' where "update_cache_func env pd q (ans, None) (?cfg, r, (m, df)) [] t =
      Some (res, [(?cfg, ?r, (m1, df'))], t')" by blast
  then have "\<exists>resp'. save_response env update pd resp kw [(?cfg, r, (m, df))] (t, tr) =
      Some (Inr (Some resp'), [(?cfg, ?r, (m1, df'))], (t', tr))"
    by (cases res) (simp_all add: save_response_def pd upd)
  then obtain resp' where "save_response env update pd resp kw [(?cfg, r, (m, df))] (t, tr) =
      Some (Inr (Some resp'), [(?cfg, ?r, (m1, df'))], (t', tr))" by blast
  with m1(2,3) show ?thesis by fastforce
qed

section \<open>Properties\<close>

text \<open>What the first answer of a saved tuple is, and that it is there.\<close>

definition first_saved :: "answers_arg \<Rightarrow> content option" where
  "first_saved ans = (case map to_answer (answer_items ans) of [] \<Rightarrow> None | a # as \<Rightarrow> Some (ans_content a))"

lemma cached_request:
  assumes C: "container_contract ops" and plain: "plain_request enable pre conf kw q"
    and cached: "map_view ops m q = Some (v, s)" "mt_question v = q" "first_saved (mt_answer v) = Some c"
    and conv: "convert (MsgOne c) = Inr msg" and cfg: "cfg = default_cache ops order denied enable pre conf"
  shows "\<exists>r' t' m' tr'. adapt env convert update llm kw [(cfg, r, (m, df))] (t, tr) =
      Some (Inr (Some msg), [(cfg, r', (m', df))], (t', tr')) \<and> tr_llm tr' = tr_llm tr \<and> map_view ops m' = map_view ops m \<and> (map_inv ops m \<longrightarrow> map_inv ops m')"
proof -
  from cached(3) obtain a as where a: "cd_answers (cache_data_init (QStr q) (mt_answer v) (None :: string option) NoSession None None) = a # as"
    "ans_content a = c" by (auto simp: first_saved_def cache_data_init_def split: list.splits)
  obtain r1 t1 kw1 ctx factor where front: "adapt_front True env convert cfg kw (r, t, (m, df), tr) =
      bind_out (cache_lookup True env cfg convert kw1 False ctx None 0 factor t q q q (r1, t1, (m, df), tr)) (\<lambda>answer s.
        (Inr (case fst answer of
                Some m \<Rightarrow> Inl m
              | None \<Rightarrow> Inr \<lparr>pd_kwargs = snd answer, pd_search_only = False, pd_context = ctx, pd_session = None,
                  pd_cache_skip = False, pd_cache_factor = factor, pd_embedding = Some q, pd_pre_store = q\<rparr>), s))"
    using plain_front[OF plain cfg, of env convert r t "(m, df)" tr] by blast
  have "\<exists>kw' r' t' m' tr'. cache_lookup True env cfg convert kw1 False ctx None 0 factor t q q q (r1, t1, (m, df), tr) =
      (Inr (Some msg, kw'), (r', t', (m', df), tr')) \<and> map_view ops m' = map_view ops m \<and> (map_inv ops m \<longrightarrow> map_inv ops m')"
    unfolding cfg by (rule lookup_cached[OF C cached(1,2) a(1) plain_requestD(6)[OF plain]]) (simp add: a(2) conv)
  then obtain kw' r' t' m' tr' where look: "cache_lookup True env cfg convert kw1 False ctx None 0 factor t q q q (r1, t1, (m, df), tr) =
      (Inr (Some msg, kw'), (r', t', (m', df), tr'))" "map_view ops m' = map_view ops m" "map_inv ops m \<longrightarrow> map_inv ops m'" by blast
  have "tr_llm tr' = tr_llm tr"
    using no_llm_front[of "(r, t, (m, df), tr)" True env convert cfg kw] by (simp add: front look(1) no_llm_def)
  then show ?thesis using look(2,3)
    by (intro exI[of _ r'] exI[of _ t'] exI[of _ m'] exI[of _ tr']) (simp add: front look(1))
qed

lemma missed_request:
  assumes C: "container_contract ops" and plain: "plain_request enable pre conf kw q" and inv: "map_inv ops m"
    and missing: "map_view ops m q = None" and cfg: "cfg = default_cache ops order denied enable pre conf"
    and llm: "\<And>kw' t'. kw_rest kw' = kw_rest kw \<Longrightarrow> llm kw' t' = Inr (Some resp)" and truthy: "ae_truthy env resp"
    and upd: "\<And>kw'. fst (update resp kw') = [(ans, None)]"
  shows "\<exists>resp' r' t' m' df' tr' kw' v s. adapt env convert update llm kw [(cfg, r, (m, df))] (t, tr) =
      Some (Inr (Some resp'), [(cfg, r', (m', df'))], (t', tr')) \<and> tr_llm tr' = kw' # tr_llm tr \<and>
    map_inv ops m' \<and> map_view ops m' q = Some (v, s) \<and> mt_question v = q \<and> mt_answer v = ans"
proof -
  obtain r1 t1 kw1 ctx factor where rest: "kw_rest kw1 = kw_rest kw"
    and front: "adapt_front True env convert cfg kw (r, t, (m, df), tr) =
      bind_out (cache_lookup True env cfg convert kw1 False ctx None 0 factor t q q q (r1, t1, (m, df), tr)) (\<lambda>answer s.
        (Inr (case fst answer of
                Some m \<Rightarrow> Inl m
              | None \<Rightarrow> Inr \<lparr>pd_kwargs = snd answer, pd_search_only = False, pd_context = ctx, pd_session = None,
                  pd_cache_skip = False, pd_cache_factor = factor, pd_embedding = Some q, pd_pre_store = q\<rparr>), s))"
    using plain_front[OF plain cfg, of env convert r t "(m, df)" tr] by blast
  let ?kw = "kw1\<lparr>kw_top_k := None\<rparr>"
  let ?pd = "\<lparr>pd_kwargs = ?kw, pd_search_only = False, pd_context = ctx, pd_session = None,
     pd_cache_skip = False, pd_cache_factor = factor, pd_embedding = Some q, pd_pre_store = q\<rparr>"
  have "\<exists>r' t' m'. cache_lookup True env cfg convert kw1 False ctx None 0 factor t q q q (r1, t1, (m, df), tr) =
      (Inr (None, ?kw), (r', t', (m', df), tr)) \<and>
    ct_lookup ops (mm_data m') = ct_lookup ops (mm_data m) \<and> mm_sets m' = mm_sets m \<and> mm_next m' = mm_next m"
    unfolding cfg by (rule lookup_missed[OF C missing])
  then obtain r2 t2 m2 where look: "cache_lookup True env cfg convert kw1 False ctx None 0 factor t q q q (r1, t1, (m, df), tr) =
      (Inr (None, ?kw), (r2, t2, (m2, df), tr))"
    and m2: "ct_lookup ops (mm_data m2) = ct_lookup ops (mm_data m)" "mm_sets m2 = mm_sets m" "mm_next m2 = mm_next m" by blast
  have inv2: "map_inv ops m2" using inv by (simp add: map_inv_def m2)
  have "\<exists>r3. call_llm env llm ?kw (r2, t2, (m2, df), tr) =
      (Inr (Some resp), (r3, Suc (Suc (Suc t2)), (m2, df), tr\<lparr>tr_llm := ?kw # tr_llm tr\<rparr>))"
    by (simp add: call_llm_def timed_def time_cal_def llm rest)
  then obtain r3 where call: "call_llm env llm ?kw (r2, t2, (m2, df), tr) =
      (Inr (Some resp), (r3, Suc (Suc (Suc t2)), (m2, df), tr\<lparr>tr_llm := ?kw # tr_llm tr\<rparr>))" by blast
  have "\<exists>resp' r' t' m' df' v s. save_response env update ?pd resp ?kw [(cfg, r3, (m2, df))]
      (Suc (Suc (Suc t2)), tr\<lparr>tr_llm := ?kw # tr_llm tr\<rparr>) =
      Some (Inr (Some resp'), [(cfg, r', (m', df'))], (t', tr\<lparr>tr_llm := ?kw # tr_llm tr\<rparr>)) \<and>
    map_inv ops m' \<and> map_view ops m' q = Some (v, s) \<and> mt_question v = q \<and> mt_answer v = ans"
    unfolding cfg by (rule save_missed[OF C inv2]) (simp_all add: upd)
  then obtain resp' r' t' m' df' v s where save: "save_response env update ?pd resp ?kw [(cfg, r3, (m2, df))]
      (Suc (Suc (Suc t2)), tr\<lparr>tr_llm := ?kw # tr_llm tr\<rparr>) =
      Some (Inr (Some resp'), [(cfg, r', (m', df'))], (t', tr\<lparr>tr_llm := ?kw # tr_llm tr\<rparr>))"
    and after: "map_inv ops m'" "map_view ops m' q = Some (v, s)" "mt_question v = q" "mt_answer v = ans" by blast
  have "adapt env convert update llm kw [(cfg, r, (m, df))] (t, tr) =
      Some (Inr (Some resp'), [(cfg, r', (m', df'))], (t', tr\<lparr>tr_llm := ?kw # tr_llm tr\<rparr>))"
    by (simp add: front look call truthy save)
  then show ?thesis using after by fastforce
qed

lemma asked_again:
  assumes C: "container_contract ops" and plain: "plain_request enable pre conf kw q" and inv: "map_inv ops m"
    and missing: "map_view ops m q = None" and cfg: "cfg = default_cache ops order denied enable pre conf"
    and llm: "\<And>kw' t'. kw_rest kw' = kw_rest kw \<Longrightarrow> llm kw' t' = Inr (Some resp)" and truthy: "ae_truthy env resp"
    and upd: "\<And>kw'. fst (update resp kw') = [(ans, None)]"
    and ans: "first_saved ans = Some c" and conv: "convert (MsgOne c) = Inr msg"
  shows "\<exists>resp' kw' r1 m1 df1 t1 tr1 r2 m2 t2 tr2.
    adapt env convert update llm kw [(cfg, r, (m, df))] (t, tr) = Some (Inr (Some resp'), [(cfg, r1, (m1, df1))], (t1, tr1)) \<and>
    tr_llm tr1 = kw' # tr_llm tr \<and>
    adapt env convert update llm kw [(cfg, r1, (m1, df1))] (t1, tr1) = Some (Inr (Some msg), [(cfg, r2, (m2, df1))], (t2, tr2)) \<and>
    tr_llm tr2 = tr_llm tr1 \<and> map_view ops m2 = map_view ops m1"
proof -
  obtain resp' r1 t1 m1 df1 tr1 kw' v s where first:
    "adapt env convert update llm kw [(cfg, r, (m, df))] (t, tr) = Some (Inr (Some resp'), [(cfg, r1, (m1, df1))], (t1, tr1))"
    "tr_llm tr1 = kw' # tr_llm tr" and v: "map_view ops m1 q = Some (v, s)" "mt_question v = q" "mt_answer v = ans"
    using missed_request[where llm = llm and update = update and resp = resp and ans = ans and convert = convert and env = env
        and r = r and df = df and t = t and tr = tr, OF C plain inv missing cfg llm truthy upd] by blast
  from ans v(3) have "first_saved (mt_answer v) = Some c" by simp
  from cached_request[where convert = convert and c = c and env = env and update = update and llm = llm and r = r1
      and df = df1 and t = t1 and tr = tr1, OF C plain v(1,2) this conv cfg]
  obtain r2 t2 m2 tr2 where
    "adapt env convert update llm kw [(cfg, r1, (m1, df1))] (t1, tr1) = Some (Inr (Some msg), [(cfg, r2, (m2, df1))], (t2, tr2))"
    "tr_llm tr2 = tr_llm tr1" "map_view ops m2 = map_view ops m1" by blast
  with first show ?thesis by blast
qed

text \<open>
  C3. A question that was asked once is answered from the cache when it is asked again. For the default parts over any
  container, a first request whose question is not cached calls the LLM exactly once and returns; a
  second request with the same question, in the state the first one left, returns the saved answer, without a
  call of the LLM, and leaves the cached entries as they are, so that this goes on for every later request.
  No clock, no rounding and no auto-flush setting changes it, not even one that makes saving raise.
\<close>

theorem second_request_is_served:
  assumes C: "container_contract ops" and plain: "plain_request enable pre conf kw q" and inv: "map_inv ops m"
    and missing: "map_view ops m q = None" and cfg: "cfg = default_cache ops order denied enable pre conf"
    and llm: "\<And>kw' t'. kw_rest kw' = kw_rest kw \<Longrightarrow> llm kw' t' = Inr (Some resp)" and truthy: "ae_truthy env resp"
    and upd: "\<And>kw'. fst (update resp kw') = [(ans, None)]"
    and ans: "first_saved ans = Some c" and conv: "convert (MsgOne c) = Inr msg"
  shows "\<exists>resp' kw' r1 m1 df1 t1 tr1 r2 m2 t2 tr2.
    adapt env convert update llm kw [(cfg, r, (m, df))] (t, tr) = Some (Inr (Some resp'), [(cfg, r1, (m1, df1))], (t1, tr1)) \<and>
    tr_llm tr1 = kw' # tr_llm tr \<and>
    adapt env convert update llm kw [(cfg, r1, (m1, df1))] (t1, tr1) = Some (Inr (Some msg), [(cfg, r2, (m2, df1))], (t2, tr2)) \<and>
    tr_llm tr2 = tr_llm tr1 \<and> map_view ops m2 = map_view ops m1"
  using assms by (rule asked_again)

definition default_env :: "(string, string, string) adapter_env" where
  "default_env = \<lparr>ae_rnd = (\<lambda>x. x), ae_clock = real, ae_round6 = (\<lambda>x. x), ae_pick_skip = (\<lambda>t xs p. hd xs),
     ae_pick_answer = (\<lambda>t xs p. hd xs), ae_str = (\<lambda>m. []), ae_len = (\<lambda>x. int (length x)),
     ae_summarize = (\<lambda>x n. Inr x), ae_as_str = Some, ae_same_embedding = (=), ae_truthy = (\<lambda>m. m \<noteq> [])\<rparr>"

definition hi_cache :: "(string, map_tuple, string, (string \<times> map_tuple) list map_manager \<times> (string \<times> map_tuple) list snapshot data_file, string) cache_cfg" where
  "hi_cache = default_cache dict_container sorted_list_of_set False (\<lambda>kw. Inr True) (\<lambda>kw ctx cf. Inr (PreOne (kw_rest kw))) small_config"

definition hi_kw :: "string kwargs" where
  "hi_kw = (small_kw ''hi'')\<lparr>kw_temperature := None\<rparr>"

lemma plain_small: "plain_request (\<lambda>kw. Inr True) (\<lambda>kw ctx cf. Inr (PreOne (kw_rest kw))) small_config hi_kw ''hi''"
  by (simp add: plain_request_def hi_kw_def small_kw_def small_config_def)

theorem second_request_is_served_witness:
  "\<exists>resp' r1 m1 t1 tr1 r2 m2 t2 tr2.
    adapt default_env small_convert small_update (\<lambda>kw t. Inr (Some ''yes'')) hi_kw [(hi_cache, report_init, (small_map, FileMissing))] (0, no_calls) =
      Some (Inr (Some resp'), [(hi_cache, r1, m1)], (t1, tr1)) \<and> length (tr_llm tr1) = 1 \<and>
    adapt default_env small_convert small_update (\<lambda>kw t. Inr (Some ''yes'')) hi_kw [(hi_cache, r1, m1)] (t1, tr1) =
      Some (Inr (Some ''yes''), [(hi_cache, r2, m2)], (t2, tr2)) \<and> length (tr_llm tr2) = 1"
proof -
  have miss: "map_view dict_container small_map ''hi'' = None"
    by (simp add: map_view_def small_map_def dict_container_def)
  have side: "ae_truthy default_env ''yes''" "fst (small_update ''yes'' kw') = [(AnsStr ''yes'', None)]"
    "first_saved (AnsStr ''yes'') = Some (Text ''yes'')" "small_convert (MsgOne (Text ''yes'')) = Inr ''yes''" for kw'
    by (simp_all add: default_env_def small_update_def first_saved_def)
  from second_request_is_served[where llm = "\<lambda>kw t. Inr (Some ''yes'')" and update = small_update and resp = "''yes''"
      and ans = "AnsStr ''yes''" and convert = small_convert and env = default_env and c = "Text ''yes''" and msg = "''yes''"
      and r = report_init and t = 0 and tr = no_calls and df = FileMissing,
      OF dict_container_contract plain_small small_map_inv miss hi_cache_def refl side]
  obtain resp' kw' r1 m1 df1 t1 tr1 r2 m2 t2 tr2 where
    "adapt default_env small_convert small_update (\<lambda>kw t. Inr (Some ''yes'')) hi_kw [(hi_cache, report_init, (small_map, FileMissing))] (0, no_calls) =
      Some (Inr (Some resp'), [(hi_cache, r1, (m1, df1))], (t1, tr1))" "tr_llm tr1 = kw' # tr_llm no_calls"
    "adapt default_env small_convert small_update (\<lambda>kw t. Inr (Some ''yes'')) hi_kw [(hi_cache, r1, (m1, df1))] (t1, tr1) =
      Some (Inr (Some ''yes''), [(hi_cache, r2, (m2, df1))], (t2, tr2))" "tr_llm tr2 = tr_llm tr1" by blast
  moreover from this have "length (tr_llm tr1) = 1" "length (tr_llm tr2) = 1" by (simp_all add: no_calls_def)
  ultimately show ?thesis by blast
qed

end
