(* ===== verification/Replay.thy ===== *)
theory Replay
  imports Compose
begin

text \<open>
  What the adapters of the LLM libraries share. An adapter turns a response into the answer to store
  (\<open>update_cache_callback\<close>) and a stored answer into a response (\<open>cache_data_convert\<close>); \<open>answer_codec\<close> is the contract
  of the two, and inside it a replay from the cache is shown to carry what the LLM answered. The lemmas after it
  follow a request with \<open>cache_skip\<close>, which stores without looking up.
\<close>

section \<open>The contract of an adapter's callbacks\<close>

text \<open>
  \<open>payload\<close> is the text of a response, \<open>stored\<close> what is saved for a text, \<open>ready\<close> what the conversion needs of
  the request.
\<close>

locale answer_codec =
  fixes ready :: bool
    and payload :: "'m \<Rightarrow> string result"
    and stored :: "string \<Rightarrow> answers_arg"
    and update :: "'m \<Rightarrow> 'k kwargs \<Rightarrow> (answers_arg \<times> question option) list \<times> 'm result"
    and convert :: "post_message \<Rightarrow> 'm result"
  assumes first_stored: "first_saved (stored s) = Some (Text s)"
    and saves: "payload m = Inr s \<Longrightarrow> fst (update m kw) = [(stored s, None)]"
    and restores: "ready \<Longrightarrow> \<exists>msg. convert (MsgOne (Text s)) = Inr msg \<and> payload msg = Inr s"
begin

lemma replayed:
  assumes C: "container_contract ops" and plain: "plain_request enable pre conf kw q" and inv: "map_inv ops m"
    and missing: "map_view ops m q = None" and cfg: "cfg = default_cache ops order denied enable pre conf"
    and llm: "\<And>kw' t'. kw_rest kw' = kw_rest kw \<Longrightarrow> llm kw' t' = Inr (Some resp)" and truthy: "ae_truthy env resp"
    and resp: "payload resp = Inr s" and ready
  shows "\<exists>resp' kw' msg r1 m1 df1 t1 tr1 r2 m2 t2 tr2.
    adapt env convert' update llm kw [(cfg, r, (m, df))] (t, tr) = Some (Inr (Some resp'), [(cfg, r1, (m1, df1))], (t1, tr1)) \<and>
    tr_llm tr1 = kw' # tr_llm tr \<and>
    adapt env convert update llm kw [(cfg, r1, (m1, df1))] (t1, tr1) = Some (Inr (Some msg), [(cfg, r2, (m2, df1))], (t2, tr2)) \<and>
    tr_llm tr2 = tr_llm tr1 \<and> payload msg = Inr s"
proof -
  obtain msg where msg: "convert (MsgOne (Text s)) = Inr msg" "payload msg = Inr s" using restores \<open>ready\<close> by blast
  have upd: "fst (update resp kw') = [(stored s, None)]" for kw' by (rule saves[OF resp])
  obtain resp' r1 t1 m1 df1 tr1 kw' v x where first:
    "adapt env convert' update llm kw [(cfg, r, (m, df))] (t, tr) = Some (Inr (Some resp'), [(cfg, r1, (m1, df1))], (t1, tr1))"
    "tr_llm tr1 = kw' # tr_llm tr" and v: "map_view ops m1 q = Some (v, x)" "mt_question v = q" "mt_answer v = stored s"
    using missed_request[where llm = llm and update = update and resp = resp and ans = "stored s" and convert = convert' and env = env
        and r = r and df = df and t = t and tr = tr, OF C plain inv missing cfg llm truthy upd] by blast
  have "first_saved (mt_answer v) = Some (Text s)" by (simp add: v(3) first_stored)
  from cached_request[where convert = convert and c = "Text s" and env = env and update = update and llm = llm and r = r1
      and df = df1 and t = t1 and tr = tr1, OF C plain v(1,2) this msg(1) cfg]
  obtain r2 t2 m2 tr2 where
    "adapt env convert update llm kw [(cfg, r1, (m1, df1))] (t1, tr1) = Some (Inr (Some msg), [(cfg, r2, (m2, df1))], (t2, tr2))"
    "tr_llm tr2 = tr_llm tr1" by blast
  with first msg(2) show ?thesis by blast
qed

end

text \<open>\<open>Answer(s, DataType.STR)\<close>.\<close>

definition text_answer :: "string \<Rightarrow> answers_arg" where
  "text_answer s = AnsObj \<lparr>ans_content = Text s, ans_type = data_type_int DT_STR\<rparr>"

lemma first_saved_text [simp]: "first_saved (text_answer s) = Some (Text s)" "first_saved (AnsStr s) = Some (Text s)"
  by (simp_all add: first_saved_def text_answer_def)

section \<open>Requests that skip the lookup\<close>

lemma skip_lookup:
  assumes "front_lookup sync env convert cfg kw0 kw en ctx True factor start s = (Inr x, s')"
  shows "\<exists>pd. x = Inr pd"
  using assms unfolding front_lookup_def
  by (auto simp: bind_out_Inr_iff split: option.splits)

lemma skip_front:
  assumes "kw_cache_skip kw = Some True" "adapt_front sync env convert cfg kw (r, t, d, tr) = (Inr x, s')"
  shows "\<exists>pd. x = Inr pd"
  using assms unfolding adapt_front_def Let_def prod.case
  by (auto simp: bind_out_Inr_iff split: if_splits dest: skip_lookup)

lemma save_response_result:
  "save_response env update pd m kw cs (t, tr) = Some (Inr (Some m'), x) \<Longrightarrow> m' = m \<or> snd (update m kw) = Inr m'"
  by (auto simp: save_response_def split: option.splits sum.splits prod.splits)

lemma call_llm_result:
  assumes "call_llm env llm kw (r, t, d, tr) = (Inr x, s')"
  shows "\<exists>t'. llm kw t' = Inr x"
  using assms by (cases "llm kw (Suc t)") (auto simp: call_llm_def timed_def time_cal_def)

text \<open>The last call of the LLM in a request that skipped the lookup gave what is returned, when the callback gives back what it got.\<close>

lemma skip_single_call:
  assumes skip: "kw_cache_skip kw = Some True"
    and upd: "\<And>m kw m'. snd (update m kw) = Inr m' \<Longrightarrow> m' = m"
    and res: "adapt env convert update llm kw [(cfg, r, d)] (t, tr) = Some (Inr (Some m), cs, w)"
  shows "\<exists>k u. tr_llm (snd w) = k # tr_llm tr \<and> kw_rest k = kw_rest kw \<and> llm k u = Inr (Some m)"
proof -
  obtain x r1 t1 d1 tr1 where front: "adapt_front True env convert cfg kw (r, t, d, tr) = (x, (r1, t1, d1, tr1))"
    by (metis prod.exhaust)
  with res obtain y where "x = Inr y" by (cases x) auto
  from skip_front[OF skip front[unfolded this]] this obtain pd where x: "x = Inr (Inr pd)" by blast
  obtain y r2 t2 d2 tr2 where call: "call_llm env llm (pd_kwargs pd) (r1, t1, d1, tr1) = (y, (r2, t2, d2, tr2))"
    by (metis prod.exhaust)
  from res front x call obtain m0 where m0: "y = Inr (Some m0)"
    "save_response env update pd m0 (pd_kwargs pd) [(cfg, r2, d2)] (t2, tr2) = Some (Inr (Some m), cs, w)"
    by (auto split: if_splits sum.splits option.splits)
  obtain t3 tr3 where w: "w = (t3, tr3)" by (cases w)
  have "tr3 = tr2" using save_response_trace[OF m0(2)[unfolded w]] by simp
  moreover have "m = m0" using save_response_result[OF m0(2)] upd by blast
  moreover have "tr_llm tr2 = pd_kwargs pd # tr_llm tr"
    using call_llm_trace[OF call] front_trace[OF front] by simp
  ultimately show ?thesis
    using call_llm_result[OF call[unfolded m0(1)]] front_pending(3)[OF front[unfolded x]] by (auto simp: w)
qed

text \<open>What a request stores in the default cache when it skips the lookup.\<close>

definition skip_request ::
  "('k kwargs \<Rightarrow> bool result) \<Rightarrow> ('k kwargs \<Rightarrow> 'k req_context \<Rightarrow> config \<Rightarrow> string pre_result result) \<Rightarrow> config
   \<Rightarrow> 'k kwargs \<Rightarrow> string \<Rightarrow> bool" where
  "skip_request enable pre conf kw q \<longleftrightarrow>
     kw_cache_skip kw = Some True \<and> plain_request enable pre conf (kw\<lparr>kw_cache_skip := None\<rparr>) q"

lemma skip_requestD:
  assumes "skip_request enable pre conf kw q"
  shows "kw_cache_skip kw = Some True" "\<not> pop_or (kw_require_object_store kw) False" "\<not> pop_or (kw_search_only kw) False"
    "kw_temperature kw = None" "kw_session kw = None" "cf_input_summary_len conf = None"
    "\<And>kw'. kw_rest kw' = kw_rest kw \<Longrightarrow> enable kw' = Inr True"
    "\<And>kw' ctx. kw_rest kw' = kw_rest kw \<Longrightarrow> pre kw' ctx conf = Inr (PreOne q)"
  using assms by (auto simp: skip_request_def plain_request_def)

lemma skip_front_pending:
  assumes skip: "skip_request enable pre conf kw q"
    and cfg_def: "cfg = default_cache ops order denied enable pre conf"
  shows "\<exists>r1 t1 pd. adapt_front True env convert cfg kw (r, t, d, tr) = (Inr (Inr pd), (r1, t1, d, tr)) \<and>
    pd_embedding pd = Some q \<and> pd_pre_store pd = q \<and> pd_session pd = None \<and> \<not> pd_search_only pd \<and>
    kw_rest (pd_kwargs pd) = kw_rest kw"
proof -
  note P = skip_requestD[OF skip]
  let ?kw = "kw\<lparr>kw_search_only := None, kw_temperature := None, kw_session := None, kw_require_object_store := None\<rparr>"
  let ?kw1 = "?kw\<lparr>kw_cache_context := None, kw_cache_skip := None, kw_cache_factor := None\<rparr>"
  let ?ctx = "pop_or (kw_cache_context kw) \<lparr>cx_deps = None, cx_more = None\<rparr>"
  have "cc_pre_embedding cfg ?kw1 ?ctx (cc_config cfg) = Inr (PreOne q)" by (simp add: cfg_def default_cache_def P)
  from timed_pure[OF this, of env rep_pre r "Suc t" "(d, tr)"] obtain r1 where pre:
    "timed env rep_pre (\<lambda>s. (cc_pre_embedding cfg ?kw1 ?ctx (cc_config cfg), s)) (r, Suc t, d, tr) =
      (Inr (PreOne q), (r1, Suc (Suc (Suc t)), d, tr))" by blast
  have "cc_embedding cfg q ?ctx = Inr q" by (simp add: cfg_def default_cache_def to_embeddings_def)
  from timed_pure[OF this, of env rep_embedding r1 "Suc (Suc (Suc t))" "(d, tr)"] obtain r2 where emb:
    "timed env rep_embedding (\<lambda>s. (cc_embedding cfg q ?ctx, s)) (r1, Suc (Suc (Suc t)), d, tr) =
      (Inr q, (r2, Suc (Suc (Suc (Suc (Suc t)))), d, tr))" by blast
  have pre2: "pre_embed env cfg ?kw1 ?ctx (r, Suc t, d, tr) = (Inr (q, q), (r1, Suc (Suc (Suc t)), d, tr))"
    unfolding pre_embed_def pre using P(6) by (simp add: cfg_def default_cache_def)
  have start: "cc_has_init cfg" "cc_enable cfg ?kw = Inr True"
    by (simp_all add: cfg_def default_cache_def P)
  show ?thesis
    by (rule exI[of _ r2], rule exI[of _ "Suc (Suc (Suc (Suc (Suc t))))"])
      (simp add: adapt_front_def Let_def start P(1-5) default_skip_def front_lookup_def pre2 emb cong: option.case_cong)
qed

lemma skip_stores:
  assumes C: "container_contract ops" and skip: "skip_request enable pre conf kw q" and inv: "map_inv ops m"
    and cfg: "cfg = default_cache ops order denied enable pre conf"
    and llm: "\<And>kw' t'. kw_rest kw' = kw_rest kw \<Longrightarrow> llm kw' t' = Inr (Some resp)" and truthy: "ae_truthy env resp"
    and upd: "\<And>kw'. fst (update resp kw') = [(ans, None)]"
  shows "\<exists>resp' r' t' m' df' tr' kw' v s. adapt env convert update llm kw [(cfg, r, (m, df))] (t, tr) =
      Some (Inr (Some resp'), [(cfg, r', (m', df'))], (t', tr')) \<and> tr_llm tr' = kw' # tr_llm tr \<and>
    map_inv ops m' \<and> map_view ops m' q = Some (v, s) \<and> mt_question v = q \<and> mt_answer v = ans"
proof -
  obtain r1 t1 pd where front: "adapt_front True env convert cfg kw (r, t, (m, df), tr) = (Inr (Inr pd), (r1, t1, (m, df), tr))"
    and pd: "pd_embedding pd = Some q" "pd_pre_store pd = q" "pd_session pd = None" "\<not> pd_search_only pd"
      "kw_rest (pd_kwargs pd) = kw_rest kw"
    using skip_front_pending[OF skip cfg] by blast
  let ?kw = "pd_kwargs pd"
  have "\<exists>r2. call_llm env llm ?kw (r1, t1, (m, df), tr) =
      (Inr (Some resp), (r2, Suc (Suc (Suc t1)), (m, df), tr\<lparr>tr_llm := ?kw # tr_llm tr\<rparr>))"
    by (simp add: call_llm_def timed_def time_cal_def llm pd(5))
  then obtain r2 where call: "call_llm env llm ?kw (r1, t1, (m, df), tr) =
      (Inr (Some resp), (r2, Suc (Suc (Suc t1)), (m, df), tr\<lparr>tr_llm := ?kw # tr_llm tr\<rparr>))" by blast
  obtain resp' r' t' m' df' v s where save: "save_response env update pd resp ?kw [(cfg, r2, (m, df))]
      (Suc (Suc (Suc t1)), tr\<lparr>tr_llm := ?kw # tr_llm tr\<rparr>) =
      Some (Inr (Some resp'), [(cfg, r', (m', df'))], (t', tr\<lparr>tr_llm := ?kw # tr_llm tr\<rparr>))"
    and after: "map_inv ops m'" "map_view ops m' q = Some (v, s)" "mt_question v = q" "mt_answer v = ans"
    using save_missed[OF C inv pd(1-3), of update resp ?kw ans env order denied enable pre conf r2 df "Suc (Suc (Suc t1))"
        "tr\<lparr>tr_llm := ?kw # tr_llm tr\<rparr>"] upd unfolding cfg by blast
  have "adapt env convert update llm kw [(cfg, r, (m, df))] (t, tr) =
      Some (Inr (Some resp'), [(cfg, r', (m', df'))], (t', tr\<lparr>tr_llm := ?kw # tr_llm tr\<rparr>))"
    by (simp add: front pd(4) call truthy save)
  then show ?thesis using after by fastforce
qed

text \<open>Without a next cache there is none afterwards.\<close>

lemma save_all_one:
  assumes "save_all env pd e saves [(cfg, r, d)] t = Some (x, cs, t')"
  shows "\<exists>r' d'. cs = [(cfg, r', d')]"
  using assms
proof (induction saves arbitrary: r d t)
  case (Cons s saves)
  have flush: "cache_flush [(cfg, r, d)] = (y, cs) \<Longrightarrow> \<exists>d'. cs = [(cfg, r, d')]" for r d y cs
    by (auto split: prod.splits sum.splits)
  have one: "update_cache_func env pd e s (cfg, r, d) [] t = Some (y, cs, t') \<Longrightarrow> \<exists>r' d'. cs = [(cfg, r', d')]" for y cs t'
    by (auto simp: update_cache_func_def Let_def simp del: cache_flush.simps split: prod.splits option.splits sum.splits if_splits
        dest!: flush)
  from Cons.prems obtain y cs1 t1 where u: "update_cache_func env pd e s (cfg, r, d) [] t = Some (y, cs1, t1)"
    by (auto split: option.splits)
  with one obtain r1 d1 where "cs1 = [(cfg, r1, d1)]" by blast
  with u Cons show ?case by (auto split: sum.splits)
qed auto

lemma save_response_one:
  assumes "save_response env update pd m kw [(cfg, r, d)] w = Some (x, cs, w')"
  shows "\<exists>r' d'. cs = [(cfg, r', d')]"
  using assms by (auto simp: save_response_def split: prod.splits option.splits sum.splits dest!: save_all_one)

lemma adapt_one:
  assumes "adapt env convert update llm kw [(cfg, r, d)] w = Some (x, cs, w')"
  shows "\<exists>r' d'. cs = [(cfg, r', d')]"
  using assms by (cases w) (auto split: prod.splits sum.splits option.splits if_splits dest!: save_response_one)

end
