(* ===== verification/Openai.thy ===== *)
theory Openai
  imports Replay Factories Pre
begin

text \<open>
  The OpenAI adapter, \<open>gptcache/adapter/openai.py\<close>, with what it uses of \<open>gptcache/utils/response.py\<close>,
  \<open>token.py\<close>, \<open>error.py\<close> and \<open>gptcache/adapter/base.py\<close>. Responses are Python values; a streamed response is a
  generator of chunks, which ends or raises. The requests go through \<open>adapt\<close> and \<open>aadapt\<close> of \<open>Adapter\<close>. The
  tokenizer, JSON and the image library are parameters.
\<close>

section \<open>Reading responses (utils/response.py)\<close>

definition choice0 :: "pyobj \<Rightarrow> pyobj result" where
  "choice0 resp = bind_res (py_item resp ''choices'') (\<lambda>c. py_index c 0)"

definition get_message_from_openai_answer :: "pyobj \<Rightarrow> pyobj result" where
  "get_message_from_openai_answer resp =
     bind_res (choice0 resp) (\<lambda>c. bind_res (py_item c ''message'') (\<lambda>m. py_item m ''content''))"

text \<open>\<open>d.get(k, default)\<close> of a dictionary.\<close>

fun get_or :: "pyobj \<Rightarrow> string \<Rightarrow> pyobj \<Rightarrow> pyobj result" where
  "get_or (PDict d) k v = Inr (case map_of d k of None \<Rightarrow> v | Some x \<Rightarrow> x)"
| "get_or x k v = Inl AttributeError"

definition get_stream_message_from_openai_answer :: "pyobj \<Rightarrow> pyobj result" where
  "get_stream_message_from_openai_answer chunk =
     bind_res (choice0 chunk) (\<lambda>c. bind_res (py_item c ''delta'') (\<lambda>d. get_or d ''content'' (PStr [])))"

definition get_text_from_openai_answer :: "pyobj \<Rightarrow> pyobj result" where
  "get_text_from_openai_answer resp = bind_res (choice0 resp) (\<lambda>c. py_item c ''text'')"

definition data0 :: "pyobj \<Rightarrow> string \<Rightarrow> pyobj result" where
  "data0 resp k = bind_res (py_item resp ''data'') (\<lambda>d. bind_res (py_index d 0) (\<lambda>x. py_item x k))"

definition get_image_from_openai_b64 :: "pyobj \<Rightarrow> pyobj result" where
  "get_image_from_openai_b64 resp = data0 resp ''b64_json''"

text \<open>The image is fetched from its address and encoded; \<open>fetch\<close> is the download.\<close>

definition get_image_from_openai_url :: "(pyobj \<Rightarrow> string result) \<Rightarrow> (string \<Rightarrow> string) \<Rightarrow> pyobj \<Rightarrow> pyobj result" where
  "get_image_from_openai_url fetch b64encode resp =
     bind_res (data0 resp ''url'') (\<lambda>url. bind_res (fetch url) (\<lambda>img. Inr (PBytes (b64encode img))))"

definition get_image_from_path :: "(pyobj \<Rightarrow> string result) \<Rightarrow> (string \<Rightarrow> string) \<Rightarrow> pyobj \<Rightarrow> pyobj result" where
  "get_image_from_path read_file b64encode resp =
     bind_res (data0 resp ''url'') (\<lambda>path. bind_res (read_file path) (\<lambda>img. Inr (PBytes (b64encode img))))"

definition get_audio_text_from_openai_answer :: "pyobj \<Rightarrow> pyobj result" where
  "get_audio_text_from_openai_answer resp = py_item resp ''text''"

section \<open>Counting tokens\<close>

text \<open>\<open>encode\<close> is the encoding of tiktoken, which takes texts only.\<close>

fun token_counter :: "(string \<Rightarrow> 't list) \<Rightarrow> pyobj \<Rightarrow> int result" where
  "token_counter encode (PStr s) = Inr (int (length (encode s)))"
| "token_counter encode x = Inl TypeError"

fun entry_tokens :: "(string \<Rightarrow> 't list) \<Rightarrow> (string \<times> pyobj) list \<Rightarrow> int \<Rightarrow> int result" where
  "entry_tokens encode [] n = Inr n"
| "entry_tokens encode ((key, value) # kvs) n =
     bind_res (token_counter encode value) (\<lambda>k. entry_tokens encode kvs (n + k + (if key = ''name'' then 1 else 0)))"

fun message_tokens :: "(string \<Rightarrow> 't list) \<Rightarrow> pyobj list \<Rightarrow> int \<Rightarrow> int result" where
  "message_tokens encode [] n = Inr (n + 3)"
| "message_tokens encode (PDict d # ms) n = bind_res (entry_tokens encode d (n + 3)) (\<lambda>n. message_tokens encode ms n)"
| "message_tokens encode (m # ms) n = Inl AttributeError"

definition num_tokens_from_messages :: "(string \<Rightarrow> 't list) \<Rightarrow> pyobj \<Rightarrow> int result" where
  "num_tokens_from_messages encode messages = bind_res (py_iter messages) (\<lambda>ms. message_tokens encode ms 0)"

section \<open>Responses made from cached answers\<close>

definition no_usage :: pyobj where
  "no_usage = PDict [(''completion_tokens'', PInt 0), (''prompt_tokens'', PInt 0), (''total_tokens'', PInt 0)]"

definition construct_resp_from_cache :: "int \<Rightarrow> pyobj \<Rightarrow> pyobj \<Rightarrow> pyobj" where
  "construct_resp_from_cache now return_message saved_token = PDict
     [(''gptcache'', PBool True), (''saved_token'', saved_token),
      (''choices'', PList [PDict
         [(''message'', PDict [(''role'', PStr ''assistant''), (''content'', return_message)]),
          (''finish_reason'', PStr ''stop''), (''index'', PInt 0)]]),
      (''created'', PInt now), (''usage'', no_usage), (''object'', PStr ''chat.completion'')]"

definition construct_stream_resp_from_cache :: "int \<Rightarrow> pyobj \<Rightarrow> pyobj \<Rightarrow> pyobj list" where
  "construct_stream_resp_from_cache created return_message saved_token =
     [PDict [(''choices'', PList [PDict [(''delta'', PDict [(''role'', PStr ''assistant'')]),
               (''finish_reason'', PNone), (''index'', PInt 0)]]),
             (''created'', PInt created), (''object'', PStr ''chat.completion.chunk'')],
      PDict [(''choices'', PList [PDict [(''delta'', PDict [(''content'', return_message)]),
               (''finish_reason'', PNone), (''index'', PInt 0)]]),
             (''created'', PInt created), (''object'', PStr ''chat.completion.chunk'')],
      PDict [(''gptcache'', PBool True),
             (''choices'', PList [PDict [(''delta'', PDict []), (''finish_reason'', PStr ''stop''), (''index'', PInt 0)]]),
             (''created'', PInt created), (''object'', PStr ''chat.completion.chunk''), (''saved_token'', saved_token)]]"

definition construct_text_from_cache :: "int \<Rightarrow> pyobj \<Rightarrow> pyobj" where
  "construct_text_from_cache now return_text = PDict
     [(''gptcache'', PBool True),
      (''choices'', PList [PDict [(''text'', return_text), (''finish_reason'', PStr ''stop''), (''index'', PInt 0)]]),
      (''created'', PInt now), (''usage'', no_usage), (''object'', PStr ''text_completion'')]"

definition construct_audio_text_from_cache :: "pyobj \<Rightarrow> pyobj" where
  "construct_audio_text_from_cache return_text = PDict [(''gptcache'', PBool True), (''text'', return_text)]"

text \<open>
  Images: \<open>im_open\<close> decodes a file's bytes, \<open>im_resize\<close> scales, \<open>im_jpeg\<close> is the file of an image. With the format
  \<open>"url"\<close> the file is written beside the program under a name made from the time; the model gives the name with
  the bytes written.
\<close>

record 'p image_lib =
  im_open :: "string \<Rightarrow> 'p result"
  im_dims :: "'p \<Rightarrow> int list"
  im_resize :: "int list \<Rightarrow> 'p \<Rightarrow> 'p result"
  im_jpeg :: "'p \<Rightarrow> string"
  im_b64encode :: "string \<Rightarrow> string"
  im_b64decode :: "string \<Rightarrow> string result"

definition parse_dims :: "string \<Rightarrow> int list result" where
  "parse_dims dims_text = map_res int_of_text (split_on ''x'' [] dims_text)"

definition construct_image_create_resp_from_cache ::
  "'p image_lib \<Rightarrow> (string \<Rightarrow> string) \<Rightarrow> int \<Rightarrow> string \<Rightarrow> string \<Rightarrow> string \<Rightarrow> (pyobj \<times> (string \<times> string) option) result" where
  "construct_image_create_resp_from_cache lib abspath now image_data response_format dims_text =
     bind_res (im_b64decode lib image_data) (\<lambda>img_bytes.
     bind_res (im_open lib img_bytes) (\<lambda>img.
     bind_res (parse_dims dims_text) (\<lambda>new_size.
     bind_res (if new_size \<noteq> im_dims lib img
               then bind_res (im_resize lib new_size img) (\<lambda>img. Inr (im_jpeg lib img))
               else Inr img_bytes) (\<lambda>buffered.
       let answer = (\<lambda>d. PDict [(''gptcache'', PBool True), (''created'', PInt now),
                          (''data'', PList [PDict [(response_format, PStr d)]])]);
           target_url = abspath (py_str_int now @ ''.jpeg'')
       in if response_format = ''url'' then Inr (answer target_url, Some (target_url, buffered))
          else if response_format = ''b64_json'' then Inr (answer (im_b64encode lib buffered), None)
          else Inl AttributeError))))"

section \<open>Chat completions\<close>

text \<open>
  What \<open>adapt\<close> handles: a response, or a stream as the chunks it will give and the exception it ends with, if any.
\<close>

datatype llm_resp = Resp pyobj | Chunks "pyobj list" "pyexc option"

fun resp_truthy :: "llm_resp \<Rightarrow> bool" where
  "resp_truthy (Resp r) = py_truthy r"
| "resp_truthy (Chunks xs e) = True"

text \<open>\<open>Answer(x, DataType.STR)\<close>; \<open>other\<close> is what becomes of contents that are neither texts nor bytes.\<close>

fun as_content :: "(pyobj \<Rightarrow> content) \<Rightarrow> pyobj \<Rightarrow> content" where
  "as_content other (PStr s) = Text s"
| "as_content other (PBytes s) = Bytes s"
| "as_content other x = other x"

definition str_answer :: "(pyobj \<Rightarrow> content) \<Rightarrow> pyobj \<Rightarrow> answers_arg" where
  "str_answer other x = AnsObj \<lparr>ans_content = as_content other x, ans_type = data_type_int DT_STR\<rparr>"

text \<open>\<open>update_cache_func(Answer(get(llm_data), DataType.STR)); return llm_data\<close>.\<close>

definition save_with ::
  "(pyobj \<Rightarrow> content) \<Rightarrow> (pyobj \<Rightarrow> pyobj result) \<Rightarrow> pyobj \<Rightarrow> (answers_arg \<times> question option) list \<times> pyobj result" where
  "save_with other get r = (case get r of Inl e \<Rightarrow> ([], Inl e) | Inr v \<Rightarrow> ([(str_answer other v, None)], Inr r))"

text \<open>
  \<open>hook_openai_data\<close>: the generator that the caller gets in place of the stream, asked for \<open>n\<close> items. It gives the items
  passed on, and what happened at the end: still suspended, ended (then the collected text is saved), or raised.
\<close>

datatype hook_end = Suspended | Ended answers_arg | Raised pyexc

fun hook_openai_data :: "(pyobj \<Rightarrow> pyobj result) \<Rightarrow> nat \<Rightarrow> pyobj list \<Rightarrow> pyexc option \<Rightarrow> string \<Rightarrow> pyobj list \<times> hook_end" where
  "hook_openai_data get 0 items e total_answer = ([], Suspended)"
| "hook_openai_data get (Suc n) [] e total_answer =
     ([], case e of None \<Rightarrow> Ended (text_answer total_answer) | Some e \<Rightarrow> Raised e)"
| "hook_openai_data get (Suc n) (item # items) e total_answer =
     (case bind_res (get item) (str_add total_answer) of
        Inl err \<Rightarrow> ([], Raised err)
      | Inr total_answer \<Rightarrow>
          (case hook_openai_data get n items e total_answer of (ys, r) \<Rightarrow> (item # ys, r)))"

text \<open>Nothing is saved while \<open>adapt\<close> runs when the response is a stream.\<close>

fun chat_update :: "(pyobj \<Rightarrow> content) \<Rightarrow> llm_resp \<Rightarrow> 'k kwargs \<Rightarrow> (answers_arg \<times> question option) list \<times> llm_resp result" where
  "chat_update other (Resp r) kw =
     (case save_with other get_message_from_openai_answer r of (saves, res) \<Rightarrow> (saves, map_sum id Resp res))"
| "chat_update other (Chunks xs e) kw = ([], Inr (Chunks xs e))"

fun content_value :: "content \<Rightarrow> pyobj" where
  "content_value (Text s) = PStr s"
| "content_value (Bytes s) = PBytes s"

fun message_value :: "post_message \<Rightarrow> pyobj" where
  "message_value MsgNone = PNone"
| "message_value (MsgOne c) = content_value c"
| "message_value (MsgList cs) = PList (map content_value cs)"

definition saved_tokens :: "(string \<Rightarrow> 't list) \<Rightarrow> bool \<Rightarrow> pyobj \<Rightarrow> pyobj \<Rightarrow> pyobj result" where
  "saved_tokens encode enable_token_counter messages cache_data =
     (if enable_token_counter
      then bind_res (num_tokens_from_messages encode messages) (\<lambda>input_token.
           bind_res (token_counter encode cache_data) (\<lambda>output_token. Inr (PList [PInt input_token, PInt output_token])))
      else Inr (PList [PInt 0, PInt 0]))"

definition chat_convert ::
  "(string \<Rightarrow> 't list) \<Rightarrow> bool \<Rightarrow> pyargs \<Rightarrow> int \<Rightarrow> post_message \<Rightarrow> llm_resp result" where
  "chat_convert encode enable_token_counter kwargs now msg =
     (let cache_data = message_value msg
      in bind_res (saved_tokens encode enable_token_counter (kw_or_none kwargs ''messages'') cache_data) (\<lambda>saved_token.
           if py_truthy (kw_get kwargs ''stream'' (PBool False))
           then Inr (Chunks (construct_stream_resp_from_cache now cache_data saved_token) None)
           else Inr (Resp (construct_resp_from_cache now cache_data saved_token))))"

section \<open>The entry points\<close>

text \<open>\<open>BaseCacheLLM\<close>: the arguments set once for all requests, and the own LLM in place of the library's.\<close>

definition fill_base_args :: "pyargs \<Rightarrow> pyargs \<Rightarrow> pyargs" where
  "fill_base_args cache_args kwargs =
     fold (\<lambda>(key, value) kw. if key \<notin> fst ` set kw then kw @ [(key, value)] else kw) cache_args kwargs"

definition llm_handler :: "'h option \<Rightarrow> 'h \<Rightarrow> 'h" where
  "llm_handler llm original = (case llm of None \<Rightarrow> original | Some f \<Rightarrow> f)"

text \<open>
  \<open>wrap_error\<close> gives an exception a new class of the same name, below \<open>CacheError\<close> and the old class; \<open>is_a\<close> says
  which handlers catch it. What is raised stays an error of the library in the outcomes here.
\<close>

datatype exc_class = ExcClass string "exc_class list"

fun exc_name :: "exc_class \<Rightarrow> string" where
  "exc_name (ExcClass n bs) = n"

definition wrap_error :: "exc_class \<Rightarrow> exc_class" where
  "wrap_error c = ExcClass (exc_name c) [ExcClass ''CacheError'' [ExcClass ''Exception'' []], c]"

fun is_a :: "string \<Rightarrow> exc_class \<Rightarrow> bool" where
  "is_a n (ExcClass m bs) \<longleftrightarrow> n = m \<or> (\<exists>b \<in> set bs. is_a n b)"

lemma wrap_error_is_a: "is_a ''CacheError'' (wrap_error c)" "is_a n c \<Longrightarrow> is_a n (wrap_error c)"
  by (simp_all add: wrap_error_def)

text \<open>
  \<open>ChatCompletion.create\<close>. Whether tokens are counted is read from the cache given in the call, or the global one,
  before \<open>cache_args\<close> is filled in: a cache given there is used for the request but not for this setting. \<open>cache_args\<close> holds arguments of the LLM here. The
  arguments that \<open>adapt\<close> takes out of a call (\<open>session\<close>, \<open>cache_skip\<close> and so on) are fields of the request and not
  given through it; for \<open>cache_obj\<close> in it, the chain of caches passed to \<open>adapt\<close> is the one it names.
\<close>

definition chat_kwargs :: "pyargs \<Rightarrow> pyargs kwargs \<Rightarrow> pyargs kwargs" where
  "chat_kwargs cache_args kw = kw\<lparr>kw_rest := fill_base_args cache_args (kw_rest kw)\<rparr>"

definition counts_tokens :: "config option \<Rightarrow> config \<Rightarrow> bool" where
  "counts_tokens given_cache global_cache =
     cf_enable_token_counter (case given_cache of None \<Rightarrow> global_cache | Some c \<Rightarrow> c)"

definition chat_create where
  "chat_create env encode other cache_args given_cache global_cache now llm original kw0 cs w =
     (let kw = chat_kwargs cache_args kw0
      in adapt env (chat_convert encode (counts_tokens given_cache global_cache) (kw_rest kw) now) (chat_update other)
           (llm_handler llm original) kw cs w)"

definition chat_acreate where
  "chat_acreate env encode other cache_args given_cache global_cache now llm original kw0 c rest w =
     (let kw = chat_kwargs cache_args kw0
      in aadapt env (chat_convert encode (counts_tokens given_cache global_cache) (kw_rest kw) now) (chat_update other)
           (llm_handler llm original) kw c rest w)"

text \<open>\<open>Completion\<close>.\<close>

definition completion_convert :: "int \<Rightarrow> post_message \<Rightarrow> pyobj result" where
  "completion_convert now msg = Inr (construct_text_from_cache now (message_value msg))"

definition completion_update :: "(pyobj \<Rightarrow> content) \<Rightarrow> pyobj \<Rightarrow> 'k kwargs \<Rightarrow> (answers_arg \<times> question option) list \<times> pyobj result" where
  "completion_update other r kw = save_with other get_text_from_openai_answer r"

definition completion_create where
  "completion_create env other cache_args now llm original kw cs w =
     adapt env (completion_convert now) (completion_update other) (llm_handler llm original) (chat_kwargs cache_args kw) cs w"

definition completion_acreate where
  "completion_acreate env other cache_args now llm original kw c rest w =
     aadapt env (completion_convert now) (completion_update other) (llm_handler llm original) (chat_kwargs cache_args kw) c rest w"

text \<open>\<open>Audio.transcribe\<close> and \<open>Audio.translate\<close>, which differ in the method \<open>original\<close> of the library.\<close>

definition audio_convert :: "post_message \<Rightarrow> pyobj result" where
  "audio_convert msg = Inr (construct_audio_text_from_cache (message_value msg))"

definition audio_update :: "(pyobj \<Rightarrow> content) \<Rightarrow> pyobj \<Rightarrow> 'k kwargs \<Rightarrow> (answers_arg \<times> question option) list \<times> pyobj result" where
  "audio_update other r kw = save_with other get_audio_text_from_openai_answer r"

definition audio_transcribe where
  "audio_transcribe env other original model audio_file kw cs w =
     adapt env audio_convert (audio_update other) original
       (kw\<lparr>kw_rest := [(''model'', model), (''file'', audio_file)] @ kw_rest kw\<rparr>) cs w"

definition audio_translate where
  "audio_translate env other original model audio_file kw cs w =
     adapt env audio_convert (audio_update other) original
       (kw\<lparr>kw_rest := [(''model'', model), (''file'', audio_file)] @ kw_rest kw\<rparr>) cs w"

text \<open>
  \<open>Image.create\<close>. The response with the format \<open>"url"\<close> names a file that the conversion has written; the files
  are not part of what \<open>adapt\<close> sees.
\<close>

definition ascii_bytes :: "pyobj \<Rightarrow> pyobj" where
  "ascii_bytes x = (case x of PStr s \<Rightarrow> PBytes s | _ \<Rightarrow> x)"

definition image_update ::
  "(pyobj \<Rightarrow> content) \<Rightarrow> (pyobj \<Rightarrow> string result) \<Rightarrow> (string \<Rightarrow> string) \<Rightarrow> string \<Rightarrow> pyobj \<Rightarrow> 'k kwargs
   \<Rightarrow> (answers_arg \<times> question option) list \<times> pyobj result" where
  "image_update other fetch b64encode response_format r kw =
     (if response_format = ''b64_json''
      then (case get_image_from_openai_b64 r of
              Inl e \<Rightarrow> ([], Inl e)
            | Inr img \<Rightarrow> ([(AnsObj \<lparr>ans_content = as_content other (ascii_bytes img),
                                   ans_type = data_type_int DT_IMAGE_BASE64\<rparr>, None)], Inr r))
      else if response_format = ''url''
      then (case get_image_from_openai_url fetch b64encode r of
              Inl e \<Rightarrow> ([], Inl e)
            | Inr img \<Rightarrow> ([(AnsObj \<lparr>ans_content = as_content other img, ans_type = data_type_int DT_IMAGE_URL\<rparr>, None)], Inr r))
      else ([], Inr r))"

fun b64_text :: "post_message \<Rightarrow> string result" where
  "b64_text (MsgOne (Text s)) = Inr s"
| "b64_text (MsgOne (Bytes s)) = Inr s"
| "b64_text msg = Inl TypeError"

definition image_convert :: "'p image_lib \<Rightarrow> (string \<Rightarrow> string) \<Rightarrow> int \<Rightarrow> string \<Rightarrow> string \<Rightarrow> post_message \<Rightarrow> pyobj result" where
  "image_convert lib abspath now response_format dims_text msg =
     bind_res (b64_text msg) (\<lambda>image_data.
       map_sum id fst (construct_image_create_resp_from_cache lib abspath now image_data response_format dims_text))"

definition image_create where
  "image_create env other lib abspath fetch now original format_arg size_arg kw cs w =
     (let response_format = pop_or format_arg ''url''; dims_text = pop_or size_arg ''256x256''
      in adapt env (image_convert lib abspath now response_format dims_text)
           (image_update other fetch (im_b64encode lib) response_format) original
           (kw\<lparr>kw_rest := [(''response_format'', PStr response_format), (''size'', PStr dims_text)] @ kw_rest kw\<rparr>) cs w)"

text \<open>
  \<open>Moderation.create\<close> asks again, without the cache, when the answer has not one result for each input.
\<close>

definition moderation_convert :: "(pyobj \<Rightarrow> pyobj result) \<Rightarrow> post_message \<Rightarrow> pyobj result" where
  "moderation_convert loads msg = loads (message_value msg)"

definition moderation_update ::
  "(pyobj \<Rightarrow> content) \<Rightarrow> (pyobj \<Rightarrow> string result) \<Rightarrow> pyobj \<Rightarrow> 'k kwargs \<Rightarrow> (answers_arg \<times> question option) list \<times> pyobj result" where
  "moderation_update other dumps r kw = save_with other (\<lambda>r. bind_res (dumps r) (\<lambda>s. Inr (PStr s))) r"

fun py_len :: "pyobj \<Rightarrow> nat result" where
  "py_len (PList xs) = Inr (length xs)"
| "py_len (PStr s) = Inr (length s)"
| "py_len (PBytes s) = Inr (length s)"
| "py_len (PDict d) = Inr (length d)"
| "py_len x = Inl TypeError"

fun results_len :: "pyobj option \<Rightarrow> nat result" where
  "results_len None = Inl AttributeError"
| "results_len (Some r) = bind_res (py_get r ''results'') py_len"

definition expect_res_len :: "pyargs \<Rightarrow> nat" where
  "expect_res_len kwargs = (case kw_or_none kwargs ''input'' of PList xs \<Rightarrow> length xs | _ \<Rightarrow> 1)"

definition moderation_create where
  "moderation_create env other loads dumps cache_args llm original kw0 cs w =
     (let kw = chat_kwargs cache_args kw0;
          ask = (\<lambda>kw. adapt env (moderation_convert loads) (moderation_update other dumps) (llm_handler llm original) kw)
      in case ask kw cs w of
           None \<Rightarrow> None
         | Some (Inl e, cs, w) \<Rightarrow> Some (Inl e, cs, w)
         | Some (Inr res, cs, w) \<Rightarrow>
             (case results_len res of
                Inl e \<Rightarrow> Some (Inl e, cs, w)
              | Inr n \<Rightarrow> if n \<noteq> expect_res_len (kw_rest kw) then ask (kw\<lparr>kw_cache_skip := Some True\<rparr>) cs w
                         else Some (Inr res, cs, w)))"

section \<open>Round trips of the adapters\<close>

fun text_of :: "pyobj result \<Rightarrow> string result" where
  "text_of (Inr (PStr s)) = Inr s"
| "text_of (Inr x) = Inl TypeError"
| "text_of (Inl e) = Inl e"

lemma text_of_Inr: "text_of x = Inr s \<longleftrightarrow> x = Inr (PStr s)"
  by (cases x rule: text_of.cases) auto

fun chat_payload :: "llm_resp \<Rightarrow> string result" where
  "chat_payload (Resp r) = text_of (get_message_from_openai_answer r)"
| "chat_payload (Chunks xs e) = Inl TypeError"

lemma chat_payload_Inr: "chat_payload m = Inr s \<longleftrightarrow> (\<exists>r. m = Resp r \<and> get_message_from_openai_answer r = Inr (PStr s))"
  by (cases m) (simp_all add: text_of_Inr)

lemmas read_defs = get_message_from_openai_answer_def get_stream_message_from_openai_answer_def get_text_from_openai_answer_def
  get_audio_text_from_openai_answer_def choice0_def py_nth_def

lemma read_constructed:
  "get_message_from_openai_answer (construct_resp_from_cache now x tok) = Inr x"
  "get_text_from_openai_answer (construct_text_from_cache now x) = Inr x"
  "get_audio_text_from_openai_answer (construct_audio_text_from_cache x) = Inr x"
  by (simp_all add: read_defs construct_resp_from_cache_def construct_text_from_cache_def construct_audio_text_from_cache_def)

lemma str_answer_text: "str_answer other (PStr s) = text_answer s"
  by (simp add: str_answer_def text_answer_def)

lemma save_with_text: "get r = Inr (PStr s) \<Longrightarrow> fst (save_with other get r) = [(text_answer s, None)]"
  by (simp add: save_with_def str_answer_text)

definition tokens_known :: "(string \<Rightarrow> 't list) \<Rightarrow> bool \<Rightarrow> pyargs \<Rightarrow> bool" where
  "tokens_known encode counted kwargs \<longleftrightarrow>
     (counted \<longrightarrow> (case num_tokens_from_messages encode (kw_or_none kwargs ''messages'') of Inl e \<Rightarrow> False | Inr n \<Rightarrow> True))"

definition streams :: "pyargs \<Rightarrow> bool" where
  "streams kwargs \<longleftrightarrow> py_truthy (kw_get kwargs ''stream'' (PBool False))"

interpretation chat: answer_codec "tokens_known encode counted kwargs \<and> \<not> streams kwargs" chat_payload text_answer
    "chat_update other" "chat_convert encode counted kwargs now"
proof
  fix m s and kw :: "'k kwargs"
  assume "chat_payload m = Inr s"
  then obtain r where "m = Resp r" "get_message_from_openai_answer r = Inr (PStr s)" by (auto simp: chat_payload_Inr)
  then show "fst (chat_update other m kw) = [(text_answer s, None)]"
    using save_with_text[of get_message_from_openai_answer r s other]
    by (cases "save_with other get_message_from_openai_answer r") simp
next
  fix s
  assume ready: "tokens_known encode counted kwargs \<and> \<not> streams kwargs"
  then obtain tok where "saved_tokens encode counted (kw_or_none kwargs ''messages'') (PStr s) = Inr tok"
    by (cases counted) (auto simp: tokens_known_def saved_tokens_def split: sum.splits)
  with ready show "\<exists>msg. chat_convert encode counted kwargs now (MsgOne (Text s)) = Inr msg \<and> chat_payload msg = Inr s"
    by (simp add: chat_convert_def streams_def read_constructed)
qed simp

interpretation completion: answer_codec True "\<lambda>r. text_of (get_text_from_openai_answer r)" text_answer "completion_update other"
    "completion_convert now"
  by unfold_locales (auto simp: completion_update_def completion_convert_def save_with_text text_of_Inr read_constructed)

interpretation audio: answer_codec True "\<lambda>r. text_of (get_audio_text_from_openai_answer r)" text_answer "audio_update other" audio_convert
  by unfold_locales (auto simp: audio_update_def audio_convert_def save_with_text text_of_Inr read_constructed)

text \<open>Streams: the parts that the chunks carry.\<close>

definition carries :: "pyobj \<Rightarrow> string \<Rightarrow> bool" where
  "carries chunk s \<longleftrightarrow> get_stream_message_from_openai_answer chunk = Inr (PStr s)"

lemma hook_reads:
  assumes "list_all2 (\<lambda>c s. get c = Inr (PStr s)) items parts"
  shows "hook_openai_data get n items None acc =
    (if n \<le> length items then (take n items, Suspended) else (items, Ended (text_answer (acc @ concat parts))))"
  using assms
proof (induction items parts arbitrary: n acc rule: list_all2_induct)
  case Nil
  then show ?case by (cases n) simp_all
next
  case (Cons c items s parts)
  then show ?case by (cases n) simp_all
qed

lemma hook_breaks:
  assumes "list_all2 (\<lambda>c s. get c = Inr (PStr s)) items parts" "get c = Inr PNone" "length items < n"
  shows "hook_openai_data get n (items @ c # rest) e acc = (items, Raised TypeError)"
  using assms
proof (induction items parts arbitrary: n acc rule: list_all2_induct)
  case Nil
  then show ?case by (cases n) simp_all
next
  case (Cons c' items s parts)
  then show ?case by (cases n) simp_all
qed

lemma cached_stream_carries:
  "list_all2 carries (construct_stream_resp_from_cache now (PStr s) tok) [[], s, []]"
  by (simp add: construct_stream_resp_from_cache_def carries_def read_defs)

section \<open>Properties\<close>

text \<open>
  C31. A repeated chat request is answered from the cache with the text of the first response. For any container and any
  preprocessing that gives the same question, with or without token counting: the first call reaches the LLM once,
  the second not at all, and the message of the second response is the message of the first.
\<close>

theorem chat_replay:
  assumes C: "container_contract ops" and kw: "kw = chat_kwargs cache_args kw0"
    and plain: "plain_request enable pre conf kw q" and inv: "map_inv ops m"
    and missing: "map_view ops m q = None" and cfg: "cfg = default_cache ops order denied enable pre conf"
    and llm: "\<And>kw' t'. kw_rest kw' = kw_rest kw \<Longrightarrow> llm_handler own original kw' t' = Inr (Some (Resp resp))"
    and env: "ae_truthy env = resp_truthy" and resp: "py_truthy resp" "get_message_from_openai_answer resp = Inr (PStr s)"
    and tokens: "tokens_known encode (counts_tokens given_cache global_cache) (kw_rest kw)" and no_stream: "\<not> streams (kw_rest kw)"
  shows "\<exists>resp1 kw1 resp2 r1 m1 df1 t1 tr1 r2 m2 t2 tr2.
    chat_create env encode other cache_args given_cache global_cache now' own original kw0 [(cfg, r, (m, df))] (t, tr) =
      Some (Inr (Some resp1), [(cfg, r1, (m1, df1))], (t1, tr1)) \<and> tr_llm tr1 = kw1 # tr_llm tr \<and>
    chat_create env encode other cache_args given_cache global_cache now'' own original kw0 [(cfg, r1, (m1, df1))] (t1, tr1) =
      Some (Inr (Some (Resp resp2)), [(cfg, r2, (m2, df1))], (t2, tr2)) \<and> tr_llm tr2 = tr_llm tr1 \<and>
    get_message_from_openai_answer resp2 = Inr (PStr s)"
proof -
  let ?counted = "counts_tokens given_cache global_cache"
  have truthy: "ae_truthy env (Resp resp)" by (simp add: env resp(1))
  have payload: "chat_payload (Resp resp) = Inr s" by (simp add: resp(2))
  have ready: "tokens_known encode ?counted (kw_rest kw) \<and> \<not> streams (kw_rest kw)" using tokens no_stream by simp
  show ?thesis
    using chat.replayed[where llm = "llm_handler own original" and convert' = "chat_convert encode ?counted (kw_rest kw) now'"
        and now = now'' and other = other and r = r and df = df and t = t and tr = tr and env = env,
        OF C plain inv missing cfg llm truthy payload ready]
    by (auto simp: chat_create_def Let_def kw[symmetric] chat_payload_Inr)
qed

definition text_pre :: "(pyargs \<Rightarrow> pyobj result) \<Rightarrow> pyargs kwargs \<Rightarrow> pyargs req_context \<Rightarrow> config \<Rightarrow> string pre_result result" where
  "text_pre f kw ctx cf = bind_res (f (kw_rest kw)) (\<lambda>x. case x of PStr s \<Rightarrow> Inr (PreOne s) | _ \<Rightarrow> Inl TypeError)"

definition text_env :: "('m \<Rightarrow> bool) \<Rightarrow> (string, string, 'm) adapter_env" where
  "text_env truthy = \<lparr>ae_rnd = (\<lambda>x. x), ae_clock = real, ae_round6 = (\<lambda>x. x), ae_pick_skip = (\<lambda>t xs p. hd xs),
     ae_pick_answer = (\<lambda>t xs p. hd xs), ae_str = (\<lambda>m. []), ae_len = (\<lambda>x. int (length x)),
     ae_summarize = (\<lambda>x n. Inr x), ae_as_str = Some, ae_same_embedding = (=), ae_truthy = truthy\<rparr>"

definition request_kw :: "pyargs \<Rightarrow> pyargs kwargs" where
  "request_kw args = \<lparr>kw_search_only = None, kw_temperature = None, kw_top_k = None, kw_session = None,
     kw_require_object_store = None, kw_cache_context = None, kw_cache_skip = None, kw_cache_factor = None,
     kw_hit_callback = False, kw_rest = args\<rparr>"

definition text_cache where
  "text_cache f = default_cache dict_container sorted_list_of_set False (\<lambda>kw. Inr True) (text_pre f) small_config"

definition hi_messages :: pyargs where
  "hi_messages = [(''messages'', PList [PDict [(''role'', PStr ''user''), (''content'', PStr ''hi'')]])]"

definition yes_resp :: pyobj where
  "yes_resp = PDict [(''choices'', PList [PDict [(''message'', PDict [(''role'', PStr ''assistant''), (''content'', PStr ''yes'')])]])]"

definition no_requests :: "pyargs trace" where
  "no_requests = \<lparr>tr_llm = [], tr_hits = []\<rparr>"

lemma plain_text_request:
  assumes "f args = Inr (PStr q)" "\<not> cf_data_check conf" "cf_input_summary_len conf = None"
  shows "plain_request (\<lambda>kw. Inr True) (text_pre f) conf (request_kw args) q"
  by (simp add: plain_request_def request_kw_def text_pre_def assms)

lemma small_config_plain: "\<not> cf_data_check small_config" "cf_input_summary_len small_config = None"
  by (simp_all add: small_config_def)

lemma small_map_misses: "map_view dict_container small_map q = None"
  by (simp add: map_view_def small_map_def dict_container_def)

theorem chat_replay_witness:
  "\<exists>resp1 kw1 resp2 r1 m1 t1 tr1 r2 m2 t2 tr2.
    chat_create (text_env resp_truthy) (\<lambda>s. s) (\<lambda>x. Text []) [] None small_config 1 None (\<lambda>kw t. Inr (Some (Resp yes_resp)))
      (request_kw hi_messages) [(text_cache last_content, report_init, (small_map, FileMissing))] (0, no_requests) =
      Some (Inr (Some resp1), [(text_cache last_content, r1, m1)], (t1, tr1)) \<and> tr_llm tr1 = [kw1] \<and>
    chat_create (text_env resp_truthy) (\<lambda>s. s) (\<lambda>x. Text []) [] None small_config 2 None (\<lambda>kw t. Inr (Some (Resp yes_resp)))
      (request_kw hi_messages) [(text_cache last_content, r1, m1)] (t1, tr1) =
      Some (Inr (Some (Resp resp2)), [(text_cache last_content, r2, m2)], (t2, tr2)) \<and> tr_llm tr2 = [kw1] \<and>
    get_message_from_openai_answer resp2 = Inr (PStr ''yes'')"
proof -
  let ?counted = "counts_tokens None small_config"
  have kw: "request_kw hi_messages = chat_kwargs [] (request_kw hi_messages)"
    by (simp add: chat_kwargs_def fill_base_args_def)
  have rest: "kw_rest (request_kw hi_messages) = hi_messages" by (simp add: request_kw_def)
  have "last_content hi_messages = Inr (PStr ''hi'')"
    by (simp add: last_content_def hi_messages_def dict_get_def py_last_def)
  note plain = plain_text_request[where f = last_content and args = hi_messages, OF this small_config_plain]
  have llm: "llm_handler None (\<lambda>kw t. Inr (Some (Resp yes_resp))) kw' t' = Inr (Some (Resp yes_resp))" for kw' :: "pyargs kwargs" and t' :: nat
    by (simp add: llm_handler_def)
  have resp: "ae_truthy (text_env resp_truthy) = resp_truthy" "py_truthy yes_resp" "get_message_from_openai_answer yes_resp = Inr (PStr ''yes'')"
    by (simp_all add: text_env_def yes_resp_def read_defs)
  have tokens: "tokens_known (\<lambda>s. s) ?counted (kw_rest (request_kw hi_messages))" "\<not> streams (kw_rest (request_kw hi_messages))"
    unfolding rest by (simp_all add: tokens_known_def streams_def hi_messages_def kw_or_none_def kw_get_def num_tokens_from_messages_def)
  from chat_replay[where other = "\<lambda>x. Text []" and now' = 1 and now'' = 2 and r = report_init and df = FileMissing and t = 0 and tr = no_requests,
      OF dict_container_contract kw plain small_map_inv small_map_misses text_cache_def llm resp tokens]
  obtain resp1 kw1 resp2 r1 m1 df1 t1 tr1 r2 m2 t2 tr2 where
    "chat_create (text_env resp_truthy) (\<lambda>s. s) (\<lambda>x. Text []) [] None small_config 1 None (\<lambda>kw t. Inr (Some (Resp yes_resp)))
      (request_kw hi_messages) [(text_cache last_content, report_init, (small_map, FileMissing))] (0, no_requests) =
      Some (Inr (Some resp1), [(text_cache last_content, r1, (m1, df1))], (t1, tr1))" "tr_llm tr1 = kw1 # tr_llm no_requests"
    "chat_create (text_env resp_truthy) (\<lambda>s. s) (\<lambda>x. Text []) [] None small_config 2 None (\<lambda>kw t. Inr (Some (Resp yes_resp)))
      (request_kw hi_messages) [(text_cache last_content, r1, (m1, df1))] (t1, tr1) =
      Some (Inr (Some (Resp resp2)), [(text_cache last_content, r2, (m2, df1))], (t2, tr2))" "tr_llm tr2 = tr_llm tr1"
    "get_message_from_openai_answer resp2 = Inr (PStr ''yes'')" by blast
  moreover from this have "tr_llm tr1 = [kw1]" "tr_llm tr2 = [kw1]" by (simp_all add: no_requests_def)
  ultimately show ?thesis by blast
qed

text \<open>
  C32. A streamed answer is saved once and complete. Whatever the caller reads of it is the LLM's own chunks; only when it reads
  to the end is the answer saved, and then it is the concatenation of all parts. The stream that is later made from the
  cached answer carries the same text.
\<close>

theorem stream_roundtrip:
  assumes parts: "list_all2 carries items parts" and stream: "streams kwargs" and tokens: "tokens_known encode counted kwargs"
  shows "hook_openai_data get_stream_message_from_openai_answer n items None [] =
      (if n \<le> length items then (take n items, Suspended) else (items, Ended (text_answer (concat parts)))) \<and>
    (\<exists>items'. chat_convert encode counted kwargs now (MsgOne (Text (concat parts))) = Inr (Chunks items' None) \<and>
      hook_openai_data get_stream_message_from_openai_answer (Suc (length items')) items' None [] =
        (items', Ended (text_answer (concat parts))))"
proof -
  obtain tok where "saved_tokens encode counted (kw_or_none kwargs ''messages'') (PStr (concat parts)) = Inr tok"
    using tokens by (cases counted) (auto simp: tokens_known_def saved_tokens_def split: sum.splits)
  with stream have convert: "chat_convert encode counted kwargs now (MsgOne (Text (concat parts))) =
      Inr (Chunks (construct_stream_resp_from_cache now (PStr (concat parts)) tok) None)"
    by (simp add: chat_convert_def streams_def)
  show ?thesis unfolding convert
    by (simp add: hook_reads[OF parts[unfolded carries_def[abs_def]]]
        hook_reads[OF cached_stream_carries[of now "concat parts", unfolded carries_def[abs_def]]])
qed

definition part :: "string \<Rightarrow> pyobj" where
  "part s = PDict [(''choices'', PList [PDict [(''delta'', PDict [(''content'', PStr s)])]])]"

lemma carries_part: "carries (part s) s"
  by (simp add: part_def carries_def read_defs)

theorem stream_roundtrip_witness:
  "hook_openai_data get_stream_message_from_openai_answer 1 [part ''he'', part ''llo''] None [] = ([part ''he''], Suspended) \<and>
   hook_openai_data get_stream_message_from_openai_answer 3 [part ''he'', part ''llo''] None [] =
     ([part ''he'', part ''llo''], Ended (text_answer ''hello''))"
proof -
  have parts: "list_all2 carries [part ''he'', part ''llo''] [''he'', ''llo'']" by (simp add: carries_part)
  have "streams [(''stream'', PBool True)]" "tokens_known (\<lambda>s. s) False [(''stream'', PBool True)]"
    by (simp_all add: streams_def tokens_known_def kw_get_def)
  from stream_roundtrip[OF parts this, of 1] stream_roundtrip[OF parts this, of 3] show ?thesis by simp
qed

text \<open>
  A chunk whose content is \<open>None\<close>, as OpenAI sends it with function calls, breaks the stream: the caller gets the chunks before
  it, then a \<open>TypeError\<close>, and nothing is saved. Without the cache the stream would go on.
\<close>

theorem null_content_breaks_stream:
  assumes "list_all2 carries items parts" and "get_stream_message_from_openai_answer c = Inr PNone" and "length items < n"
  shows "hook_openai_data get_stream_message_from_openai_answer n (items @ c # rest) e [] = (items, Raised TypeError)"
  using hook_breaks[OF assms(1)[unfolded carries_def[abs_def]] assms(2,3)] .

definition null_part :: pyobj where
  "null_part = PDict [(''choices'', PList [PDict [(''delta'', PDict [(''role'', PStr ''assistant''), (''content'', PNone)])]])]"

theorem null_content_breaks_stream_witness:
  "hook_openai_data get_stream_message_from_openai_answer 2 ([part ''he''] @ null_part # [part ''llo'']) None [] =
     ([part ''he''], Raised TypeError)"
  by (rule null_content_breaks_stream[where parts = "[''he'']"]) (simp_all add: carries_part null_part_def read_defs)

text \<open>
  C5. \<open>Moderation.create\<close> never returns a cached answer of the wrong size. Whatever the cache holds and whatever is stored
  under a similar question, the response that is returned has one result for each input, or it is what the API has
  answered to the last call of this very request: that call was made with the request's own arguments, is the last in
  the trace, and at most one other call was made before it. Nothing is assumed of what the API answers.
\<close>

theorem moderation_answers_fit:
  assumes "moderation_create env other loads dumps cache_args own original kw0 [(cfg, r, d)] (t, tr) = Some (Inr (Some m), cs, w)"
  shows "results_len (Some m) = Inr (expect_res_len (fill_base_args cache_args (kw_rest kw0))) \<or>
    (\<exists>k u before. tr_llm (snd w) = k # before @ tr_llm tr \<and> length before \<le> 1 \<and>
       kw_rest k = fill_base_args cache_args (kw_rest kw0) \<and> llm_handler own original k u = Inr (Some m))"
proof -
  let ?n = "expect_res_len (fill_base_args cache_args (kw_rest kw0))"
  let ?kw = "chat_kwargs cache_args kw0"
  let ?ask = "adapt env (moderation_convert loads) (moderation_update other dumps) (llm_handler own original)"
  note result = assms
  have rest: "kw_rest ?kw = fill_base_args cache_args (kw_rest kw0)" by (simp add: chat_kwargs_def)
  obtain res1 cs1 w1 where ask1: "?ask ?kw [(cfg, r, d)] (t, tr) = Some (Inr res1, cs1, w1)"
    using result by (auto simp: moderation_create_def Let_def simp del: adapt.simps split: option.splits sum.splits prod.splits)
  from adapt_one[OF ask1] obtain r1 d1 where cs1: "cs1 = [(cfg, r1, d1)]" by blast
  obtain t1 tr1 where w1: "w1 = (t1, tr1)" by (cases w1)
  from adapt_calls[OF ask1[unfolded w1]] obtain before where before: "tr_llm tr1 = before @ tr_llm tr" "length before \<le> 1"
    unfolding llm_call_ok_def by (metis append_Cons append_Nil length_Cons list.size(3) One_nat_def le_refl zero_le)
  from result consider
      (first) "results_len (Some m) = Inr ?n"
    | (again) "?ask (?kw\<lparr>kw_cache_skip := Some True\<rparr>) [(cfg, r1, d1)] (t1, tr1) = Some (Inr (Some m), cs, w)"
    by (auto simp: moderation_create_def Let_def rest ask1[unfolded cs1 w1] simp del: adapt.simps split: sum.splits if_splits)
  then show ?thesis
  proof cases
    case again
    have skip: "kw_cache_skip (?kw\<lparr>kw_cache_skip := Some True\<rparr>) = Some True" by simp
    have upd: "m' = m" if "snd (moderation_update other dumps m kw) = Inr m'" for m m' and kw :: "pyargs kwargs"
      using that by (auto simp: moderation_update_def save_with_def split: sum.splits)
    have "\<exists>k u. tr_llm (snd w) = k # tr_llm tr1 \<and> kw_rest k = kw_rest (?kw\<lparr>kw_cache_skip := Some True\<rparr>) \<and>
        llm_handler own original k u = Inr (Some m)"
      by (rule skip_single_call[OF skip upd again])
    with before show ?thesis by (auto simp: rest)
  qed simp
qed

definition stale_map :: "(string \<times> map_tuple) list map_manager" where
  "stale_map = \<lparr>mm_data = [(''hi'', \<lparr>mt_question = ''hi'', mt_answer = text_answer ''none'', mt_embedding = ''hi'', mt_sessions = 0\<rparr>)],
     mm_sets = (\<lambda>_. {}), mm_next = 1\<rparr>"

definition input_kw :: "pyargs kwargs" where
  "input_kw = request_kw [(''input'', PStr ''hi'')]"

definition input_text :: "pyargs \<Rightarrow> pyobj result" where
  "input_text args = Inr (dict_get args ''input'')"

definition results_of :: "nat \<Rightarrow> pyobj" where
  "results_of n = PDict [(''results'', PList (replicate n PNone))]"

definition small_loads :: "pyobj \<Rightarrow> pyobj result" where
  "small_loads x = Inr (results_of 0)"

lemma results_len_of [simp]: "results_len (Some (results_of n)) = Inr n"
  by (simp add: results_of_def dict_get_def)

theorem moderation_answers_fit_witness:
  "\<exists>m cs w. moderation_create (text_env py_truthy) (\<lambda>x. Text []) small_loads (\<lambda>r. Inr ''one'') [] None
      (\<lambda>kw t. Inr (Some (results_of 1))) input_kw [(text_cache input_text, report_init, (stale_map, FileMissing))] (0, no_requests) =
      Some (Inr (Some m), cs, w) \<and> results_len (Some m) = Inr 1"
proof -
  let ?env = "text_env py_truthy" and ?upd = "moderation_update (\<lambda>x. Text []) (\<lambda>r. Inr ''one'')"
    and ?conv = "moderation_convert small_loads" and ?cfg = "text_cache input_text"
  let ?own = "None :: (pyargs kwargs \<Rightarrow> nat \<Rightarrow> pyobj option result) option"
  let ?llm = "llm_handler ?own (\<lambda>kw t. Inr (Some (results_of 1)))"
  let ?skip = "input_kw\<lparr>kw_cache_skip := Some True\<rparr>"
  have inp: "input_text [(''input'', PStr ''hi'')] = Inr (PStr ''hi'')" by (simp add: input_text_def dict_get_def)
  have plain: "plain_request (\<lambda>kw. Inr True) (text_pre input_text) small_config input_kw ''hi''"
    unfolding input_kw_def by (rule plain_text_request) (rule inp small_config_plain)+
  have skip: "skip_request (\<lambda>kw. Inr True) (text_pre input_text) small_config ?skip ''hi''"
    using plain by (simp add: skip_request_def input_kw_def request_kw_def)
  have inv: "map_inv dict_container stale_map" by (simp add: map_inv_def stale_map_def dict_container_def)
  have cached: "map_view dict_container stale_map ''hi'' = Some (\<lparr>mt_question = ''hi'', mt_answer = text_answer ''none'', mt_embedding = ''hi'', mt_sessions = 0\<rparr>, {})"
    by (simp add: map_view_def stale_map_def dict_container_def)
  have conv: "?conv (MsgOne (Text ''none'')) = Inr (results_of 0)" by (simp add: moderation_convert_def small_loads_def)
  have llm: "?llm kw' t' = Inr (Some (results_of 1))" for kw' t' by (simp add: llm_handler_def)
  have truthy: "ae_truthy ?env (results_of 1)" by (simp add: text_env_def results_of_def)
  have upd: "fst (?upd (results_of 1) kw') = [(text_answer ''one'', None)]" for kw' :: "pyargs kwargs"
    by (simp add: moderation_update_def save_with_def str_answer_def text_answer_def)
  have first: "mt_question \<lparr>mt_question = ''hi'', mt_answer = text_answer ''none'', mt_embedding = ''hi'', mt_sessions = 0\<rparr> = ''hi''"
    "first_saved (mt_answer \<lparr>mt_question = ''hi'', mt_answer = text_answer ''none'', mt_embedding = ''hi'', mt_sessions = 0\<rparr>) = Some (Text ''none'')"
    by simp_all
  from cached_request[where env = ?env and update = ?upd and llm = ?llm and r = report_init and df = FileMissing and t = 0
      and tr = no_requests and convert = ?conv, OF dict_container_contract plain cached first conv text_cache_def]
  obtain r1 t1 m1 tr1 where ask1: "adapt ?env ?conv ?upd ?llm input_kw [(?cfg, report_init, (stale_map, FileMissing))] (0, no_requests) =
      Some (Inr (Some (results_of 0)), [(?cfg, r1, (m1, FileMissing))], (t1, tr1))" "map_inv dict_container m1"
    using inv by blast
  from skip_stores[where env = ?env and update = ?upd and llm = ?llm and r = r1 and df = FileMissing and t = t1 and tr = tr1
      and convert = ?conv and resp = "results_of 1", OF dict_container_contract skip ask1(2) text_cache_def llm truthy upd]
  obtain resp cs w where ask2: "adapt ?env ?conv ?upd ?llm ?skip [(?cfg, r1, (m1, FileMissing))] (t1, tr1) = Some (Inr (Some resp), cs, w)"
    by blast
  have kw: "chat_kwargs [] input_kw = input_kw" by (simp add: chat_kwargs_def fill_base_args_def)
  have n: "expect_res_len (fill_base_args [] (kw_rest input_kw)) = 1"
    by (simp add: fill_base_args_def input_kw_def request_kw_def expect_res_len_def kw_or_none_def kw_get_def)
  have run: "moderation_create ?env (\<lambda>x. Text []) small_loads (\<lambda>r. Inr ''one'') [] ?own
      (\<lambda>kw t. Inr (Some (results_of 1))) input_kw [(?cfg, report_init, (stale_map, FileMissing))] (0, no_requests) =
      Some (Inr (Some resp), cs, w)"
    using n unfolding moderation_create_def Let_def kw ask1(1)
    by (simp add: ask2 fill_base_args_def del: adapt.simps One_nat_def results_len.simps)
  have "results_len (Some m) = Inr 1" if "?llm k u = Inr (Some m)" for k u m
    using that by (simp add: llm_handler_def del: results_len.simps One_nat_def) (use results_len_of[of 1] in simp)
  with moderation_answers_fit[OF run] n run show ?thesis by auto
qed

end
