(* ===== verification/Context.thy ===== *)
theory Context
  imports Openai
begin

text \<open>
  The context processors of \<open>gptcache/processor/context/\<close>: \<open>context.py\<close>, \<open>concat_context.py\<close>, \<open>selective_context.py\<close> and
  \<open>summarization_context.py\<close>. A processor is an object used for every request; its \<open>pre_process\<close> is the preprocessing
  function of the cache and gives the text to store and the text to embed. The language models are parameters.
\<close>

section \<open>The interface\<close>

text \<open>\<open>ContextProcess.pre_process\<close> of a processor with the methods \<open>format\<close> and \<open>process\<close>.\<close>

definition pre_process ::
  "(pyargs \<Rightarrow> 's \<Rightarrow> (unit, 's) outcome) \<Rightarrow> ('s \<Rightarrow> ('a, 's) outcome) \<Rightarrow> pyargs \<Rightarrow> 's \<Rightarrow> ('a, 's) outcome" where
  "pre_process format_all_content process_all_content data s =
     bind_out (format_all_content data s) (\<lambda>_. process_all_content)"

definition messages_of :: "pyargs \<Rightarrow> pyobj list result" where
  "messages_of data = bind_res (py_item (PDict data) ''messages'') py_iter"

text \<open>\<open>f"{query['role']}: {query['content']} \n"\<close>.\<close>

definition role_line :: "repr_env \<Rightarrow> pyobj \<Rightarrow> string result" where
  "role_line re query =
     bind_res (py_item query ''role'') (\<lambda>r. bind_res (py_item query ''content'') (\<lambda>c.
       Inr (py_str re r @ '': '' @ py_str re c @ '' '' @ [char_of (10::nat)])))"

section \<open>Concatenation\<close>

record concat_context =
  cn_content :: string
  cn_concat :: string

definition concat_init :: concat_context where
  "concat_init = \<lparr>cn_content = [], cn_concat = []\<rparr>"

definition concat_query :: "repr_env \<Rightarrow> pyobj \<Rightarrow> concat_context \<Rightarrow> (unit, concat_context) outcome" where
  "concat_query re query s =
     (case role_line re query of
        Inl e \<Rightarrow> (Inl e, s)
      | Inr l \<Rightarrow>
          let s = s\<lparr>cn_content := cn_content s @ l\<rparr>
          in case bind_res (py_item query ''content'') (str_add (cn_concat s)) of
               Inl e \<Rightarrow> (Inl e, s)
             | Inr k \<Rightarrow> (Inr (), s\<lparr>cn_concat := k\<rparr>))"

definition concat_format :: "repr_env \<Rightarrow> pyargs \<Rightarrow> concat_context \<Rightarrow> (unit, concat_context) outcome" where
  "concat_format re data s = (case messages_of data of Inl e \<Rightarrow> (Inl e, s) | Inr ms \<Rightarrow> for_each (concat_query re) ms s)"

definition concat_process :: "concat_context \<Rightarrow> (string \<times> string, concat_context) outcome" where
  "concat_process s = (Inr (cn_content s, cn_concat s), s)"

section \<open>Selection\<close>

text \<open>\<open>sc\<close> is the library's selection of the content with a ratio and a level.\<close>

record selective_context =
  sl_content :: string
  sl_ratio :: real
  sl_level :: string

definition selective_query :: "repr_env \<Rightarrow> pyobj \<Rightarrow> selective_context \<Rightarrow> (unit, selective_context) outcome" where
  "selective_query re query s =
     (case role_line re query of Inl e \<Rightarrow> (Inl e, s) | Inr l \<Rightarrow> (Inr (), s\<lparr>sl_content := sl_content s @ l\<rparr>))"

definition selective_format :: "repr_env \<Rightarrow> pyargs \<Rightarrow> selective_context \<Rightarrow> (unit, selective_context) outcome" where
  "selective_format re data s = (case messages_of data of Inl e \<Rightarrow> (Inl e, s) | Inr ms \<Rightarrow> for_each (selective_query re) ms s)"

definition selective_process ::
  "(string \<Rightarrow> real \<Rightarrow> string \<Rightarrow> string result) \<Rightarrow> selective_context \<Rightarrow> (string \<times> string, selective_context) outcome" where
  "selective_process sc s =
     (bind_res (sc (sl_content s) (sl_ratio s) (sl_level s)) (\<lambda>x. Inr (sl_content s, x)), s)"

section \<open>Summarization\<close>

text \<open>
  \<open>sm_encode\<close> and \<open>sm_decode\<close> are the tokenizer of the summarizer, \<open>sm_summarize\<close> the summary of a text with least and greatest
  length; \<open>tk_tokens\<close> and \<open>tk_max_length\<close> belong to the processor's own tokenizer.
\<close>

record 't summarizer =
  sm_encode :: "string \<Rightarrow> 't list"
  sm_decode :: "'t list \<Rightarrow> string"
  sm_summarize :: "string \<Rightarrow> int \<Rightarrow> int \<Rightarrow> string result"
  tk_tokens :: "string \<Rightarrow> nat"
  tk_max_length :: int

text \<open>\<open>[tokens[i : i + n] for i in range(0, len(tokens), n - 1)]\<close>: a step of 0 raises, with a negative one there are none.\<close>

definition segments :: "int \<Rightarrow> 't list \<Rightarrow> 't list list result" where
  "segments n tokens =
     (if n = 1 then Inl ValueError
      else if n < 1 then Inr []
      else let step = nat (n - 1)
           in Inr (map (\<lambda>k. take (nat n) (drop (k * step) tokens)) [0..<(length tokens + step - 1) div step]))"

definition summarize_segment :: "'t summarizer \<Rightarrow> 't list \<Rightarrow> string result" where
  "summarize_segment sm segment =
     (let len_seg = int (length segment div 4) in sm_summarize sm (sm_decode sm segment) (max (len_seg - 10) 1) len_seg)"

definition summarize_round :: "'t summarizer \<Rightarrow> int \<Rightarrow> string \<Rightarrow> string result" where
  "summarize_round sm segment_len msg =
     bind_res (segments segment_len (sm_encode sm msg)) (\<lambda>segs.
     bind_res (map_res (summarize_segment sm) segs) (\<lambda>parts. Inr (concat parts)))"

text \<open>The loop of \<open>summarize_to_length\<close>; \<open>None\<close> when it never ends.\<close>

partial_function (option) summarize_loop :: "'t summarizer \<Rightarrow> int \<Rightarrow> int \<Rightarrow> string \<Rightarrow> string result option" where
  "summarize_loop sm target_len segment_len msg =
     (if int (length (sm_encode sm msg)) > target_len
      then (case summarize_round sm segment_len msg of
              Inl e \<Rightarrow> Some (Inl e)
            | Inr t \<Rightarrow> summarize_loop sm target_len segment_len t)
      else Some (Inr msg))"

definition summarize_to_length :: "'t summarizer \<Rightarrow> string \<Rightarrow> int \<Rightarrow> int \<Rightarrow> string result option" where
  "summarize_to_length sm msg target_len max_len = summarize_loop sm target_len (max_len - 100) msg"

text \<open>
  \<open>summarize_to_sentence\<close>. Without any characters the quotient is not a number and \<open>int\<close> raises \<open>ValueError\<close>; \<open>rnd\<close> rounds the
  quotient to a float.
\<close>

definition target_lengths :: "(real \<Rightarrow> real) \<Rightarrow> string list \<Rightarrow> int \<Rightarrow> int list result" where
  "target_lengths rnd sentences target_size =
     (let total_length = sum_list (map length sentences)
      in if sentences \<noteq> [] \<and> total_length = 0 then Inl ValueError
         else Inr (map (\<lambda>s. py_int (rnd (of_int (target_size * int (length s)) / of_nat total_length))) sentences))"

definition target_sentence :: "'t summarizer \<Rightarrow> string \<times> int \<Rightarrow> string result option" where
  "target_sentence sm = (\<lambda>(sent, target_len).
     if int (tk_tokens sm sent) > target_len then summarize_to_length sm sent target_len (tk_max_length sm) else Some (Inr sent))"

fun target_sentences :: "'t summarizer \<Rightarrow> (string \<times> int) list \<Rightarrow> string result option" where
  "target_sentences sm [] = Some (Inr [])"
| "target_sentences sm (x # xs) =
     (case target_sentence sm x of
        None \<Rightarrow> None
      | Some (Inl e) \<Rightarrow> Some (Inl e)
      | Some (Inr t) \<Rightarrow> map_option (map_sum id (\<lambda>ts. t @ ts)) (target_sentences sm xs))"

definition summarize_to_sentence :: "(real \<Rightarrow> real) \<Rightarrow> 't summarizer \<Rightarrow> string list \<Rightarrow> int \<Rightarrow> string result option" where
  "summarize_to_sentence rnd sm sentences target_size =
     (case target_lengths rnd sentences target_size of
        Inl e \<Rightarrow> Some (Inl e)
      | Inr lens \<Rightarrow> target_sentences sm (zip sentences lens))"

text \<open>
  The processor: it keeps the messages of the last request only. Contents that are no texts have no length here.
\<close>

record summarization_context =
  su_target_length :: int
  su_content :: "pyobj list"

definition summarization_format :: "pyargs \<Rightarrow> summarization_context \<Rightarrow> (unit, summarization_context) outcome" where
  "summarization_format data s = (case messages_of data of Inl e \<Rightarrow> (Inl e, s) | Inr ms \<Rightarrow> (Inr (), s\<lparr>su_content := ms\<rparr>))"

definition serialize_message :: "repr_env \<Rightarrow> pyobj \<Rightarrow> string result" where
  "serialize_message re m =
     bind_res (py_item m ''role'') (\<lambda>r. bind_res (py_item m ''content'') (\<lambda>c.
       Inr (''[#RS]'' @ py_str re r @ ''[#RE][#CS]'' @ py_str re c @ ''[#CE]'')))"

definition serialize_content :: "repr_env \<Rightarrow> pyobj list \<Rightarrow> string result" where
  "serialize_content re content = bind_res (map_res (serialize_message re) content) (\<lambda>ss. Inr (concat ss))"

definition content_text :: "pyobj \<Rightarrow> string result" where
  "content_text m = bind_res (py_item m ''content'') (\<lambda>c. case c of PStr s \<Rightarrow> Inr s | _ \<Rightarrow> Inl TypeError)"

definition summarization_process ::
  "(real \<Rightarrow> real) \<Rightarrow> repr_env \<Rightarrow> 't summarizer \<Rightarrow> summarization_context \<Rightarrow> (string \<times> string) result option" where
  "summarization_process rnd re sm s =
     (case map_res content_text (su_content s) of
        Inl e \<Rightarrow> Some (Inl e)
      | Inr sentences \<Rightarrow>
          map_option (\<lambda>result. bind_res result (\<lambda>embedding_content.
              bind_res (serialize_content re (su_content s)) (\<lambda>save_content. Inr (save_content, embedding_content))))
            (summarize_to_sentence rnd sm sentences (su_target_length s)))"

definition summarization_pre_process ::
  "(real \<Rightarrow> real) \<Rightarrow> repr_env \<Rightarrow> 't summarizer \<Rightarrow> pyargs \<Rightarrow> summarization_context
   \<Rightarrow> (string \<times> string, summarization_context) outcome option" where
  "summarization_pre_process rnd re sm data s =
     (case summarization_format data s of
        (Inl e, s) \<Rightarrow> Some (Inl e, s)
      | (Inr u, s) \<Rightarrow> map_option (\<lambda>r. (r, s)) (summarization_process rnd re sm s))"

section \<open>Properties of the concatenation\<close>

text \<open>What the messages of a request contribute to the two texts.\<close>

fun lines_of :: "repr_env \<Rightarrow> pyobj list \<Rightarrow> (string \<times> string) result" where
  "lines_of re [] = Inr ([], [])"
| "lines_of re (m # ms) =
     bind_res (role_line re m) (\<lambda>l. bind_res (content_text m) (\<lambda>c. bind_res (lines_of re ms) (\<lambda>(ls, cs). Inr (l @ ls, c @ cs))))"

lemma concat_queries:
  "lines_of re ms = Inr (ls, cs) \<Longrightarrow>
     for_each (concat_query re) ms s = (Inr (), \<lparr>cn_content = cn_content s @ ls, cn_concat = cn_concat s @ cs\<rparr>)"
proof (induction ms arbitrary: s ls cs)
  case (Cons m ms)
  then obtain l c ls' cs' where m: "role_line re m = Inr l" "content_text m = Inr c" "lines_of re ms = Inr (ls', cs')"
    "ls = l @ ls'" "cs = c @ cs'" by (auto simp: outcome_simps)
  have "py_item m ''content'' = Inr (PStr c)"
    using m(2) by (cases "py_item m ''content''") (auto simp: content_text_def split: pyobj.splits)
  with m Cons.IH[OF m(3)] show ?case by (simp add: concat_query_def Let_def)
qed simp

text \<open>
  A concatenation processor never forgets. Its texts are only ever added to, so that a request is stored and embedded together with all
  requests before it: the same request, processed again, gives each of its texts twice, and it can find its own answer only
  while nothing else was asked.
\<close>

theorem concat_context_accumulates:
  assumes "messages_of data = Inr ms" and "lines_of re ms = Inr (ls, cs)"
  shows "pre_process (concat_format re) concat_process data s =
      (Inr (cn_content s @ ls, cn_concat s @ cs), \<lparr>cn_content = cn_content s @ ls, cn_concat = cn_concat s @ cs\<rparr>) \<and>
    fst (pre_process (concat_format re) concat_process data (snd (pre_process (concat_format re) concat_process data concat_init))) =
      Inr (ls @ ls, cs @ cs)"
  using assms by (simp add: pre_process_def concat_format_def concat_process_def concat_queries concat_init_def)

definition no_repr :: repr_env where
  "no_repr = \<lparr>re_float = (\<lambda>x. []), re_obj = (\<lambda>a. [])\<rparr>"

theorem concat_context_accumulates_witness:
  "fst (pre_process (concat_format no_repr) concat_process hi_messages
      (snd (pre_process (concat_format no_repr) concat_process hi_messages concat_init))) =
    Inr (''user: hi '' @ [char_of (10::nat)] @ ''user: hi '' @ [char_of (10::nat)], ''hihi'')"
proof -
  have "messages_of hi_messages = Inr [PDict [(''role'', PStr ''user''), (''content'', PStr ''hi'')]]"
    by (simp add: messages_of_def hi_messages_def)
  moreover have "lines_of no_repr [PDict [(''role'', PStr ''user''), (''content'', PStr ''hi'')]] =
      Inr (''user: hi '' @ [char_of (10::nat)], ''hi'')"
    by (simp add: role_line_def content_text_def)
  ultimately show ?thesis
    by (rule conjunct2[OF concat_context_accumulates[of hi_messages _ no_repr, of _ "''user: hi '' @ [char_of (10::nat)]" "''hi''"], THEN trans]) simp
qed

section \<open>Properties of the summarization\<close>





text \<open>
  C35. The summarizer returns a text that fits, when it makes every longer text shorter. The loop has no other end: no number of rounds is
  fixed, and this is what the caller has to know of the model.
\<close>

theorem summarizer_returns:
  assumes "\<And>t. target_len < int (length (sm_encode sm t)) \<Longrightarrow>
    \<exists>t'. summarize_round sm (max_len - 100) t = Inr t' \<and> length (sm_encode sm t') < length (sm_encode sm t)"
  shows "\<exists>t. summarize_to_length sm msg target_len max_len = Some (Inr t) \<and> int (length (sm_encode sm t)) \<le> target_len"
proof -
  have "\<exists>t. summarize_loop sm target_len (max_len - 100) msg = Some (Inr t) \<and> int (length (sm_encode sm t)) \<le> target_len"
  proof (induction "length (sm_encode sm msg)" arbitrary: msg rule: less_induct)
    case less
    show ?case
    proof (cases "target_len < int (length (sm_encode sm msg))")
      case True
      from assms[OF this] obtain t' where "summarize_round sm (max_len - 100) msg = Inr t'"
        "length (sm_encode sm t') < length (sm_encode sm msg)" by blast
      with less[of t'] True show ?thesis by (subst summarize_loop.simps) simp
    next
      case False
      then show ?thesis by (subst summarize_loop.simps) simp
    qed
  qed
  then show ?thesis by (simp add: summarize_to_length_def)
qed

definition endless_summarizer :: "nat summarizer" where
  "endless_summarizer = \<lparr>sm_encode = (\<lambda>t. 0 # map of_char t @ [2]), sm_decode = map char_of, sm_summarize = (\<lambda>t a b. Inr []),
     tk_tokens = length, tk_max_length = 512\<rparr>"

theorem summarizer_returns_witness:
  "\<exists>t. summarize_to_length endless_summarizer (replicate 300 CHR ''x'') 5 512 = Some (Inr t) \<and>
     int (length (sm_encode endless_summarizer t)) \<le> 5"
proof (rule summarizer_returns)
  fix t
  assume long: "5 < int (length (sm_encode endless_summarizer t))"
  have "map_res (summarize_segment endless_summarizer) segs = Inr (replicate (length segs) [])" for segs
    by (induction segs) (simp_all add: summarize_segment_def endless_summarizer_def Let_def)
  then have "summarize_round endless_summarizer (512 - 100) t = Inr []"
    by (simp add: summarize_round_def segments_def Let_def)
  with long show "\<exists>t'. summarize_round endless_summarizer (512 - 100) t = Inr t' \<and>
      length (sm_encode endless_summarizer t') < length (sm_encode endless_summarizer t)"
    by (cases t) (simp_all add: endless_summarizer_def)
qed




end
