(* ===== verification/Objects.thy ===== *)
theory Objects
  imports Data_Manager Factories
begin

text \<open>
  The object storages of \<open>gptcache/manager/object_data/\<close>: \<open>LocalObjectStorage\<close> over a file system and \<open>S3Storage\<close> over a
  client of boto3, which is a parameter. The locale \<open>object_store\<close> states what the data manager needs of them; its
  lemmas follow answers through the data manager to a store and back. Paths are compared as they are spelled, after the
  normalisation of \<open>pathlib\<close>: links and \<open>..\<close> are not resolved.
\<close>

section \<open>Paths\<close>

text \<open>The components of a path, the absolute path of a working directory, and \<open>str\<close> of an absolute path.\<close>

definition path_comps :: "string \<Rightarrow> string list" where
  "path_comps p = filter (\<lambda>c. c \<noteq> [] \<and> c \<noteq> ''.'') (split_on ''/'' [] p)"

definition abs_comps :: "string list \<Rightarrow> string \<Rightarrow> string list" where
  "abs_comps cwd p = (if p \<noteq> [] \<and> hd p = CHR ''/'' then path_comps p else cwd @ path_comps p)"

definition path_text :: "string list \<Rightarrow> string" where
  "path_text cs = ''/'' @ py_join ''/'' cs"

definition path_name :: "string \<Rightarrow> bool" where
  "path_name c \<longleftrightarrow> c \<noteq> [] \<and> c \<noteq> ''.'' \<and> CHR ''/'' \<notin> set c"

lemma split_on_sep: "CHR ''/'' \<notin> set s \<Longrightarrow> split_on ''/'' acc (s @ ''/'' @ t) = (acc @ s) # split_on ''/'' [] t"
proof (induction s arbitrary: acc)
  case Nil
  then show ?case by (subst split_on.simps) simp
next
  case (Cons c s)
  then show ?case by (subst split_on.simps) auto
qed

lemma split_on_join: "\<forall>c \<in> set cs. CHR ''/'' \<notin> set c \<Longrightarrow> cs \<noteq> [] \<Longrightarrow> split_on ''/'' [] (py_join ''/'' cs) = cs"
proof (induction cs)
  case (Cons x cs)
  show ?case
  proof (cases cs)
    case Nil
    with Cons.prems show ?thesis by (simp add: split_on_plain)
  next
    case (Cons y ys)
    with Cons.prems Cons.IH show ?thesis using split_on_sep[of x "[]" "py_join ''/'' (y # ys)"] by simp
  qed
qed simp

lemma split_on_free: "p \<in> set (split_on [c] acc s) \<Longrightarrow> c \<notin> set acc \<Longrightarrow> c \<notin> set p"
proof (induction s arbitrary: acc)
  case Nil
  then show ?case by (subst (asm) split_on.simps) simp
next
  case (Cons d s)
  show ?case
  proof (cases "c = d")
    case True
    with Cons.prems have "p = acc \<or> p \<in> set (split_on [c] [] s)" by (subst (asm) split_on.simps) simp
    with Cons show ?thesis by fastforce
  next
    case False
    with Cons.prems have "p \<in> set (split_on [c] (acc @ [d]) s)" by (subst (asm) split_on.simps) simp
    with Cons False show ?thesis by simp
  qed
qed

lemma path_comps_names: "c \<in> set (path_comps p) \<Longrightarrow> path_name c"
  by (auto simp: path_comps_def path_name_def dest: split_on_free)

lemma abs_comps_text:
  assumes "\<forall>c \<in> set cs. path_name c"
  shows "abs_comps cwd (path_text cs) = cs"
proof (cases "cs = []")
  case True
  have "split_on ''/'' [] ''/'' = [[], []]" by (simp add: split_on.simps)
  with True show ?thesis by (simp add: abs_comps_def path_text_def path_comps_def)
next
  case False
  have "split_on ''/'' [] (''/'' @ py_join ''/'' cs) = [] # split_on ''/'' [] (py_join ''/'' cs)"
    using split_on_sep[of "[]" "[]"] by simp
  then have "split_on ''/'' [] (path_text cs) = [] # cs"
    using split_on_join[of cs] False assms by (simp add: path_text_def path_name_def)
  moreover have "filter (\<lambda>c. c \<noteq> [] \<and> c \<noteq> ''.'') cs = cs" using assms by (simp add: path_name_def filter_id_conv)
  ultimately show ?thesis by (simp add: abs_comps_def path_comps_def) (simp add: path_text_def)
qed

section \<open>LocalObjectStorage\<close>

text \<open>
  The environment holds what does not change: the working directory, the root, and what the calls of \<open>uuid4\<close> give. The state is
  the file system, with the number of calls made.
\<close>

record local_env =
  le_cwd :: "string list"
  le_root :: string
  le_uuid :: "nat \<Rightarrow> string"

record file_system =
  fs_next :: nat
  fs_dirs :: "string list set"
  fs_files :: "string list \<Rightarrow> string option"

definition root_dir :: "local_env \<Rightarrow> string list" where
  "root_dir env = abs_comps (le_cwd env) (le_root env)"

text \<open>\<open>mkdir(exist_ok=True)\<close> raises for a file of this name, and when the directory above is missing.\<close>

definition local_init :: "local_env \<Rightarrow> file_system \<Rightarrow> (unit, file_system) outcome" where
  "local_init env s =
     (let d = root_dir env
      in if d \<in> fs_dirs s then (Inr (), s)
         else if fs_files s d \<noteq> None \<or> butlast d \<notin> fs_dirs s then (Inl EnvironmentErr, s)
         else (Inr (), s\<lparr>fs_dirs := insert d (fs_dirs s)\<rparr>))"

text \<open>\<open>open\<close> creates an empty file; \<open>write\<close> takes bytes only.\<close>

definition local_put :: "local_env \<Rightarrow> content \<Rightarrow> file_system \<Rightarrow> (content, file_system) outcome" where
  "local_put env obj s =
     (let f = root_dir env @ [le_uuid env (fs_next s)];
          s = s\<lparr>fs_next := Suc (fs_next s)\<rparr>
      in if root_dir env \<notin> fs_dirs s \<or> f \<in> fs_dirs s then (Inl EnvironmentErr, s)
         else let s = s\<lparr>fs_files := (fs_files s)(f := Some [])\<rparr>
              in case obj of
                   Text t \<Rightarrow> (Inl TypeError, s)
                 | Bytes b \<Rightarrow> (Inr (Text (path_text f)), s\<lparr>fs_files := (fs_files s)(f := Some b)\<rparr>))"

text \<open>A path may be given as text or as bytes.\<close>

fun content_path :: "content \<Rightarrow> string" where
  "content_path (Text p) = p"
| "content_path (Bytes p) = p"

definition file_of :: "local_env \<Rightarrow> content \<Rightarrow> string list" where
  "file_of env obj = abs_comps (le_cwd env) (content_path obj)"

definition local_get :: "local_env \<Rightarrow> content \<Rightarrow> file_system \<Rightarrow> content option" where
  "local_get env obj s = map_option Bytes (fs_files s (file_of env obj))"

definition local_get_access_link :: "content \<Rightarrow> int \<Rightarrow> content" where
  "local_get_access_link obj expires = obj"

text \<open>Files that cannot be removed are passed over; an argument that is no list (\<open>None\<close>) fails the assertion.\<close>

fun local_delete :: "local_env \<Rightarrow> content list option \<Rightarrow> file_system \<Rightarrow> (unit, file_system) outcome" where
  "local_delete env None s = (Inl AssertionError, s)"
| "local_delete env (Some to_delete) s =
     for_each (\<lambda>obj s. (Inr (), s\<lparr>fs_files := (fs_files s)(file_of env obj := None)\<rparr>)) to_delete s"

section \<open>S3Storage\<close>

text \<open>
  The client: \<open>Bucket(b).put_object\<close>, \<open>Bucket(b).Object(k).get()["Body"].read()\<close>, \<open>Bucket(b).delete_objects\<close> and
  \<open>generate_presigned_url\<close>. Buckets are the values that the constructor was given.
\<close>

record 'w s3_client =
  s3_put_object :: "pyobj \<Rightarrow> string \<Rightarrow> content \<Rightarrow> 'w \<Rightarrow> (unit, 'w) outcome"
  s3_read :: "pyobj \<Rightarrow> content \<Rightarrow> 'w \<Rightarrow> string result"
  s3_delete_objects :: "pyobj \<Rightarrow> content list \<Rightarrow> 'w \<Rightarrow> (unit, 'w) outcome"
  s3_presigned_url :: "pyobj \<Rightarrow> content \<Rightarrow> int \<Rightarrow> 'w \<Rightarrow> string result"

record s3_storage =
  s3_bucket :: pyobj
  s3_path_prefix :: pyobj
  s3_endpoint :: pyobj

text \<open>\<open>__init__\<close> on the arguments of a call.\<close>

definition s3_init :: "ctor \<Rightarrow> s3_storage" where
  "s3_init call = (case call of Ctor c args \<Rightarrow>
     \<lparr>s3_bucket = kw_or_none args ''bucket'', s3_path_prefix = kw_or_none args ''path_prefix'', s3_endpoint = kw_or_none args ''endpoint''\<rparr>)"

text \<open>\<open>os.path.join(self._path_prefix, ...)\<close> of anything but a text and a text raises.\<close>

definition s3_put :: "'w s3_client \<Rightarrow> s3_storage \<Rightarrow> string \<Rightarrow> content \<Rightarrow> 'w \<Rightarrow> (string, 'w) outcome" where
  "s3_put client st uuid obj w =
     (case s3_path_prefix st of
        PStr prefix \<Rightarrow>
          let f_path = path_join prefix uuid
          in bind_out (s3_put_object client (s3_bucket st) f_path obj w) (\<lambda>_ w. (Inr f_path, w))
      | _ \<Rightarrow> (Inl TypeError, w))"

definition s3_get :: "'w s3_client \<Rightarrow> s3_storage \<Rightarrow> content \<Rightarrow> 'w \<Rightarrow> content option" where
  "s3_get client st obj w = (case s3_read client (s3_bucket st) obj w of Inl e \<Rightarrow> None | Inr b \<Rightarrow> Some (Bytes b))"

definition s3_get_access_link :: "'w s3_client \<Rightarrow> s3_storage \<Rightarrow> content \<Rightarrow> int \<Rightarrow> 'w \<Rightarrow> string result" where
  "s3_get_access_link client st obj expires w =
     bind_res (s3_presigned_url client (s3_bucket st) obj expires w) (\<lambda>link.
       if \<not> py_truthy (s3_endpoint st) then Inr link
       else bind_res (str_add ''s3.amazonaws.com/'' (s3_bucket st)) (\<lambda>old.
            case s3_endpoint st of PStr new \<Rightarrow> Inr (py_join new (split_on old [] link)) | _ \<Rightarrow> Inl TypeError))"

definition s3_delete :: "'w s3_client \<Rightarrow> s3_storage \<Rightarrow> content list \<Rightarrow> 'w \<Rightarrow> (unit, 'w) outcome" where
  "s3_delete client st to_delete w = s3_delete_objects client (s3_bucket st) to_delete w"

section \<open>What the data manager needs of an object store\<close>

text \<open>
  \<open>same p q\<close>: two names of one object. What is put gets a new name and is read back, what was there stays; deleting
  removes the named objects only.
\<close>

locale object_store =
  fixes put :: "content \<Rightarrow> 'o \<Rightarrow> (content, 'o) outcome"
    and get :: "content \<Rightarrow> 'o \<Rightarrow> content option"
    and delete :: "content list \<Rightarrow> 'o \<Rightarrow> (unit, 'o) outcome"
    and same :: "content \<Rightarrow> content \<Rightarrow> bool"
    and inv :: "'o \<Rightarrow> bool"
  assumes put_stores: "inv s \<Longrightarrow> \<exists>p s'. put (Bytes b) s = (Inr p, s') \<and> inv s' \<and> get p s = None \<and>
      (\<forall>q. get q s' = (if same p q then Some (Bytes b) else get q s))"
    and delete_removes: "inv s \<Longrightarrow> \<exists>s'. delete ps s = (Inr (), s') \<and> inv s' \<and>
      (\<forall>q. get q s' = (if \<exists>p \<in> set ps. same p q then None else get q s))"
    and same_get: "same p q \<Longrightarrow> get p s = get q s"
    and same_refl: "same p p"
begin

lemma put_keeps:
  assumes "inv s"
  shows "\<exists>p s'. put (Bytes b) s = (Inr p, s') \<and> inv s' \<and> get p s = None \<and> get p s' = Some (Bytes b) \<and>
    (\<forall>q x. get q s = Some x \<longrightarrow> get q s' = Some x)"
proof -
  from put_stores[OF assms] obtain p s' where put: "put (Bytes b) s = (Inr p, s')" "inv s'" "get p s = None"
    "\<forall>q. get q s' = (if same p q then Some (Bytes b) else get q s)" by blast
  moreover have "get p s' = Some (Bytes b)" using put(4) same_refl by simp
  moreover have "\<forall>q x. get q s = Some x \<longrightarrow> get q s' = Some x" using put(3,4) same_get[of p] by (metis option.simps(3))
  ultimately show ?thesis by blast
qed

lemma put_all:
  assumes "inv s"
  shows "\<exists>ps s'. map_out put (map Bytes bs) s = (Inr ps, s') \<and> inv s' \<and> list_all2 (\<lambda>p b. get p s' = Some (Bytes b)) ps bs \<and>
    distinct ps \<and> (\<forall>p \<in> set ps. get p s = None) \<and> (\<forall>q x. get q s = Some x \<longrightarrow> get q s' = Some x)"
  using assms
proof (induction bs arbitrary: s)
  case (Cons b bs)
  from put_keeps[OF Cons.prems, of b] obtain p s1 where p: "put (Bytes b) s = (Inr p, s1)" "inv s1" "get p s = None"
    "get p s1 = Some (Bytes b)" "\<And>q x. get q s = Some x \<Longrightarrow> get q s1 = Some x" by blast
  from Cons.IH[OF p(2)] obtain ps s' where ps: "map_out put (map Bytes bs) s1 = (Inr ps, s')" "inv s'"
    "list_all2 (\<lambda>p b. get p s' = Some (Bytes b)) ps bs" "distinct ps" "\<forall>p \<in> set ps. get p s1 = None"
    "\<And>q x. get q s1 = Some x \<Longrightarrow> get q s' = Some x" by blast
  have "p \<notin> set ps" using p(4) ps(5) by auto
  moreover have "\<forall>q \<in> set ps. get q s = None" using p(5) ps(5) by (metis option.exhaust option.simps(3))
  ultimately have "map_out put (map Bytes (b # bs)) s = (Inr (p # ps), s') \<and> inv s' \<and>
      list_all2 (\<lambda>p b. get p s' = Some (Bytes b)) (p # ps) (b # bs) \<and> distinct (p # ps) \<and>
      (\<forall>p \<in> set (p # ps). get p s = None) \<and> (\<forall>q x. get q s = Some x \<longrightarrow> get q s' = Some x)"
    using p ps by simp
  then show ?case by blast
qed simp

lemma put_delete_get:
  assumes "inv s" "get q s = Some x"
  shows "\<exists>p s1 s2. put (Bytes b) s = (Inr p, s1) \<and> delete [p] s1 = (Inr (), s2) \<and> inv s2 \<and> get p s2 = None \<and> get q s2 = Some x"
proof -
  from put_keeps[OF assms(1), of b] obtain p s1 where p: "put (Bytes b) s = (Inr p, s1)" "inv s1" "get p s = None"
    "\<And>q x. get q s = Some x \<Longrightarrow> get q s1 = Some x" by blast
  from delete_removes[OF p(2), of "[p]"] obtain s2 where s2: "delete [p] s1 = (Inr (), s2)" "inv s2"
    "\<forall>q. get q s2 = (if same p q then None else get q s1)" by auto
  have "\<not> same p q" using same_get[of p q s] p(3) assms(2) by auto
  with p s2 same_refl assms(2) show ?thesis by metis
qed

text \<open>An answer that the data manager puts into the store, and what it loads for it.\<close>

definition storable :: "answer \<Rightarrow> bool" where
  "storable a \<longleftrightarrow> ans_type a = data_type_int DT_STR \<or> (\<exists>b. ans_content a = Bytes b)"

lemma answers_kept:
  assumes O1: "ob_put O1 = put" and "inv s" "\<forall>a \<in> set as. storable a" "sd_object sd = Some s"
  shows "\<exists>as' s'. map_out (process_answer O1) (map ItemAnswer as) sd = (Inr as', sd\<lparr>sd_object := Some s'\<rparr>) \<and> inv s' \<and>
    list_all2 (\<lambda>a' a. ans_type a' = ans_type a \<and> (if ans_type a = data_type_int DT_STR then a' = a
                       else get (ans_content a') s' = Some (ans_content a))) as' as \<and>
    (\<forall>q x. get q s = Some x \<longrightarrow> get q s' = Some x)"
  using assms(2-)
proof (induction as arbitrary: s sd)
  case Nil
  then show ?case by (intro exI[of _ "[]"] exI[of _ s]) (simp)
next
  case (Cons a as)
  have "\<exists>a' s1. process_answer O1 (ItemAnswer a) sd = (Inr a', sd\<lparr>sd_object := Some s1\<rparr>) \<and> inv s1 \<and> ans_type a' = ans_type a \<and>
      (if ans_type a = data_type_int DT_STR then a' = a else get (ans_content a') s1 = Some (ans_content a)) \<and>
      (\<forall>q x. get q s = Some x \<longrightarrow> get q s1 = Some x)"
  proof (cases "ans_type a = data_type_int DT_STR")
    case True
    then show ?thesis using Cons.prems by (intro exI[of _ a] exI[of _ s]) simp
  next
    case False
    with Cons.prems obtain b where b: "ans_content a = Bytes b" by (auto simp: storable_def)
    from put_keeps[OF Cons.prems(1), of b] obtain p s1 where "put (Bytes b) s = (Inr p, s1)" "inv s1" "get p s1 = Some (Bytes b)"
      "\<forall>q x. get q s = Some x \<longrightarrow> get q s1 = Some x" by blast
    with False b Cons.prems(3) O1 show ?thesis
      by (intro exI[of _ "\<lparr>ans_content = p, ans_type = ans_type a\<rparr>"] exI[of _ s1]) (simp add: on_object_def)
  qed
  then obtain a' s1 where a': "process_answer O1 (ItemAnswer a) sd = (Inr a', sd\<lparr>sd_object := Some s1\<rparr>)" "inv s1"
    "ans_type a' = ans_type a" "if ans_type a = data_type_int DT_STR then a' = a else get (ans_content a') s1 = Some (ans_content a)"
    "\<forall>q x. get q s = Some x \<longrightarrow> get q s1 = Some x" by blast
  from Cons.IH[of s1 "sd\<lparr>sd_object := Some s1\<rparr>"] a'(2) Cons.prems(2) obtain as' s' where as':
    "map_out (process_answer O1) (map ItemAnswer as) (sd\<lparr>sd_object := Some s1\<rparr>) = (Inr as', sd\<lparr>sd_object := Some s'\<rparr>)" "inv s'"
    "list_all2 (\<lambda>a' a. ans_type a' = ans_type a \<and> (if ans_type a = data_type_int DT_STR then a' = a
       else get (ans_content a') s' = Some (ans_content a))) as' as" "\<forall>q x. get q s1 = Some x \<longrightarrow> get q s' = Some x" by auto
  show ?case using a' as' by (intro exI[of _ "a' # as'"] exI[of _ s']) (auto split: if_splits)
qed

lemma answers_loaded:
  assumes "\<And>p s x. get p s = Some x \<Longrightarrow> ob_get O1 p s = (Inr x, s)" "sd_object sd = Some s"
    and "list_all2 (\<lambda>a' a. ans_type a' = ans_type a \<and> (if ans_type a = data_type_int DT_STR then a' = a
                       else get (ans_content a') s = Some (ans_content a))) as' as"
  shows "map_out (load_answer O1) as' sd = (Inr as, sd)"
  using assms(3)
proof (induction rule: list_all2_induct)
  case (Cons a' as' a as)
  have "load_answer O1 a' sd = (Inr a, sd)"
  proof (cases "ans_type a = data_type_int DT_STR")
    case True
    with Cons.hyps(1) show ?thesis by (simp add: load_answer_def)
  next
    case False
    with Cons.hyps(1) assms(1)[of "ans_content a'" s "ans_content a"] assms(2)
    show ?thesis by (simp add: load_answer_def on_object_def)
  qed
  with Cons show ?case by simp
qed simp

lemma answers_survive:
  assumes "ob_put O1 = put" "\<And>p s x. get p s = Some x \<Longrightarrow> ob_get O1 p s = (Inr x, s)"
    and "inv s" "\<forall>a \<in> set as. storable a" "sd_object sd = Some s"
  shows "\<exists>as' s'. process_answer_data O1 (AnsList (map ItemAnswer as)) sd =
      (Inr (AnsList (map ItemAnswer as')), sd\<lparr>sd_object := Some s'\<rparr>) \<and> inv s' \<and>
    (\<forall>q x. get q s = Some x \<longrightarrow> get q s' = Some x) \<and>
    map_out (load_answer O1) as' (sd\<lparr>sd_object := Some s'\<rparr>) = (Inr as, sd\<lparr>sd_object := Some s'\<rparr>)"
proof -
  from answers_kept[OF assms(1,3,4,5)] obtain as' s' where as':
    "map_out (process_answer O1) (map ItemAnswer as) sd = (Inr as', sd\<lparr>sd_object := Some s'\<rparr>)" "inv s'"
    "list_all2 (\<lambda>a' a. ans_type a' = ans_type a \<and> (if ans_type a = data_type_int DT_STR then a' = a
       else get (ans_content a') s' = Some (ans_content a))) as' as" "\<forall>q x. get q s = Some x \<longrightarrow> get q s' = Some x" by blast
  from answers_loaded[OF assms(2) _ as'(3), of "sd\<lparr>sd_object := Some s'\<rparr>"] as'
  show ?thesis by (intro exI[of _ as'] exI[of _ s']) (simp add: process_answer_data_def)
qed

end

section \<open>The local storage is such a store\<close>

text \<open>
  \<open>uuid4\<close> gives names of files that are not there yet, and the directory of the storage, once made, is not taken away.
\<close>

definition local_inv :: "local_env \<Rightarrow> file_system \<Rightarrow> bool" where
  "local_inv env s \<longleftrightarrow> (\<forall>c \<in> set (le_cwd env). path_name c) \<and> inj (le_uuid env) \<and> (\<forall>n. path_name (le_uuid env n)) \<and>
     root_dir env \<in> fs_dirs s \<and>
     (\<forall>n \<ge> fs_next s. fs_files s (root_dir env @ [le_uuid env n]) = None \<and> root_dir env @ [le_uuid env n] \<notin> fs_dirs s)"

lemma root_names: "\<forall>c \<in> set (le_cwd env). path_name c \<Longrightarrow> c \<in> set (root_dir env) \<Longrightarrow> path_name c"
  by (auto simp: root_dir_def abs_comps_def path_comps_names split: if_splits)

lemma local_delete_files:
  "local_delete env (Some ps) s =
     (Inr (), s\<lparr>fs_files := (\<lambda>f. if f \<in> file_of env ` set ps then None else fs_files s f)\<rparr>)"
  by (induction ps arbitrary: s) (auto simp: fun_eq_iff)

lemma local_put_bytes:
  assumes "local_inv env s"
  shows "local_put env (Bytes b) s =
      (Inr (Text (path_text (root_dir env @ [le_uuid env (fs_next s)]))),
       s\<lparr>fs_next := Suc (fs_next s), fs_files := (fs_files s)(root_dir env @ [le_uuid env (fs_next s)] := Some b)\<rparr>)"
    and "file_of env (Text (path_text (root_dir env @ [le_uuid env n]))) = root_dir env @ [le_uuid env n]"
proof -
  show "local_put env (Bytes b) s =
      (Inr (Text (path_text (root_dir env @ [le_uuid env (fs_next s)]))),
       s\<lparr>fs_next := Suc (fs_next s), fs_files := (fs_files s)(root_dir env @ [le_uuid env (fs_next s)] := Some b)\<rparr>)"
    using assms by (simp add: local_inv_def local_put_def Let_def)
  show "file_of env (Text (path_text (root_dir env @ [le_uuid env n]))) = root_dir env @ [le_uuid env n]"
  proof -
    have "\<forall>c \<in> set (root_dir env @ [le_uuid env n]). path_name c" using assms root_names[of env] by (auto simp: local_inv_def)
    from abs_comps_text[OF this] show ?thesis by (simp add: file_of_def)
  qed
qed

interpretation local: object_store "local_put env" "local_get env" "\<lambda>ps. local_delete env (Some ps)"
    "\<lambda>p q. file_of env p = file_of env q" "local_inv env" for env
proof
  fix s b
  assume inv: "local_inv env s"
  let ?f = "root_dir env @ [le_uuid env (fs_next s)]"
  have "local_inv env (s\<lparr>fs_next := Suc (fs_next s), fs_files := (fs_files s)(?f := Some b)\<rparr>)"
    using inv by (auto simp: local_inv_def inj_eq)
  moreover have "fs_files s ?f = None" using inv by (simp add: local_inv_def)
  ultimately show "\<exists>p s'. local_put env (Bytes b) s = (Inr p, s') \<and> local_inv env s' \<and> local_get env p s = None \<and>
      (\<forall>q. local_get env q s' = (if file_of env p = file_of env q then Some (Bytes b) else local_get env q s))"
    by (auto simp: local_put_bytes[OF inv] local_get_def)
next
  fix s ps
  assume "local_inv env s"
  then show "\<exists>s'. local_delete env (Some ps) s = (Inr (), s') \<and> local_inv env s' \<and>
      (\<forall>q. local_get env q s' = (if \<exists>p \<in> set ps. file_of env p = file_of env q then None else local_get env q s))"
    by (auto simp: local_delete_files local_inv_def local_get_def image_iff simp del: local_delete.simps)
qed (simp_all add: local_get_def)

text \<open>A storage that was set up on an existing file system.\<close>

lemma local_init_inv:
  assumes "local_init env s = (Inr (), s')" "\<forall>c \<in> set (le_cwd env). path_name c" "inj (le_uuid env)" "\<And>n. path_name (le_uuid env n)"
    and "\<And>n. n \<ge> fs_next s \<Longrightarrow> fs_files s (root_dir env @ [le_uuid env n]) = None \<and> root_dir env @ [le_uuid env n] \<notin> fs_dirs s"
  shows "local_inv env s'"
  using assms by (auto simp: local_init_def Let_def local_inv_def split: if_splits)

section \<open>Properties\<close>

text \<open>
  What is put into a local object storage is read back: any number of objects get different names, none of which was
  there, each name gives exactly its bytes, and nothing that was stored before is lost.
\<close>

theorem local_objects_survive:
  assumes "local_inv env s"
  shows "\<exists>ps s'. map_out (local_put env) (map Bytes bs) s = (Inr ps, s') \<and>
    list_all2 (\<lambda>p b. local_get env p s' = Some (Bytes b)) ps bs \<and> distinct ps \<and> (\<forall>p \<in> set ps. local_get env p s = None) \<and>
    (\<forall>q x. local_get env q s = Some x \<longrightarrow> local_get env q s' = Some x)"
  using local.put_all[OF assms, of bs] by blast

definition small_env :: local_env where
  "small_env = \<lparr>le_cwd = [''home''], le_root = ''./objs/'', le_uuid = (\<lambda>n. replicate (Suc n) CHR ''a'')\<rparr>"

definition small_files :: file_system where
  "small_files = \<lparr>fs_next = 0, fs_dirs = {[''home'']}, fs_files = (\<lambda>f. None)\<rparr>"

lemma small_root: "root_dir small_env = [''home'', ''objs'']"
proof -
  have "split_on ''/'' [] ''./objs/'' = [''.'', ''objs'', []]" by (simp add: split_on.simps)
  then show ?thesis by (simp add: root_dir_def abs_comps_def path_comps_def small_env_def)
qed

lemma small_local:
  "local_init small_env small_files = (Inr (), small_files\<lparr>fs_dirs := {[''home''], [''home'', ''objs'']}\<rparr>)"
  "local_inv small_env (small_files\<lparr>fs_dirs := {[''home''], [''home'', ''objs'']}\<rparr>)"
proof -
  show init: "local_init small_env small_files = (Inr (), small_files\<lparr>fs_dirs := {[''home''], [''home'', ''objs'']}\<rparr>)"
    by (simp add: local_init_def small_root small_files_def insert_commute)
  have "le_uuid small_env = (\<lambda>n. replicate (Suc n) CHR ''a'')" "le_cwd small_env = [''home'']"
    by (simp_all add: small_env_def)
  moreover have "inj (\<lambda>n. replicate (Suc n) CHR ''a'')"
    by (rule injI) (metis length_replicate nat.inject)
  moreover have "path_name (replicate (Suc n) CHR ''a'')" for n by (auto simp: path_name_def)
  ultimately show "local_inv small_env (small_files\<lparr>fs_dirs := {[''home''], [''home'', ''objs'']}\<rparr>)"
    by (intro local_init_inv[OF init]) (simp_all add: small_files_def small_root path_name_def)
qed

theorem local_objects_survive_witness:
  "\<exists>ps s'. map_out (local_put small_env) [Bytes ''x'', Bytes ''y''] (snd (local_init small_env small_files)) = (Inr ps, s') \<and>
     list_all2 (\<lambda>p b. local_get small_env p s' = Some (Bytes b)) ps [''x'', ''y''] \<and> distinct ps"
  using local_objects_survive[OF small_local(2), of "[''x'', ''y'']"] by (fastforce simp: small_local(1))

text \<open>
  C37. Answers that are no texts survive the way through the data manager: what \<open>_process_answer_data\<close> keeps of them in
  the row of the scalar storage, the name of the object, loads as exactly the answers that were given, texts as themselves.
\<close>

theorem image_answers_survive:
  assumes "ob_put O1 = local_put env" "\<And>p s x. local_get env p s = Some x \<Longrightarrow> ob_get O1 p s = (Inr x, s)"
    and "local_inv env s" "\<And>a. a \<in> set as \<Longrightarrow> ans_type a = data_type_int DT_STR \<or> (\<exists>b. ans_content a = Bytes b)"
    and "sd_object sd = Some s"
  shows "\<exists>as' s'. process_answer_data O1 (AnsList (map ItemAnswer as)) sd =
      (Inr (AnsList (map ItemAnswer as')), sd\<lparr>sd_object := Some s'\<rparr>) \<and>
    map_out (load_answer O1) as' (sd\<lparr>sd_object := Some s'\<rparr>) = (Inr as, sd\<lparr>sd_object := Some s'\<rparr>)"
  using local.answers_survive[OF assms(1,2,3) _ assms(5), of as] assms(4) by (auto simp: local.storable_def)

definition small_object_ops :: "file_system object_ops" where
  "small_object_ops = \<lparr>ob_put = local_put small_env,
     ob_get = (\<lambda>p s. case local_get small_env p s of None \<Rightarrow> (Inl LibraryError, s) | Some x \<Rightarrow> (Inr x, s))\<rparr>"

definition image_manager :: "(unit, unit, unit, file_system) ss_manager" where
  "image_manager = \<lparr>sd_stores = \<lparr>em_scalar_storage = (), em_vector_base = (), em_delete_count = 0\<rparr>, sd_eviction = NoOpEviction,
     sd_object = Some (small_files\<lparr>fs_dirs := {[''home''], [''home'', ''objs'']}\<rparr>), sd_member_data = None\<rparr>"

theorem image_answers_survive_witness:
  "\<exists>as' s'. process_answer_data small_object_ops
      (AnsList (map ItemAnswer [\<lparr>ans_content = Bytes ''png'', ans_type = 1\<rparr>, \<lparr>ans_content = Text ''hi'', ans_type = 0\<rparr>])) image_manager =
      (Inr (AnsList (map ItemAnswer as')), image_manager\<lparr>sd_object := Some s'\<rparr>) \<and>
    map_out (load_answer small_object_ops) as' (image_manager\<lparr>sd_object := Some s'\<rparr>) =
      (Inr [\<lparr>ans_content = Bytes ''png'', ans_type = 1\<rparr>, \<lparr>ans_content = Text ''hi'', ans_type = 0\<rparr>], image_manager\<lparr>sd_object := Some s'\<rparr>)"
proof (rule image_answers_survive)
  show "ob_put small_object_ops = local_put small_env" by (simp add: small_object_ops_def)
  show "ob_get small_object_ops p s = (Inr x, s)" if "local_get small_env p s = Some x" for p s x
    using that by (simp add: small_object_ops_def)
  show "local_inv small_env (small_files\<lparr>fs_dirs := {[''home''], [''home'', ''objs'']}\<rparr>)" by (rule small_local(2))
qed (auto simp: image_manager_def)

text \<open>
  An answer of another type than text whose content is a text, such as the URL of an image, cannot be saved with a local object
  store: writing it raises, and an empty file stays behind that nothing refers to.
\<close>

theorem url_answer_not_storable:
  assumes "local_inv env s" "sd_object sd = Some s" "ob_put O1 = local_put env" "k \<noteq> data_type_int DT_STR"
  shows "\<exists>f s'. process_answer_data O1 (AnsList [ItemAnswer \<lparr>ans_content = Text url, ans_type = k\<rparr>]) sd =
      (Inl TypeError, sd\<lparr>sd_object := Some s'\<rparr>) \<and> fs_files s f = None \<and> fs_files s' = (fs_files s)(f := Some [])"
  using assms by (intro exI[of _ "root_dir env @ [le_uuid env (fs_next s)]"])
    (auto simp: local_inv_def process_answer_data_def on_object_def local_put_def Let_def)

theorem url_answer_not_storable_witness:
  "\<exists>f s'. process_answer_data small_object_ops (AnsList [ItemAnswer \<lparr>ans_content = Text ''http://a'', ans_type = 2\<rparr>]) image_manager =
      (Inl TypeError, image_manager\<lparr>sd_object := Some s'\<rparr>) \<and>
    fs_files s' = (\<lambda>f. None)(f := Some [])"
  using url_answer_not_storable[OF small_local(2), of image_manager small_object_ops 2 "''http://a''"]
  by (auto simp: image_manager_def small_object_ops_def small_files_def)

text \<open>
  C40. The S3 storage that \<open>ObjectBase("s3", ...)\<close> makes has bucket and prefix swapped: objects go to a bucket with the name of the
  prefix, under a key that begins with the name of the bucket, and are read back from there.
\<close>

theorem s3_arguments_swapped:
  assumes "map_of kw ''bucket'' = Some (PStr bucket)" "map_of kw ''path_prefix'' = Some (PStr path_prefix)"
  shows "\<exists>call. object_base_get ''s3'' kw = Inr call \<and>
    s3_put client (s3_init call) uuid obj w =
      bind_out (s3_put_object client (PStr path_prefix) (path_join bucket uuid) obj w) (\<lambda>_ w. (Inr (path_join bucket uuid), w)) \<and>
    s3_delete client (s3_init call) ps w = s3_delete_objects client (PStr path_prefix) ps w"
  using assms by (simp add: object_base_get_def s3_init_def s3_put_def s3_delete_def kw_or_none_def kw_get_def Let_def)

definition list_s3 :: "(pyobj \<times> string \<times> content) list s3_client" where
  "list_s3 = \<lparr>s3_put_object = (\<lambda>b k x w. (Inr (), (b, k, x) # w)), s3_read = (\<lambda>b k w. Inl LibraryError),
     s3_delete_objects = (\<lambda>b ks w. (Inr (), [])), s3_presigned_url = (\<lambda>b k e w. Inr [])\<rparr>"

theorem s3_arguments_swapped_witness:
  "\<exists>call. object_base_get ''s3'' [(''bucket'', PStr ''images''), (''path_prefix'', PStr ''cache'')] = Inr call \<and>
     s3_put list_s3 (s3_init call) ''u1'' (Bytes ''x'') [] = (Inr ''images/u1'', [(PStr ''cache'', ''images/u1'', Bytes ''x'')])"
  using s3_arguments_swapped[of "[(''bucket'', PStr ''images''), (''path_prefix'', PStr ''cache'')]" "''images''" "''cache''" list_s3 "''u1''"
      "Bytes ''x''" "[]" "[]"]
  by (auto simp: list_s3_def path_join_def)

end
