(* ===== verification/Llm_Adapters.thy ===== *)
theory Llm_Adapters
  imports Openai
begin

text \<open>
  The other adapters of \<open>gptcache/adapter/\<close>: \<open>dolly.py\<close>, \<open>llama_cpp.py\<close>, \<open>diffusers.py\<close>, \<open>stability_sdk.py\<close>,
  \<open>replicate.py\<close>, \<open>minigpt4.py\<close> and \<open>langchain_models.py\<close>. Each is its two callbacks and the call of \<open>adapt\<close>; the
  models and the image library are parameters. Those that store a text are interpretations of \<open>answer_codec\<close>.
\<close>

section \<open>Errors of the libraries\<close>

text \<open>\<open>except Exception as e: raise CacheError(...) from e\<close> around the call of the model.\<close>

definition cache_error_handler :: "('k kwargs \<Rightarrow> nat \<Rightarrow> 'm option result) \<Rightarrow> 'k kwargs \<Rightarrow> nat \<Rightarrow> 'm option result" where
  "cache_error_handler call kw t = (case call kw t of Inl e \<Rightarrow> Inl CacheError | Inr r \<Rightarrow> Inr r)"

text \<open>Keyword arguments that an adapter adds in front of the request's.\<close>

definition with_args :: "pyargs \<Rightarrow> pyargs kwargs \<Rightarrow> pyargs kwargs" where
  "with_args args kw = kw\<lparr>kw_rest := args @ kw_rest kw\<rparr>"

section \<open>Dolly\<close>

definition generated_text :: "pyobj \<Rightarrow> pyobj result" where
  "generated_text llm_data = bind_res (py_index llm_data 0) (\<lambda>x. py_item x ''generated_text'')"

definition dolly_convert :: "post_message \<Rightarrow> pyobj result" where
  "dolly_convert msg = Inr (PList [PDict [(''generated_text'', message_value msg), (''gptcache'', PBool True)]])"

definition dolly_update :: "(pyobj \<Rightarrow> content) \<Rightarrow> pyobj \<Rightarrow> 'k kwargs \<Rightarrow> (answers_arg \<times> question option) list \<times> pyobj result" where
  "dolly_update other r kw = save_with other generated_text r"

definition dolly_call where
  "dolly_call env other pipeline prompt kw cs w =
     adapt env dolly_convert (dolly_update other) pipeline (with_args [(''inputs'', prompt)] kw) cs w"

interpretation dolly: answer_codec True "\<lambda>r. text_of (generated_text r)" text_answer "dolly_update other" dolly_convert
  by unfold_locales
    (auto simp: dolly_update_def dolly_convert_def save_with_text text_of_Inr generated_text_def py_nth_def)

section \<open>Llama\<close>

definition llama_resp :: "int \<Rightarrow> pyobj \<Rightarrow> pyobj" where
  "llama_resp now return_message = PDict
     [(''gptcache'', PBool True),
      (''choices'', PList [PDict [(''text'', return_message), (''finish_reason'', PStr ''stop''), (''index'', PInt 0)]]),
      (''created'', PInt now), (''usage'', no_usage), (''object'', PStr ''chat.completion'')]"

definition llama_stream_resp :: "int \<Rightarrow> pyobj \<Rightarrow> pyobj list" where
  "llama_stream_resp now return_message =
     [PDict [(''gptcache'', PBool True),
       (''choices'', PList [PDict [(''text'', return_message), (''finish_reason'', PNone), (''index'', PInt 0)]]),
       (''created'', PInt now), (''usage'', no_usage), (''object'', PStr ''chat.completion'')]]"

definition llama_convert :: "pyargs \<Rightarrow> int \<Rightarrow> post_message \<Rightarrow> llm_resp result" where
  "llama_convert kwargs now msg =
     (if streams kwargs then Inr (Chunks (llama_stream_resp now (message_value msg)) None)
      else Inr (Resp (llama_resp now (message_value msg))))"

fun llama_update :: "(pyobj \<Rightarrow> content) \<Rightarrow> llm_resp \<Rightarrow> 'k kwargs \<Rightarrow> (answers_arg \<times> question option) list \<times> llm_resp result" where
  "llama_update other (Resp r) kw =
     (case save_with other get_text_from_openai_answer r of (saves, res) \<Rightarrow> (saves, map_sum id Resp res))"
| "llama_update other (Chunks xs e) kw = ([], Inr (Chunks xs e))"

text \<open>\<open>stream_answer\<close> is the loop of the OpenAI adapter over the texts of the choices.\<close>

definition llama_stream_answer :: "nat \<Rightarrow> pyobj list \<Rightarrow> pyexc option \<Rightarrow> pyobj list \<times> hook_end" where
  "llama_stream_answer n items e = hook_openai_data get_text_from_openai_answer n items e []"

definition llama_call where
  "llama_call env other now create_completion prompt kw cs w =
     adapt env (llama_convert (kw_rest kw) now) (llama_update other) create_completion (with_args [(''prompt'', prompt)] kw) cs w"

fun llama_payload :: "llm_resp \<Rightarrow> string result" where
  "llama_payload (Resp r) = text_of (get_text_from_openai_answer r)"
| "llama_payload (Chunks xs e) = Inl TypeError"

lemma llama_payload_Inr: "llama_payload m = Inr s \<longleftrightarrow> (\<exists>r. m = Resp r \<and> get_text_from_openai_answer r = Inr (PStr s))"
  by (cases m) (simp_all add: text_of_Inr)

interpretation llama: answer_codec "\<not> streams kwargs" llama_payload text_answer "llama_update other" "llama_convert kwargs now"
proof
  fix m s and kw :: "'k kwargs"
  assume "llama_payload m = Inr s"
  then obtain r where "m = Resp r" "get_text_from_openai_answer r = Inr (PStr s)" by (auto simp: llama_payload_Inr)
  then show "fst (llama_update other m kw) = [(text_answer s, None)]"
    using save_with_text[of get_text_from_openai_answer r s other]
    by (cases "save_with other get_text_from_openai_answer r") simp
qed (simp_all add: llama_convert_def llama_resp_def text_of_Inr read_defs)

section \<open>Stable diffusion\<close>

text \<open>
  \<open>diffusers.py\<close>: an image is saved as the base64 text of its PNG file (\<open>png\<close>) and decoded again (\<open>open_image\<close>); the
  result object is subscriptable like a dictionary.
\<close>

definition diffusers_update ::
  "(pyobj \<Rightarrow> string result) \<Rightarrow> (string \<Rightarrow> string) \<Rightarrow> pyobj \<Rightarrow> 'k kwargs \<Rightarrow> (answers_arg \<times> question option) list \<times> pyobj result" where
  "diffusers_update png b64encode llm_data kw =
     (case bind_res (py_item llm_data ''images'') (\<lambda>imgs. bind_res (py_index imgs 0) png) of
        Inl e \<Rightarrow> ([], Inl e)
      | Inr f \<Rightarrow> ([(AnsObj \<lparr>ans_content = Bytes (b64encode f), ans_type = data_type_int DT_IMAGE_BASE64\<rparr>, None)], Inr llm_data))"

definition diffusers_convert :: "(string \<Rightarrow> pyobj result) \<Rightarrow> (string \<Rightarrow> string result) \<Rightarrow> post_message \<Rightarrow> pyobj result" where
  "diffusers_convert open_image b64decode msg =
     bind_res (b64_text msg) (\<lambda>img_64. bind_res (b64decode img_64) (\<lambda>im_bytes. bind_res (open_image im_bytes) (\<lambda>img.
       Inr (PDict [(''images'', PList [img]), (''nsfw_content_detected'', PNone)]))))"

definition diffusers_call where
  "diffusers_call env png open_image b64encode b64decode pipeline kw cs w =
     adapt env (diffusers_convert open_image b64decode) (diffusers_update png b64encode) (cache_error_handler pipeline) kw cs w"

section \<open>Stability\<close>

text \<open>
  \<open>stability_sdk.py\<close>: a stream of answers with artifacts. An artifact may lack \<open>finish_reason\<close>; one that the safety
  filter removed is passed over.
\<close>

record artifact =
  art_finish :: "int option"
  art_type :: int
  art_binary :: string

record stability_lib =
  st_FILTER :: int
  st_ARTIFACT_IMAGE :: int
  st_b64encode :: "string \<Rightarrow> string"
  st_b64decode :: "string \<Rightarrow> string result"
  st_fit :: "int \<Rightarrow> int \<Rightarrow> string \<Rightarrow> string result"

definition saved_images :: "stability_lib \<Rightarrow> artifact list \<Rightarrow> string list" where
  "saved_images lib artifacts =
     map (\<lambda>a. st_b64encode lib (art_binary a))
       (filter (\<lambda>a. art_finish a \<noteq> Some (st_FILTER lib) \<and> art_type a = st_ARTIFACT_IMAGE lib) artifacts)"

fun hook_stream_data ::
  "stability_lib \<Rightarrow> nat \<Rightarrow> artifact list list \<Rightarrow> pyexc option \<Rightarrow> string list \<Rightarrow> artifact list list \<times> hook_end" where
  "hook_stream_data lib 0 items e to_save = ([], Suspended)"
| "hook_stream_data lib (Suc n) [] e to_save =
     ([], case e of
            Some e \<Rightarrow> Raised e
          | None \<Rightarrow>
              (case to_save of
                 [] \<Rightarrow> Raised IndexError
               | img # imgs \<Rightarrow> Ended (AnsObj \<lparr>ans_content = Bytes img, ans_type = data_type_int DT_IMAGE_BASE64\<rparr>)))"
| "hook_stream_data lib (Suc n) (resp # items) e to_save =
     (case hook_stream_data lib n items e (to_save @ saved_images lib resp) of (ys, r) \<Rightarrow> (resp # ys, r))"

datatype stability_resp = Answers "artifact list list" "pyexc option"

definition stability_update :: "stability_resp \<Rightarrow> 'k kwargs \<Rightarrow> (answers_arg \<times> question option) list \<times> stability_resp result" where
  "stability_update r kw = ([], Inr r)"

text \<open>
  \<open>st_fit\<close> opens an image file and, when its dimensions differ, scales it and writes it as PNG. The construction is a
  generator, so that what it raises is raised when the caller reads from it.
\<close>

definition stability_convert :: "stability_lib \<Rightarrow> int \<Rightarrow> int \<Rightarrow> post_message \<Rightarrow> stability_resp result" where
  "stability_convert lib width height msg = Inr
     (case bind_res (b64_text msg) (\<lambda>img_64. bind_res (st_b64decode lib img_64) (st_fit lib width height)) of
        Inl e \<Rightarrow> Answers [] (Some e)
      | Inr binary \<Rightarrow> Answers [[\<lparr>art_finish = None, art_type = st_ARTIFACT_IMAGE lib, art_binary = binary\<rparr>]] None)"

definition stability_generate where
  "stability_generate env lib width height generate kw cs w =
     adapt env (stability_convert lib (pop_or width 512) (pop_or height 512)) stability_update (cache_error_handler generate) kw cs w"

lemma hook_stream_all:
  "length items < n \<Longrightarrow> hook_stream_data lib n items None acc =
    (items, case acc @ concat (map (saved_images lib) items) of
       [] \<Rightarrow> Raised IndexError
     | img # imgs \<Rightarrow> Ended (AnsObj \<lparr>ans_content = Bytes img, ans_type = data_type_int DT_IMAGE_BASE64\<rparr>))"
proof (induction items arbitrary: n acc)
  case Nil
  then show ?case by (cases n) simp_all
next
  case (Cons x items)
  then show ?case by (cases n) simp_all
qed

section \<open>Visual question answering\<close>

text \<open>
  \<open>replicate.py\<close> and \<open>minigpt4.py\<close> save the question with its dependencies, a text and the name of an image.
  \<open>Question.from_dict\<close> makes the question object; its content is replaced by the adapter.
\<close>

definition vqa_question :: "string \<Rightarrow> string \<Rightarrow> question" where
  "vqa_question txt img = \<lparr>q_content = ''pre_embedding_data'',
     q_deps = Some [\<lparr>dep_name = ''text'', dep_data = txt, dep_type = Member DT_STR\<rparr>,
                    \<lparr>dep_name = ''image'', dep_data = img, dep_type = Member DT_STR\<rparr>]\<rparr>"

text \<open>The question and the name of the image in \<open>input\<close>, when it has both.\<close>

definition vqa_input :: "pyargs \<Rightarrow> (pyobj \<times> pyobj) option result" where
  "vqa_input kwargs =
     (case map_of kwargs ''input'' of
        Some (PDict inp) \<Rightarrow>
          (case (map_of inp ''question'', map_of inp ''image'') of
             (Some q, Some img) \<Rightarrow> bind_res (py_attr img ''name'') (\<lambda>name. Inr (Some (q, name)))
           | _ \<Rightarrow> Inr None)
      | Some x \<Rightarrow> Inl TypeError
      | None \<Rightarrow> Inr None)"

definition dep_text :: "(pyobj \<Rightarrow> string) \<Rightarrow> pyobj \<Rightarrow> string" where
  "dep_text other x = (case x of PStr s \<Rightarrow> s | _ \<Rightarrow> other x)"

definition replicate_context :: "(pyobj \<Rightarrow> string) \<Rightarrow> pyargs \<Rightarrow> 'k req_context result" where
  "replicate_context other_dep kwargs =
     bind_res (vqa_input kwargs) (\<lambda>x. Inr \<lparr>cx_deps = map_option (\<lambda>(q, img). [dep_text other_dep q, dep_text other_dep img]) x, cx_more = None\<rparr>)"

text \<open>A response without the two is given to \<open>update_cache_func\<close> as it is; \<open>raw\<close> is what becomes of one that is no text.\<close>

definition raw_answer :: "(pyobj \<Rightarrow> answers_arg) \<Rightarrow> pyobj \<Rightarrow> answers_arg" where
  "raw_answer raw x = (case x of PStr s \<Rightarrow> AnsStr s | _ \<Rightarrow> raw x)"

definition replicate_update ::
  "(pyobj \<Rightarrow> content) \<Rightarrow> (pyobj \<Rightarrow> string) \<Rightarrow> (pyobj \<Rightarrow> answers_arg) \<Rightarrow> pyobj \<Rightarrow> pyargs kwargs
   \<Rightarrow> (answers_arg \<times> question option) list \<times> pyobj result" where
  "replicate_update other other_dep raw llm_data kw =
     (case vqa_input (kw_rest kw) of
        Inl e \<Rightarrow> ([], Inl e)
      | Inr (Some (q, img)) \<Rightarrow>
          ([(str_answer other llm_data, Some (vqa_question (dep_text other_dep q) (dep_text other_dep img)))], Inr llm_data)
      | Inr None \<Rightarrow> ([(raw_answer raw llm_data, None)], Inr llm_data))"

definition replicate_convert :: "post_message \<Rightarrow> pyobj result" where
  "replicate_convert msg = Inr (message_value msg)"

definition replicate_run where
  "replicate_run env other other_dep raw run model_version kw cs w =
     (case replicate_context other_dep (kw_rest kw) of
        Inl e \<Rightarrow> Some (Inl e, cs, w)
      | Inr ctx \<Rightarrow>
          adapt env replicate_convert (replicate_update other other_dep raw) (cache_error_handler run)
            (with_args [(''model_version'', model_version)] (kw\<lparr>kw_cache_context := Some ctx, kw_require_object_store := Some False\<rparr>)) cs w)"

text \<open>
  \<open>MiniGPT4\<close>. The conditional expressions bind more tightly than the comma, so that both the handler and the conversion
  give a pair whatever \<open>return_hit\<close> is. A pair is a list of two here.
\<close>

definition py_pair :: "pyobj \<Rightarrow> pyobj \<Rightarrow> pyobj" where
  "py_pair x y = PList [x, y]"

definition minigpt4_handler :: "(pyobj \<Rightarrow> pyobj \<Rightarrow> pyobj result) \<Rightarrow> bool \<Rightarrow> pyobj \<Rightarrow> pyobj \<Rightarrow> pyobj option result" where
  "minigpt4_handler chat_answer return_hit img_path question =
     (case chat_answer img_path question of
        Inl e \<Rightarrow> Inl CacheError
      | Inr answer \<Rightarrow> Inr (Some (py_pair (if \<not> return_hit then answer else answer) (PBool False))))"

definition minigpt4_convert :: "bool \<Rightarrow> post_message \<Rightarrow> pyobj result" where
  "minigpt4_convert return_hit msg =
     Inr (py_pair (if \<not> return_hit then message_value msg else message_value msg) (PBool True))"

definition minigpt4_update ::
  "(pyobj \<Rightarrow> content) \<Rightarrow> (pyobj \<Rightarrow> string) \<Rightarrow> bool \<Rightarrow> pyobj \<Rightarrow> pyargs kwargs \<Rightarrow> (answers_arg \<times> question option) list \<times> pyobj result" where
  "minigpt4_update other other_dep return_hit llm_data kw =
     (case (map_of (kw_rest kw) ''question'', map_of (kw_rest kw) ''image'') of
        (Some q, Some img) \<Rightarrow>
          (case (if \<not> return_hit then Inr llm_data else py_index llm_data 0) of
             Inl e \<Rightarrow> ([], Inl e)
           | Inr x \<Rightarrow> ([(str_answer other x, Some (vqa_question (dep_text other_dep q) (dep_text other_dep img)))], Inr llm_data))
      | _ \<Rightarrow> ([], Inl KeyError))"

definition minigpt4_call where
  "minigpt4_call env other other_dep chat_answer return_hit img_path question kw cs w =
     adapt env (minigpt4_convert return_hit) (minigpt4_update other other_dep return_hit)
       (\<lambda>kw t. minigpt4_handler chat_answer return_hit img_path question)
       (with_args [(''image'', img_path), (''question'', question)]
          (kw\<lparr>kw_cache_context := Some \<lparr>cx_deps = Some [dep_text other_dep question, dep_text other_dep img_path], cx_more = None\<rparr>\<rparr>)) cs w"

section \<open>LangChain\<close>

text \<open>
  \<open>langchain_models.py\<close>: an object holds a session and, between \<open>generate\<close> and the calls that it makes for each prompt, the
  keyword arguments \<open>tmp_args\<close>. A call takes \<open>session\<close> and \<open>cache_obj\<close> out of them; \<open>None\<close> is an argument that is absent.
\<close>

record ('s, 'c, 'k) lc_args =
  lc_session_arg :: "'s option option"
  lc_cache_arg :: "'c option"
  lc_more :: 'k

record ('s, 'c, 'k) lc_model =
  lc_session :: "'s option"
  lc_tmp_args :: "('s, 'c, 'k) lc_args option"

text \<open>What is passed to \<open>adapt\<close> for a prompt: the prompt, the stop words, the cache, the session and the rest.\<close>

record ('p, 's, 'c, 'k) lc_request =
  rq_prompt :: 'p
  rq_stop :: "string list option"
  rq_cache :: 'c
  rq_session :: "'s option"
  rq_more :: 'k

text \<open>Without \<open>generate\<close> there are no \<open>tmp_args\<close>, and looking into \<open>None\<close> raises \<open>TypeError\<close>.\<close>

definition lc_call ::
  "'c \<Rightarrow> 'p \<Rightarrow> string list option \<Rightarrow> ('s, 'c, 'k) lc_model \<Rightarrow> (('p, 's, 'c, 'k) lc_request, ('s, 'c, 'k) lc_model) outcome" where
  "lc_call global_cache prompt stop m =
     (case lc_tmp_args m of
        None \<Rightarrow> (Inl TypeError, m)
      | Some a \<Rightarrow>
          (Inr \<lparr>rq_prompt = prompt, rq_stop = stop, rq_cache = pop_or (lc_cache_arg a) global_cache,
                rq_session = pop_or (lc_session_arg a) (lc_session m), rq_more = lc_more a\<rparr>,
           m\<lparr>lc_tmp_args := Some (a\<lparr>lc_session_arg := None, lc_cache_arg := None\<rparr>)\<rparr>))"

text \<open>\<open>generate\<close>: the library calls \<open>_call\<close> for every prompt in turn; the requests that reach \<open>adapt\<close> are given.\<close>

definition lc_generate ::
  "'c \<Rightarrow> 'p list \<Rightarrow> string list option \<Rightarrow> ('s, 'c, 'k) lc_args \<Rightarrow> ('s, 'c, 'k) lc_model
   \<Rightarrow> (('p, 's, 'c, 'k) lc_request list, ('s, 'c, 'k) lc_model) outcome" where
  "lc_generate global_cache prompts stop kwargs m =
     map_out (\<lambda>p. lc_call global_cache p stop) prompts (m\<lparr>lc_tmp_args := Some kwargs\<rparr>)"

definition langchain_convert :: "post_message \<Rightarrow> pyobj result" where
  "langchain_convert msg = Inr (message_value msg)"

definition langchain_update :: "(pyobj \<Rightarrow> content) \<Rightarrow> pyobj \<Rightarrow> 'k kwargs \<Rightarrow> (answers_arg \<times> question option) list \<times> pyobj result" where
  "langchain_update other llm_data kw = ([(str_answer other llm_data, None)], Inr llm_data)"

interpretation langchain: answer_codec True "\<lambda>r. text_of (Inr r)" text_answer "langchain_update other" langchain_convert
  by unfold_locales (auto simp: langchain_update_def langchain_convert_def text_of_Inr str_answer_text)

text \<open>
  Chat models: \<open>chat_generation\<close> is the library's constructor (which may set the text from the message), \<open>ai_message\<close>
  that of messages.
\<close>

definition langchain_msg_convert :: "(pyobj \<Rightarrow> pyobj \<Rightarrow> pyobj) \<Rightarrow> (pyobj \<Rightarrow> pyobj) \<Rightarrow> post_message \<Rightarrow> pyobj result" where
  "langchain_msg_convert chat_generation ai_message msg =
     Inr (PObj [(''generations'', PList [chat_generation (PStr []) (ai_message (message_value msg))]), (''llm_output'', PNone)])"

definition generation_text :: "pyobj \<Rightarrow> pyobj result" where
  "generation_text llm_data =
     bind_res (py_attr llm_data ''generations'') (\<lambda>g. bind_res (py_index g 0) (\<lambda>x. py_attr x ''text''))"

definition langchain_msg_update ::
  "(pyobj \<Rightarrow> answers_arg) \<Rightarrow> pyobj \<Rightarrow> 'k kwargs \<Rightarrow> (answers_arg \<times> question option) list \<times> pyobj result" where
  "langchain_msg_update raw llm_data kw =
     (case generation_text llm_data of Inl e \<Rightarrow> ([], Inl e) | Inr x \<Rightarrow> ([(raw_answer raw x, None)], Inr llm_data))"

text \<open>
  The calls of \<open>adapt\<close> and \<open>aadapt\<close> for the arguments that \<open>lc_call\<close> takes out: of a text model, and of a chat model, which takes them
  out in the same way.
\<close>

definition langchain_ask where
  "langchain_ask env other llm kw cs w = adapt env langchain_convert (langchain_update other) llm kw cs w"

definition langchain_chat_ask where
  "langchain_chat_ask env raw chat_generation ai_message llm kw cs w =
     adapt env (langchain_msg_convert chat_generation ai_message) (langchain_msg_update raw) llm kw cs w"

definition langchain_chat_aask where
  "langchain_chat_aask env raw chat_generation ai_message llm kw c rest w =
     aadapt env (langchain_msg_convert chat_generation ai_message) (langchain_msg_update raw) llm kw c rest w"

text \<open>\<open>__call__\<close>: of the first generation, its text or its message.\<close>

definition langchain_first_text :: "(pyobj result) \<Rightarrow> pyobj result" where
  "langchain_first_text generations =
     bind_res generations (\<lambda>g. bind_res (py_index g 0) (\<lambda>x. bind_res (py_index x 0) (\<lambda>y. py_attr y ''text'')))"

definition langchain_first_message :: "(pyobj \<Rightarrow> bool) \<Rightarrow> pyobj result \<Rightarrow> pyobj result" where
  "langchain_first_message is_chat_generation generations =
     bind_res generations (\<lambda>g. bind_res (py_index g 0) (\<lambda>x. bind_res (py_index x 0) (\<lambda>y.
       if is_chat_generation y then py_attr y ''message'' else Inl ValueError)))"

section \<open>Properties\<close>

lemma lc_calls_after:
  fixes prompts :: "'p list"
  assumes "lc_tmp_args m = Some a" "lc_session_arg a = None" "lc_cache_arg a = None"
  shows "map_out (\<lambda>p. lc_call global_cache p stop) prompts m =
    (Inr (map (\<lambda>p. \<lparr>rq_prompt = p, rq_stop = stop, rq_cache = global_cache, rq_session = lc_session m, rq_more = lc_more a\<rparr>) prompts), m)"
proof -
  have "a\<lparr>lc_session_arg := None, lc_cache_arg := None\<rparr> = a" using assms(2,3) by (cases a) simp
  moreover from this have "m\<lparr>lc_tmp_args := Some (a\<lparr>lc_session_arg := None, lc_cache_arg := None\<rparr>)\<rparr> = m"
    using assms(1) by (cases m) simp
  ultimately have "lc_call global_cache p stop m =
      (Inr \<lparr>rq_prompt = p, rq_stop = stop, rq_cache = global_cache, rq_session = lc_session m, rq_more = lc_more a\<rparr>, m)" for p :: 'p
    using assms by (simp add: lc_call_def)
  then show ?thesis by (induction prompts) simp_all
qed

text \<open>
  Only the first prompt of a batch uses the cache and the session of the call. \<open>generate\<close> keeps the arguments on the object and
  each prompt takes \<open>cache_obj\<close> and \<open>session\<close> out of them, so that all further prompts go to the global cache, in the
  session of the object.
\<close>

theorem langchain_batch_leaves_cache:
  assumes "lc_cache_arg kwargs = Some c" and "lc_session_arg kwargs = Some s"
  shows "\<exists>reqs m'. lc_generate global_cache (p # prompts) stop kwargs m = (Inr reqs, m') \<and>
    map rq_prompt reqs = p # prompts \<and>
    map rq_cache reqs = c # replicate (length prompts) global_cache \<and>
    map rq_session reqs = s # replicate (length prompts) (lc_session m)"
proof -
  have const: "map (\<lambda>_. x) prompts = replicate (length prompts) x" for x :: 'x by (simp add: map_replicate_const)
  show ?thesis using assms by (simp add: lc_generate_def lc_call_def lc_calls_after const comp_def)
qed

theorem langchain_batch_leaves_cache_witness:
  "\<exists>reqs m'. lc_generate (0::nat) [''a'', ''b''] None \<lparr>lc_session_arg = Some (Some ''s''), lc_cache_arg = Some 1, lc_more = ()\<rparr>
      \<lparr>lc_session = None, lc_tmp_args = None\<rparr> = (Inr reqs, m') \<and>
    map rq_prompt reqs = [''a'', ''b''] \<and> map rq_cache reqs = [1, 0] \<and> map rq_session reqs = [Some ''s'', None]"
proof -
  let ?kwargs = "\<lparr>lc_session_arg = Some (Some ''s''), lc_cache_arg = Some 1, lc_more = ()\<rparr> :: (string, nat, unit) lc_args"
  show ?thesis
    using langchain_batch_leaves_cache[of ?kwargs 1 "Some ''s''" 0 "''a''" "[''b'']" None "\<lparr>lc_session = None, lc_tmp_args = None\<rparr>"]
    by simp
qed

text \<open>
  A stream of images is saved as its first image, or breaks. A caller that reads it to the end gets every answer and, when
  some image passed the filter, the first one is saved; when all were filtered, reading ends with an
  \<open>IndexError\<close> in place of the end of the stream.
\<close>

theorem stability_saves_first:
  assumes "length items < n"
  shows "hook_stream_data lib n items None [] =
    (items, case concat (map (saved_images lib) items) of
       [] \<Rightarrow> Raised IndexError
     | img # imgs \<Rightarrow> Ended (AnsObj \<lparr>ans_content = Bytes img, ans_type = data_type_int DT_IMAGE_BASE64\<rparr>))"
  using hook_stream_all[OF assms] by simp

definition small_stability :: stability_lib where
  "small_stability = \<lparr>st_FILTER = 3, st_ARTIFACT_IMAGE = 1, st_b64encode = (\<lambda>x. x), st_b64decode = Inr, st_fit = (\<lambda>w h x. Inr x)\<rparr>"

theorem stability_saves_first_witness:
  "hook_stream_data small_stability 2 [[\<lparr>art_finish = Some 3, art_type = 1, art_binary = ''x''\<rparr>]] None [] =
     ([[\<lparr>art_finish = Some 3, art_type = 1, art_binary = ''x''\<rparr>]], Raised IndexError)"
  using stability_saves_first[of "[[\<lparr>art_finish = Some 3, art_type = 1, art_binary = ''x''\<rparr>]]" 2 small_stability]
  by (simp add: saved_images_def small_stability_def)

end
