(* ===== verification/Api.thy ===== *)
theory Api
  imports Llm_Adapters
begin

text \<open>
  The plain interface to the cache: \<open>put\<close> and \<open>get\<close> of \<open>gptcache/adapter/api.py\<close>, sessions (\<open>gptcache/session.py\<close>), the
  server (\<open>gptcache_server/server.py\<close>) and its client (\<open>gptcache/client.py\<close>). A question that a client puts travels as
  JSON to the server, through \<open>adapt\<close> into the data manager, and comes back on a \<open>get\<close>.
\<close>

section \<open>put and get\<close>

text \<open>\<open>utils/cache_func.py\<close>.\<close>

definition cache_all :: "'k kwargs \<Rightarrow> bool result" where
  "cache_all kw = Inr True"

definition api_convert :: "post_message \<Rightarrow> pyobj result" where
  "api_convert msg = Inr (message_value msg)"

definition api_update_none :: "pyobj \<Rightarrow> 'k kwargs \<Rightarrow> (answers_arg \<times> question option) list \<times> pyobj result" where
  "api_update_none llm_data kw = ([], Inr PNone)"

definition llm_handle_none :: "'k kwargs \<Rightarrow> nat \<Rightarrow> pyobj option result" where
  "llm_handle_none kw t = Inr None"

definition api_update :: "(pyobj \<Rightarrow> answers_arg) \<Rightarrow> pyobj \<Rightarrow> 'k kwargs \<Rightarrow> (answers_arg \<times> question option) list \<times> pyobj result" where
  "api_update raw llm_data kw = ([(raw_answer raw llm_data, None)], Inr PNone)"

definition api_put where
  "api_put env raw prompt data kw cs w =
     map_option (\<lambda>(r, cs, w). (map_sum id (\<lambda>_. ()) r, cs, w))
       (adapt env api_convert (api_update raw) (\<lambda>kw t. Inr (Some data))
          (with_args [(''prompt'', prompt)] (kw\<lparr>kw_cache_skip := Some True\<rparr>)) cs w)"

definition api_get where
  "api_get env prompt kw cs w =
     map_option (\<lambda>(r, cs, w). (map_sum id (\<lambda>m. pop_or m PNone) r, cs, w))
       (adapt env api_convert api_update_none llm_handle_none (with_args [(''prompt'', prompt)] kw) cs w)"

text \<open>The cache that these functions ask for: \<open>get_prompt\<close> as preprocessing, over the map data manager.\<close>

definition prompt_cache where
  "prompt_cache ops order denied conf =
     default_cache ops order denied cache_all (text_pre (\<lambda>args. Inr (get_prompt args))) conf"

lemma prompt_plain:
  assumes "\<not> cf_data_check conf" "cf_input_summary_len conf = None"
  shows "plain_request cache_all (text_pre (\<lambda>args. Inr (get_prompt args))) conf (with_args [(''prompt'', PStr q)] (request_kw args)) q"
  using assms by (simp add: plain_request_def with_args_def request_kw_def text_pre_def get_prompt_def dict_get_def cache_all_def)

lemma put_stores:
  assumes C: "container_contract ops" and inv: "map_inv ops m" and conf: "\<not> cf_data_check conf" "cf_input_summary_len conf = None"
    and env: "ae_truthy env = py_truthy" and data: "data \<noteq> []"
  shows "\<exists>r1 m1 df1 t1 tr1 v s. api_put env raw (PStr q) (PStr data) (request_kw args) [(prompt_cache ops order denied conf, r, (m, df))] (t, tr) =
      Some (Inr (), [(prompt_cache ops order denied conf, r1, (m1, df1))], (t1, tr1)) \<and>
    map_inv ops m1 \<and> map_view ops m1 q = Some (v, s) \<and> mt_question v = q \<and> mt_answer v = AnsStr data"
proof -
  let ?kw = "with_args [(''prompt'', PStr q)] ((request_kw args)\<lparr>kw_cache_skip := Some True\<rparr>)"
  have skip: "skip_request cache_all (text_pre (\<lambda>args. Inr (get_prompt args))) conf ?kw q"
    using prompt_plain[OF conf, of q args] by (simp add: skip_request_def with_args_def request_kw_def)
  have upd: "fst (api_update raw (PStr data) kw') = [(AnsStr data, None)]" for kw' :: "pyargs kwargs"
    by (simp add: api_update_def raw_answer_def)
  have truthy: "ae_truthy env (PStr data)" by (simp add: env data)
  from skip_stores[where env = env and update = "api_update raw" and llm = "\<lambda>kw t. Inr (Some (PStr data))" and convert = api_convert
      and resp = "PStr data" and r = r and df = df and t = t and tr = tr, OF C skip inv prompt_cache_def refl truthy upd]
  show ?thesis unfolding api_put_def by (force simp del: adapt.simps)
qed

lemma get_serves:
  assumes C: "container_contract ops" and conf: "\<not> cf_data_check conf" "cf_input_summary_len conf = None"
    and cached: "map_view ops m q = Some (v, s)" "mt_question v = q" "first_saved (mt_answer v) = Some (Text data)"
  shows "\<exists>r1 m1 t1 tr1. api_get env (PStr q) (request_kw args) [(prompt_cache ops order denied conf, r, (m, df))] (t, tr) =
      Some (Inr (PStr data), [(prompt_cache ops order denied conf, r1, (m1, df))], (t1, tr1)) \<and>
    map_view ops m1 = map_view ops m \<and> (map_inv ops m \<longrightarrow> map_inv ops m1)"
proof -
  have conv: "api_convert (MsgOne (Text data)) = Inr (PStr data)" by (simp add: api_convert_def)
  from cached_request[where env = env and update = api_update_none and llm = llm_handle_none and convert = api_convert
      and r = r and df = df and t = t and tr = tr, OF C prompt_plain[OF conf] cached conv prompt_cache_def]
  show ?thesis unfolding api_get_def by (force simp del: adapt.simps)
qed

section \<open>Sessions\<close>

text \<open>\<open>uuid\<close> is the random name for a session without one; an empty name counts as none.\<close>

definition session_init ::
  "string \<Rightarrow> string option \<Rightarrow> (string \<Rightarrow> string list \<Rightarrow> string list \<Rightarrow> content \<Rightarrow> bool) option \<Rightarrow> session" where
  "session_init uuid name check_hit_func =
     \<lparr>sess_name = (if name = None \<or> name = Some [] then uuid else pop_or name []),
      sess_check_hit = pop_or check_hit_func check_hit_session\<rparr>"

text \<open>\<open>drop\<close> calls \<open>delete_session\<close> of the data manager, and so does the end of a \<open>with\<close> block, however it ends.\<close>

definition session_drop :: "(string \<Rightarrow> 'd \<Rightarrow> (unit, 'd) outcome) \<Rightarrow> session \<Rightarrow> 'd \<Rightarrow> (unit, 'd) outcome" where
  "session_drop delete_session s d = delete_session (sess_name s) d"

definition session_with ::
  "(string \<Rightarrow> 'd \<Rightarrow> (unit, 'd) outcome) \<Rightarrow> session \<Rightarrow> (session \<Rightarrow> 'd \<Rightarrow> ('a, 'd) outcome) \<Rightarrow> 'd \<Rightarrow> ('a, 'd) outcome" where
  "session_with delete_session s body d =
     (case body s d of
        (r, d) \<Rightarrow> (case session_drop delete_session s d of (Inl e, d) \<Rightarrow> (Inl e, d) | (Inr u, d) \<Rightarrow> (r, d)))"

section \<open>The server\<close>

text \<open>
  Requests carry a JSON body. \<open>CacheData\<close> of the server has a \<open>prompt\<close>, which must be a text, and an \<open>answer\<close>, a text or
  \<open>None\<close>, the empty text when absent; other bodies are answered with the status 422 by the framework.
\<close>

datatype http_reply = Reply int pyobj

definition server_cache_data :: "pyobj \<Rightarrow> (string \<times> pyobj) option" where
  "server_cache_data body =
     (case body of
        PDict d \<Rightarrow>
          (case (map_of d ''prompt'', kw_get d ''answer'' (PStr [])) of
             (Some (PStr p), PStr a) \<Rightarrow> Some (p, PStr a)
           | (Some (PStr p), PNone) \<Rightarrow> Some (p, PNone)
           | _ \<Rightarrow> None)
      | _ \<Rightarrow> None)"

text \<open>An exception that a handler does not catch is answered with the status 500.\<close>

definition server_reply :: "('a \<Rightarrow> pyobj) \<Rightarrow> 'a result \<Rightarrow> http_reply" where
  "server_reply f r = (case r of Inl e \<Rightarrow> Reply 500 PNone | Inr x \<Rightarrow> Reply 200 (f x))"

definition put_cache where
  "put_cache env raw body cs w =
     (case server_cache_data body of
        None \<Rightarrow> Some (Reply 422 PNone, cs, w)
      | Some (prompt, answer) \<Rightarrow>
          map_option (\<lambda>(r, cs, w). (server_reply (\<lambda>_. PStr ''successfully update the cache'') r, cs, w))
            (api_put env raw (PStr prompt) answer (request_kw []) cs w))"

text \<open>The answer to \<open>get\<close> is a \<open>CacheData\<close> again, which a result that is neither text nor \<open>None\<close> does not fit.\<close>

definition get_cache where
  "get_cache env body cs w =
     (case server_cache_data body of
        None \<Rightarrow> Some (Reply 422 PNone, cs, w)
      | Some (prompt, answer) \<Rightarrow>
          map_option (\<lambda>(r, cs, w).
              (case r of
                 Inl e \<Rightarrow> Reply 500 PNone
               | Inr x \<Rightarrow> (case x of PNone \<Rightarrow> Reply 200 (PDict [(''prompt'', PStr prompt), (''answer'', PNone)])
                           | PStr a \<Rightarrow> Reply 200 (PDict [(''prompt'', PStr prompt), (''answer'', PStr a)])
                           | _ \<Rightarrow> Reply 500 PNone), cs, w))
            (api_get env (PStr prompt) (request_kw []) cs w))"

definition flush_cache :: "('e, 'r, 'x, 'd, 'k) cache_obj list \<Rightarrow> http_reply \<times> ('e, 'r, 'x, 'd, 'k) cache_obj list" where
  "flush_cache cs = (case cache_flush cs of (r, cs) \<Rightarrow> (server_reply (\<lambda>_. PStr ''successfully flush the cache'') r, cs))"

text \<open>
  \<open>get_cache_file\<close>: the guards, then the archive of the directory. \<open>zipped\<close> is the file that is sent.
\<close>

definition get_cache_file :: "(string \<Rightarrow> pyobj) \<Rightarrow> string \<Rightarrow> string \<Rightarrow> string \<Rightarrow> http_reply" where
  "get_cache_file zipped cache_dir cache_file_key key =
     (if cache_dir = [] then Reply 403 (PStr ''the cache_dir was not specified when the service was initialized'')
      else if cache_file_key = []
      then Reply 403 (PStr ''the cache file can't be downloaded because the cache-file-key was not specified'')
      else if cache_file_key \<noteq> key then Reply 403 (PStr ''the cache file key is wrong'')
      else Reply 200 (zipped (cache_dir @ ''.zip'')))"

text \<open>\<open>s in x\<close> for a text \<open>s\<close>.\<close>

fun py_in :: "string \<Rightarrow> pyobj \<Rightarrow> bool result" where
  "py_in s (PStr t) = Inr (find_at s t \<noteq> None)"
| "py_in s (PList xs) = Inr (PStr s \<in> set xs)"
| "py_in s (PDict d) = Inr (s \<in> fst ` set d)"
| "py_in s x = Inl TypeError"

definition skip_marker :: string where
  "skip_marker = ''/cache_skip ''"

definition message_content :: "pyobj \<Rightarrow> pyobj result" where
  "message_content m = py_item m ''content''"

text \<open>\<open>content = str(content).replace("/cache_skip ", "")\<close> in a message.\<close>

definition unmark :: "repr_env \<Rightarrow> pyobj \<Rightarrow> pyobj result" where
  "unmark re m = bind_res (message_content m) (\<lambda>c.
     case m of PDict d \<Rightarrow> Inr (PDict (dict_set d ''content'' (PStr (remove_all skip_marker (py_str re c))))) | _ \<Rightarrow> Inl TypeError)"

definition marked_skip :: "repr_env \<Rightarrow> pyobj list \<Rightarrow> (bool \<times> pyobj list) result" where
  "marked_skip re messages =
     bind_res (py_nth messages 0) (\<lambda>m0. bind_res (message_content m0) (\<lambda>c0. bind_res (py_in skip_marker c0) (\<lambda>first.
       if first then bind_res (unmark re m0) (\<lambda>m. Inr (True, m # tl messages))
       else bind_res (py_last messages) (\<lambda>ml. bind_res (message_content ml) (\<lambda>cl. bind_res (py_in skip_marker cl) (\<lambda>final.
              if final then bind_res (unmark re ml) (\<lambda>m. Inr (True, butlast messages @ [m])) else Inr (False, messages)))))))"

text \<open>
  The beginning of \<open>chat\<close>: the flag \<open>cache_skip\<close> is taken out of the parameters; only when it is \<open>False\<close> itself are the
  messages looked at. The result is the flag and the other parameters. Messages that are no list are left out.
\<close>

definition chat_params :: "repr_env \<Rightarrow> pyargs \<Rightarrow> (pyobj \<times> pyargs) result" where
  "chat_params re openai_params =
     (let cache_skip = kw_get openai_params ''cache_skip'' (PBool False); params = kw_without [''cache_skip''] openai_params
      in if cache_skip \<noteq> PBool False then Inr (cache_skip, params)
         else case kw_or_none params ''messages'' of
                PList ms \<Rightarrow> bind_res (marked_skip re ms) (\<lambda>(skip, ms). Inr (PBool skip, dict_set params ''messages'' (PList ms)))
              | _ \<Rightarrow> Inl TypeError)"

text \<open>\<open>auth_header.split(" ")[1] if auth_header else ""\<close>.\<close>

definition openai_key :: "string option \<Rightarrow> string result" where
  "openai_key auth_header =
     (if auth_header = None \<or> auth_header = Some [] then Inr [] else py_nth (split_on '' '' [] (pop_or auth_header [])) 1)"

text \<open>The event stream: each chunk as a line of JSON, up to a chunk that is the text \<open>[DONE]\<close>.\<close>

fun chat_events :: "(pyobj \<Rightarrow> string result) \<Rightarrow> pyobj list \<Rightarrow> string list result" where
  "chat_events dumps [] = Inr []"
| "chat_events dumps (c # cs) =
     (if c = PStr ''[DONE]'' then Inr [''data: [DONE]'' @ [char_of (10::nat), char_of (10::nat)]]
      else bind_res (dumps c) (\<lambda>s. bind_res (chat_events dumps cs) (\<lambda>ss.
             Inr ((''data: '' @ s @ [char_of (10::nat), char_of (10::nat)]) # ss))))"

section \<open>The client\<close>

text \<open>
  \<open>send\<close> posts a body to an address and gives the status and the body of the reply; \<open>dumps\<close> and \<open>loads\<close> are those of JSON.
  The state is that of the server; \<open>None\<close> is a server that does not answer.
\<close>

definition client_put ::
  "(string \<Rightarrow> string \<Rightarrow> 's \<Rightarrow> (int \<times> string, 's) outcome option) \<Rightarrow> (pyobj \<Rightarrow> string result) \<Rightarrow> string \<Rightarrow> string \<Rightarrow> string
   \<Rightarrow> 's \<Rightarrow> (int, 's) outcome option" where
  "client_put send dumps uri question answer s =
     (case dumps (PDict [(''prompt'', PStr question), (''answer'', PStr answer)]) of
        Inl e \<Rightarrow> Some (Inl e, s)
      | Inr body \<Rightarrow> map_option (\<lambda>(r, s). (map_sum id fst r, s)) (send (uri @ ''/put'') body s))"

definition client_get ::
  "(string \<Rightarrow> string \<Rightarrow> 's \<Rightarrow> (int \<times> string, 's) outcome option) \<Rightarrow> (pyobj \<Rightarrow> string result) \<Rightarrow> (string \<Rightarrow> pyobj result)
   \<Rightarrow> string \<Rightarrow> string \<Rightarrow> 's \<Rightarrow> (pyobj, 's) outcome option" where
  "client_get send dumps loads uri question s =
     (case dumps (PDict [(''prompt'', PStr question)]) of
        Inl e \<Rightarrow> Some (Inl e, s)
      | Inr body \<Rightarrow>
          map_option (\<lambda>(r, s). (bind_res r (\<lambda>reply. bind_res (loads (snd reply)) (\<lambda>x. get_or x ''answer'' PNone)), s))
            (send (uri @ ''/get'') body s))"

text \<open>The server at an address: its routes, with the reply written as JSON.\<close>

definition reply_json :: "(pyobj \<Rightarrow> string result) \<Rightarrow> http_reply \<Rightarrow> (int \<times> string) result" where
  "reply_json dumps r = (case r of Reply n x \<Rightarrow> bind_res (dumps x) (\<lambda>s. Inr (n, s)))"

definition serve where
  "serve env raw dumps loads uri url body = (\<lambda>(cs, w).
     let answer = map_option (\<lambda>(r, cs, w). (reply_json dumps r, (cs, w)))
     in case loads body of
          Inl e \<Rightarrow> answer (Some (Reply 422 PNone, cs, w))
        | Inr x \<Rightarrow>
            if url = uri @ ''/put'' then answer (put_cache env raw x cs w)
            else if url = uri @ ''/get'' then answer (get_cache env x cs w)
            else answer (Some (Reply 404 PNone, cs, w)))"

section \<open>Properties\<close>

text \<open>JSON gives back the documents \<open>D\<close>.\<close>

definition json_keeps :: "(pyobj \<Rightarrow> string result) \<Rightarrow> (string \<Rightarrow> pyobj result) \<Rightarrow> pyobj list \<Rightarrow> bool" where
  "json_keeps dumps loads D \<longleftrightarrow> (\<forall>x \<in> set D. \<exists>s. dumps x = Inr s \<and> loads s = Inr x)"

definition put_body :: "string \<Rightarrow> string \<Rightarrow> pyobj" where
  "put_body q a = PDict [(''prompt'', PStr q), (''answer'', PStr a)]"

definition get_body :: "string \<Rightarrow> pyobj" where
  "get_body q = PDict [(''prompt'', PStr q)]"

definition put_done :: pyobj where
  "put_done = PStr ''successfully update the cache''"

lemma server_cache_data_bodies:
  "server_cache_data (put_body q a) = Some (q, PStr a)" "server_cache_data (get_body q) = Some (q, PStr [])"
  by (simp_all add: server_cache_data_def put_body_def get_body_def kw_get_def)

lemma client_put_stores:
  assumes C: "container_contract ops" and inv: "map_inv ops m" and conf: "\<not> cf_data_check conf" "cf_input_summary_len conf = None"
    and env: "ae_truthy env = py_truthy" and data: "a \<noteq> []"
    and json: "json_keeps dumps loads [put_body q a, put_done]"
  shows "\<exists>r1 m1 df1 t1 tr1 v s. client_put (serve env raw dumps loads uri) dumps uri q a ([(prompt_cache ops order denied conf, r, (m, df))], (t, tr)) =
      Some (Inr 200, ([(prompt_cache ops order denied conf, r1, (m1, df1))], (t1, tr1))) \<and>
    map_inv ops m1 \<and> map_view ops m1 q = Some (v, s) \<and> mt_question v = q \<and> mt_answer v = AnsStr a"
proof -
  from json obtain b d where b: "dumps (put_body q a) = Inr b" "loads b = Inr (put_body q a)" and d: "dumps put_done = Inr d"
    by (auto simp: json_keeps_def)
  from put_stores[OF C inv conf env data, of raw q "[]" order denied r df t tr]
  obtain r1 m1 df1 t1 tr1 v s where put: "api_put env raw (PStr q) (PStr a) (request_kw []) [(prompt_cache ops order denied conf, r, (m, df))] (t, tr) =
      Some (Inr (), [(prompt_cache ops order denied conf, r1, (m1, df1))], (t1, tr1))"
    and v: "map_inv ops m1" "map_view ops m1 q = Some (v, s)" "mt_question v = q" "mt_answer v = AnsStr a" by blast
  have "client_put (serve env raw dumps loads uri) dumps uri q a ([(prompt_cache ops order denied conf, r, (m, df))], (t, tr)) =
      Some (Inr 200, ([(prompt_cache ops order denied conf, r1, (m1, df1))], (t1, tr1)))"
    by (simp add: client_put_def b[unfolded put_body_def] d[unfolded put_done_def] serve_def put_cache_def
        server_cache_data_bodies(1)[unfolded put_body_def] put server_reply_def reply_json_def)
  then show ?thesis using v by blast
qed

lemma client_get_serves:
  assumes C: "container_contract ops" and conf: "\<not> cf_data_check conf" "cf_input_summary_len conf = None"
    and cached: "map_view ops m q = Some (v, s)" "mt_question v = q" "mt_answer v = AnsStr a"
    and json: "json_keeps dumps loads [get_body q, put_body q a]"
  shows "\<exists>r1 m1 t1 tr1. client_get (serve env raw dumps loads uri) dumps loads uri q ([(prompt_cache ops order denied conf, r, (m, df))], (t, tr)) =
      Some (Inr (PStr a), ([(prompt_cache ops order denied conf, r1, (m1, df))], (t1, tr1))) \<and> map_view ops m1 = map_view ops m"
proof -
  from json obtain b d where b: "dumps (get_body q) = Inr b" "loads b = Inr (get_body q)"
    and d: "dumps (put_body q a) = Inr d" "loads d = Inr (put_body q a)"
    by (auto simp: json_keeps_def)
  have "first_saved (mt_answer v) = Some (Text a)" by (simp add: cached(3))
  from get_serves[OF C conf cached(1,2) this, of env "[]" order denied r df t tr]
  obtain r1 m1 t1 tr1 where get: "api_get env (PStr q) (request_kw []) [(prompt_cache ops order denied conf, r, (m, df))] (t, tr) =
      Some (Inr (PStr a), [(prompt_cache ops order denied conf, r1, (m1, df))], (t1, tr1))" "map_view ops m1 = map_view ops m" by blast
  have "client_get (serve env raw dumps loads uri) dumps loads uri q ([(prompt_cache ops order denied conf, r, (m, df))], (t, tr)) =
      Some (Inr (PStr a), ([(prompt_cache ops order denied conf, r1, (m1, df))], (t1, tr1)))"
    by (simp add: client_get_def b[unfolded get_body_def] d[unfolded put_body_def] serve_def get_cache_def
        server_cache_data_bodies(2)[unfolded get_body_def] get reply_json_def)
  then show ?thesis using get(2) by blast
qed

text \<open>
  C4. What a client puts, every client gets. Over any container, with any clock and rounding, and whatever was cached before:
  putting a question with a non-empty answer is confirmed with the status 200, and in the state the server is in then, getting the
  question gives that answer. Only JSON is trusted, for the documents that travel.
\<close>

theorem client_round_trip:
  assumes C: "container_contract ops" and inv: "map_inv ops m" and conf: "\<not> cf_data_check conf" "cf_input_summary_len conf = None"
    and env: "ae_truthy env = py_truthy" and data: "a \<noteq> []"
    and json: "json_keeps dumps loads [put_body q a, put_done, get_body q]"
  shows "\<exists>st1 st2. client_put (serve env raw dumps loads uri) dumps uri q a ([(prompt_cache ops order denied conf, r, (m, df))], (t, tr)) =
      Some (Inr 200, st1) \<and>
    client_get (serve env raw dumps loads uri) dumps loads uri q st1 = Some (Inr (PStr a), st2)"
proof -
  have json': "json_keeps dumps loads [put_body q a, put_done]" "json_keeps dumps loads [get_body q, put_body q a]"
    using json by (auto simp: json_keeps_def)
  from client_put_stores[OF C inv conf env data json'(1), of raw uri order denied r df t tr]
  obtain r1 m1 df1 t1 tr1 v s where put: "client_put (serve env raw dumps loads uri) dumps uri q a ([(prompt_cache ops order denied conf, r, (m, df))], (t, tr)) =
      Some (Inr 200, ([(prompt_cache ops order denied conf, r1, (m1, df1))], (t1, tr1)))"
    and v: "map_view ops m1 q = Some (v, s)" "mt_question v = q" "mt_answer v = AnsStr a" by blast
  from client_get_serves[OF C conf v json'(2), of env raw uri order denied r1 df1 t1 tr1] put show ?thesis by blast
qed

definition four_dumps :: "pyobj \<Rightarrow> string result" where
  "four_dumps x = (if x = put_body ''hi'' ''yes'' then Inr ''1'' else if x = put_done then Inr ''2''
     else if x = get_body ''hi'' then Inr ''3'' else Inl TypeError)"

definition four_loads :: "string \<Rightarrow> pyobj result" where
  "four_loads s = (if s = ''1'' then Inr (put_body ''hi'' ''yes'') else if s = ''2'' then Inr put_done
     else if s = ''3'' then Inr (get_body ''hi'') else Inl ValueError)"

lemma four_json: "json_keeps four_dumps four_loads [put_body ''hi'' ''yes'', put_done, get_body ''hi'']"
  by (simp add: json_keeps_def four_dumps_def four_loads_def put_body_def get_body_def put_done_def)

theorem client_round_trip_witness:
  "\<exists>st1 st2. client_put (serve (text_env py_truthy) (\<lambda>x. AnsStr []) four_dumps four_loads ''http://localhost:8000'') four_dumps
       ''http://localhost:8000'' ''hi'' ''yes''
       ([(prompt_cache dict_container sorted_list_of_set False small_config, report_init, (small_map, FileMissing))], (0, no_requests)) = Some (Inr 200, st1) \<and>
    client_get (serve (text_env py_truthy) (\<lambda>x. AnsStr []) four_dumps four_loads ''http://localhost:8000'') four_dumps four_loads
       ''http://localhost:8000'' ''hi'' st1 = Some (Inr (PStr ''yes''), st2)"
  by (rule client_round_trip[OF dict_container_contract small_map_inv small_config_plain _ _ four_json]) (simp_all add: text_env_def)

text \<open>
  C33. An empty answer is confirmed and not stored. The server answers a put with an empty answer, which is also what it takes for a
  put without one, with the status 200 and its message of success; the entries of the cache are the same as before.
\<close>

theorem empty_put_confirmed_not_stored:
  assumes conf: "\<not> cf_data_check conf" "cf_input_summary_len conf = None" and env: "ae_truthy env = py_truthy"
  shows "\<exists>r1 t1 tr1. put_cache env raw (get_body q) [(prompt_cache ops order denied conf, r, (m, df))] (t, tr) =
    Some (Reply 200 put_done, [(prompt_cache ops order denied conf, r1, (m, df))], (t1, tr1))"
proof -
  let ?kw = "with_args [(''prompt'', PStr q)] ((request_kw [])\<lparr>kw_cache_skip := Some True\<rparr>)"
  let ?cfg = "prompt_cache ops order denied conf"
  have skip: "skip_request cache_all (text_pre (\<lambda>args. Inr (get_prompt args))) conf ?kw q"
    using prompt_plain[OF conf, of q "[]"] by (simp add: skip_request_def with_args_def request_kw_def)
  from skip_front_pending[OF skip prompt_cache_def, of env api_convert ops order denied r t "(m, df)" tr]
  obtain r1 t1 pd where front: "adapt_front True env api_convert ?cfg ?kw (r, t, (m, df), tr) = (Inr (Inr pd), (r1, t1, (m, df), tr))"
    and pd: "\<not> pd_search_only pd" by blast
  let ?llm = "\<lambda>(kw :: pyargs kwargs) (t :: nat). Inr (Some (PStr []))"
  have "\<exists>r2 t2 tr2. call_llm env ?llm (pd_kwargs pd) (r1, t1, (m, df), tr) = (Inr (Some (PStr [])), (r2, t2, (m, df), tr2))"
    by (simp add: call_llm_def timed_def time_cal_def)
  then obtain r2 t2 tr2 where call: "call_llm env ?llm (pd_kwargs pd) (r1, t1, (m, df), tr) = (Inr (Some (PStr [])), (r2, t2, (m, df), tr2))"
    by blast
  have "adapt env api_convert (api_update raw) ?llm ?kw [(?cfg, r, (m, df))] (t, tr) = Some (Inr None, [(?cfg, r2, (m, df))], (t2, tr2))"
    by (simp add: front pd call env)
  then show ?thesis
    by (simp add: put_cache_def server_cache_data_bodies api_put_def server_reply_def put_done_def del: adapt.simps)
qed

theorem empty_put_confirmed_not_stored_witness:
  "\<exists>r1 t1 tr1. put_cache (text_env py_truthy) (\<lambda>x. AnsStr []) (get_body ''hi'')
      [(prompt_cache dict_container sorted_list_of_set False small_config, report_init, (small_map, FileMissing))] (0, no_requests) =
    Some (Reply 200 put_done, [(prompt_cache dict_container sorted_list_of_set False small_config, r1, (small_map, FileMissing))], (t1, tr1))"
  by (rule empty_put_confirmed_not_stored[OF small_config_plain]) (simp add: text_env_def)

end
