(* ===== verification/Api_Config.thy ===== *)
theory Api_Config
  imports Api
begin

text \<open>
  Setting a cache up: \<open>init_similar_cache\<close> and \<open>init_similar_cache_from_config\<close> of \<open>gptcache/adapter/api.py\<close>, and what
  \<open>main\<close> of \<open>gptcache_server/server.py\<close> does with its options. As in \<open>Factories\<close>, what is built is given by the calls of
  the constructors. A configuration file is the dictionary that YAML reads from it.
\<close>

section \<open>Names in a configuration\<close>

text \<open>\<open>**(x or {})\<close>.\<close>

definition kwargs_of :: "pyobj \<Rightarrow> pyargs result" where
  "kwargs_of x = (if py_truthy x then (case x of PDict d \<Rightarrow> Inr d | _ \<Rightarrow> Inl TypeError) else Inr [])"

text \<open>\<open>_get_model\<close> gives \<open>None\<close> for an unknown name.\<close>

definition model_names :: "(string \<times> string) list" where
  "model_names =
     [(''onnx'', ''Onnx''), (''huggingface'', ''Huggingface''), (''sbert'', ''SBERT''), (''fasttext'', ''FastText''),
      (''data2vecaudio'', ''Data2VecAudio''), (''timm'', ''Timm''), (''vit'', ''ViT''), (''openai'', ''OpenAI''),
      (''cohere'', ''Cohere''), (''rwkv'', ''Rwkv''), (''paddlenlp'', ''PaddleNLP''), (''uform'', ''UForm'')]"

definition get_model :: "string \<Rightarrow> pyobj \<Rightarrow> ctor option result" where
  "get_model model_src model_config =
     (case map_of model_names (py_lower model_src) of
        None \<Rightarrow> Inr None
      | Some c \<Rightarrow> bind_res (kwargs_of model_config) (\<lambda>kws. Inr (Some (Ctor c kws))))"

text \<open>\<open>_get_eval\<close> looks for the first of these names that occurs anywhere in the strategy.\<close>

definition eval_names :: "(string \<times> string) list" where
  "eval_names =
     [(''distance'', ''SearchDistanceEvaluation''), (''np'', ''NumpyNormEvaluation''), (''exact'', ''ExactMatchEvaluation''),
      (''onnx'', ''OnnxModelEvaluation''), (''kreciprocal'', ''KReciprocalEvaluation''), (''cohere'', ''CohereRerankEvaluation''),
      (''sequence_match'', ''SequenceMatchEvaluation''), (''time'', ''TimeEvaluation''),
      (''sbert_crossencoder'', ''SbertCrossencoderEvaluation'')]"

definition contains :: "string \<Rightarrow> string \<Rightarrow> bool" where
  "contains s sub \<longleftrightarrow> find_at sub s \<noteq> None"

definition get_eval :: "string \<Rightarrow> pyobj \<Rightarrow> ctor option result" where
  "get_eval strategy kws =
     (case filter (\<lambda>(n, c). contains (py_lower strategy) n) eval_names of
        [] \<Rightarrow> Inr None
      | (n, c) # _ \<Rightarrow> if n = ''exact'' then Inr (Some (Ctor c [])) else bind_res (kwargs_of kws) (\<lambda>kws. Inr (Some (Ctor c kws))))"

text \<open>\<open>getattr\<close> of the modules \<open>processor.pre\<close> and \<open>processor.post\<close>: their functions, classes and imports.\<close>

definition pre_names :: "string list" where
  "pre_names = [''last_content'', ''last_content_without_prompt'', ''last_content_without_template'', ''all_content'', ''nop'',
     ''get_prompt'', ''get_file_name'', ''get_file_bytes'', ''get_input_str'', ''get_input_image_file_name'', ''get_image_question'',
     ''get_image'', ''get_inputs'', ''get_messages_last_content'', ''get_openai_moderation_input'', ''concat_all_queries'',
     ''re'', ''string'', ''Dict'', ''Any'']"

definition post_names :: "string list" where
  "post_names = [''random_one'', ''first'', ''nop'', ''temperature_softmax'', ''llm_semantic_verification'', ''LlmVerifier'',
     ''random'', ''List'', ''Any'', ''numpy'', ''softmax'']"

definition get_attr_of :: "string list \<Rightarrow> string \<Rightarrow> string result" where
  "get_attr_of names n = (if n \<in> set names then Inr n else Inl AttributeError)"

definition get_pre_func :: "string \<Rightarrow> string result" where
  "get_pre_func = get_attr_of pre_names"

definition get_post_func :: "string \<Rightarrow> string result" where
  "get_post_func = get_attr_of post_names"

text \<open>\<open>_get_pre_context_function\<close> asks whether the name occurs in the name of a processor, not the other way round.\<close>

definition get_pre_context_function :: "string \<Rightarrow> pyobj \<Rightarrow> ctor option result" where
  "get_pre_context_function n kws =
     (let n = py_lower n
      in if contains ''summarization'' n then bind_res (kwargs_of kws) (\<lambda>kws. Inr (Some (Ctor ''SummarizationContextProcess'' kws)))
         else if contains ''selective'' n then bind_res (kwargs_of kws) (\<lambda>kws. Inr (Some (Ctor ''SelectiveContextProcess'' kws)))
         else if contains ''concat'' n then Inr (Some (Ctor ''ConcatContextProcess'' []))
         else Inr None)"

section \<open>What is set up\<close>

text \<open>The arguments of \<open>cache_obj.init\<close>; a context processor contributes its method \<open>pre_process\<close>.\<close>

datatype pre_part = PreFunc string | PreProcessor ctor

record api_plan =
  ap_embedding :: ctor
  ap_manager :: manager_plan
  ap_evaluation :: "ctor option"
  ap_pre :: pre_part
  ap_post :: string
  ap_config :: ctor

text \<open>\<open>dimension\<close> is the attribute of the embedding object, which the model knows.\<close>

definition init_similar_cache ::
  "(ctor \<Rightarrow> pyobj) \<Rightarrow> string \<Rightarrow> pre_part \<Rightarrow> ctor option \<Rightarrow> manager_plan option \<Rightarrow> ctor option \<Rightarrow> string \<Rightarrow> ctor \<Rightarrow> api_plan result" where
  "init_similar_cache dimension data_dir pre_func embedding data_manager evaluation post_func config =
     (let embedding = pop_or embedding (Ctor ''Onnx'' [])
      in bind_res (case data_manager of
                     Some d \<Rightarrow> Inr d
                   | None \<Rightarrow> manager_factory ''sqlite,faiss'' data_dir (PInt 1000) ''memory'' None
                               (Some [(''dimension'', dimension embedding)]) None None) (\<lambda>d.
           Inr \<lparr>ap_embedding = embedding, ap_manager = d,
                ap_evaluation = Some (pop_or evaluation (Ctor ''SearchDistanceEvaluation'' [])),
                ap_pre = pre_func, ap_post = post_func, ap_config = config\<rparr>))"

text \<open>What is used as a dictionary or a text and is none raises.\<close>

fun as_dict :: "pyexc \<Rightarrow> pyobj \<Rightarrow> pyargs result" where
  "as_dict err (PDict d) = Inr d"
| "as_dict err x = Inl err"

fun as_text :: "pyexc \<Rightarrow> pyobj \<Rightarrow> string result" where
  "as_text err (PStr s) = Inr s"
| "as_text err x = Inl err"

fun as_params :: "pyobj \<Rightarrow> pyargs option result" where
  "as_params PNone = Inr None"
| "as_params (PDict d) = Inr (Some d)"
| "as_params x = Inl TypeError"

text \<open>\<open>conf.get(old, "")\<close>, and when that is nothing, \<open>conf.get(new, default)\<close>.\<close>

definition either_name :: "pyargs \<Rightarrow> string \<Rightarrow> string \<Rightarrow> pyobj \<Rightarrow> pyobj" where
  "either_name conf old new default_value =
     (let v = kw_or_none conf old in if py_truthy v then v else kw_get conf new default_value)"

definition set_default :: "pyargs \<Rightarrow> string \<Rightarrow> pyobj \<Rightarrow> pyargs" where
  "set_default d k v = (if k \<in> fst ` set d then d else d @ [(k, v)])"

text \<open>\<open>manager_factory(**kwargs)\<close>.\<close>

definition factory_params :: "string list" where
  "factory_params = [''manager'', ''data_dir'', ''max_size'', ''eviction_manager'', ''get_data_container'', ''scalar_params'',
     ''vector_params'', ''object_params'', ''eviction_params'']"

definition manager_factory_kw :: "pyargs \<Rightarrow> manager_plan result" where
  "manager_factory_kw kw =
     (if \<not> set (map fst kw) \<subseteq> set factory_params then Inl TypeError
      else bind_res (as_text TypeError (kw_get kw ''data_dir'' (PStr ''./''))) (\<lambda>data_dir.
           bind_res (as_text AttributeError (kw_get kw ''manager'' (PStr ''map''))) (\<lambda>manager.
           bind_res (as_params (kw_or_none kw ''scalar_params'')) (\<lambda>sp.
           bind_res (as_params (kw_or_none kw ''vector_params'')) (\<lambda>vp.
           bind_res (as_params (kw_or_none kw ''object_params'')) (\<lambda>op.
           bind_res (as_params (kw_or_none kw ''eviction_params'')) (\<lambda>ep.
           bind_res (as_text TypeError (kw_get kw ''eviction_manager'' (PStr ''memory''))) (\<lambda>eviction_manager.
             manager_factory manager data_dir (kw_get kw ''max_size'' (PInt 1000)) eviction_manager sp vp op ep))))))))"

text \<open>The dictionary \<open>storage_config\<close> after the defaults and the dimension are filled in.\<close>

definition storage_args :: "pyobj \<Rightarrow> pyargs \<Rightarrow> pyargs result" where
  "storage_args dimension storage_config =
     (let c = set_default storage_config ''manager'' (PStr ''sqlite,faiss'');
          c = set_default c ''data_dir'' (PStr ''gptcache_data'');
          c = set_default c ''vector_params'' (PDict []);
          v = kw_or_none c ''vector_params''
      in bind_res (as_dict TypeError (if py_truthy v then v else PDict [])) (\<lambda>vp.
           Inr (dict_set c ''vector_params'' (PDict (dict_set vp ''dimension'' dimension)))))"

definition pre_part_of :: "pyargs \<Rightarrow> pre_part result" where
  "pre_part_of conf =
     (let pre_process = kw_or_none conf ''pre_context_function''
      in if py_truthy pre_process
         then bind_res (as_text AttributeError pre_process) (\<lambda>n.
              bind_res (get_pre_context_function n (kw_or_none conf ''pre_context_config'')) (\<lambda>p.
              case p of None \<Rightarrow> Inl AttributeError | Some c \<Rightarrow> Inr (PreProcessor c)))
         else bind_res (as_text TypeError (kw_get conf ''pre_function'' (PStr ''get_prompt''))) (\<lambda>n.
              bind_res (get_pre_func n) (\<lambda>f. Inr (PreFunc f))))"

text \<open>
  The result is what is set up and the dictionary that is returned; it shares its \<open>storage_config\<close>, if it has one, with the
  arguments above.
\<close>

definition init_similar_cache_from_config :: "(ctor \<Rightarrow> pyobj) \<Rightarrow> pyargs \<Rightarrow> (api_plan \<times> pyargs) result" where
  "init_similar_cache_from_config dimension conf =
     bind_res (as_text AttributeError (either_name conf ''model_source'' ''embedding'' (PStr ''onnx''))) (\<lambda>embedding.
     bind_res (get_model embedding (either_name conf ''model_config'' ''embedding_config'' (PDict []))) (\<lambda>model.
     case model of
       None \<Rightarrow> Inl AttributeError
     | Some embedding_model \<Rightarrow>
         bind_res (as_dict AttributeError (kw_get conf ''storage_config'' (PDict []))) (\<lambda>storage_config.
         bind_res (storage_args (dimension embedding_model) storage_config) (\<lambda>storage_config.
         bind_res (manager_factory_kw storage_config) (\<lambda>data_manager.
         bind_res (as_text AttributeError (kw_get conf ''evaluation'' (PStr ''distance''))) (\<lambda>eval_strategy.
         bind_res (get_eval eval_strategy (either_name conf ''evaluation_kws'' ''evaluation_config'' (PDict []))) (\<lambda>evaluation.
         bind_res (pre_part_of conf) (\<lambda>pre_func.
         bind_res (as_text TypeError (kw_get conf ''post_function'' (PStr ''first''))) (\<lambda>post_process.
         bind_res (get_post_func post_process) (\<lambda>post_func.
         bind_res (kwargs_of (kw_get conf ''config'' (PDict []))) (\<lambda>config_kws.
           Inr (\<lparr>ap_embedding = embedding_model, ap_manager = data_manager, ap_evaluation = evaluation,
                  ap_pre = pre_func, ap_post = post_func, ap_config = Ctor ''Config'' config_kws\<rparr>,
                if ''storage_config'' \<in> fst ` set conf then dict_set conf ''storage_config'' (PDict storage_config) else conf))))))))))))"

section \<open>The server's start\<close>

text \<open>
  The options that matter: \<open>type=bool\<close> makes the option \<open>--openai\<close> true for every text that is not empty, also for
  \<open>"False"\<close>. \<open>load\<close> opens a configuration file and reads it.
\<close>

record server_options =
  so_cache_dir :: string
  so_cache_file_key :: string
  so_cache_config_file :: "string option"
  so_openai :: "string option"
  so_openai_config_file :: "string option"

record server_state =
  ss_cache :: api_plan
  ss_cache_dir :: pyobj
  ss_cache_file_key :: string
  ss_openai_cache :: "api_plan option"

definition default_init :: "(ctor \<Rightarrow> pyobj) \<Rightarrow> string \<Rightarrow> pre_part \<Rightarrow> api_plan result" where
  "default_init dimension data_dir pre_func =
     init_similar_cache dimension data_dir pre_func None None None ''temperature_softmax'' (Ctor ''Config'' [])"

definition text_given :: "string option \<Rightarrow> bool" where
  "text_given f \<longleftrightarrow> f \<noteq> None \<and> f \<noteq> Some []"

definition init_from_file ::
  "(string \<Rightarrow> pyobj result) \<Rightarrow> (ctor \<Rightarrow> pyobj) \<Rightarrow> string option \<Rightarrow> (api_plan \<times> pyargs) result" where
  "init_from_file load dimension config_dir =
     bind_res (if text_given config_dir then bind_res (load (pop_or config_dir [])) (as_dict AttributeError) else Inr [])
       (init_similar_cache_from_config dimension)"

definition server_main :: "(string \<Rightarrow> pyobj result) \<Rightarrow> (ctor \<Rightarrow> pyobj) \<Rightarrow> server_options \<Rightarrow> server_state result" where
  "server_main load dimension opts =
     bind_res
       (if text_given (so_cache_config_file opts)
        then bind_res (init_from_file load dimension (so_cache_config_file opts)) (\<lambda>(p, conf).
             bind_res (as_dict AttributeError (kw_get conf ''storage_config'' (PDict []))) (\<lambda>st.
               Inr (p, kw_get st ''data_dir'' (PStr []))))
        else bind_res (default_init dimension (so_cache_dir opts) (PreFunc ''get_prompt'')) (\<lambda>p. Inr (p, PStr (so_cache_dir opts))))
       (\<lambda>(p, dir).
     bind_res
       (if \<not> text_given (so_openai opts) then Inr None
        else if text_given (so_openai_config_file opts)
        then bind_res (init_from_file load dimension (so_openai_config_file opts)) (\<lambda>(q, conf). Inr (Some q))
        else bind_res (default_init dimension ''openai_server_cache'' (PreFunc ''last_content'')) (\<lambda>q. Inr (Some q)))
       (\<lambda>q.
     Inr \<lparr>ss_cache = p, ss_cache_dir = dir, ss_cache_file_key = so_cache_file_key opts, ss_openai_cache = q\<rparr>))"

section \<open>Properties\<close>

lemma storage_args_none:
  "storage_args d [] = Inr [(''manager'', PStr ''sqlite,faiss''), (''data_dir'', PStr ''gptcache_data''),
     (''vector_params'', PDict [(''dimension'', d)])]"
  by (simp add: storage_args_def set_default_def kw_or_none_def kw_get_def Let_def)

lemma factory_none:
  "manager_factory_kw [(''manager'', PStr ''sqlite,faiss''), (''data_dir'', PStr ''gptcache_data''),
     (''vector_params'', PDict [(''dimension'', d)])] =
   manager_factory ''sqlite,faiss'' ''gptcache_data'' (PInt 1000) ''memory'' None (Some [(''dimension'', d)]) None None"
  by (simp add: manager_factory_kw_def factory_params_def kw_or_none_def kw_get_def)

lemma eval_by_name: "(n, c) \<in> set eval_names \<Longrightarrow> get_eval n (PDict []) = Inr (Some (Ctor c []))"
proof -
  have "list_all (\<lambda>(n, c). get_eval n (PDict []) = Inr (Some (Ctor c []))) eval_names" by code_simp
  then show "(n, c) \<in> set eval_names \<Longrightarrow> get_eval n (PDict []) = Inr (Some (Ctor c []))" by (auto simp: list_all_iff)
qed

lemma names_known:
  "get_model ''onnx'' x = bind_res (kwargs_of x) (\<lambda>kws. Inr (Some (Ctor ''Onnx'' kws)))"
  "get_pre_func ''get_prompt'' = Inr ''get_prompt''" "get_post_func ''first'' = Inr ''first''"
proof -
  have "map_of model_names (py_lower ''onnx'') = Some ''Onnx''" by code_simp
  then show "get_model ''onnx'' x = bind_res (kwargs_of x) (\<lambda>kws. Inr (Some (Ctor ''Onnx'' kws)))" by (simp add: get_model_def)
  show "get_pre_func ''get_prompt'' = Inr ''get_prompt''" "get_post_func ''first'' = Inr ''first''"
    by (simp_all add: get_pre_func_def get_post_func_def get_attr_of_def pre_names_def post_names_def)
qed

text \<open>
  Without a configuration file (\<open>config_dir\<close> is \<open>None\<close> or empty) the cache is that of \<open>init_similar_cache\<close>, but for two defaults
  that differ: the data directory is \<open>gptcache_data\<close>, and the answer is the first one found instead of a choice by
  temperature. Both succeed and fail together. With a file that is there but empty, which YAML reads as \<open>None\<close>, it is not: the
  first \<open>get\<close> raises \<open>AttributeError\<close>.
\<close>

theorem empty_config_is_default:
  "(\<not> text_given config_dir \<longrightarrow> init_from_file load dimension config_dir =
     map_sum id (\<lambda>p. (p, []))
       (init_similar_cache dimension ''gptcache_data'' (PreFunc ''get_prompt'') None None None ''first'' (Ctor ''Config'' []))) \<and>
   (text_given config_dir \<longrightarrow> load (pop_or config_dir []) = Inr PNone \<longrightarrow>
     init_from_file load dimension config_dir = Inl AttributeError)"
proof -
  have ev: "get_eval ''distance'' (PDict []) = Inr (Some (Ctor ''SearchDistanceEvaluation'' []))"
    by (rule eval_by_name) (simp add: eval_names_def)
  have get: "either_name [] old new d = d" "kw_get [] k d = d" "kw_or_none [] k = PNone" for old new k d
    by (simp_all add: either_name_def kw_get_def kw_or_none_def)
  have pre: "pre_part_of [] = Inr (PreFunc ''get_prompt'')" by (simp add: pre_part_of_def get names_known)
  show ?thesis
    by (cases "manager_factory ''sqlite,faiss'' ''gptcache_data'' (PInt 1000) ''memory'' None
          (Some [(''dimension'', dimension (Ctor ''Onnx'' []))]) None None")
      (simp_all add: init_from_file_def init_similar_cache_from_config_def init_similar_cache_def get names_known kwargs_of_def
        storage_args_none factory_none ev pre)
qed

text \<open>
  A misspelt evaluation is not noticed. A configuration in which none of the names occurs in the strategy sets the cache up as
  any other does, with no evaluation at all, so that it is the first request with a search result that fails.
\<close>

theorem unknown_evaluation_accepted:
  assumes "init_similar_cache_from_config dimension conf = Inr (p, conf')" and "kw_get conf ''evaluation'' (PStr ''distance'') = PStr strategy"
    and "\<forall>(n, c) \<in> set eval_names. \<not> contains (py_lower strategy) n"
  shows "ap_evaluation p = None"
proof -
  have "filter (\<lambda>(n, c). contains (py_lower strategy) n) eval_names = []"
    using assms(3) by (auto simp: filter_empty_conv)
  then have "get_eval strategy kws = Inr None" for kws by (simp add: get_eval_def)
  with assms(1,2) show ?thesis
    by (auto simp: init_similar_cache_from_config_def bind_res_Inr_iff split: option.splits)
qed

definition numpy_conf :: pyargs where
  "numpy_conf = [(''evaluation'', PStr ''numpy'')]"

lemma faiss_manager:
  "\<exists>plan. manager_factory ''sqlite,faiss'' ''gptcache_data'' (PInt 1000) ''memory'' None (Some [(''dimension'', PInt 768)]) None None = Inr plan"
proof -
  have "(case manager_factory ''sqlite,faiss'' ''gptcache_data'' (PInt 1000) ''memory'' None (Some [(''dimension'', PInt 768)]) None None of
      Inl e \<Rightarrow> False | Inr p \<Rightarrow> True)" by code_simp
  then show ?thesis by (auto split: sum.splits)
qed

lemma numpy_init: "\<exists>p. init_similar_cache_from_config (\<lambda>c. PInt 768) numpy_conf = Inr (p, numpy_conf)"
proof -
  obtain plan where plan: "manager_factory ''sqlite,faiss'' ''gptcache_data'' (PInt 1000) ''memory'' None (Some [(''dimension'', PInt 768)]) None None = Inr plan"
    using faiss_manager by blast
  have either: "either_name numpy_conf old new d = d" if "old \<noteq> ''evaluation''" "new \<noteq> ''evaluation''" for old new d
    using that by (simp add: either_name_def kw_get_def kw_or_none_def numpy_conf_def)
  have get: "kw_or_none numpy_conf ''pre_context_function'' = PNone"
      "kw_get numpy_conf ''evaluation'' d = PStr ''numpy''" "kw_get numpy_conf ''storage_config'' d = d"
      "kw_get numpy_conf ''post_function'' d = d" "kw_get numpy_conf ''config'' d = d" "kw_get numpy_conf ''pre_function'' d = d"
    for d
    by (simp_all add: kw_get_def kw_or_none_def numpy_conf_def)
  have ev: "get_eval ''numpy'' x = Inr None" for x
  proof -
    have "filter (\<lambda>(n, c). contains (py_lower ''numpy'') n) eval_names = []" by code_simp
    then show ?thesis by (simp add: get_eval_def)
  qed
  have pre: "pre_part_of numpy_conf = Inr (PreFunc ''get_prompt'')" by (simp add: pre_part_of_def get names_known)
  have keys: "''storage_config'' \<notin> fst ` set numpy_conf" by (simp add: numpy_conf_def)
  show ?thesis
    by (simp add: init_similar_cache_from_config_def either get names_known kwargs_of_def storage_args_none factory_none ev pre plan keys)
qed

theorem unknown_evaluation_accepted_witness:
  "\<exists>p. init_similar_cache_from_config (\<lambda>c. PInt 768) numpy_conf = Inr (p, numpy_conf) \<and> ap_evaluation p = None"
proof -
  obtain p where p: "init_similar_cache_from_config (\<lambda>c. PInt 768) numpy_conf = Inr (p, numpy_conf)" using numpy_init by blast
  have "kw_get numpy_conf ''evaluation'' (PStr ''distance'') = PStr ''numpy''" by (simp add: numpy_conf_def kw_get_def)
  moreover have "\<forall>(n, c) \<in> set eval_names. \<not> contains (py_lower ''numpy'') n"
    unfolding list_all_iff[symmetric] by code_simp
  ultimately show ?thesis using unknown_evaluation_accepted[OF p] p by blast
qed

text \<open>
  C34. The server loses the data directory of a configuration file without \<open>storage_config\<close>. The cache keeps its data in the default
  directory \<open>gptcache_data\<close>, but the server takes the directory from the dictionary that it read, finds none, and
  answers every request for the cache file with the status 403, whatever the key.
\<close>

theorem default_directory_not_served:
  assumes main: "server_main load dimension opts = Inr st" and file_opt: "so_cache_config_file opts = Some f" "f \<noteq> []"
    and conf: "load f = Inr (PDict conf)" "''storage_config'' \<notin> fst ` set conf"
  shows "(\<exists>d. manager_factory ''sqlite,faiss'' ''gptcache_data'' (PInt 1000) ''memory'' None (Some [(''dimension'', d)]) None None =
      Inr (ap_manager (ss_cache st))) \<and>
    ss_cache_dir st = PStr [] \<and>
    (\<forall>dir zipped key. ss_cache_dir st = PStr dir \<longrightarrow>
       get_cache_file zipped dir (ss_cache_file_key st) key =
         Reply 403 (PStr ''the cache_dir was not specified when the service was initialized''))"
proof -
  have st: "kw_get conf ''storage_config'' (PDict []) = PDict []"
    using conf(2) by (simp add: kw_get_def map_of_eq_None_iff[THEN iffD2])
  have given: "text_given (so_cache_config_file opts)" using file_opt by (simp add: text_given_def)
  from main obtain p conf' where p: "init_similar_cache_from_config dimension conf = Inr (p, conf')" "ss_cache st = p"
    "bind_res (as_dict AttributeError (kw_get conf' ''storage_config'' (PDict []))) (\<lambda>st. Inr (kw_get st ''data_dir'' (PStr []))) = Inr (ss_cache_dir st)"
    using file_opt conf(1) given by (auto simp: server_main_def init_from_file_def bind_res_Inr_iff)
  from p(1) have "conf' = conf" using conf(2)
    by (auto simp: init_similar_cache_from_config_def bind_res_Inr_iff split: option.splits)
  with p(3) st have "ss_cache_dir st = PStr []" by (simp add: kw_get_def)
  moreover from p(1) have "\<exists>d. manager_factory ''sqlite,faiss'' ''gptcache_data'' (PInt 1000) ''memory'' None (Some [(''dimension'', d)]) None None =
      Inr (ap_manager p)"
    by (clarsimp simp: init_similar_cache_from_config_def bind_res_Inr_iff st storage_args_none factory_none split: option.splits) blast
  ultimately show ?thesis using p(2) by (simp add: get_cache_file_def)
qed

theorem default_directory_not_served_witness:
  "\<exists>st. server_main (\<lambda>f. Inr (PDict numpy_conf)) (\<lambda>c. PInt 768)
      \<lparr>so_cache_dir = ''gptcache_data'', so_cache_file_key = ''key'', so_cache_config_file = Some ''conf.yml'', so_openai = None,
       so_openai_config_file = None\<rparr> = Inr st \<and> ss_cache_dir st = PStr [] \<and> ss_cache_file_key st = ''key''"
proof -
  let ?opts = "\<lparr>so_cache_dir = ''gptcache_data'', so_cache_file_key = ''key'', so_cache_config_file = Some ''conf.yml'', so_openai = None,
       so_openai_config_file = None\<rparr>"
  let ?load = "\<lambda>f :: string. (Inr (PDict numpy_conf) :: pyobj result)"
  obtain p where p: "init_similar_cache_from_config (\<lambda>c. PInt 768) numpy_conf = Inr (p, numpy_conf)" using numpy_init by blast
  have "kw_get numpy_conf ''storage_config'' (PDict []) = PDict []" by (simp add: numpy_conf_def kw_get_def)
  then have "\<exists>st. server_main ?load (\<lambda>c. PInt 768) ?opts = Inr st \<and> ss_cache_file_key st = ''key''"
    by (simp add: server_main_def init_from_file_def text_given_def p)
  then obtain st where st: "server_main ?load (\<lambda>c. PInt 768) ?opts = Inr st" "ss_cache_file_key st = ''key''" by blast
  have "''storage_config'' \<notin> fst ` set numpy_conf" by (simp add: numpy_conf_def)
  from default_directory_not_served[OF st(1) _ _ _ this, of "''conf.yml''"] st show ?thesis by auto
qed

end
