(* ===== verification/Embedding.thy ===== *)
theory Embedding
  imports Api_Config
begin

text \<open>
  The embeddings of \<open>gptcache/embedding/\<close>. The models and tokenizers are parameters: they give token vectors, sentence
  vectors or responses. What the classes add to them is modelled: which vectors are taken, pooled and reshaped, how the
  dimension is found and kept, and how \<open>embedding/__init__.py\<close> passes arguments on. Arithmetic is exact, and \<open>f32\<close>
  rounds to 32 bits.
\<close>

section \<open>Arrays\<close>

text \<open>An array of one or two dimensions; \<open>squeeze(0)\<close> of a matrix, which numpy refuses unless it has one row.\<close>

datatype arr = Vec vec | Mat "vec list"

fun torch_squeeze0 :: "vec list \<Rightarrow> arr" where
  "torch_squeeze0 [v] = Vec v"
| "torch_squeeze0 vs = Mat vs"

fun np_squeeze0 :: "vec list \<Rightarrow> vec result" where
  "np_squeeze0 [v] = Inr v"
| "np_squeeze0 vs = Inl ValueError"

fun arr_len :: "arr \<Rightarrow> nat" where
  "arr_len (Vec v) = length v"
| "arr_len (Mat vs) = length vs"

fun arr_round :: "(real \<Rightarrow> real) \<Rightarrow> arr \<Rightarrow> arr" where
  "arr_round f32 (Vec v) = Vec (map f32 v)"
| "arr_round f32 (Mat vs) = Mat (map (map f32) vs)"

text \<open>One text or a list of them; \<open>[data]\<close> for one.\<close>

datatype embed_data = One string | Many "string list"

fun as_list :: "embed_data \<Rightarrow> string list" where
  "as_list (One s) = [s]"
| "as_list (Many ss) = ss"

text \<open>A vector of the response of a service; \<open>np.array\<close> of anything else than numbers is no array of floats.\<close>

fun as_real :: "pyobj \<Rightarrow> real result" where
  "as_real (PFloat x) = Inr x"
| "as_real (PInt n) = Inr (of_int n)"
| "as_real x = Inl ValueError"

fun as_vec :: "pyobj \<Rightarrow> vec result" where
  "as_vec (PList xs) = map_res as_real xs"
| "as_vec x = Inl TypeError"

section \<open>Pooling\<close>

text \<open>
  The mean of token vectors under an attention mask, in \<open>d\<close> dimensions: \<open>Huggingface.post_proc\<close> for one text, and
  \<open>Onnx.post_proc\<close>.
\<close>

definition masked_mean :: "nat \<Rightarrow> vec list \<Rightarrow> real list \<Rightarrow> vec" where
  "masked_mean d token_embeddings attention_mask =
     map (\<lambda>j. sum_list (map2 (\<lambda>v m. v ! j * m) token_embeddings attention_mask) / max (sum_list attention_mask) (1 / 10 ^ 9)) [0..<d]"

definition hf_post_proc :: "nat \<Rightarrow> (vec list \<times> real list) list \<Rightarrow> vec list" where
  "hf_post_proc d outs = map (\<lambda>(token_embeddings, attention_mask). masked_mean d token_embeddings attention_mask) outs"

text \<open>\<open>PaddleNLP.post_proc\<close> takes ones for the mask.\<close>

definition paddle_post_proc :: "nat \<Rightarrow> vec list list \<Rightarrow> vec list" where
  "paddle_post_proc d outs = map (\<lambda>token_embeddings. masked_mean d token_embeddings (replicate (length token_embeddings) 1)) outs"

section \<open>Embeddings with a fixed dimension\<close>

text \<open>\<open>model.config.hidden_size\<close>, or else that of \<open>AutoConfig\<close>.\<close>

definition hidden_size :: "nat result \<Rightarrow> nat result \<Rightarrow> nat result" where
  "hidden_size model_config auto_config = (case model_config of Inr d \<Rightarrow> Inr d | Inl e \<Rightarrow> auto_config)"

record huggingface =
  hu_dimension :: nat
  hu_pad_token :: string

definition pad_token :: "string \<Rightarrow> string option \<Rightarrow> string" where
  "pad_token other tok = (case tok of None \<Rightarrow> other | Some t \<Rightarrow> if t = [] then other else t)"

definition huggingface_init :: "nat result \<Rightarrow> nat result \<Rightarrow> string option \<Rightarrow> huggingface result" where
  "huggingface_init model_config auto_config tok =
     bind_res (hidden_size model_config auto_config) (\<lambda>d. Inr \<lparr>hu_dimension = d, hu_pad_token = pad_token ''[PAD]'' tok\<rparr>)"

text \<open>\<open>model pad texts\<close>: the last hidden states with the attention mask, for each text.\<close>

definition huggingface_embed ::
  "(real \<Rightarrow> real) \<Rightarrow> (string \<Rightarrow> string list \<Rightarrow> (vec list \<times> real list) list result) \<Rightarrow> huggingface \<Rightarrow> embed_data \<Rightarrow> arr result" where
  "huggingface_embed f32 model s data =
     bind_res (model (hu_pad_token s) (as_list data)) (\<lambda>outs.
       Inr (arr_round f32 (torch_squeeze0 (hf_post_proc (hu_dimension s) outs))))"

text \<open>\<open>encode\<close> gives the ids, the attention mask and the token types, \<open>run\<close> the token vectors.\<close>

definition onnx_embed ::
  "(string \<Rightarrow> (int list \<times> int list \<times> int list) result) \<Rightarrow> (int list \<times> int list \<times> int list \<Rightarrow> vec list result) \<Rightarrow> nat \<Rightarrow> string
   \<Rightarrow> vec result" where
  "onnx_embed encode run d data =
     bind_res (encode data) (\<lambda>encoded. bind_res (run encoded) (\<lambda>ort_feat.
       Inr (masked_mean d ort_feat (map of_int (fst (snd encoded))))))"

text \<open>\<open>last_hidden_state[0, 0, :]\<close>.\<close>

definition rwkv_embed :: "(real \<Rightarrow> real) \<Rightarrow> (string \<Rightarrow> 't list result) \<Rightarrow> ('t list \<Rightarrow> vec list result) \<Rightarrow> string \<Rightarrow> vec result" where
  "rwkv_embed f32 tokenizer model data =
     bind_res (tokenizer data) (\<lambda>ids. bind_res (model ids) (\<lambda>hidden. bind_res (py_nth hidden 0) (\<lambda>v. Inr (map f32 v))))"

text \<open>\<open>if dim\<close>: the model is reduced; its own dimension is asked for afterwards.\<close>

definition fasttext_init :: "('m \<Rightarrow> nat \<Rightarrow> 'm result) \<Rightarrow> ('m \<Rightarrow> nat) \<Rightarrow> nat option \<Rightarrow> 'm \<Rightarrow> ('m \<times> nat) result" where
  "fasttext_init reduce get_dimension dim_arg ft =
     bind_res (case dim_arg of None \<Rightarrow> Inr ft | Some n \<Rightarrow> if n = 0 then Inr ft else reduce ft n) (\<lambda>ft. Inr (ft, get_dimension ft))"

fun fasttext_embed :: "(real \<Rightarrow> real) \<Rightarrow> (string \<Rightarrow> vec result) \<Rightarrow> pyobj \<Rightarrow> vec result" where
  "fasttext_embed f32 get_sentence_vector (PStr s) = bind_res (get_sentence_vector s) (\<lambda>v. Inr (map f32 v))"
| "fasttext_embed f32 get_sentence_vector x = Inl AssertionError"

definition langchain_embed :: "(real \<Rightarrow> real) \<Rightarrow> (string \<Rightarrow> vec result) \<Rightarrow> string \<Rightarrow> vec result" where
  "langchain_embed f32 embed_query data = bind_res (embed_query data) (\<lambda>v. Inr (map f32 v))"

definition langchain_dimension :: "(string \<Rightarrow> vec result) \<Rightarrow> nat \<Rightarrow> nat result" where
  "langchain_dimension embed_query n = (if n \<noteq> 0 then Inr n else bind_res (embed_query ''foo'') (\<lambda>v. Inr (length v)))"

text \<open>
  Audio: the mean over the channels, resampled; the last token vector is taken. A file has a channel, and all of a file are
  equally long.
\<close>

definition load_audio :: "(string \<Rightarrow> (vec list \<times> int) result) \<Rightarrow> (int \<Rightarrow> int \<Rightarrow> vec \<Rightarrow> vec) \<Rightarrow> string \<Rightarrow> int \<Rightarrow> vec result" where
  "load_audio load resample audio_path target_sr =
     bind_res (load audio_path) (\<lambda>(waveform, sample_rate).
       Inr (resample sample_rate target_sr
         (map (\<lambda>j. sum_list (map (\<lambda>c. c ! j) waveform) / of_nat (length waveform)) [0..<length (hd waveform)])))"

definition data2vec_embed ::
  "(real \<Rightarrow> real) \<Rightarrow> (string \<Rightarrow> (vec list \<times> int) result) \<Rightarrow> (int \<Rightarrow> int \<Rightarrow> vec \<Rightarrow> vec) \<Rightarrow> (vec \<Rightarrow> int \<Rightarrow> vec list result) \<Rightarrow> int
   \<Rightarrow> string \<Rightarrow> vec result" where
  "data2vec_embed f32 load resample model sr data =
     bind_res (load_audio load resample data sr) (\<lambda>audio.
     bind_res (model audio sr) (\<lambda>last_hidden_states. bind_res (py_last last_hidden_states) (\<lambda>v. Inr (map f32 v))))"

text \<open>One image gives one row of token vectors; the hidden size is at least 2, so that \<open>squeeze\<close> leaves a vector.\<close>

definition vit_embed :: "('i \<Rightarrow> vec list list result) \<Rightarrow> 'i \<Rightarrow> arr result" where
  "vit_embed model data =
     bind_res (model data) (\<lambda>last_hidden_states.
     bind_res (map_res (\<lambda>tokens. py_nth tokens 0) last_hidden_states) (\<lambda>features. Inr (torch_squeeze0 features)))"

text \<open>\<open>UForm\<close>: the dimensions of the two encoders, and the two ways of embedding.\<close>

record uform =
  uf_type :: string
  uf_dimension :: nat

definition uform_init :: "nat \<Rightarrow> nat \<Rightarrow> string \<Rightarrow> uform result" where
  "uform_init text_features img_features embedding_type =
     (if embedding_type = ''text'' then Inr \<lparr>uf_type = embedding_type, uf_dimension = text_features\<rparr>
      else if embedding_type = ''image'' then Inr \<lparr>uf_type = embedding_type, uf_dimension = img_features\<rparr>
      else Inl ParamError)"

definition uform_embed :: "(pyobj \<Rightarrow> vec result) \<Rightarrow> (pyobj \<Rightarrow> vec result) \<Rightarrow> uform \<Rightarrow> pyobj \<Rightarrow> vec result" where
  "uform_embed open_and_encode_image encode_text s data =
     (if uf_type s = ''image'' then open_and_encode_image data else encode_text data)"

section \<open>Embeddings that find out their dimension\<close>

text \<open>
  \<open>if not self.__dimension: self.__dimension = len(self.to_embeddings("foo"))\<close>, for a state that is the dimension kept:
  \<open>None\<close> or 0 asks the model, with the number of elements of what it gives.
\<close>

definition lazy_dimension :: "(string \<Rightarrow> nat option \<Rightarrow> (nat, nat option) outcome) \<Rightarrow> nat option \<Rightarrow> (nat, nat option) outcome" where
  "lazy_dimension embed_len s =
     (case s of
        Some (Suc n) \<Rightarrow> (Inr (Suc n), s)
      | _ \<Rightarrow> bind_out (embed_len ''foo'' s) (\<lambda>n s. (Inr n, Some n)))"

definition known_dimension :: "(string \<times> nat) list \<Rightarrow> string \<Rightarrow> nat option" where
  "known_dimension dim_dict model = map_of dim_dict model"

text \<open>
  \<open>OpenAI\<close>: the key and the base of the API come from the argument, the module or the environment; the key is set in
  the module. \<open>create\<close> is \<open>openai.Embedding.create\<close> with model, input and base.
\<close>

definition openai_dim_dict :: "(string \<times> nat) list" where
  "openai_dim_dict = [(''text-embedding-ada-002'', 1536)]"

record openai_embedding =
  oe_model :: string
  oe_api_base :: "string option"

definition or_else :: "string option \<Rightarrow> string option \<Rightarrow> string option" where
  "or_else a b = (case a of None \<Rightarrow> b | Some s \<Rightarrow> if s = [] then b else a)"

definition openai_embedding_init ::
  "string option \<Rightarrow> string option \<Rightarrow> string option \<Rightarrow> string option \<Rightarrow> string \<Rightarrow> string option \<Rightarrow> string option
   \<Rightarrow> openai_embedding \<times> nat option \<times> string option" where
  "openai_embedding_init module_key module_base env_key env_base model api_key api_base =
     (\<lparr>oe_model = model, oe_api_base = or_else api_base (or_else module_base env_base)\<rparr>,
      known_dimension openai_dim_dict model,
      or_else api_key (or_else module_key env_key))"

definition openai_embed ::
  "(real \<Rightarrow> real) \<Rightarrow> (string \<Rightarrow> string \<Rightarrow> string option \<Rightarrow> pyobj result) \<Rightarrow> openai_embedding \<Rightarrow> string \<Rightarrow> vec result" where
  "openai_embed f32 create s data =
     bind_res (create (oe_model s) data (oe_api_base s)) (\<lambda>sentence_embeddings.
     bind_res (data0 sentence_embeddings ''embedding'') (\<lambda>e. bind_res (as_vec e) (\<lambda>v. Inr (map f32 v))))"

definition openai_dimension ::
  "(real \<Rightarrow> real) \<Rightarrow> (string \<Rightarrow> string \<Rightarrow> string option \<Rightarrow> pyobj result) \<Rightarrow> openai_embedding \<Rightarrow> nat option \<Rightarrow> (nat, nat option) outcome" where
  "openai_dimension f32 create st = lazy_dimension (\<lambda>x s. (map_sum id length (openai_embed f32 create st x), s))"

text \<open>\<open>Cohere\<close>: the response has one vector for each text.\<close>

definition cohere_dim_dict :: "(string \<times> nat) list" where
  "cohere_dim_dict = [(''large'', 4096), (''small'', 1024)]"

definition cohere_embed ::
  "(real \<Rightarrow> real) \<Rightarrow> (string \<Rightarrow> string list \<Rightarrow> vec list result) \<Rightarrow> string \<Rightarrow> embed_data \<Rightarrow> vec result" where
  "cohere_embed f32 embed_texts model data =
     bind_res (embed_texts model (as_list data)) (\<lambda>embeddings. np_squeeze0 (map (map f32) embeddings))"

definition cohere_dimension ::
  "(real \<Rightarrow> real) \<Rightarrow> (string \<Rightarrow> string list \<Rightarrow> vec list result) \<Rightarrow> string \<Rightarrow> nat option \<Rightarrow> (nat, nat option) outcome" where
  "cohere_dimension f32 embed_texts model =
     lazy_dimension (\<lambda>x s. (map_sum id length (cohere_embed f32 embed_texts model (One x)), s))"

text \<open>\<open>SBERT\<close> keeps the dimension with the first embedding.\<close>

definition sbert_embed ::
  "(real \<Rightarrow> real) \<Rightarrow> (string list \<Rightarrow> vec list result) \<Rightarrow> embed_data \<Rightarrow> nat option \<Rightarrow> (vec, nat option) outcome" where
  "sbert_embed f32 encode data s =
     (case bind_res (encode (as_list data)) np_squeeze0 of
        Inl e \<Rightarrow> (Inl e, s)
      | Inr emb \<Rightarrow> (Inr (map f32 emb), if s = None \<or> s = Some 0 then Some (length emb) else s))"

definition sbert_dimension :: "(real \<Rightarrow> real) \<Rightarrow> (string list \<Rightarrow> vec list result) \<Rightarrow> nat option \<Rightarrow> (nat, nat option) outcome" where
  "sbert_dimension f32 encode =
     lazy_dimension (\<lambda>x s. bind_out (sbert_embed f32 encode (One x) s) (\<lambda>v s. (Inr (length v), s)))"

text \<open>\<open>model pad texts\<close>: the token vectors of each text, padded to the same length; \<open>d\<close> is the size of a token vector.\<close>

definition paddle_embed ::
  "(real \<Rightarrow> real) \<Rightarrow> (string \<Rightarrow> string list \<Rightarrow> vec list list result) \<Rightarrow> nat \<Rightarrow> string option \<Rightarrow> embed_data \<Rightarrow> arr result" where
  "paddle_embed f32 model d tok data =
     bind_res (model (pad_token ''<pad>'' tok) (as_list data)) (\<lambda>outs. Inr (arr_round f32 (torch_squeeze0 (paddle_post_proc d outs))))"

definition paddle_dimension ::
  "(real \<Rightarrow> real) \<Rightarrow> (string \<Rightarrow> string list \<Rightarrow> vec list list result) \<Rightarrow> nat \<Rightarrow> string option \<Rightarrow> nat option \<Rightarrow> (nat, nat option) outcome" where
  "paddle_dimension f32 model d tok =
     lazy_dimension (\<lambda>x s. (map_sum id arr_len (paddle_embed f32 model d tok (One x)), s))"

text \<open>
  \<open>Timm\<close>: the features of a batch have 2 dimensions, 3 (token vectors, of which the first is taken) or 4 (channels with height
  and width, of which the mean is taken); others fail the assertion.
\<close>

datatype features = Features2 "vec list" | Features3 "vec list list" | Features4 "real list list list list" | FeaturesOther nat

definition mean_of :: "real list \<Rightarrow> real" where
  "mean_of xs = sum_list xs / of_nat (length xs)"

fun timm_post_proc :: "features \<Rightarrow> vec list result" where
  "timm_post_proc (Features2 fs) = Inr fs"
| "timm_post_proc (Features3 fs) = map_res (\<lambda>tokens. py_nth tokens 0) fs"
| "timm_post_proc (Features4 fs) = Inr (map (map (\<lambda>channel. mean_of (concat channel))) fs)"
| "timm_post_proc (FeaturesOther n) = Inl AssertionError"

text \<open>An image or a prepared tensor, which gets a batch dimension if it has none.\<close>

datatype 'i tensor = Tensor3 'i | Tensor4 "'i list"

fun unsqueeze :: "'i tensor \<Rightarrow> 'i list" where
  "unsqueeze (Tensor3 x) = [x]"
| "unsqueeze (Tensor4 xs) = xs"

definition timm_embed ::
  "(real \<Rightarrow> real) \<Rightarrow> ('p \<Rightarrow> 'i tensor result) \<Rightarrow> ('i list \<Rightarrow> features result) \<Rightarrow> 'p + 'i tensor \<Rightarrow> arr result" where
  "timm_embed f32 preprocess forward_features data =
     bind_res (case data of Inl path \<Rightarrow> preprocess path | Inr t \<Rightarrow> Inr t) (\<lambda>t.
     bind_res (forward_features (unsqueeze t)) (\<lambda>feats.
     bind_res (timm_post_proc feats) (\<lambda>rows. Inr (arr_round f32 (torch_squeeze0 rows)))))"

text \<open>\<open>dummy\<close> is the random image of the input size, of which the dimension is taken.\<close>

definition timm_dimension ::
  "(real \<Rightarrow> real) \<Rightarrow> ('p \<Rightarrow> 'i tensor result) \<Rightarrow> ('i list \<Rightarrow> features result) \<Rightarrow> 'i tensor \<Rightarrow> nat option \<Rightarrow> (nat, nat option) outcome" where
  "timm_dimension f32 preprocess forward_features dummy =
     lazy_dimension (\<lambda>x s. (map_sum id arr_len (timm_embed f32 preprocess forward_features (Inr dummy)), s))"

section \<open>The functions of embedding/\_\_init\_\_.py\<close>

text \<open>Their parameters with the defaults; each calls the class with its arguments in order.\<close>

definition embedding_params :: "(string \<times> (string \<times> pyobj option) list) list" where
  "embedding_params =
     [(''Cohere'', [(''model'', Some (PStr ''large'')), (''api_key'', Some PNone)]),
      (''OpenAI'', [(''model'', Some (PStr ''text-embedding-ada-002'')), (''api_key'', Some PNone)]),
      (''Huggingface'', [(''model'', Some (PStr ''distilbert-base-uncased''))]),
      (''SBERT'', [(''model'', Some (PStr ''all-MiniLM-L6-v2''))]),
      (''Onnx'', [(''model'', Some (PStr ''GPTCache/paraphrase-albert-onnx''))]),
      (''FastText'', [(''model'', Some (PStr ''en'')), (''dim'', Some PNone)]),
      (''Data2VecAudio'', [(''model'', Some (PStr ''facebook/data2vec-audio-base-960h''))]),
      (''Timm'', [(''model'', Some (PStr ''resnet50'')), (''device'', Some (PStr ''default''))]),
      (''ViT'', [(''model'', Some (PStr ''google/vit-base-patch16-384''))]),
      (''LangChain'', [(''embeddings'', None), (''dimension'', Some (PInt 0))]),
      (''Rwkv'', [(''model'', Some (PStr ''sgugger/rwkv-430M-pile''))]),
      (''PaddleNLP'', [(''model'', Some (PStr ''ernie-3.0-medium-zh''))]),
      (''UForm'', [(''model'', Some (PStr ''unum-cloud/uform-vl-multilingual'')), (''embedding_type'', Some (PStr ''text''))])]"

text \<open>A call with keyword arguments: the positional arguments of the class, in order.\<close>

definition bind_param :: "pyargs \<Rightarrow> string \<times> pyobj option \<Rightarrow> pyobj result" where
  "bind_param kwargs = (\<lambda>(p, d). case map_of kwargs p of
     Some v \<Rightarrow> Inr v
   | None \<Rightarrow> (case d of Some v \<Rightarrow> Inr v | None \<Rightarrow> Inl TypeError))"

definition embedding_call :: "string \<Rightarrow> pyargs \<Rightarrow> (string \<times> pyobj list) result" where
  "embedding_call name kwargs =
     (case map_of embedding_params name of
        None \<Rightarrow> Inl NameError
      | Some params \<Rightarrow>
          if \<not> set (map fst kwargs) \<subseteq> set (map fst params) then Inl TypeError
          else bind_res (map_res (bind_param kwargs) params) (\<lambda>args. Inr (name, args)))"

section \<open>Properties\<close>

text \<open>The mean of vectors, in \<open>d\<close> dimensions.\<close>

definition mean_vector :: "nat \<Rightarrow> vec list \<Rightarrow> vec" where
  "mean_vector d vs = map (\<lambda>j. mean_of (map (\<lambda>v. v ! j) vs)) [0..<d]"

lemma masked_sum:
  "sum_list (map2 (\<lambda>v m. v ! j * m) (vs @ pads) (replicate (length vs) 1 @ replicate (length pads) 0)) = sum_list (map (\<lambda>v. (v ! j :: real)) vs)"
proof -
  have "sum_list (map2 (\<lambda>v m. v ! j * m) us (replicate (length us) 1)) = sum_list (map (\<lambda>v. (v ! j :: real)) us)" for us :: "vec list"
    by (induction us) simp_all
  moreover have "sum_list (map2 (\<lambda>v m. v ! j * m) us (replicate (length us) 0)) = (0 :: real)" for us :: "vec list"
    by (induction us) simp_all
  ultimately show ?thesis by simp
qed

lemma masked_mean_padded:
  assumes "vs \<noteq> []"
  shows "masked_mean d (vs @ pads) (replicate (length vs) 1 @ replicate (length pads) 0) = mean_vector d vs"
proof -
  have "1 \<le> (of_nat (length vs) :: real)" using assms by (cases vs) auto
  then have "max (of_nat (length vs)) (1 / 10 ^ 9) = (of_nat (length vs) :: real)" by (intro max_absorb1) (simp add: order_trans[of _ 1])
  then show ?thesis using masked_sum[of _ vs pads]
    by (simp add: masked_mean_def mean_vector_def mean_of_def sum_list_replicate)
qed

lemma masked_mean_own:
  assumes "vs \<noteq> []"
  shows "masked_mean d vs (replicate (length vs) 1) = mean_vector d vs"
  using masked_mean_padded[OF assms, of d "[]"] by simp

text \<open>The tokens of a text in a batch: its own vectors, then padding, told apart by the attention mask.\<close>

definition padded_out :: "vec list \<times> vec list \<Rightarrow> vec list \<times> real list" where
  "padded_out = (\<lambda>(vs, pads). (vs @ pads, replicate (length vs) 1 @ replicate (length pads) 0))"

lemma squeeze_batch: "2 \<le> length M \<Longrightarrow> torch_squeeze0 M = Mat M"
  by (cases M rule: torch_squeeze0.cases) auto

lemma hf_pool_padded:
  assumes "\<forall>(vs, pads) \<in> set rows. vs \<noteq> []"
  shows "hf_post_proc d (map padded_out rows) = map (\<lambda>(vs, pads). mean_vector d vs) rows"
  using assms by (induction rows) (auto simp: hf_post_proc_def padded_out_def masked_mean_padded)

lemma paddle_pool_padded:
  assumes "\<forall>(vs, pads) \<in> set rows. vs \<noteq> []"
  shows "paddle_post_proc d (map (\<lambda>(vs, pads). vs @ pads) rows) = map (\<lambda>(vs, pads). mean_vector d (vs @ pads)) rows"
proof -
  have "masked_mean d (vs @ pads) (replicate (length vs + length pads) 1) = mean_vector d (vs @ pads)" if "vs \<noteq> []" for vs pads
    using masked_mean_own[of "vs @ pads" d] that by simp
  with assms show ?thesis by (induction rows) (auto simp: paddle_post_proc_def)
qed

text \<open>
  C38. Padding and embeddings. A list of texts of different lengths is padded to one length. When the model gives a text the same
  own token vectors in the list as alone, and the attention mask marks what follows them as padding, Huggingface
  gives each text of the list the mean of its own vectors, which is the embedding it has alone. Onnx, which pads every
  text, gives the mean of the own vectors too. PaddleNLP takes ones for the mask: in a list its mean runs over the padding.
\<close>

theorem padding_does_not_matter:
  assumes own: "\<forall>(vs, pads) \<in> set rows. vs \<noteq> []" and size: "length rows = length texts" "2 \<le> length texts"
    and batch: "model (hu_pad_token s) texts = Inr (map padded_out rows)"
    and alone: "\<forall>i < length texts. model (hu_pad_token s) [texts ! i] = Inr [padded_out (fst (rows ! i), [])]"
    and onnx: "ws \<noteq> []" "encode x = Inr (ids, replicate (length ws) 1 @ replicate (length fill) 0, types)"
      "run (ids, replicate (length ws) 1 @ replicate (length fill) 0, types) = Inr (ws @ fill)"
    and paddle: "\<forall>(vs, pads) \<in> set prows. vs \<noteq> []" "length prows = length texts"
      "pmodel (pad_token ''<pad>'' tok) texts = Inr (map (\<lambda>(vs, pads). vs @ pads) prows)"
  shows "(\<exists>M. huggingface_embed f32 model s (Many texts) = Inr (Mat M) \<and> length M = length texts \<and>
      (\<forall>i < length texts. M ! i = map f32 (mean_vector (hu_dimension s) (fst (rows ! i))) \<and>
         huggingface_embed f32 model s (One (texts ! i)) = Inr (Vec (M ! i)))) \<and>
    onnx_embed encode run d x = Inr (mean_vector d ws) \<and>
    paddle_embed f32 pmodel d tok (Many texts) =
      Inr (Mat (map (\<lambda>(vs, pads). map f32 (mean_vector d (vs @ pads))) prows))"
proof (intro conjI)
  let ?means = "map (\<lambda>(vs, pads). mean_vector (hu_dimension s) vs) rows"
  have "huggingface_embed f32 model s (Many texts) = Inr (Mat (map (map f32) ?means))"
    using size by (simp add: huggingface_embed_def batch hf_pool_padded[OF own] squeeze_batch)
  moreover have "huggingface_embed f32 model s (One (texts ! i)) = Inr (Vec (map (map f32) ?means ! i))"
    "map (map f32) ?means ! i = map f32 (mean_vector (hu_dimension s) (fst (rows ! i)))" if i: "i < length texts" for i
  proof -
    obtain vs pads where r: "rows ! i = (vs, pads)" by (cases "rows ! i")
    then have "vs \<noteq> []" using own i size(1) by (metis (mono_tags, lifting) case_prodD nth_mem)
    then show "huggingface_embed f32 model s (One (texts ! i)) = Inr (Vec (map (map f32) ?means ! i))"
      using alone i size(1) hf_pool_padded[of "[(vs, [])]" "hu_dimension s"]
      by (simp add: huggingface_embed_def r)
    show "map (map f32) ?means ! i = map f32 (mean_vector (hu_dimension s) (fst (rows ! i)))"
      using i size(1) by (simp add: r)
  qed
  ultimately show "\<exists>M. huggingface_embed f32 model s (Many texts) = Inr (Mat M) \<and> length M = length texts \<and>
      (\<forall>i < length texts. M ! i = map f32 (mean_vector (hu_dimension s) (fst (rows ! i))) \<and>
         huggingface_embed f32 model s (One (texts ! i)) = Inr (Vec (M ! i)))"
    using size(1) by (intro exI[of _ "map (map f32) ?means"]) simp
  show "onnx_embed encode run d x = Inr (mean_vector d ws)"
    using onnx masked_mean_padded[OF onnx(1)] by (simp add: onnx_embed_def)
  show "paddle_embed f32 pmodel d tok (Many texts) = Inr (Mat (map (\<lambda>(vs, pads). map f32 (mean_vector d (vs @ pads))) prows))"
    using size(2) paddle(2)
    by (simp add: paddle_embed_def paddle(3) paddle_pool_padded[OF paddle(1)] squeeze_batch) (simp add: comp_def split_def)
qed

text \<open>A model of two texts, of two tokens and of one, whose padding vectors are large.\<close>

definition two_rows :: "(vec list \<times> vec list) list" where
  "two_rows = [([[1, 4], [3, 8]], []), ([[2, 2]], [[90, 90]])]"

definition two_model :: "string \<Rightarrow> string list \<Rightarrow> (vec list \<times> real list) list result" where
  "two_model p xs = Inr (if xs = [''hi there'', ''hi''] then map padded_out two_rows
     else if xs = [''hi''] then [padded_out ([[2, 2]], [])] else [padded_out ([[1, 4], [3, 8]], [])])"

theorem padding_does_not_matter_witness:
  "\<exists>M. huggingface_embed (\<lambda>r. r) two_model \<lparr>hu_dimension = 2, hu_pad_token = ''[PAD]''\<rparr> (Many [''hi there'', ''hi'']) = Inr (Mat M) \<and>
     M ! 1 = [2, 2] \<and> paddle_embed (\<lambda>r. r) (\<lambda>p xs. Inr [[[1, 4], [3, 8]], [[2, 2], [90, 90]]]) 2 None (Many [''hi there'', ''hi'']) =
       Inr (Mat [[2, 6], [46, 46]])"
proof -
  have upt: "[0..<2] = [0, 1 :: nat]" by (simp add: upt_rec)
  have means: "mean_vector 2 [[1, 4], [3, 8]] = [2, 6]" "mean_vector 2 [[2, 2]] = [2, 2]" "mean_vector 2 [[2, 2], [90, 90]] = [46, 46]"
    by (simp_all add: mean_vector_def mean_of_def upt)
  have alone: "\<forall>i < length [''hi there'', ''hi'']. two_model (hu_pad_token \<lparr>hu_dimension = 2, hu_pad_token = ''[PAD]''\<rparr>)
      [[''hi there'', ''hi''] ! i] = Inr [padded_out (fst (two_rows ! i), [])]"
    by (auto simp: two_model_def two_rows_def less_Suc_eq)
  have batch: "two_model (hu_pad_token \<lparr>hu_dimension = 2, hu_pad_token = ''[PAD]''\<rparr>) [''hi there'', ''hi''] = Inr (map padded_out two_rows)"
    by (simp add: two_model_def)
  have "length two_rows = length [''hi there'', ''hi'']" "2 \<le> length [''hi there'', ''hi'']" "\<forall>(vs, pads) \<in> set two_rows. vs \<noteq> []"
    by (simp_all add: two_rows_def)
  note two = padding_does_not_matter[where rows = two_rows and texts = "[''hi there'', ''hi'']" and model = two_model
      and s = "\<lparr>hu_dimension = 2, hu_pad_token = ''[PAD]''\<rparr>" and ws = "[[1]]" and fill = "[]" and x = "''hi''" and ids = "[]"
      and types = "[]" and encode = "\<lambda>x. Inr ([], [1], [])" and run = "\<lambda>i. Inr [[1]]" and prows = two_rows and tok = None
      and pmodel = "\<lambda>p xs. Inr [[[1, 4], [3, 8]], [[2, 2], [90, 90]]]" and d = 2,
      OF this(3,1,2) batch alone _ _ _ this(3,1)]
  from two[of "\<lambda>r. r"]
  show ?thesis by (auto simp: two_rows_def means)
qed

text \<open>
  What is asked for the dimension keeps it: of embeddings that all have \<open>n\<close> elements, the dimension is \<open>n\<close>, also when it is
  known before or asked for again.
\<close>

lemma lazy_dimension_is:
  assumes "\<And>x s m s'. embed_len x s = (Inr m, s') \<Longrightarrow> m = n" "s \<in> {None, Some 0, Some n}"
    and "lazy_dimension embed_len s = (Inr m, s')"
  shows "m = n \<and> s' = Some n"
  using assms(2,3) assms(1)[of "''foo''"]
  by (auto simp: lazy_dimension_def outcome_simps split: option.splits nat.splits)

lemma sbert_dimension_is:
  assumes "\<And>v. bind_res (encode (as_list data)) np_squeeze0 = Inr v \<Longrightarrow> length v = n" "\<And>v. bind_res (encode [''foo'']) np_squeeze0 = Inr v \<Longrightarrow> length v = n"
    and "sbert_embed f32 encode data None = (Inr v, s)" "sbert_dimension f32 encode s = (Inr m, s')"
  shows "length v = m \<and> m = n"
proof -
  from assms(3) have v: "length v = n" "s = Some n"
    using assms(1) by (auto simp: sbert_embed_def split: sum.splits)
  have "k = n" if "bind_out (sbert_embed f32 encode (One ''foo'') s) (\<lambda>v s. (Inr (length v), s)) = (Inr k, s'')" for s k s''
    using that assms(2) by (auto simp: sbert_embed_def outcome_simps split: sum.splits if_splits)
  with assms(4) v show ?thesis
    by (auto simp: sbert_dimension_def lazy_dimension_def outcome_simps split: option.splits nat.splits)
qed

text \<open>The function \<open>OpenAI\<close> does not take the base of the API that the class takes.\<close>

lemma openai_base_rejected:
  assumes "map_of kws ''api_base'' = Some b"
  shows "get_model ''openai'' (PDict kws) = Inr (Some (Ctor ''OpenAI'' kws)) \<and> embedding_call ''OpenAI'' kws = Inl TypeError"
proof -
  from assms have "''api_base'' \<in> set (map fst kws)" by (metis image_eqI list.set_map map_of_SomeD fst_conv)
  then show ?thesis using assms
    by (auto simp: embedding_call_def embedding_params_def get_model_def model_names_def py_lower_def char_lower_def Let_def kwargs_of_def)
qed

text \<open>
  C39. The embedding of Rwkv depends on the first token only. A model that reads from left to right gives the same token vectors
  for the beginning of a text whatever follows, and the vector taken is the first: all texts with the same first token have one embedding,
  so that a cache over it finds any of them for any other.
\<close>

theorem rwkv_reads_first_token:
  assumes "\<And>ids m. model (take m ids) = bind_res (model ids) (\<lambda>hs. Inr (take m hs))"
    and "tokenizer x = Inr (t # xs)" "tokenizer y = Inr (t # ys)"
  shows "rwkv_embed f32 tokenizer model x = rwkv_embed f32 tokenizer model y"
proof -
  have first: "bind_res (model (t # zs)) (\<lambda>hs. py_nth hs 0) = bind_res (model [t]) (\<lambda>hs. py_nth hs 0)" for zs
    using assms(1)[of 1 "t # zs"] by (cases "model (t # zs)") (auto simp: py_nth_def)
  have "rwkv_embed f32 tokenizer model z = bind_res (bind_res (model (t # zs)) (\<lambda>hs. py_nth hs 0)) (\<lambda>v. Inr (map f32 v))"
    if "tokenizer z = Inr (t # zs)" for z zs
    using that by (cases "model (t # zs)") (simp_all add: rwkv_embed_def)
  with assms(2,3) first show ?thesis by metis
qed

theorem rwkv_reads_first_token_witness:
  "rwkv_embed (\<lambda>r. r) (\<lambda>s. Inr (map of_char s)) (\<lambda>ids. Inr (map (\<lambda>t. [real t]) ids)) ''where is it'' =
   rwkv_embed (\<lambda>r. r) (\<lambda>s. Inr (map of_char s)) (\<lambda>ids. Inr (map (\<lambda>t. [real t]) ids)) ''who was that''"
  by (rule rwkv_reads_first_token[where t = "of_char CHR ''w''"]) (simp_all add: take_map)

end
