(* ===== verification/Experiments.thy ===== *)
theory Experiments
  imports Ablation Py_Object
begin

text \<open>
  The experiment suite \<open>benchmarks/run_experiments.py\<close>: which runs it makes, how it groups and summarises their rows, and how it
  compares GDSF with the baselines, pair by pair. \<open>ABLATION_POLICIES\<close> of \<open>benchmarks/ablation.py\<close> is here too. Means,
  deviations, percentiles and random samples of numpy are parameters; a division by a mean of 0, which numpy warns of, gives 0 here.
\<close>

section \<open>The runs\<close>

datatype wl_spec = ZipfSpec real bool | OasstSpec real | NovelSpec | RepetitiveSpec

record planned =
  pl_experiment :: string
  pl_seed :: nat
  pl_spec :: wl_spec
  pl_maxsize :: int
  pl_policy :: string
  pl_ablation :: bool

record 'c exp_env =
  ee_rnd :: "real \<Rightarrow> real"
  ee_pow :: "real \<Rightarrow> real \<Rightarrow> real"
  ee_str :: "real \<Rightarrow> string"
  ee_rng :: "nat \<Rightarrow> rng"
  ee_rng2 :: "nat \<Rightarrow> rng"
  ee_file_costs :: "real list"
  ee_mean :: "real list \<Rightarrow> real"
  ee_std :: "real list \<Rightarrow> real"
  ee_percentile :: "real list \<Rightarrow> real \<Rightarrow> real"
  ee_wall :: "planned \<Rightarrow> real"
  ee_new_cache :: "policy_kind \<Rightarrow> int \<Rightarrow> 'c \<times> (nat, 'c, nat set) cache_methods"
  ee_cost_only :: "int \<Rightarrow> int \<Rightarrow> (nat, nat set) on_evict \<Rightarrow> (nat, 'c, nat set) mem_eviction"
  ee_no_age :: "int \<Rightarrow> int \<Rightarrow> (nat, nat set) on_evict \<Rightarrow> (nat, 'c, nat set) mem_eviction"
  ee_choice :: "nat \<Rightarrow> real list \<Rightarrow> real list list"

definition LATENCY :: latency_model where
  "LATENCY = \<lparr>lm_base_ms = 300, lm_ms_per_token = 20, lm_hit_ms = 5\<rparr>"

definition ABLATION_POLICIES ::
  "'c exp_env \<Rightarrow> (string \<times> (int \<Rightarrow> int \<Rightarrow> (nat, nat set) on_evict \<Rightarrow> (nat, 'c, nat set) mem_eviction) option) list" where
  "ABLATION_POLICIES env =
     [(''LRU'', None), (''LFU'', None), (''COST_ONLY'', Some (ee_cost_only env)), (''GDSF_NO_AGE'', Some (ee_no_age env)), (''GDSF'', None)]"

definition run_config where
  "run_config env wall policy maxsize workload factory =
     run_one (ee_rnd env) (ee_mean env) (ee_percentile env) wall (ee_new_cache env) policy maxsize workload (ee_rnd env (2 / 10)) LATENCY factory"

definition build_workload :: "'c exp_env \<Rightarrow> nat \<Rightarrow> nat \<Rightarrow> wl_spec \<Rightarrow> workload result" where
  "build_workload env requests seed spec =
     (case spec of
        ZipfSpec s drift \<Rightarrow> zipf_workload (ee_rnd env) (ee_pow env) (ee_str env) (ee_rng env seed) requests 5000 s ''lognormal'' drift
      | OasstSpec s \<Rightarrow> Inr (oasst_workload (ee_rnd env) (ee_pow env) (ee_str env) (ee_rng env seed) (ee_rng2 env seed) (ee_file_costs env) requests s False)
      | NovelSpec \<Rightarrow> novel_long_workload (ee_rng env seed) 20000
      | RepetitiveSpec \<Rightarrow> repetitive_short_workload (ee_rng env seed) requests 50)"

text \<open>The nested loops over seeds, workloads, sizes and policies.\<close>

definition loops :: "string \<Rightarrow> bool \<Rightarrow> nat list \<Rightarrow> wl_spec list \<Rightarrow> int list \<Rightarrow> string list \<Rightarrow> planned list" where
  "loops name ablation seeds specs sizes policies =
     map (\<lambda>(seed, spec, maxsize, policy). \<lparr>pl_experiment = name, pl_seed = seed, pl_spec = spec, pl_maxsize = maxsize, pl_policy = policy, pl_ablation = ablation\<rparr>)
       (List.product seeds (List.product specs (List.product sizes policies)))"

definition experiment_plan :: "(real \<Rightarrow> real) \<Rightarrow> nat \<Rightarrow> planned list" where
  "experiment_plan rnd n =
     (let seeds = [1..<n + 1]; zipf = (\<lambda>s. ZipfSpec (rnd s) False); every = [''LRU'', ''LFU'', ''FIFO'', ''RR'', ''GDSF'']
      in loops ''E1_size_sweep'' False seeds [zipf (11 / 10)] [250, 500, 1000, 2000, 4000] every
       @ loops ''E2_skew_sweep'' False seeds (map zipf [8 / 10, 1, 12 / 10, 14 / 10]) [1000] [''LRU'', ''LFU'', ''GDSF'']
       @ loops ''E3_ablation'' True seeds (map (ZipfSpec (rnd (11 / 10))) [False, True]) [500, 1000]
           [''LRU'', ''LFU'', ''COST_ONLY'', ''GDSF_NO_AGE'', ''GDSF'']
       @ loops ''E4_overhead'' False (take 5 seeds) [NovelSpec] [1000] [''LRU'', ''LFU'', ''GDSF'']
       @ loops ''E5_sanity'' False (take 3 seeds) [RepetitiveSpec] [1000] every
       @ loops ''E6_real_costs'' False seeds [OasstSpec (rnd (11 / 10))] [250, 500, 1000, 2000] every)"

record exp_row =
  er_experiment :: string
  er_seed :: nat
  er_row :: bench_row

text \<open>One run of the plan, recorded; and all of them.\<close>

definition run_planned :: "'c exp_env \<Rightarrow> nat \<Rightarrow> planned \<Rightarrow> exp_row result option" where
  "run_planned env requests pl =
     (case build_workload env requests (pl_seed pl) (pl_spec pl) of
        Inl e \<Rightarrow> Some (Inl e)
      | Inr wl \<Rightarrow>
          map_option (map_sum id (\<lambda>row. \<lparr>er_experiment = pl_experiment pl, er_seed = pl_seed pl, er_row = row\<rparr>))
            (run_config env (ee_wall env pl) (pl_policy pl) (pl_maxsize pl) wl
              (if pl_ablation pl then (case map_of (ABLATION_POLICIES env) (pl_policy pl) of None \<Rightarrow> None | Some f \<Rightarrow> f) else None)))"

fun run_all :: "'c exp_env \<Rightarrow> nat \<Rightarrow> planned list \<Rightarrow> exp_row list result option" where
  "run_all env requests [] = Some (Inr [])"
| "run_all env requests (pl # pls) =
     (case run_planned env requests pl of
        None \<Rightarrow> None
      | Some (Inl e) \<Rightarrow> Some (Inl e)
      | Some (Inr r) \<Rightarrow> map_option (map_sum id (\<lambda>rs. r # rs)) (run_all env requests pls))"

section \<open>The summary\<close>

text \<open>\<open>out.setdefault(key, []).append(row)\<close>.\<close>

fun add_group :: "'k \<Rightarrow> 'v \<Rightarrow> ('k \<times> 'v list) list \<Rightarrow> ('k \<times> 'v list) list" where
  "add_group k v [] = [(k, [v])]"
| "add_group k v ((k', vs) # g) = (if k' = k then (k, vs @ [v]) # g else (k', vs) # add_group k v g)"

definition row_key :: "exp_row \<Rightarrow> string \<times> int \<times> string" where
  "row_key r = (br_workload (er_row r), br_maxsize (er_row r), br_policy (er_row r))"

definition group_rows :: "exp_row list \<Rightarrow> string \<Rightarrow> ((string \<times> int \<times> string) \<times> exp_row list) list" where
  "group_rows rows experiment =
     fold (\<lambda>r out. if er_experiment r \<noteq> experiment then out else add_group (row_key r) r out) rows []"

definition metrics :: "(string \<times> (bench_row \<Rightarrow> real)) list" where
  "metrics =
     [(''hit_rate'', br_hit_rate), (''cost_weighted_hit_rate'', br_cost_weighted_hit_rate), (''latency_mean_ms'', br_latency_mean_ms),
      (''latency_p95_ms'', br_latency_p95_ms), (''latency_p99_ms'', br_latency_p99_ms), (''harness_ops_per_s'', br_harness_ops_per_s)]"

record metric_stats =
  st_mean :: real
  st_std :: real
  st_n :: nat

definition stats_of :: "'c exp_env \<Rightarrow> (bench_row \<Rightarrow> real) \<Rightarrow> exp_row list \<Rightarrow> metric_stats" where
  "stats_of env m rs =
     (let vals = map (\<lambda>r. m (er_row r)) rs
      in \<lparr>st_mean = ee_mean env vals, st_std = (if length vals > 1 then ee_std env vals else 0), st_n = length vals\<rparr>)"

definition agg_key :: "string \<times> int \<times> string \<Rightarrow> string" where
  "agg_key = (\<lambda>(wl_name, maxsize, policy). wl_name @ ''|'' @ py_str_int maxsize @ ''|'' @ policy)"

definition aggregate :: "'c exp_env \<Rightarrow> exp_row list \<Rightarrow> string \<Rightarrow> (string \<times> (string \<times> metric_stats) list) list" where
  "aggregate env rows experiment =
     fold (\<lambda>(k, rs) agg. dict_set agg (agg_key k) (map (\<lambda>(name, m). (name, stats_of env m rs)) metrics)) (group_rows rows experiment) []"

section \<open>The comparisons\<close>

text \<open>The 95\% interval of the means of 10000 samples.\<close>

definition bootstrap_ci :: "'c exp_env \<Rightarrow> real list \<Rightarrow> real \<times> real" where
  "bootstrap_ci env deltas =
     (let means = map (ee_mean env) (ee_choice env 10000 deltas)
      in (ee_percentile env means (25 / 10), ee_percentile env means (975 / 10)))"

text \<open>
  \<open>\{r["seed"]: r[metric] for r in rs\}\<close> as a map, and its keys in the order of insertion.
\<close>

definition seed_values :: "(bench_row \<Rightarrow> real) \<Rightarrow> exp_row list \<Rightarrow> nat \<Rightarrow> real option" where
  "seed_values m rs = map_of (rev (map (\<lambda>r. (er_seed r, m (er_row r))) rs))"

definition seed_keys :: "exp_row list \<Rightarrow> nat list" where
  "seed_keys rs = rev (remdups (rev (map er_seed rs)))"

definition or_zero :: "real option \<Rightarrow> real" where
  "or_zero x = (case x of None \<Rightarrow> 0 | Some v \<Rightarrow> v)"

definition group_of :: "((string \<times> int \<times> string) \<times> exp_row list) list \<Rightarrow> int \<Rightarrow> string \<Rightarrow> exp_row list option" where
  "group_of grouped maxsize policy = map_option snd (find (\<lambda>((w, m, p), rs). m = maxsize \<and> p = policy) grouped)"

definition paired_diffs :: "(real \<Rightarrow> real) \<Rightarrow> (bench_row \<Rightarrow> real) \<Rightarrow> exp_row list \<Rightarrow> exp_row list \<Rightarrow> real list" where
  "paired_diffs rnd m rs_g rs_b =
     map (\<lambda>s. rnd (or_zero (seed_values m rs_g s) - or_zero (seed_values m rs_b s)))
       (filter (\<lambda>s. seed_values m rs_b s \<noteq> None) (sort (seed_keys rs_g)))"

record sig_entry =
  sg_name :: string
  sg_mean_diff :: real
  sg_relative_change :: real
  sg_ci95 :: "real \<times> real"
  sg_better_direction :: string
  sg_significant :: bool
  sg_n_seeds :: nat

definition compare_with ::
  "'c exp_env \<Rightarrow> ((string \<times> int \<times> string) \<times> exp_row list) list \<Rightarrow> string \<Rightarrow> string \<times> (bench_row \<Rightarrow> real) \<times> string \<Rightarrow> int \<Rightarrow> sig_entry list" where
  "compare_with env grouped baseline = (\<lambda>(metric, m, better) maxsize.
     case (group_of grouped maxsize ''GDSF'', group_of grouped maxsize baseline) of
       (Some rs_g, Some rs_b) \<Rightarrow>
         let deltas = paired_diffs (ee_rnd env) m rs_g rs_b;
             (lo, hi) = bootstrap_ci env deltas;
             rel = ee_rnd env (ee_mean env deltas / ee_mean env (map (\<lambda>s. or_zero (seed_values m rs_b s)) (seed_keys rs_b)))
         in [\<lparr>sg_name = ''GDSF_vs_'' @ baseline @ ''|'' @ metric @ ''|maxsize='' @ py_str_int maxsize,
              sg_mean_diff = ee_mean env deltas, sg_relative_change = rel, sg_ci95 = (lo, hi), sg_better_direction = better,
              sg_significant = (if better = ''higher'' then lo > 0 else hi < 0), sg_n_seeds = length deltas\<rparr>]
     | _ \<Rightarrow> [])"

definition compared_metrics :: "(string \<times> (bench_row \<Rightarrow> real) \<times> string) list" where
  "compared_metrics =
     [(''cost_weighted_hit_rate'', br_cost_weighted_hit_rate, ''higher''), (''latency_mean_ms'', br_latency_mean_ms, ''lower''),
      (''latency_p95_ms'', br_latency_p95_ms, ''lower'')]"

definition significance :: "'c exp_env \<Rightarrow> exp_row list \<Rightarrow> string \<Rightarrow> sig_entry list" where
  "significance env rows experiment =
     (let grouped = group_rows rows experiment
      in concat (map (\<lambda>(baseline, metric, maxsize). compare_with env grouped baseline metric maxsize)
           (List.product [''LRU'', ''LFU''] (List.product compared_metrics [500, 1000, 2000]))))"

section \<open>Grouping\<close>

lemma add_group_lookup:
  "map_of (add_group k v g) = (map_of g)(k \<mapsto> (case map_of g k of None \<Rightarrow> [v] | Some vs \<Rightarrow> vs @ [v]))"
  by (induction k v g rule: add_group.induct) (auto simp: fun_eq_iff)

lemma add_group_keys: "set (map fst (add_group k v g)) = insert k (set (map fst g))"
  by (induction k v g rule: add_group.induct) auto

lemma add_group_distinct: "distinct (map fst g) \<Longrightarrow> distinct (map fst (add_group k v g))"
proof (induction k v g rule: add_group.induct)
  case (2 k v k' vs g)
  then show ?case using add_group_keys[of k v g] by auto
qed simp

lemma group_rows_distinct: "distinct (map fst (group_rows rows e))"
  by (induction rows rule: rev_induct) (simp_all add: group_rows_def add_group_distinct)

text \<open>A group holds exactly the rows of its key, in order.\<close>

lemma group_rows_lookup:
  "map_of (group_rows rows e) k =
     (let rs = filter (\<lambda>r. er_experiment r = e \<and> row_key r = k) rows in if rs = [] then None else Some rs)"
proof (induction rows rule: rev_induct)
  case Nil
  then show ?case by (simp add: group_rows_def)
next
  case (snoc r rows)
  have step: "group_rows (rows @ [r]) e =
      (if er_experiment r \<noteq> e then group_rows rows e else add_group (row_key r) r (group_rows rows e))"
    by (simp add: group_rows_def)
  show ?case
  proof (cases "er_experiment r = e")
    case True
    then show ?thesis using snoc by (auto simp: step add_group_lookup Let_def)
  next
    case False
    then show ?thesis using snoc by (simp add: step)
  qed
qed

lemma group_rows_entry:
  assumes "(k, rs) \<in> set (group_rows rows e)"
  shows "rs = filter (\<lambda>r. er_experiment r = e \<and> row_key r = k) rows \<and> rs \<noteq> []"
proof -
  from assms have "map_of (group_rows rows e) k = Some rs" using group_rows_distinct by (simp add: map_of_is_SomeI)
  then show ?thesis by (simp add: group_rows_lookup Let_def split: if_splits)
qed

lemma found_is: "find P xs = Some x \<Longrightarrow> P x \<and> x \<in> set xs"
  by (induction xs) (auto split: if_splits)

text \<open>When all rows of an experiment have one workload, a group is found by size and policy.\<close>

lemma group_of_single:
  assumes one: "\<And>r. r \<in> set rows \<Longrightarrow> er_experiment r = e \<Longrightarrow> br_workload (er_row r) = w"
    and some: "filter (\<lambda>r. er_experiment r = e \<and> br_maxsize (er_row r) = m \<and> br_policy (er_row r) = p) rows \<noteq> []"
  shows "group_of (group_rows rows e) m p =
     Some (filter (\<lambda>r. er_experiment r = e \<and> br_maxsize (er_row r) = m \<and> br_policy (er_row r) = p) rows)"
proof -
  let ?P = "\<lambda>((w :: string, m', p'), rs :: exp_row list). m' = m \<and> p' = p"
  have eq: "filter (\<lambda>r. er_experiment r = e \<and> row_key r = (w, m, p)) rows =
      filter (\<lambda>r. er_experiment r = e \<and> br_maxsize (er_row r) = m \<and> br_policy (er_row r) = p) rows"
    by (rule filter_cong[OF refl]) (auto simp: row_key_def one)
  then have "map_of (group_rows rows e) (w, m, p) =
      Some (filter (\<lambda>r. er_experiment r = e \<and> br_maxsize (er_row r) = m \<and> br_policy (er_row r) = p) rows)"
    using some by (simp add: group_rows_lookup)
  from map_of_SomeD[OF this] have "\<not> (\<nexists>x. x \<in> set (group_rows rows e) \<and> ?P x)" by blast
  then obtain x where x: "find ?P (group_rows rows e) = Some x" by (cases "find ?P (group_rows rows e)") (simp_all add: find_None_iff)
  from found_is[OF x] have px: "?P x" "x \<in> set (group_rows rows e)" by blast+
  then obtain w' rs where x': "x = ((w', m, p), rs)" by (cases x) auto
  from group_rows_entry[of "(w', m, p)" rs rows e] px(2) x'
  have rs: "rs = filter (\<lambda>r. er_experiment r = e \<and> row_key r = (w', m, p)) rows" "rs \<noteq> []" by auto
  then obtain r where "r \<in> set rows" "er_experiment r = e" "row_key r = (w', m, p)" by (auto simp: filter_empty_conv)
  then have "w' = w" using one by (simp add: row_key_def)
  with x x' rs(1) eq show ?thesis by (simp add: group_of_def)
qed

section \<open>Which rows there are\<close>

lemma run_config_row:
  assumes "run_config env wall policy maxsize wl factory = Some (Inr row)"
  shows "br_policy row = policy \<and> br_maxsize row = maxsize \<and> br_workload row = wl_name wl"
  using assms
  by (auto simp: run_config_def run_one_def Let_def bench_report_def split: sum.splits option.splits if_splits)

lemma run_planned_row:
  assumes "run_planned env requests pl = Some (Inr r)"
  shows "\<exists>wl. build_workload env requests (pl_seed pl) (pl_spec pl) = Inr wl \<and>
    er_experiment r = pl_experiment pl \<and> er_seed r = pl_seed pl \<and> br_policy (er_row r) = pl_policy pl \<and>
    br_maxsize (er_row r) = pl_maxsize pl \<and> br_workload (er_row r) = wl_name wl \<and>
    (\<not> pl_ablation pl \<longrightarrow> run_config env (ee_wall env pl) (pl_policy pl) (pl_maxsize pl) wl None = Some (Inr (er_row r)))"
proof -
  obtain wl where wl: "build_workload env requests (pl_seed pl) (pl_spec pl) = Inr wl"
    using assms by (cases "build_workload env requests (pl_seed pl) (pl_spec pl)") (simp_all add: run_planned_def)
  define f where "f = (if pl_ablation pl then (case map_of (ABLATION_POLICIES env) (pl_policy pl) of None \<Rightarrow> None | Some f \<Rightarrow> f) else None)"
  from assms wl obtain row where row: "run_config env (ee_wall env pl) (pl_policy pl) (pl_maxsize pl) wl f = Some (Inr row)"
    "r = \<lparr>er_experiment = pl_experiment pl, er_seed = pl_seed pl, er_row = row\<rparr>"
    by (auto simp: run_planned_def f_def[symmetric] outcome_simps)
  with run_config_row[OF row(1)] wl show ?thesis by (auto simp: f_def)
qed

lemma run_all_rows: "run_all env requests pls = Some (Inr rows) \<Longrightarrow> list_all2 (\<lambda>pl r. run_planned env requests pl = Some (Inr r)) pls rows"
proof (induction pls arbitrary: rows)
  case (Cons pl pls)
  then show ?case by (auto simp: outcome_simps split: option.splits sum.splits)
qed simp

lemma list_all2_filter:
  "list_all2 R xs ys \<Longrightarrow> (\<And>x y. R x y \<Longrightarrow> P x = Q y) \<Longrightarrow> list_all2 R (filter P xs) (filter Q ys)"
  by (induction rule: list_all2_induct) auto

text \<open>The runs of one size and policy, over one workload: one for each seed.\<close>

lemma one_element: "distinct zs \<Longrightarrow> set zs = {x} \<Longrightarrow> zs = [x]"
proof (cases zs)
  case (Cons y ys)
  assume "distinct zs" "set zs = {x}"
  with Cons show ?thesis by (cases ys) auto
qed simp

lemma product_one:
  assumes "distinct xs" "distinct ys" "a \<in> set xs" "b \<in> set ys"
  shows "filter (\<lambda>(x, y). x = a \<and> y = b) (List.product xs ys) = [(a, b)]"
proof (rule one_element)
  show "distinct (filter (\<lambda>(x, y). x = a \<and> y = b) (List.product xs ys))" using assms by (simp add: distinct_product)
  show "set (filter (\<lambda>(x, y). x = a \<and> y = b) (List.product xs ys)) = {(a, b)}" using assms by auto
qed

lemma loops_one:
  assumes "distinct sizes" "distinct policies" "m \<in> set sizes" "p \<in> set policies"
  shows "filter (\<lambda>pl. pl_maxsize pl = m \<and> pl_policy pl = p) (loops name ab seeds [spec] sizes policies) =
    map (\<lambda>s. \<lparr>pl_experiment = name, pl_seed = s, pl_spec = spec, pl_maxsize = m, pl_policy = p, pl_ablation = ab\<rparr>) seeds"
proof (induction seeds)
  case Nil
  then show ?case by (simp add: loops_def)
next
  case (Cons s seeds)
  have cons: "loops name ab (s # seeds) [spec] sizes policies =
      map (\<lambda>(m, p). \<lparr>pl_experiment = name, pl_seed = s, pl_spec = spec, pl_maxsize = m, pl_policy = p, pl_ablation = ab\<rparr>)
        (List.product sizes policies) @ loops name ab seeds [spec] sizes policies"
    by (simp add: loops_def split_def comp_def)
  have "(\<lambda>pl. pl_maxsize pl = m \<and> pl_policy pl = p) \<circ>
      (\<lambda>(m, p). \<lparr>pl_experiment = name, pl_seed = s, pl_spec = spec, pl_maxsize = m, pl_policy = p, pl_ablation = ab\<rparr>) =
      (\<lambda>(x, y). x = m \<and> y = p)" by (auto simp: fun_eq_iff)
  with Cons product_one[OF assms] show ?case by (simp add: cons filter_map)
qed

lemma loops_name: "pl \<in> set (loops name ab seeds specs sizes policies) \<Longrightarrow> pl_experiment pl = name"
  by (auto simp: loops_def)

lemma loops_spec: "pl \<in> set (loops name ab seeds specs sizes policies) \<Longrightarrow> pl_spec pl \<in> set specs"
  by (auto simp: loops_def)

lemma loops_filter_other:
  "name' \<noteq> name \<Longrightarrow> filter (\<lambda>pl. pl_experiment pl = name \<and> pl_maxsize pl = m \<and> pl_policy pl = p) (loops name' ab seeds specs sizes policies) = []"
  by (auto simp: filter_empty_conv dest: loops_name)

lemma loops_filter_same:
  assumes "distinct sizes" "distinct policies" "m \<in> set sizes" "p \<in> set policies"
  shows "filter (\<lambda>pl. pl_experiment pl = name \<and> pl_maxsize pl = m \<and> pl_policy pl = p) (loops name ab seeds [spec] sizes policies) =
    map (\<lambda>s. \<lparr>pl_experiment = name, pl_seed = s, pl_spec = spec, pl_maxsize = m, pl_policy = p, pl_ablation = ab\<rparr>) seeds"
proof -
  have "filter (\<lambda>pl. pl_experiment pl = name \<and> pl_maxsize pl = m \<and> pl_policy pl = p) (loops name ab seeds [spec] sizes policies) =
      filter (\<lambda>pl. pl_maxsize pl = m \<and> pl_policy pl = p) (loops name ab seeds [spec] sizes policies)"
    by (rule filter_cong[OF refl]) (auto dest: loops_name)
  then show ?thesis using loops_one[OF assms] by simp
qed

lemma plan_e1:
  assumes "m \<in> {250, 500, 1000, 2000, 4000}" "p \<in> {''LRU'', ''LFU'', ''FIFO'', ''RR'', ''GDSF''}"
  shows "filter (\<lambda>pl. pl_experiment pl = ''E1_size_sweep'' \<and> pl_maxsize pl = m \<and> pl_policy pl = p) (experiment_plan rnd n) =
    map (\<lambda>s. \<lparr>pl_experiment = ''E1_size_sweep'', pl_seed = s, pl_spec = ZipfSpec (rnd (11 / 10)) False, pl_maxsize = m, pl_policy = p,
      pl_ablation = False\<rparr>) [1..<n + 1]"
  using assms by (simp add: experiment_plan_def Let_def loops_filter_other loops_filter_same del: upt_Suc)

lemma plan_e1_spec:
  "pl \<in> set (experiment_plan rnd n) \<Longrightarrow> pl_experiment pl = ''E1_size_sweep'' \<Longrightarrow> pl_spec pl = ZipfSpec (rnd (11 / 10)) False"
  by (auto simp: experiment_plan_def Let_def dest: loops_name loops_spec simp del: upt_Suc)

lemma zipf_name: "build_workload env requests seed (ZipfSpec s False) = Inr wl \<Longrightarrow> wl_name wl = ''zipf_s'' @ ee_str env s"
  by (auto simp: build_workload_def zipf_workload_def Let_def outcome_simps)

lemma list_all2_mem: "list_all2 R xs ys \<Longrightarrow> y \<in> set ys \<Longrightarrow> \<exists>x \<in> set xs. R x y"
  by (induction rule: list_all2_induct) auto

lemma e1_rows:
  assumes "run_all env requests (experiment_plan (ee_rnd env) n) = Some (Inr rows)"
    and "m \<in> {250, 500, 1000, 2000, 4000}" "p \<in> {''LRU'', ''LFU'', ''FIFO'', ''RR'', ''GDSF''}" "1 \<le> n"
  shows "\<exists>rs. group_of (group_rows rows ''E1_size_sweep'') m p = Some rs \<and>
    list_all2 (\<lambda>s r. run_planned env requests \<lparr>pl_experiment = ''E1_size_sweep'', pl_seed = s, pl_spec = ZipfSpec (ee_rnd env (11 / 10)) False,
      pl_maxsize = m, pl_policy = p, pl_ablation = False\<rparr> = Some (Inr r)) [1..<n + 1] rs"
proof -
  let ?R = "\<lambda>pl r. run_planned env requests pl = Some (Inr r)"
  let ?rs = "filter (\<lambda>r. er_experiment r = ''E1_size_sweep'' \<and> br_maxsize (er_row r) = m \<and> br_policy (er_row r) = p) rows"
  have all: "list_all2 ?R (experiment_plan (ee_rnd env) n) rows" by (rule run_all_rows[OF assms(1)])
  have "list_all2 ?R (filter (\<lambda>pl. pl_experiment pl = ''E1_size_sweep'' \<and> pl_maxsize pl = m \<and> pl_policy pl = p) (experiment_plan (ee_rnd env) n)) ?rs"
    by (rule list_all2_filter[OF all]) (auto dest: run_planned_row)
  then have rs: "list_all2 (\<lambda>s r. ?R \<lparr>pl_experiment = ''E1_size_sweep'', pl_seed = s, pl_spec = ZipfSpec (ee_rnd env (11 / 10)) False,
      pl_maxsize = m, pl_policy = p, pl_ablation = False\<rparr> r) [1..<n + 1] ?rs"
    by (simp add: plan_e1[OF assms(2,3)] list_all2_map1 del: upt_Suc)
  then have "length ?rs = n" by (simp add: list_all2_conv_all_nth del: upt_Suc)
  with assms(4) have "?rs \<noteq> []" by auto
  moreover have "br_workload (er_row r) = ''zipf_s'' @ ee_str env (ee_rnd env (11 / 10))"
    if r: "r \<in> set rows" "er_experiment r = ''E1_size_sweep''" for r
  proof -
    from list_all2_mem[OF all r(1)] obtain pl where pl: "pl \<in> set (experiment_plan (ee_rnd env) n)" "?R pl r" by blast
    from run_planned_row[OF pl(2)] obtain wl where "build_workload env requests (pl_seed pl) (pl_spec pl) = Inr wl"
      "pl_experiment pl = ''E1_size_sweep''" "br_workload (er_row r) = wl_name wl" using r(2) by auto
    with plan_e1_spec[OF pl(1)] show ?thesis using zipf_name by metis
  qed
  ultimately show ?thesis using group_of_single[of rows "''E1_size_sweep''" _ m p] rs by blast
qed

lemma seeds_in_order:
  assumes "list_all2 (\<lambda>s r. er_seed r = s) [1..<n + 1] rs"
  shows "length rs = n" "seed_keys rs = [1..<n + 1]"
    and "seed_values f rs s = (if 1 \<le> s \<and> s \<le> n then Some (f (er_row (rs ! (s - 1)))) else None)"
proof -
  show len: "length rs = n" using assms by (simp add: list_all2_conv_all_nth del: upt_Suc)
  have seeds: "map er_seed rs = [1..<n + 1]"
    using assms by (intro nth_equalityI) (auto simp: list_all2_conv_all_nth simp del: upt_Suc)
  have d: "distinct (map er_seed rs)" by (simp add: seeds del: upt_Suc)
  have "remdups (rev (map er_seed rs)) = rev (map er_seed rs)" by (rule distinct_remdups_id) (simp only: distinct_rev d)
  then show "seed_keys rs = [1..<n + 1]" unfolding seed_keys_def by (simp only: rev_rev_ident seeds)
  let ?xs = "map (\<lambda>r. (er_seed r, f (er_row r))) rs"
  have fsts: "map fst ?xs = map er_seed rs" by (simp add: comp_def)
  have dx: "distinct (map fst (rev ?xs))" using d by (simp only: rev_map[symmetric] fsts distinct_rev)
  show "seed_values f rs s = (if 1 \<le> s \<and> s \<le> n then Some (f (er_row (rs ! (s - 1)))) else None)"
  proof (cases "1 \<le> s \<and> s \<le> n")
    case True
    then have i: "s - 1 < length rs" unfolding len by (cases s) auto
    then have "er_seed (rs ! (s - 1)) = [1..<n + 1] ! (s - 1)" by (metis nth_map seeds)
    with True have "(s, f (er_row (rs ! (s - 1)))) = ?xs ! (s - 1)" using i by (simp del: upt_Suc)
    with i have "(s, f (er_row (rs ! (s - 1)))) \<in> set (rev ?xs)" by (metis length_map nth_mem set_rev)
    from map_of_is_SomeI[OF dx this] True show ?thesis by (simp add: seed_values_def)
  next
    case False
    then have "s \<notin> set (map er_seed rs)" unfolding seeds by auto
    then have "map_of (rev ?xs) s = None" by (auto simp: map_of_eq_None_iff)
    with False show ?thesis by (auto simp: seed_values_def)
  qed
qed

lemma paired_in_order:
  assumes "list_all2 (\<lambda>s r. er_seed r = s) [1..<n + 1] rs_g" "list_all2 (\<lambda>s r. er_seed r = s) [1..<n + 1] rs_b"
  shows "paired_diffs rnd f rs_g rs_b = map (\<lambda>i. rnd (f (er_row (rs_g ! i)) - f (er_row (rs_b ! i)))) [0..<n]"
proof -
  have "filter (\<lambda>s. seed_values f rs_b s \<noteq> None) (sort (seed_keys rs_g)) = [1..<n + 1]"
    unfolding seeds_in_order(2)[OF assms(1)] seeds_in_order(3)[OF assms(2)] by (simp add: filter_id_conv sorted_sort_id del: upt_Suc)
  moreover have "[1..<n + 1] = map Suc [0..<n]" by (simp add: map_Suc_upt del: upt_Suc)
  ultimately show ?thesis
    by (auto simp: paired_diffs_def seeds_in_order(3)[OF assms(1)] seeds_in_order(3)[OF assms(2)] or_zero_def comp_def simp del: upt_Suc)
qed

section \<open>Properties\<close>

text \<open>What is used of numpy: means and percentiles of numbers with one sign have it, and samples are drawn from the numbers.\<close>

definition sign_preserving :: "(real list \<Rightarrow> real) \<Rightarrow> bool" where
  "sign_preserving f \<longleftrightarrow> (\<forall>xs. xs \<noteq> [] \<longrightarrow>
     ((\<forall>x \<in> set xs. 0 < x) \<longrightarrow> 0 < f xs) \<and> ((\<forall>x \<in> set xs. x \<le> 0) \<longrightarrow> f xs \<le> 0) \<and>
     ((\<forall>x \<in> set xs. x < 0) \<longrightarrow> f xs < 0) \<and> ((\<forall>x \<in> set xs. 0 \<le> x) \<longrightarrow> 0 \<le> f xs))"

definition numpy_signs :: "'c exp_env \<Rightarrow> bool" where
  "numpy_signs env \<longleftrightarrow> sign_preserving (ee_mean env) \<and> (\<forall>q. sign_preserving (\<lambda>xs. ee_percentile env xs q)) \<and>
     (\<forall>k xs. 0 < k \<longrightarrow> xs \<noteq> [] \<longrightarrow> ee_choice env k xs \<noteq> [] \<and> (\<forall>ys \<in> set (ee_choice env k xs). ys \<noteq> [] \<and> set ys \<subseteq> set xs))"

lemma bootstrap_sign:
  assumes "numpy_signs env" "xs \<noteq> []"
  shows "(\<forall>x \<in> set xs. 0 < x) \<Longrightarrow> 0 < fst (bootstrap_ci env xs)" "(\<forall>x \<in> set xs. x \<le> 0) \<Longrightarrow> fst (bootstrap_ci env xs) \<le> 0"
    and "(\<forall>x \<in> set xs. x < 0) \<Longrightarrow> snd (bootstrap_ci env xs) < 0" "(\<forall>x \<in> set xs. 0 \<le> x) \<Longrightarrow> 0 \<le> snd (bootstrap_ci env xs)"
proof -
  let ?ys = "map (ee_mean env) (ee_choice env 10000 xs)"
  have "ee_choice env k xs \<noteq> [] \<and> (\<forall>ys \<in> set (ee_choice env k xs). ys \<noteq> [] \<and> set ys \<subseteq> set xs)" if "0 < k" for k
    using assms that unfolding numpy_signs_def by blast
  from this[of 10000] have samples: "?ys \<noteq> []" "\<forall>ys \<in> set (ee_choice env 10000 xs). ys \<noteq> [] \<and> set ys \<subseteq> set xs"
    by simp_all
  have step: "P (agg ?ys)"
    if "\<And>zs. zs \<noteq> [] \<Longrightarrow> \<forall>z \<in> set zs. P z \<Longrightarrow> P (ee_mean env zs)" "\<And>zs. zs \<noteq> [] \<Longrightarrow> \<forall>z \<in> set zs. P z \<Longrightarrow> P (agg zs)"
      "\<forall>x \<in> set xs. P x" for P agg
  proof (rule that(2)[OF samples(1)], rule ballI)
    fix y
    assume "y \<in> set ?ys"
    then obtain ys where ys: "ys \<in> set (ee_choice env 10000 xs)" "y = ee_mean env ys" by auto
    with samples(2) have "ys \<noteq> []" "set ys \<subseteq> set xs" by blast+
    with that(1,3) show "P y" unfolding ys(2) by blast
  qed
  have mean: "sign_preserving (ee_mean env)" and pct: "sign_preserving (\<lambda>zs. ee_percentile env zs q)" for q
    using assms(1) by (simp_all add: numpy_signs_def)
  note signs = mean[unfolded sign_preserving_def] pct[unfolded sign_preserving_def]
  show "(\<forall>x \<in> set xs. 0 < x) \<Longrightarrow> 0 < fst (bootstrap_ci env xs)"
    unfolding bootstrap_ci_def Let_def fst_conv by (rule step[where P = "\<lambda>x. 0 < x"]) (use signs in blast)+
  show "(\<forall>x \<in> set xs. x \<le> 0) \<Longrightarrow> fst (bootstrap_ci env xs) \<le> 0"
    unfolding bootstrap_ci_def Let_def fst_conv by (rule step[where P = "\<lambda>x. x \<le> 0"]) (use signs in blast)+
  show "(\<forall>x \<in> set xs. x < 0) \<Longrightarrow> snd (bootstrap_ci env xs) < 0"
    unfolding bootstrap_ci_def Let_def snd_conv by (rule step[where P = "\<lambda>x. x < 0"]) (use signs in blast)+
  show "(\<forall>x \<in> set xs. 0 \<le> x) \<Longrightarrow> 0 \<le> snd (bootstrap_ci env xs)"
    unfolding bootstrap_ci_def Let_def snd_conv by (rule step[where P = "\<lambda>x. 0 \<le> x"]) (use signs in blast)+
qed

text \<open>What GDSF gains over a baseline, in the direction that is better.\<close>

definition gain :: "(real \<Rightarrow> real) \<Rightarrow> (bench_row \<Rightarrow> real) \<Rightarrow> string \<Rightarrow> exp_row \<Rightarrow> exp_row \<Rightarrow> real" where
  "gain rnd f better g b = (let d = rnd (f (er_row g) - f (er_row b)) in if better = ''higher'' then d else - d)"

lemma compared_directions: "(name, f, better) \<in> set compared_metrics \<Longrightarrow> better = ''higher'' \<or> better = ''lower''"
  by (auto simp: compared_metrics_def)

text \<open>
  C6. The reported comparisons are sound. When the suite has run, the main experiment compares GDSF with each baseline, for
  each metric and each of the sizes 500, 1000 and 2000, over one pair of runs for every seed, both on the workload of this seed. If GDSF was
  better on every seed, the difference is reported as significant; if it was better on none, it is not.
\<close>

theorem comparisons_sound:
  assumes "run_all env requests (experiment_plan (ee_rnd env) n) = Some (Inr rows)" "1 \<le> n" "numpy_signs env"
    and "baseline \<in> {''LRU'', ''LFU''}" "maxsize \<in> {500, 1000, 2000}" "(metric, f, better) \<in> set compared_metrics"
  shows "\<exists>entry rs_g rs_b. entry \<in> set (significance env rows ''E1_size_sweep'') \<and>
    sg_name entry = ''GDSF_vs_'' @ baseline @ ''|'' @ metric @ ''|maxsize='' @ py_str_int maxsize \<and>
    sg_n_seeds entry = n \<and> length rs_g = n \<and> length rs_b = n \<and>
    (\<forall>i < n. \<exists>wl w w'. build_workload env requests (i + 1) (ZipfSpec (ee_rnd env (11 / 10)) False) = Inr wl \<and>
       run_config env w ''GDSF'' maxsize wl None = Some (Inr (er_row (rs_g ! i))) \<and>
       run_config env w' baseline maxsize wl None = Some (Inr (er_row (rs_b ! i)))) \<and>
    ((\<forall>i < n. 0 < gain (ee_rnd env) f better (rs_g ! i) (rs_b ! i)) \<longrightarrow> sg_significant entry) \<and>
    ((\<forall>i < n. gain (ee_rnd env) f better (rs_g ! i) (rs_b ! i) \<le> 0) \<longrightarrow> \<not> sg_significant entry)"
proof -
  have m: "maxsize \<in> {250, 500, 1000, 2000, 4000}" and b: "baseline \<in> {''LRU'', ''LFU'', ''FIFO'', ''RR'', ''GDSF''}"
    using assms(4,5) by auto
  let ?pl = "\<lambda>p s. \<lparr>pl_experiment = ''E1_size_sweep'', pl_seed = s, pl_spec = ZipfSpec (ee_rnd env (11 / 10)) False,
      pl_maxsize = maxsize, pl_policy = p, pl_ablation = False\<rparr>"
  from e1_rows[OF assms(1) m, of "''GDSF''"] assms(2) obtain rs_g where
    g: "group_of (group_rows rows ''E1_size_sweep'') maxsize ''GDSF'' = Some rs_g"
      "list_all2 (\<lambda>s r. run_planned env requests (?pl ''GDSF'' s) = Some (Inr r)) [1..<n + 1] rs_g" by auto
  from e1_rows[OF assms(1) m b assms(2)] obtain rs_b where
    b: "group_of (group_rows rows ''E1_size_sweep'') maxsize baseline = Some rs_b"
      "list_all2 (\<lambda>s r. run_planned env requests (?pl baseline s) = Some (Inr r)) [1..<n + 1] rs_b" by blast
  have seed: "list_all2 (\<lambda>s r. er_seed r = s) [1..<n + 1] rs"
    if "list_all2 (\<lambda>s r. run_planned env requests (?pl p s) = Some (Inr r)) [1..<n + 1] rs" for p rs
    using that by (rule list_all2_mono) (auto dest: run_planned_row)
  note order = seed[OF g(2)] seed[OF b(2)]
  let ?ds = "map (\<lambda>i. ee_rnd env (f (er_row (rs_g ! i)) - f (er_row (rs_b ! i)))) [0..<n]"
  have ds: "paired_diffs (ee_rnd env) f rs_g rs_b = ?ds" "?ds \<noteq> []" using paired_in_order[OF order] assms(2) by simp_all
  from b(1) g(1) obtain entry where entry: "entry \<in> set (compare_with env (group_rows rows ''E1_size_sweep'') baseline (metric, f, better) maxsize)"
    "sg_name entry = ''GDSF_vs_'' @ baseline @ ''|'' @ metric @ ''|maxsize='' @ py_str_int maxsize" "sg_n_seeds entry = n"
    "sg_significant entry = (if better = ''higher'' then fst (bootstrap_ci env ?ds) > 0 else snd (bootstrap_ci env ?ds) < 0)"
    by (simp add: compare_with_def ds(1) Let_def split_def)
  have "entry \<in> set (significance env rows ''E1_size_sweep'')"
    using entry(1) assms(4,5,6) unfolding significance_def Let_def by auto
  moreover have "\<exists>wl w w'. build_workload env requests (i + 1) (ZipfSpec (ee_rnd env (11 / 10)) False) = Inr wl \<and>
       run_config env w ''GDSF'' maxsize wl None = Some (Inr (er_row (rs_g ! i))) \<and>
       run_config env w' baseline maxsize wl None = Some (Inr (er_row (rs_b ! i)))" if "i < n" for i
  proof -
    have "run_planned env requests (?pl ''GDSF'' (i + 1)) = Some (Inr (rs_g ! i))"
      "run_planned env requests (?pl baseline (i + 1)) = Some (Inr (rs_b ! i))"
      using g(2) b(2) that by (simp_all add: list_all2_conv_all_nth del: upt_Suc)
    from this[THEN run_planned_row] show ?thesis by auto
  qed
  moreover have "sg_significant entry" if "\<forall>i < n. 0 < gain (ee_rnd env) f better (rs_g ! i) (rs_b ! i)"
    using that bootstrap_sign(1,3)[OF assms(3) ds(2)] by (auto simp: entry(4) gain_def Let_def split: if_splits)
  moreover have "\<not> sg_significant entry" if "\<forall>i < n. gain (ee_rnd env) f better (rs_g ! i) (rs_b ! i) \<le> 0"
    using that bootstrap_sign(2,4)[OF assms(3) ds(2)] by (fastforce simp: entry(4) gain_def Let_def split: if_splits)
  ultimately show ?thesis using entry(2,3) seeds_in_order(1)[OF order(1)] seeds_in_order(1)[OF order(2)] by blast
qed

section \<open>A suite that runs\<close>

text \<open>A cache that stores nothing, and draws without randomness: every run returns a row.\<close>

definition void_methods :: "(nat, unit, nat set) cache_methods" where
  "void_methods = \<lparr>m_popitem = (\<lambda>c. (Inl KeyError, c)), m_setitem = (\<lambda>hook k v s. Some (Inr (), s)), m_getitem = (\<lambda>k c. (Inl KeyError, c))\<rparr>"

definition void_factory :: "int \<Rightarrow> int \<Rightarrow> (nat, nat set) on_evict \<Rightarrow> (nat, unit, nat set) mem_eviction" where
  "void_factory maxsize clean_size on_evict =
     \<lparr>me_policy = ''LRU'', me_cache = (), me_methods = void_methods, me_clean = clean_size, me_on_evict = on_evict\<rparr>"

definition void_env :: "unit exp_env" where
  "void_env = \<lparr>ee_rnd = (\<lambda>x. x), ee_pow = (\<lambda>x y. 1), ee_str = (\<lambda>x. []), ee_rng = (\<lambda>s. dull_rng), ee_rng2 = (\<lambda>s. dull_rng),
     ee_file_costs = [5], ee_mean = (\<lambda>xs. hd xs), ee_std = (\<lambda>xs. 0), ee_percentile = (\<lambda>xs q. hd xs), ee_wall = (\<lambda>pl. 1),
     ee_new_cache = (\<lambda>kind n. ((), void_methods)), ee_cost_only = void_factory, ee_no_age = void_factory, ee_choice = (\<lambda>k xs. [xs])\<rparr>"

definition dear :: "workload \<Rightarrow> bool" where
  "dear wl \<longleftrightarrow> wl_requests wl \<noteq> [] \<and> (\<forall>x \<in> set (wl_requests wl). 0 < snd x)"

lemma void_loop:
  assumes "me_methods (bs_cache st) = void_methods"
  shows "\<exists>st'. bench_loop (\<lambda>x. x) lm xs st = Some (Inr st') \<and> bs_total st' = bs_total st + sum_list (map snd xs)"
  using assms
proof (induction xs arbitrary: st)
  case (Cons x xs)
  obtain pid c where x: "x = (pid, c)" by (cases x)
  have "\<exists>st1. bench_step (\<lambda>x. x) lm x st = Some (Inr st1) \<and> me_methods (bs_cache st1) = void_methods \<and> bs_total st1 = bs_total st + c"
  proof (cases "pid \<in> bs_in_cache st")
    case True
    then show ?thesis using Cons.prems
      by (simp add: x bench_step_def Let_def mem_get_def mapping_get_def void_methods_def)
  next
    case False
    then show ?thesis using Cons.prems
      by (simp add: x bench_step_def Let_def mem_put_def cost_value_def py_nth_def mem_set_def void_methods_def)
  qed
  then obtain st1 where st1: "bench_step (\<lambda>x. x) lm x st = Some (Inr st1)" "me_methods (bs_cache st1) = void_methods"
    "bs_total st1 = bs_total st + c" by blast
  from Cons.IH[OF st1(2)] st1(1,3) show ?case by (auto simp: x)
qed simp

lemma snd_sum_pos: "xs \<noteq> [] \<Longrightarrow> \<forall>x \<in> set xs. 0 < snd x \<Longrightarrow> 0 < sum_list (map snd (xs :: (nat \<times> real) list))"
proof (induction xs)
  case (Cons x xs)
  then show ?case by (cases "xs = []") auto
qed simp

lemma void_run:
  assumes "dear wl" "policy \<in> {''LRU'', ''LFU'', ''FIFO'', ''RR'', ''GDSF''} \<or> factory = Some void_factory" "factory \<in> {None, Some void_factory}"
  shows "\<exists>row. run_config void_env 1 policy maxsize wl factory = Some (Inr row)"
proof -
  let ?clean = "bench_clean_size (\<lambda>x. x) maxsize (1 / 5)"
  have upper: "py_upper ''LRU'' = ''LRU''" "py_upper ''LFU'' = ''LFU''" "py_upper ''FIFO'' = ''FIFO''" "py_upper ''RR'' = ''RR''"
    "py_upper ''GDSF'' = ''GDSF''" by code_simp+
  have "\<exists>cache. (case factory of Some f \<Rightarrow> Inr (f maxsize ?clean (Some bench_on_evict))
      | None \<Rightarrow> mem_init (\<lambda>kind n. ((), void_methods)) policy maxsize ?clean (Some bench_on_evict)) = Inr cache \<and> me_methods cache = void_methods"
    using assms(2,3) by (auto simp: void_factory_def mem_init_def select_policy_def upper)
  then obtain cache where cache: "(case factory of Some f \<Rightarrow> Inr (f maxsize ?clean (Some bench_on_evict))
      | None \<Rightarrow> mem_init (\<lambda>kind n. ((), void_methods)) policy maxsize ?clean (Some bench_on_evict)) = Inr cache" "me_methods cache = void_methods"
    by blast
  from void_loop[of "bench_start cache" LATENCY "wl_requests wl"] cache(2) obtain st where
    st: "bench_loop (\<lambda>x. x) LATENCY (wl_requests wl) (bench_start cache) = Some (Inr st)" "bs_total st = sum_list (map snd (wl_requests wl))"
    by (auto simp: bench_start_def)
  have "0 < sum_list (map snd (wl_requests wl))"
    using assms(1) by (intro snd_sum_pos) (simp_all add: dear_def)
  with assms(1) st(2) have "\<exists>row. bench_report (\<lambda>x. x) (\<lambda>xs. hd xs) (\<lambda>xs q. hd xs) 1 policy maxsize wl st = Inr row"
    by (simp add: bench_report_def Let_def dear_def)
  with st(1) cache(1) show ?thesis
    by (simp add: run_config_def run_one_def void_env_def Let_def)
qed

lemma dull_zipf:
  assumes "0 < n_unique" "0 < requests"
  shows "\<exists>wl. zipf_workload rnd pow str dull_rng requests n_unique s ''lognormal'' drift = Inr wl \<and> dear wl"
proof -
  let ?costs = "map (\<lambda>c. min (max c 10) 4000) (replicate n_unique (20 :: real))"
  have c0: "?costs ! 0 = 20" using assms(1) by (simp only: nth_map length_replicate nth_replicate)
  define ids where "ids = (if drift then drift_ids [0..<n_unique] requests (replicate requests 0) else replicate requests 0)"
  have zeros: "i = 0" if "i \<in> set ids" for i
    using that assms(1) by (auto simp: ids_def drift_ids_def Let_def split: if_splits dest!: in_set_takeD in_set_dropD)
  have some: "ids \<noteq> []" using assms(2) by (auto simp: ids_def drift_ids_def Let_def)
  let ?wl = "\<lparr>wl_name = ''zipf_s'' @ str s @ (if drift then ''_drift'' else []), wl_requests = with_costs ?costs ids, wl_n_unique = n_unique\<rparr>"
  have "zipf_workload rnd pow str dull_rng requests n_unique s ''lognormal'' drift = Inr ?wl"
    by (simp add: zipf_workload_def make_costs_def dull_rng_def Let_def ids_def del: map_replicate)
  moreover have "0 < ?costs ! i" if "i \<in> set ids" for i
  proof -
    have "i = 0" by (rule zeros[OF that])
    then show ?thesis using c0 by (simp del: map_replicate)
  qed
  then have "dear ?wl" using some by (simp add: dear_def with_costs_def del: map_replicate)
  ultimately show ?thesis by blast
qed

lemma dull_novel: "0 < n \<Longrightarrow> \<exists>wl. novel_long_workload dull_rng n = Inr wl \<and> dear wl"
  by (auto simp: novel_long_workload_def make_costs_def dull_rng_def dear_def with_costs_def)

lemma dull_repetitive: "0 < n_unique \<Longrightarrow> 0 < requests \<Longrightarrow> \<exists>wl. repetitive_short_workload dull_rng requests n_unique = Inr wl \<and> dear wl"
  by (auto simp: repetitive_short_workload_def make_costs_def dull_rng_def dear_def with_costs_def Let_def)

lemma dull_oasst: "0 < requests \<Longrightarrow> dear (oasst_workload rnd pow str dull_rng dull_rng [5] requests s False)"
  by (simp add: oasst_workload_def dull_rng_def dear_def with_costs_def Let_def)

lemma void_build:
  assumes "0 < requests"
  shows "\<exists>wl. build_workload void_env requests seed spec = Inr wl \<and> dear wl"
proof (cases spec)
  case (ZipfSpec s drift)
  have "(0 :: nat) < 5000" by simp
  from dull_zipf[OF this assms] show ?thesis by (simp add: ZipfSpec build_workload_def void_env_def)
next
  case (OasstSpec s)
  with dull_oasst[OF assms] show ?thesis by (simp add: build_workload_def void_env_def)
next
  case NovelSpec
  have "(0 :: nat) < 20000" by simp
  from dull_novel[OF this] NovelSpec show ?thesis by (simp add: build_workload_def void_env_def)
next
  case RepetitiveSpec
  have "(0 :: nat) < 50" by simp
  from dull_repetitive[OF this assms] RepetitiveSpec show ?thesis by (simp add: build_workload_def void_env_def)
qed

lemma plan_policies:
  assumes "pl \<in> set (experiment_plan rnd n)"
  shows "pl_policy pl \<in> {''LRU'', ''LFU'', ''FIFO'', ''RR'', ''GDSF''} \<or> pl_ablation pl \<and> pl_policy pl \<in> {''COST_ONLY'', ''GDSF_NO_AGE''}"
    (is "?Q pl")
proof -
  have plain: "?Q pl" if "pl \<in> set (loops name False seeds specs sizes policies)" "set policies \<subseteq> {''LRU'', ''LFU'', ''FIFO'', ''RR'', ''GDSF''}"
    for name seeds specs sizes policies
  proof -
    from that(1) have "pl_policy pl \<in> set policies" by (auto simp: loops_def)
    with that(2) show ?thesis by blast
  qed
  have ablation: "?Q pl" if "pl \<in> set (loops name True seeds specs sizes [''LRU'', ''LFU'', ''COST_ONLY'', ''GDSF_NO_AGE'', ''GDSF''])"
    for name seeds specs sizes
  proof -
    from that have "pl_policy pl \<in> set [''LRU'', ''LFU'', ''COST_ONLY'', ''GDSF_NO_AGE'', ''GDSF'']" "pl_ablation pl" unfolding loops_def by fastforce+
    then show ?thesis unfolding set_simps by blast
  qed
  note in_plan = assms[unfolded experiment_plan_def Let_def set_append Un_iff]
  then show ?thesis by (elim disjE) ((erule plain, simp) | erule ablation)+
qed

lemma void_planned:
  assumes "0 < requests" "pl \<in> set (experiment_plan rnd n)"
  shows "\<exists>r. run_planned void_env requests pl = Some (Inr r)"
proof -
  define f where "f = (if pl_ablation pl then (case map_of (ABLATION_POLICIES void_env) (pl_policy pl) of None \<Rightarrow> None | Some f \<Rightarrow> f) else None)"
  have f: "f \<in> {None, Some void_factory} \<and> (pl_policy pl \<in> {''LRU'', ''LFU'', ''FIFO'', ''RR'', ''GDSF''} \<or> f = Some void_factory)"
    using plan_policies[OF assms(2)] by (auto simp: f_def ABLATION_POLICIES_def void_env_def)
  obtain wl where wl: "build_workload void_env requests (pl_seed pl) (pl_spec pl) = Inr wl" "dear wl"
    using void_build[OF assms(1)] by blast
  from void_run[OF wl(2)] f obtain row where "run_config void_env 1 (pl_policy pl) (pl_maxsize pl) wl f = Some (Inr row)" by blast
  moreover have "ee_wall void_env pl = 1" by (simp add: void_env_def)
  ultimately show ?thesis using wl(1) by (simp add: run_planned_def f_def)
qed

lemma run_all_total:
  "(\<And>pl. pl \<in> set pls \<Longrightarrow> \<exists>r. run_planned env requests pl = Some (Inr r)) \<Longrightarrow> \<exists>rows. run_all env requests pls = Some (Inr rows)"
proof (induction pls)
  case (Cons pl pls)
  then obtain r rows where "run_planned env requests pl = Some (Inr r)" "run_all env requests pls = Some (Inr rows)" by fastforce
  then show ?case by simp
qed simp

lemma void_suite: "\<exists>rows. run_all void_env 2 (experiment_plan (ee_rnd void_env) n) = Some (Inr rows)"
  by (rule run_all_total) (rule void_planned, simp_all)

theorem comparisons_sound_witness:
  "\<exists>rows entry. run_all void_env 2 (experiment_plan (ee_rnd void_env) 1) = Some (Inr rows) \<and>
     entry \<in> set (significance void_env rows ''E1_size_sweep'') \<and> sg_n_seeds entry = 1"
proof -
  obtain rows where rows: "run_all void_env 2 (experiment_plan (ee_rnd void_env) 1) = Some (Inr rows)" using void_suite by blast
  have "sign_preserving (\<lambda>xs. hd xs)" by (simp add: sign_preserving_def)
  then have signs: "numpy_signs void_env" by (simp add: numpy_signs_def void_env_def)
  have metric: "(''latency_mean_ms'', br_latency_mean_ms, ''lower'') \<in> set compared_metrics" by (simp add: compared_metrics_def)
  from comparisons_sound[OF rows _ signs _ _ metric, of "''LRU''" 500] rows show ?thesis by auto
qed

end
