(* ===== verification/Spec2Isabelle.thy ===== *)
theory Spec2Isabelle
  imports Sync Requests Map_Manager Ablation Pre Evaluation Mongo_Storage Redis_Storage Dynamo_Storage Vector_Stores Context Objects
    Embedding Experiments
begin

text \<open>
  A model of GPTCache with the eviction policy GDSF, and of the benchmarks that compare the policy. GPTCache keeps the answers of
  language models: a request is turned into a text (preprocessing) and an embedding, the vector store finds stored questions
  nearby, the scalar storage gives their answers, an evaluation ranks them, a post-processing function chooses one, and
  when none is good enough the model is called and its answer saved. An eviction cache decides which entries stay.

  \<^bold>\<open>How the program is translated.\<close> Functions and methods are functions, with the object's fields as a record that is returned
  updated. An exception is a value of \<open>pyexc\<close>; an \<open>outcome\<close> holds the exception or the result, and the state reached, since effects
  made before a raise stay. A call that may not return has type \<open>option\<close>, with \<open>None\<close> for not returning: no fuel is used anywhere.
  Python integers are \<open>int\<close> or \<open>nat\<close>, floats are reals with a rounding function \<open>rnd\<close> after each operation where rounding can
  change a decision (eviction, counters, thresholds), and exact reals in the distances of evaluations, in embeddings and in the
  weights of softmax, where underflow is not seen either; NaN and infinities are not modelled. Values that a request or a response holds are \<open>pyobj\<close>.

  Code that is not in the repository is a parameter: the classes of cachetools, SQLAlchemy tables, the clients of MongoEngine,
  redis-om, boto3, faiss and the other vector libraries, numpy's random generator, the language models, JSON and the
  clock. What the code relies on is stated as a predicate about the parameter, named after it: \<open>super_contract\<close>, \<open>setitem_contract\<close>,
  \<open>db_contract\<close>, \<open>mongo_contract\<close>, \<open>om_contract\<close>, \<open>float_rounding\<close>, \<open>numpy_signs\<close> and others.

  \<^bold>\<open>The theories.\<close>
  \<^item> \<open>Prelude\<close>, \<open>Py_Object\<close>: exceptions, outcomes, loops, rounding; Python values, their text, splitting and joining.
  \<^item> \<open>Heapq\<close>, \<open>Cache_Lib\<close>: the interface of heapq (locale \<open>min_heap\<close>); the contract of \<open>cachetools.Cache\<close>, the course of
    its \<open>__setitem__\<close> as a step relation, and the interface of an eviction policy (locale \<open>cache_policy\<close>).
  \<^item> \<open>Gdsf\<close> (\<open>gptcache/manager/eviction/gdsf.py\<close>): the class, its invariant \<open>gdsf_inv\<close>, and that it is a policy.
  \<^item> \<open>Eviction\<close> (\<open>eviction/memory_cache.py\<close>, \<open>manager.py\<close>, \<open>distributed_cache.py\<close>): the wrapped \<open>popitem\<close>, \<open>put\<close>, \<open>get\<close>.
  \<^item> \<open>Scalar_Data\<close>, \<open>Sql_Storage\<close>, \<open>Mongo_Storage\<close>, \<open>Redis_Storage\<close>, \<open>Dynamo_Storage\<close> (\<open>manager/scalar_data/\<close>,
    \<open>eviction/redis_eviction.py\<close>): the data classes, the interface (locale \<open>scalar_store\<close>), and the four storages. Sql and Mongo
    storages are shown to refine a map from ids to entries with a deleted mark.
  \<^item> \<open>Vector_Data\<close>, \<open>Vector_Clients\<close>, \<open>Vector_Stores\<close> (\<open>manager/vector_data/\<close>): the interface (locale \<open>vector_store\<close>), Faiss and the
    nine other stores.
  \<^item> \<open>Objects\<close> (\<open>manager/object_data/\<close>): the object storages and their interface (locale \<open>object_store\<close>), with the way of an
    answer through the data manager into a store and back.
  \<^item> \<open>Eviction_Manager\<close>, \<open>Data_Manager\<close>, \<open>Sync\<close> (\<open>manager/eviction_manager.py\<close>, \<open>manager/data_manager.py\<close>): eviction in two steps,
    \<open>SSDataManager\<close>, and the locale \<open>synced_cache\<close>, which keeps eviction cache, scalar storage and vector store in step through any
    number of evictions.
  \<^item> \<open>Map_Manager\<close>: \<open>MapDataManager\<close>, over an explicit store of the session sets that tuples share.
  \<^item> \<open>Factories\<close> (\<open>manager/factory.py\<close> and the three \<open>manager.py\<close>): which constructor is called with what.
  \<^item> \<open>Report\<close>, \<open>Pre\<close>, \<open>Post\<close>, \<open>Evaluation\<close>, \<open>Context\<close>, \<open>Embedding\<close> (\<open>report.py\<close>, \<open>config.py\<close>, \<open>utils/time.py\<close>, \<open>processor/\<close>,
    \<open>similarity_evaluation/\<close>, \<open>embedding/\<close>): the parts that a cache is put together from.
  \<^item> \<open>Adapter\<close>, \<open>Requests\<close>, \<open>Compose\<close>, \<open>Replay\<close> (\<open>adapter/adapter.py\<close>, \<open>core.py\<close>): \<open>adapt\<close> and \<open>aadapt\<close> step by step with a trace of
    the calls of the model; properties of a request; the default cache put together; the contract \<open>answer_codec\<close> between
    what an adapter stores and what it replays.
  \<^item> \<open>Openai\<close>, \<open>Llm_Adapters\<close> (\<open>adapter/openai.py\<close> and the other adapters, \<open>utils/response.py\<close>, \<open>token.py\<close>, \<open>error.py\<close>): the callbacks, the
    streams and the requests.
  \<^item> \<open>Api\<close>, \<open>Api_Config\<close> (\<open>adapter/api.py\<close>, \<open>session.py\<close>, \<open>client.py\<close>, \<open>gptcache_server/server.py\<close>): put and get, sessions, the server with its
    client, and setting up a cache from a configuration.
  \<^item> \<open>Bench\<close>, \<open>Ablation\<close>, \<open>Experiments\<close> (\<open>benchmarks/\<close>): the replay of a workload, the ablation variants, and the suite of
    experiments with its statistics.

  \<^bold>\<open>What is shown.\<close> The two main invariants are those of GDSF (what \<open>popitem\<close> evicts has the least priority \<open>L + freq * cost / size\<close>,
  and nothing is lost from its three dictionaries) and of the data manager: after a restart, after saving and after hits the eviction
  cache holds exactly the served ids, each with a vector, and no more than its bound. Above them: a lookup answers with the best
  result of its search above the threshold; the model is called at most once; a question that was answered once is served from the cache, also
  through server and client; what an adapter stores is what it replays, streams included; storages refine a map, with a table of
  sessions beside it; summarizing
  ends when every round makes progress; the benchmark's counts are those of what has happened to the cache; the experiments compare
  runs on the same workload. The properties about errors say what
  the code does where it does not do what it means to; each is listed among the findings of the manifest.

  \<^bold>\<open>Not modelled.\<close> Importing and installing packages and logging (\<open>utils/__init__.py\<close>, \<open>lazy_import.py\<close>,
  \<open>dependency_control.py\<close>, \<open>log.py\<close>): effects on the interpreter. Connections, table creation, loading of models, flushing and
  closing, HTTP and the command line: I/O without logic of the cache. Figures and the report (\<open>benchmarks/make_plots.py\<close>,
  \<open>report/generate_report.py\<close>), examples, notebooks, tests and packaging. Contents of answers are texts or bytes:
  an answer \<open>None\<close>, and so an object that has vanished from its store, is outside the model of the data manager. Documents whose time to live runs out, pages
  of a DynamoDB query after the first, and options of \<open>adapt\<close> that are given through \<open>cache_args\<close> are outside it too. Threads are not
  modelled: the cache has no locks, and each request is run by itself.
\<close>

end
